(* ===== verification/Prelude.thy ===== *)
theory Prelude
  imports Main "HOL-Library.Code_Target_Numeral"
begin

text \<open>
  Shared vocabulary of the development: JavaScript strings as lists of UTF-16 code units,
  the methods of \<open>String.prototype\<close> and \<open>Array.prototype\<close> the sources use, decimal printing
  of naturals, and the generic lemmas and fact collections the component theories rest on.
\<close>

named_theorems js_str \<open>evaluation of the string operations\<close>
named_theorems js_len \<open>lengths of the results of string operations\<close>

section \<open>Strings\<close>

text \<open>
  A JavaScript string is a sequence of UTF-16 code units, so its length counts code units and
  a character outside the basic plane is two of them. Code units are naturals below \<open>65536\<close>;
  \<open>js\<close> reads an ASCII literal.
\<close>

type_synonym code_unit = nat
type_synonym jsstr = "code_unit list"

definition js :: "string \<Rightarrow> jsstr" where
  "js s = map of_char s"

lemma js_Nil [simp]: "js [] = []"
  by (simp add: js_def)

lemma js_Cons: "js (c # s) = of_char c # js s"
  by (simp add: js_def)

lemma js_append: "js (s @ t) = js s @ js t"
  by (simp add: js_def)

lemma length_js [simp]: "length (js s) = length s"
  by (simp add: js_def)

lemma inj_of_char_nat: "inj (of_char :: char \<Rightarrow> nat)"
  by (rule inj_of_char)

lemma js_inject [simp]: "js s = js t \<longleftrightarrow> s = t"
  unfolding js_def by (rule inj_map_eq_map [OF inj_of_char_nat])

lemma js_eq_Nil [simp]: "js s = [] \<longleftrightarrow> s = []" "[] = js s \<longleftrightarrow> s = []"
  by (auto simp: js_def)

lemma js_below: "c \<in> set (js s) \<Longrightarrow> c < 256"
  by (auto simp: js_def)

section \<open>Character classes and case\<close>

definition is_digit :: "code_unit \<Rightarrow> bool" where
  "is_digit c \<longleftrightarrow> 48 \<le> c \<and> c \<le> 57"

definition is_upper :: "code_unit \<Rightarrow> bool" where
  "is_upper c \<longleftrightarrow> 65 \<le> c \<and> c \<le> 90"

definition is_lower :: "code_unit \<Rightarrow> bool" where
  "is_lower c \<longleftrightarrow> 97 \<le> c \<and> c \<le> 122"

definition is_alpha :: "code_unit \<Rightarrow> bool" where
  "is_alpha c \<longleftrightarrow> is_upper c \<or> is_lower c"

definition is_alnum :: "code_unit \<Rightarrow> bool" where
  "is_alnum c \<longleftrightarrow> is_alpha c \<or> is_digit c"

text \<open>White space and line terminators, as \<open>trim\<close> and the class \<open>\s\<close> read them.\<close>

definition is_space :: "code_unit \<Rightarrow> bool" where
  "is_space c \<longleftrightarrow> (9 \<le> c \<and> c \<le> 13) \<or> c = 32 \<or> c = 160 \<or> c = 5760 \<or> (8192 \<le> c \<and> c \<le> 8202)
     \<or> c = 8232 \<or> c = 8233 \<or> c = 8239 \<or> c = 8287 \<or> c = 12288 \<or> c = 65279"

definition is_newline :: "code_unit \<Rightarrow> bool" where
  "is_newline c \<longleftrightarrow> c = 10 \<or> c = 13 \<or> c = 8232 \<or> c = 8233"

text \<open>
  Case mapping is written out for the Latin-1 range (with \<open>\<szlig>\<close>-like exceptions that leave the
  range as Unicode prescribes); code units above it are mapped to themselves.
\<close>

definition upper_unit :: "code_unit \<Rightarrow> jsstr" where
  "upper_unit c =
     (if is_lower c then [c - 32]
      else if c = 223 then [83, 83]
      else if c = 181 then [924]
      else if c = 255 then [376]
      else if 224 \<le> c \<and> c \<le> 254 \<and> c \<noteq> 247 then [c - 32]
      else [c])"

definition lower_unit :: "code_unit \<Rightarrow> code_unit" where
  "lower_unit c =
     (if is_upper c then c + 32
      else if 192 \<le> c \<and> c \<le> 222 \<and> c \<noteq> 215 then c + 32
      else c)"

definition to_upper :: "jsstr \<Rightarrow> jsstr" where
  "to_upper s = concat (map upper_unit s)"

definition to_lower :: "jsstr \<Rightarrow> jsstr" where
  "to_lower s = map lower_unit s"

lemma to_upper_Nil [simp]: "to_upper [] = []"
  by (simp add: to_upper_def)

lemma to_lower_Nil [simp]: "to_lower [] = []"
  by (simp add: to_lower_def)

lemma to_upper_Cons: "to_upper (c # s) = upper_unit c @ to_upper s"
  by (simp add: to_upper_def)

lemma to_lower_Cons: "to_lower (c # s) = lower_unit c # to_lower s"
  by (simp add: to_lower_def)

lemma is_alnum_upper_unit: "is_alnum c \<Longrightarrow> upper_unit c = [if is_lower c then c - 32 else c]"
  by (auto simp: is_alnum_def is_alpha_def is_upper_def is_lower_def is_digit_def upper_unit_def)

section \<open>String methods\<close>

definition trim_start :: "jsstr \<Rightarrow> jsstr" where
  "trim_start s = dropWhile is_space s"

definition trim :: "jsstr \<Rightarrow> jsstr" where
  "trim s = rev (dropWhile is_space (rev (dropWhile is_space s)))"

definition starts_with :: "jsstr \<Rightarrow> jsstr \<Rightarrow> bool" where
  "starts_with p s \<longleftrightarrow> take (length p) s = p"

text \<open>\<open>indexOf\<close>, with \<open>None\<close> for the result \<open>-1\<close>.\<close>

fun index_of :: "jsstr \<Rightarrow> jsstr \<Rightarrow> nat option" where
  "index_of p [] = (if p = [] then Some 0 else None)"
| "index_of p (c # s) =
     (if starts_with p (c # s) then Some 0 else map_option Suc (index_of p s))"

definition contains_str :: "jsstr \<Rightarrow> jsstr \<Rightarrow> bool" where
  "contains_str p s \<longleftrightarrow> index_of p s \<noteq> None"

text \<open>\<open>split\<close> on a separator of one code unit.\<close>

fun split_on :: "code_unit \<Rightarrow> jsstr \<Rightarrow> jsstr list" where
  "split_on d [] = [[]]"
| "split_on d (c # s) =
     (if c = d then [] # split_on d s
      else (case split_on d s of [] \<Rightarrow> [[c]] | w # ws \<Rightarrow> (c # w) # ws))"

fun join :: "jsstr \<Rightarrow> jsstr list \<Rightarrow> jsstr" where
  "join sep [] = []"
| "join sep [s] = s"
| "join sep (s # ss) = s @ sep @ join sep ss"

text \<open>
  \<open>replaceAll\<close> with a string as the search value: the replacement text is expanded first, where
  \<open>$$\<close>, \<open>$&\<close>, \<open>$`\<close> and \<open>$'\<close> stand for a dollar sign, the match, what precedes and what
  follows it.
\<close>

fun expand_dollar :: "jsstr \<Rightarrow> jsstr \<Rightarrow> jsstr \<Rightarrow> jsstr \<Rightarrow> jsstr" where
  "expand_dollar m pre post (d # c # t) =
     (if d = 36 \<and> c = 36 then 36 # expand_dollar m pre post t
      else if d = 36 \<and> c = 38 then m @ expand_dollar m pre post t
      else if d = 36 \<and> c = 96 then pre @ expand_dollar m pre post t
      else if d = 36 \<and> c = 39 then post @ expand_dollar m pre post t
      else d # expand_dollar m pre post (c # t))"
| "expand_dollar m pre post t = t"

function replace_all_from :: "jsstr \<Rightarrow> jsstr \<Rightarrow> jsstr \<Rightarrow> jsstr \<Rightarrow> jsstr" where
  "replace_all_from p r pre [] = []"
| "replace_all_from p r pre (c # s) =
     (if p \<noteq> [] \<and> starts_with p (c # s)
      then expand_dollar p pre (drop (length p) (c # s)) r
           @ replace_all_from p r (pre @ p) (drop (length p) (c # s))
      else c # replace_all_from p r (pre @ [c]) s)"
  by pat_completeness auto
termination
  by (relation "measure (\<lambda>(p, r, pre, s). length s)") auto

declare replace_all_from.simps(2) [simp del]

definition replace_all :: "jsstr \<Rightarrow> jsstr \<Rightarrow> jsstr \<Rightarrow> jsstr" where
  "replace_all p r s = replace_all_from p r [] s"

text \<open>Decimal digits of a natural number, as a template literal prints a small integer.\<close>

fun dec :: "nat \<Rightarrow> jsstr" where
  "dec n = (if n < 10 then [48 + n] else dec (n div 10) @ [48 + n mod 10])"

declare dec.simps [simp del]

section \<open>Lemmas on strings\<close>

lemma trim_Nil [simp]: "trim [] = []"
  by (simp add: trim_def)

lemma trim_eq_Nil_iff: "trim s = [] \<longleftrightarrow> (\<forall>c\<in>set s. is_space c)"
proof
  assume "trim s = []"
  then have all: "\<forall>c\<in>set (dropWhile is_space s). is_space c"
    by (simp add: trim_def dropWhile_eq_Nil_conv)
  then have "dropWhile is_space s = []"
    by (metis hd_dropWhile hd_in_set)
  then show "\<forall>c\<in>set s. is_space c"
    by (simp add: dropWhile_eq_Nil_conv)
next
  assume "\<forall>c\<in>set s. is_space c"
  then have "dropWhile is_space s = []"
    by (simp add: dropWhile_eq_Nil_conv)
  then show "trim s = []"
    unfolding trim_def by (simp only: rev.simps dropWhile.simps)
qed

lemma set_trim_subset: "set (trim s) \<subseteq> set s"
  unfolding trim_def by (metis set_dropWhileD set_rev subsetI)

lemma length_trim_le [js_len]: "length (trim s) \<le> length s"
proof -
  have "length (trim s) \<le> length (dropWhile is_space s)"
    unfolding trim_def by (metis length_dropWhile_le length_rev)
  then show ?thesis
    using length_dropWhile_le order_trans by blast
qed

lemma dropWhile_idem [simp]: "dropWhile P (dropWhile P xs) = dropWhile P xs"
  by (induction xs) auto

lemma dropWhile_rev_trim: "dropWhile P (rev (dropWhile P (rev (dropWhile P xs)))) = rev (dropWhile P (rev (dropWhile P xs)))"
proof (cases "dropWhile P xs")
  case Nil
  show ?thesis unfolding Nil by simp
next
  case (Cons y ys)
  then have y: "\<not> P y"
    by (metis hd_dropWhile list.distinct(1) list.sel(1))
  then have "dropWhile P (rev ys @ [y]) = dropWhile P (rev ys) @ [y]"
    by (simp add: dropWhile_append3)
  with Cons y show ?thesis by simp
qed

lemma trim_trim [simp]: "trim (trim s) = trim s"
  using dropWhile_rev_trim [of is_space s] by (simp add: trim_def)

lemma starts_with_Nil [simp]: "starts_with [] s"
  by (simp add: starts_with_def)

lemma starts_with_Cons_Nil [simp]: "\<not> starts_with (c # p) []"
  by (simp add: starts_with_def)

lemma starts_with_Cons [simp]: "starts_with (c # p) (d # s) \<longleftrightarrow> c = d \<and> starts_with p s"
  by (auto simp: starts_with_def)

lemma starts_with_append [simp]: "starts_with p (p @ s)"
  by (simp add: starts_with_def)

lemma starts_with_iff: "starts_with p s \<longleftrightarrow> (\<exists>t. s = p @ t)"
  by (metis append_take_drop_id starts_with_append starts_with_def)

lemma index_of_Some:
  "index_of p s = Some i \<Longrightarrow> s = take i s @ p @ drop (i + length p) s"
proof (induction s arbitrary: i)
  case Nil
  then show ?case by (simp split: if_splits)
next
  case (Cons c s)
  show ?case
  proof (cases "starts_with p (c # s)")
    case True
    with Cons.prems have "i = 0" by simp
    with True show ?thesis
      by (metis append_Nil append_eq_conv_conj plus_nat.add_0 starts_with_iff take0)
  next
    case False
    with Cons.prems obtain j where "index_of p s = Some j" and "i = Suc j"
      by auto
    with Cons.IH [of j] show ?thesis by simp
  qed
qed

lemma index_of_Some_le: "index_of p s = Some i \<Longrightarrow> i + length p \<le> length s"
  by (induction s arbitrary: i) (auto simp: starts_with_def split: if_splits, (metis length_take min.absorb_iff2 length_Cons)?)

lemma index_of_None_iff: "index_of p s = None \<longleftrightarrow> (\<nexists>u v. s = u @ p @ v)"
proof (induction s)
  case Nil
  then show ?case by auto
next
  case (Cons c s)
  show ?case
  proof (cases "starts_with p (c # s)")
    case True
    then have "\<exists>u v. c # s = u @ p @ v"
      by (metis append_Nil starts_with_iff)
    with True show ?thesis by simp
  next
    case False
    have "(\<exists>u v. c # s = u @ p @ v) \<longleftrightarrow> (\<exists>u v. s = u @ p @ v)"
    proof
      assume "\<exists>u v. c # s = u @ p @ v"
      then obtain u v where uv: "c # s = u @ p @ v" by blast
      with False have "u \<noteq> []"
        by (metis append_Nil starts_with_append)
      with uv show "\<exists>u v. s = u @ p @ v"
        by (metis append_eq_Cons_conv)
    next
      assume "\<exists>u v. s = u @ p @ v"
      then show "\<exists>u v. c # s = u @ p @ v"
        by (metis append_Cons)
    qed
    with False Cons.IH show ?thesis by simp
  qed
qed

lemma includes_iff: "contains_str p s \<longleftrightarrow> (\<exists>u v. s = u @ p @ v)"
  using index_of_None_iff [of p s] by (auto simp: contains_str_def)

lemma index_of_unit_None: "index_of [d] s = None \<longleftrightarrow> d \<notin> set s"
  by (induction s) auto

lemma index_of_unit_Some: "index_of [d] s = Some i \<Longrightarrow> d \<notin> set (take i s) \<and> i < length s \<and> s ! i = d"
proof (induction s arbitrary: i)
  case Nil
  then show ?case by simp
next
  case (Cons c s)
  then show ?case by (cases i) (auto split: if_splits)
qed

lemma split_on_not_Nil [simp]: "split_on d s \<noteq> []"
  by (induction s) (auto split: list.splits)

lemma join_Cons: "ss \<noteq> [] \<Longrightarrow> join sep (s # ss) = s @ sep @ join sep ss"
  by (cases ss) auto

lemma join_split_on: "join [d] (split_on d s) = s"
proof (induction s)
  case Nil
  then show ?case by simp
next
  case (Cons c s)
  show ?case
  proof (cases "c = d")
    case True
    with Cons show ?thesis by (simp add: join_Cons)
  next
    case False
    obtain w ws where w: "split_on d s = w # ws"
      by (metis neq_Nil_conv split_on_not_Nil)
    with Cons.IH have "join [d] (w # ws) = s" by simp
    with False w show ?thesis by (cases ws) auto
  qed
qed

lemma split_on_no_sep: "w \<in> set (split_on d s) \<Longrightarrow> d \<notin> set w"
proof (induction s arbitrary: w)
  case Nil
  then show ?case by simp
next
  case (Cons c s)
  then show ?case
    by (auto split: if_splits list.splits)
qed

lemma split_on_absent: "d \<notin> set s \<Longrightarrow> split_on d s = [s]"
  by (induction s) auto

lemma split_on_append: "split_on d (u @ d # v) = split_on d u @ split_on d v"
proof (induction u)
  case (Cons c u)
  obtain w ws where "split_on d u = w # ws" by (cases "split_on d u") auto
  with Cons show ?case by simp
qed simp

lemma split_on_join:
  "ws \<noteq> [] \<Longrightarrow> \<forall>w\<in>set ws. d \<notin> set w \<Longrightarrow> split_on d (join [d] ws) = ws"
proof (induction ws)
  case (Cons w ws)
  then show ?case
    by (cases "ws = []") (simp_all add: split_on_absent join_Cons split_on_append)
qed simp

lemma set_join_subset: "set (join sep ss) \<subseteq> set sep \<union> (\<Union>s\<in>set ss. set s)"
  by (induction sep ss rule: join.induct) auto

lemma replace_all_from_id:
  "\<not> contains_str p s \<Longrightarrow> replace_all_from p r pre s = s"
proof (induction p r pre s rule: replace_all_from.induct)
  case (1 p r pre)
  then show ?case by simp
next
  case (2 p r pre c s)
  from "2.prems" have no: "\<not> starts_with p (c # s)"
    by (auto simp: contains_str_def)
  with "2.prems" have "\<not> contains_str p s"
    by (auto simp: contains_str_def)
  with 2 no show ?case
    by (simp add: replace_all_from.simps(2))
qed

lemma replace_all_id: "\<not> contains_str p s \<Longrightarrow> replace_all p r s = s"
  by (simp add: replace_all_def replace_all_from_id)

lemma dec_not_Nil [simp]: "dec n \<noteq> []"
  by (subst dec.simps) simp

lemma dec_digits: "c \<in> set (dec n) \<Longrightarrow> is_digit c"
proof (induction n rule: dec.induct)
  case (1 n)
  show ?case
  proof (cases "n < 10")
    case True
    with "1.prems" have "c = 48 + n" by (subst (asm) dec.simps) simp
    with True show ?thesis by (simp add: is_digit_def)
  next
    case False
    with "1.prems" have "c \<in> set (dec (n div 10)) \<or> c = 48 + n mod 10"
      by (subst (asm) dec.simps) auto
    then show ?thesis
    proof
      assume "c \<in> set (dec (n div 10))"
      with "1.IH" False show ?thesis by simp
    next
      assume "c = 48 + n mod 10"
      then show ?thesis by (simp add: is_digit_def)
    qed
  qed
qed

text \<open>Reading the digits back: the printer is injective.\<close>

definition undec :: "jsstr \<Rightarrow> nat" where
  "undec s = foldl (\<lambda>a c. 10 * a + (c - 48)) 0 s"

lemma undec_snoc: "undec (s @ [c]) = 10 * undec s + (c - 48)"
  by (simp add: undec_def)

lemma undec_dec [simp]: "undec (dec n) = n"
proof (induction n rule: dec.induct)
  case (1 n)
  show ?case
  proof (cases "n < 10")
    case True
    then show ?thesis by (subst dec.simps) (simp add: undec_def)
  next
    case False
    with "1.IH" have "undec (dec (n div 10)) = n div 10" by simp
    with False show ?thesis
      by (subst dec.simps) (simp add: undec_snoc)
  qed
qed

lemma dec_inject [simp]: "dec m = dec n \<longleftrightarrow> m = n"
  by (metis undec_dec)

section \<open>Lemmas on lists\<close>

lemma list_all2_mapI: "(\<And>x. x \<in> set xs \<Longrightarrow> P x (f x)) \<Longrightarrow> list_all2 P xs (map f xs)"
  by (induction xs) auto

lemma map_of_rev_distinct: "distinct (map fst ps) \<Longrightarrow> map_of (rev ps) = map_of ps"
  by (metis distinct_rev map_of_eqI map_of_inject_set rev_map set_rev)

section \<open>Bits\<close>

lemma shift_or: "b < 2 ^ n \<Longrightarrow> or (push_bit n a) b = a * 2 ^ n + b" for a b :: nat
proof -
  assume "b < 2 ^ n"
  then have "b = take_bit n b" by (simp add: take_bit_nat_eq_self)
  then have "and (push_bit n a) b = 0"
    by (metis (no_types, lifting) bit_eq_iff bit_and_iff bit_push_bit_iff bit_take_bit_iff bit_0_eq bot_apply bot_bool_def leD)
  then show ?thesis by (simp add: disjunctive_add_eq_or [symmetric] push_bit_eq_mult)
qed

end
