(* ===== verification/Js_Number.thy ===== *)
theory Js_Number
  imports Prelude Complex_Main
begin

text \<open>
  JavaScript numbers: IEEE 754 binary64 values as rationals with rounding written out
  (\<open>to_double\<close>, ties to even), the conversions \<open>Number(s)\<close>, \<open>Number.parseInt(s, 10)\<close> and
  \<open>String(x)\<close>, and the arithmetic the sources use. The two zeros are one value: nothing here
  tells them apart.
\<close>

datatype jsnum = NaN | Infinite bool | Fin rat \<comment> \<open>the flag of an infinity says it is negative\<close>

section \<open>Rounding\<close>

definition pow2 :: "int \<Rightarrow> rat" where
  "pow2 k = (if 0 \<le> k then 2 ^ nat k else 1 / 2 ^ nat (- k))"

definition pow10 :: "int \<Rightarrow> rat" where
  "pow10 k = (if 0 \<le> k then 10 ^ nat k else 1 / 10 ^ nat (- k))"

fun bit_len :: "nat \<Rightarrow> nat" where
  "bit_len n = (if n = 0 then 0 else Suc (bit_len (n div 2)))"

declare bit_len.simps [simp del]

text \<open>The binary and decimal exponents of a positive rational.\<close>

definition ilog2 :: "rat \<Rightarrow> int" where
  "ilog2 x = (case quotient_of x of (n, d) \<Rightarrow>
     let k = int (bit_len (nat n)) - int (bit_len (nat d))
     in if pow2 k \<le> x then k else k - 1)"

definition ilog10 :: "rat \<Rightarrow> int" where
  "ilog10 x = (case quotient_of x of (n, d) \<Rightarrow>
     let k = int (length (dec (nat n))) - int (length (dec (nat d)))
     in if pow10 k \<le> x then k else k - 1)"

definition round_half_even :: "rat \<Rightarrow> int" where
  "round_half_even x =
     (let f = \<lfloor>x\<rfloor>; d = x - of_int f
      in if d < 1 / 2 then f else if 1 / 2 < d then f + 1 else if even f then f else f + 1)"

text \<open>The binary64 value nearest to a rational; \<open>-1074\<close> is the exponent of the least subnormal.\<close>

definition to_double :: "rat \<Rightarrow> jsnum" where
  "to_double x =
     (if x = 0 then Fin 0
      else let a = \<bar>x\<bar>; q = max (ilog2 a - 52) (- 1074);
               r = of_int (round_half_even (a / pow2 q)) * pow2 q
           in if pow2 1024 \<le> r then Infinite (x < 0) else Fin (if x < 0 then - r else r))"

section \<open>Reading numbers\<close>

definition decimal_value :: "jsstr \<Rightarrow> jsstr \<Rightarrow> int \<Rightarrow> rat" where
  "decimal_value ip fp e = of_nat (undec (ip @ fp)) * pow10 (e - int (length fp))"

text \<open>An exponent part: \<open>Some 0\<close> when there is none, \<open>None\<close> when what is left is not one.\<close>

definition exponent_part :: "jsstr \<Rightarrow> int option" where
  "exponent_part s =
     (case s of
        [] \<Rightarrow> Some 0
      | c # r \<Rightarrow>
          if c = 101 \<or> c = 69 then
            (case r of
               d # t \<Rightarrow>
                 let neg = (d = 45); ds = (if d = 43 \<or> d = 45 then t else r)
                 in if ds \<noteq> [] \<and> list_all is_digit ds
                    then Some (if neg then - int (undec ds) else int (undec ds)) else None
             | [] \<Rightarrow> None)
          else None)"

definition unsigned_decimal :: "jsstr \<Rightarrow> rat option" where
  "unsigned_decimal s =
     (let ip = takeWhile is_digit s; r = dropWhile is_digit s;
          fp = (case r of c # t \<Rightarrow> if c = 46 then takeWhile is_digit t else [] | [] \<Rightarrow> []);
          r' = (case r of c # t \<Rightarrow> if c = 46 then dropWhile is_digit t else r | [] \<Rightarrow> [])
      in if ip = [] \<and> fp = [] then None
         else map_option (decimal_value ip fp) (exponent_part r'))"

definition digit_value :: "code_unit \<Rightarrow> nat option" where
  "digit_value c =
     (if is_digit c then Some (c - 48)
      else if 97 \<le> c \<and> c \<le> 122 then Some (c - 87)
      else if 65 \<le> c \<and> c \<le> 90 then Some (c - 55)
      else None)"

definition radix_value :: "nat \<Rightarrow> jsstr \<Rightarrow> nat option" where
  "radix_value b s =
     (if s = [] then None
      else foldl (\<lambda>a c. case (a, digit_value c) of
                          (Some n, Some d) \<Rightarrow> if d < b then Some (b * n + d) else None
                        | _ \<Rightarrow> None) (Some 0) s)"

definition or_nan :: "rat option \<Rightarrow> jsnum" where
  "or_nan v = (case v of Some x \<Rightarrow> to_double x | None \<Rightarrow> NaN)"

text \<open>\<open>Number(s)\<close> of a string.\<close>

definition str_to_num :: "jsstr \<Rightarrow> jsnum" where
  "str_to_num s =
     (let t = trim s in
      if t = [] then Fin 0
      else if starts_with (js ''0x'') t \<or> starts_with (js ''0X'') t
        then or_nan (map_option of_nat (radix_value 16 (drop 2 t)))
      else if starts_with (js ''0o'') t \<or> starts_with (js ''0O'') t
        then or_nan (map_option of_nat (radix_value 8 (drop 2 t)))
      else if starts_with (js ''0b'') t \<or> starts_with (js ''0B'') t
        then or_nan (map_option of_nat (radix_value 2 (drop 2 t)))
      else
        let neg = (hd t = 45); u = (if hd t = 43 \<or> hd t = 45 then tl t else t)
        in if u = js ''Infinity'' then Infinite neg
           else or_nan (map_option (\<lambda>x. if neg then - x else x) (unsigned_decimal u)))"

text \<open>\<open>Number.parseInt(s, 10)\<close>: a prefix of decimal digits.\<close>

definition parse_int :: "jsstr \<Rightarrow> jsnum" where
  "parse_int s =
     (let t = trim_start s;
          neg = (t \<noteq> [] \<and> hd t = 45);
          ds = takeWhile is_digit (if t \<noteq> [] \<and> (hd t = 43 \<or> hd t = 45) then tl t else t)
      in if ds = [] then NaN
         else to_double (if neg then - of_nat (undec ds) else of_nat (undec ds)))"

section \<open>Printing numbers\<close>

definition decimal_candidate :: "rat \<Rightarrow> nat \<Rightarrow> int \<times> int" where
  "decimal_candidate x k =
     (let e = ilog10 x + 1 - int k in (round_half_even (x / pow10 e), e))"

text \<open>
  The fewest digits that read back as the same value, with the place of the decimal point; a
  candidate that rounds up to a power of ten is a single digit one place further left.
\<close>

definition shortest_decimal :: "rat \<Rightarrow> jsstr \<times> int" where
  "shortest_decimal x =
     (let k = (case find (\<lambda>k. case decimal_candidate x k of (m, e) \<Rightarrow>
                                 to_double (of_int m * pow10 e) = Fin x) [1..<18] of
                 Some k \<Rightarrow> k | None \<Rightarrow> 17);
          m = fst (decimal_candidate x k)
      in if m = 10 ^ k then (js ''1'', ilog10 x + 2) else (dec (nat m), ilog10 x + 1))"

definition layout_digits :: "jsstr \<Rightarrow> int \<Rightarrow> jsstr" where
  "layout_digits ds n =
     (let k = int (length ds) in
      if k \<le> n \<and> n \<le> 21 then ds @ replicate (nat (n - k)) 48
      else if 0 < n \<and> n \<le> 21 then take (nat n) ds @ [46] @ drop (nat n) ds
      else if - 6 < n \<and> n \<le> 0 then [48, 46] @ replicate (nat (- n)) 48 @ ds
      else (if length ds = 1 then ds else take 1 ds @ [46] @ drop 1 ds)
           @ [101, if n - 1 < 0 then 45 else 43] @ dec (nat \<bar>n - 1\<bar>))"

text \<open>\<open>String(x)\<close> of a number.\<close>

definition num_to_str :: "jsnum \<Rightarrow> jsstr" where
  "num_to_str v =
     (case v of
        NaN \<Rightarrow> js ''NaN''
      | Infinite neg \<Rightarrow> (if neg then js ''-Infinity'' else js ''Infinity'')
      | Fin x \<Rightarrow>
          if x = 0 then js ''0''
          else (if x < 0 then [45] else [])
               @ (case shortest_decimal \<bar>x\<bar> of (ds, n) \<Rightarrow> layout_digits ds n))"

section \<open>Arithmetic\<close>

definition num_truthy :: "jsnum \<Rightarrow> bool" where
  "num_truthy v \<longleftrightarrow> v \<noteq> NaN \<and> v \<noteq> Fin 0"

fun num_mul :: "jsnum \<Rightarrow> jsnum \<Rightarrow> jsnum" where
  "num_mul NaN y = NaN"
| "num_mul x NaN = NaN"
| "num_mul (Infinite a) (Infinite b) = Infinite (a \<noteq> b)"
| "num_mul (Infinite a) (Fin y) = (if y = 0 then NaN else Infinite (a \<noteq> (y < 0)))"
| "num_mul (Fin x) (Infinite b) = (if x = 0 then NaN else Infinite ((x < 0) \<noteq> b))"
| "num_mul (Fin x) (Fin y) = to_double (x * y)"

fun num_less :: "jsnum \<Rightarrow> jsnum \<Rightarrow> bool" where
  "num_less NaN y = False"
| "num_less x NaN = False"
| "num_less (Infinite a) (Infinite b) = (a \<and> \<not> b)"
| "num_less (Infinite a) (Fin y) = a"
| "num_less (Fin x) (Infinite b) = (\<not> b)"
| "num_less (Fin x) (Fin y) = (x < y)"

definition num_max :: "jsnum \<Rightarrow> jsnum \<Rightarrow> jsnum" where
  "num_max x y = (if x = NaN \<or> y = NaN then NaN else if num_less x y then y else x)"

definition num_min :: "jsnum \<Rightarrow> jsnum \<Rightarrow> jsnum" where
  "num_min x y = (if x = NaN \<or> y = NaN then NaN else if num_less y x then y else x)"

text \<open>\<open>Math.round\<close>: to the nearest integer, ties upwards.\<close>

definition num_round :: "jsnum \<Rightarrow> jsnum" where
  "num_round v = (case v of Fin x \<Rightarrow> Fin (of_int \<lfloor>x + 1 / 2\<rfloor>) | _ \<Rightarrow> v)"

definition num_or :: "jsnum \<Rightarrow> jsnum \<Rightarrow> jsnum" where \<comment> \<open>\<open>x || y\<close>\<close>
  "num_or x y = (if num_truthy x then x else y)"

abbreviation nnum :: "nat \<Rightarrow> jsnum" where
  "nnum n \<equiv> Fin (of_nat n)"

section \<open>Lemmas\<close>

lemma num_or_not_NaN: "y \<noteq> NaN \<Longrightarrow> num_or x y \<noteq> NaN"
  by (auto simp: num_or_def num_truthy_def)

lemma num_max_ge: "y \<noteq> NaN \<Longrightarrow> num_max (Fin x) y = Fin z \<Longrightarrow> x \<le> z"
  by (cases y) (auto simp: num_max_def split: if_splits)

lemma num_max_Fin_cases: "y \<noteq> NaN \<Longrightarrow> (\<exists>z\<ge>x. num_max (Fin x) y = Fin z) \<or> num_max (Fin x) y = Infinite False"
  by (cases y) (auto simp: num_max_def)

lemma num_clamp_bounds:
  assumes "v \<noteq> NaN" and "lo \<le> hi"
  shows "\<exists>z. num_min (Fin hi) (num_max (Fin lo) v) = Fin z \<and> lo \<le> z \<and> z \<le> hi"
  using assms by (cases v) (auto simp: num_min_def num_max_def)

lemma num_round_integral: "num_round v = Fin x \<Longrightarrow> \<exists>z. x = of_int z"
  by (cases v) (auto simp: num_round_def)

lemma round_half_even_int [simp]: "round_half_even (of_int z) = z"
  by (simp add: round_half_even_def)

lemma pow2_pos [simp]: "0 < pow2 k"
  by (simp add: pow2_def)

lemma pow10_pos [simp]: "0 < pow10 k"
  by (simp add: pow10_def)

lemma bit_len_bounds: "0 < n \<Longrightarrow> 2 ^ (bit_len n - 1) \<le> n \<and> n < 2 ^ bit_len n"
proof (induction n rule: bit_len.induct)
  case (1 n)
  show ?case
  proof (cases "n div 2 = 0")
    case True
    with "1.prems" have "n = 1" by simp
    then show ?thesis by (simp add: bit_len.simps)
  next
    case False
    with "1.IH" "1.prems" have ih: "2 ^ (bit_len (n div 2) - 1) \<le> n div 2" "n div 2 < 2 ^ bit_len (n div 2)"
      by auto
    from False have pos: "bit_len (n div 2) \<noteq> 0" by (subst bit_len.simps) simp
    have len: "bit_len n = Suc (bit_len (n div 2))"
      using "1.prems" by (subst bit_len.simps) simp
    from pos have "2 ^ bit_len (n div 2) = 2 * (2::nat) ^ (bit_len (n div 2) - 1)"
      by (cases "bit_len (n div 2)") simp_all
    with ih(1) have "2 ^ bit_len (n div 2) \<le> n" by linarith
    moreover from ih(2) have "n < 2 * 2 ^ bit_len (n div 2)" by linarith
    ultimately show ?thesis by (simp add: len)
  qed
qed

text \<open>Integers of up to 53 bits are represented exactly.\<close>

lemma bit_len_1 [simp]: "bit_len (Suc 0) = Suc 0"
  by (simp add: bit_len.simps)

lemma ilog2_int:
  assumes "0 < z"
  shows "ilog2 (of_int z) = int (bit_len (nat z)) - 1"
proof -
  from bit_len_bounds [of "nat z"] assms have b: "2 ^ (bit_len (nat z) - 1) \<le> nat z" by simp
  have "bit_len (nat z) \<noteq> 0" using assms by (subst bit_len.simps) simp
  then have e: "nat (int (bit_len (nat z)) - 1) = bit_len (nat z) - 1" "0 \<le> int (bit_len (nat z)) - 1"
    by simp_all
  from b assms have "int (2 ^ (bit_len (nat z) - 1)) \<le> z" by (simp add: nat_le_iff le_nat_iff)
  then have "(of_int (int (2 ^ (bit_len (nat z) - 1))) :: rat) \<le> of_int z"
    by (simp only: of_int_le_iff)
  then have "pow2 (int (bit_len (nat z)) - 1) \<le> (of_int z :: rat)"
    by (simp only: pow2_def e if_True) simp
  then show ?thesis by (simp add: ilog2_def quotient_of_int)
qed

lemma to_double_pos_int:
  assumes "0 < z" and "z < 2 ^ 53"
  shows "to_double (of_int z) = Fin (of_int z)"
proof -
  let ?L = "bit_len (nat z)"
  from bit_len_bounds [of "nat z"] assms(1) have b: "2 ^ (?L - 1) \<le> nat z" by simp
  also from assms have "nat z < 2 ^ 53" by (simp add: nat_less_iff)
  finally have "?L - 1 < 53" using power_less_imp_less_exp [of 2 "?L - 1" 53] by simp
  then have L: "?L \<le> 53" by simp
  have q: "max (ilog2 (of_int z) - 52) (- 1074) = int ?L - 53"
    using assms(1) by (simp add: ilog2_int)
  have p: "pow2 (int ?L - 53) = 1 / 2 ^ (53 - ?L)"
  proof (cases "?L = 53")
    case True
    then show ?thesis by (simp add: pow2_def)
  next
    case False
    with L have "\<not> 0 \<le> int ?L - 53" "nat (- (int ?L - 53)) = 53 - ?L" by linarith+
    then show ?thesis by (simp add: pow2_def)
  qed
  have "(of_int z :: rat) / (1 / 2 ^ (53 - ?L)) = of_int (z * 2 ^ (53 - ?L))"
    by simp
  then have r: "of_int (round_half_even (of_int z / pow2 (int ?L - 53))) * pow2 (int ?L - 53) = (of_int z :: rat)"
    unfolding p by (simp only: round_half_even_int) simp
  have "(of_int z :: rat) < of_int (2 ^ 53)"
    using assms(2) by (simp only: of_int_less_iff)
  also have "\<dots> \<le> pow2 1024"
    by (simp add: pow2_def)
  finally have "\<not> pow2 1024 \<le> (of_int z :: rat)" by simp
  then show ?thesis
    using assms(1) q r by (simp add: to_double_def Let_def)
qed

lemma to_double_of_nat: "n < 2 ^ 53 \<Longrightarrow> to_double (of_nat n) = Fin (of_nat n)"
proof (cases "n = 0")
  case False
  assume "n < 2 ^ 53"
  with False have "0 < int n" "int n < 2 ^ 53" by simp_all
  from to_double_pos_int [OF this] show ?thesis by simp
qed (simp add: to_double_def)

text \<open>Reading the decimal digits of a small natural gives the number.\<close>

lemma list_all_dec [simp]: "list_all is_digit (dec n)"
  by (simp add: list_all_iff dec_digits)

lemma parse_int_dec:
  assumes "n < 2 ^ 53"
  shows "parse_int (dec n) = nnum n"
proof -
  obtain c ds where d: "dec n = c # ds" by (cases "dec n") auto
  then have c: "is_digit c" using dec_digits [of c n] by simp
  then have "trim_start (dec n) = dec n" "c \<noteq> 43" "c \<noteq> 45"
    using d by (auto simp: trim_start_def is_digit_def is_space_def)
  moreover have "takeWhile is_digit (dec n) = dec n"
    using dec_digits by (auto simp: takeWhile_eq_all_conv)
  ultimately show ?thesis
    using d to_double_of_nat [OF assms] by (simp add: parse_int_def Let_def) (metis undec_dec d)
qed

section \<open>Arithmetic of times\<close>

definition num_sub :: "jsnum \<Rightarrow> jsnum \<Rightarrow> jsnum" where
  "num_sub x y =
     (case (x, y) of
        (Fin a, Fin b) \<Rightarrow> to_double (a - b)
      | (Infinite n, Fin b) \<Rightarrow> Infinite n
      | (Fin a, Infinite n) \<Rightarrow> Infinite (\<not> n)
      | (Infinite m, Infinite n) \<Rightarrow> if m = n then NaN else Infinite m
      | _ \<Rightarrow> NaN)"

definition num_div_nat :: "jsnum \<Rightarrow> nat \<Rightarrow> jsnum" where \<comment> \<open>division by a positive constant\<close>
  "num_div_nat x n = (case x of Fin a \<Rightarrow> to_double (a / of_nat n) | _ \<Rightarrow> x)"

definition num_floor :: "jsnum \<Rightarrow> jsnum" where
  "num_floor x = (case x of Fin a \<Rightarrow> Fin (of_int \<lfloor>a\<rfloor>) | _ \<Rightarrow> x)"

end
