(* ===== verification/Js_Value.thy ===== *)
theory Js_Value
  imports Js_Number
begin

text \<open>
  Dynamic JavaScript values as \<open>JSON.parse\<close> builds them, with \<open>undefined\<close> for what a missing
  property reads as; ordered property lists with JavaScript's order of keys; conversion to string
  and to boolean; and the exceptions the sources raise.
\<close>

section \<open>Values\<close>

datatype jsval =
    JUndef
  | JNull
  | JBool bool
  | JNum jsnum
  | JStr jsstr
  | JArr "jsval list"
  | JObj "(jsstr \<times> jsval) list"

fun truthy :: "jsval \<Rightarrow> bool" where
  "truthy JUndef = False"
| "truthy JNull = False"
| "truthy (JBool b) = b"
| "truthy (JNum x) = num_truthy x"
| "truthy (JStr s) = (s \<noteq> [])"
| "truthy (JArr _) = True"
| "truthy (JObj _) = True"

definition nullish :: "jsval \<Rightarrow> bool" where
  "nullish v \<longleftrightarrow> v = JUndef \<or> v = JNull"

definition coalesce :: "jsval \<Rightarrow> jsval \<Rightarrow> jsval" where \<comment> \<open>\<open>v ?? d\<close>\<close>
  "coalesce v d = (if nullish v then d else v)"

definition or_else :: "jsval \<Rightarrow> jsval \<Rightarrow> jsval" where \<comment> \<open>\<open>v || d\<close>\<close>
  "or_else v d = (if truthy v then v else d)"

fun is_array :: "jsval \<Rightarrow> bool" where
  "is_array (JArr _) = True"
| "is_array _ = False"

fun is_string :: "jsval \<Rightarrow> bool" where
  "is_string (JStr _) = True"
| "is_string _ = False"

definition is_object :: "jsval \<Rightarrow> bool" where \<comment> \<open>\<open>typeof v === "object"\<close> for a value other than \<open>null\<close>\<close>
  "is_object v \<longleftrightarrow> (case v of JArr _ \<Rightarrow> True | JObj _ \<Rightarrow> True | _ \<Rightarrow> False)"

text \<open>
  What \<open>v?.key\<close> reads: an own property of an object, the length of an array or a string, and
  \<open>undefined\<close> otherwise. None of the keys the sources read is a property of a built-in prototype.
  A plain access \<open>v.key\<close> is the same guarded by \<open>nullish\<close>, where it raises a \<open>TypeError\<close>.
\<close>

definition fld_str :: "jsval \<Rightarrow> jsstr \<Rightarrow> jsval" where
  "fld_str v k =
     (case v of
        JObj ps \<Rightarrow> (case map_of ps k of Some w \<Rightarrow> w | None \<Rightarrow> JUndef)
      | JArr xs \<Rightarrow> (if k = js ''length'' then JNum (nnum (length xs)) else JUndef)
      | JStr s \<Rightarrow> (if k = js ''length'' then JNum (nnum (length s)) else JUndef)
      | _ \<Rightarrow> JUndef)"

definition fld :: "jsval \<Rightarrow> string \<Rightarrow> jsval" where
  "fld v k = fld_str v (js k)"

lemma fld_nullish [simp]: "fld JUndef k = JUndef" "fld JNull k = JUndef"
  by (simp_all add: fld_def fld_str_def)

lemma fld_JObj [simp]: "fld (JObj ps) k = (case map_of ps (js k) of Some w \<Rightarrow> w | None \<Rightarrow> JUndef)"
  by (simp add: fld_def fld_str_def)

section \<open>Ordered objects\<close>

text \<open>
  The order of own keys: those that are canonical array indices first, by value, then the others
  in the order of insertion. Storing under a key that is present keeps its place.
\<close>

definition index_key :: "jsstr \<Rightarrow> nat option" where
  "index_key k =
     (if k \<noteq> [] \<and> list_all is_digit k \<and> (length k = 1 \<or> hd k \<noteq> 48) \<and> undec k < 4294967295
      then Some (undec k) else None)"

fun obj_insert_index :: "nat \<Rightarrow> jsstr \<Rightarrow> 'v \<Rightarrow> (jsstr \<times> 'v) list \<Rightarrow> (jsstr \<times> 'v) list" where
  "obj_insert_index n k v [] = [(k, v)]"
| "obj_insert_index n k v ((k', v') # ps) =
     (case index_key k' of
        Some m \<Rightarrow> if m < n then (k', v') # obj_insert_index n k v ps else (k, v) # (k', v') # ps
      | None \<Rightarrow> (k, v) # (k', v') # ps)"

fun obj_replace :: "jsstr \<Rightarrow> 'v \<Rightarrow> (jsstr \<times> 'v) list \<Rightarrow> (jsstr \<times> 'v) list" where
  "obj_replace k v [] = []"
| "obj_replace k v ((k', v') # ps) = (if k' = k then (k, v) # ps else (k', v') # obj_replace k v ps)"

definition obj_set :: "jsstr \<Rightarrow> 'v \<Rightarrow> (jsstr \<times> 'v) list \<Rightarrow> (jsstr \<times> 'v) list" where
  "obj_set k v ps =
     (if k \<in> set (map fst ps) then obj_replace k v ps
      else (case index_key k of
              Some n \<Rightarrow> obj_insert_index n k v ps
            | None \<Rightarrow> ps @ [(k, v)]))"

definition from_entries :: "(jsstr \<times> 'v) list \<Rightarrow> (jsstr \<times> 'v) list" where \<comment> \<open>\<open>Object.fromEntries\<close>\<close>
  "from_entries es = fold (\<lambda>(k, v). obj_set k v) es []"

text \<open>
  The interface the parser, the importers and the chart sanitizer rely on: a store of keyed values
  that answers a lookup with the last value stored and never holds a key twice.
\<close>

locale keyed_store =
  fixes stored :: "'k \<Rightarrow> 'v \<Rightarrow> 's \<Rightarrow> 's"
    and found :: "'s \<Rightarrow> 'k \<Rightarrow> 'v option"
    and keys_of :: "'s \<Rightarrow> 'k list"
    and empty_store :: 's
  assumes found_empty: "found empty_store = Map.empty"
    and found_stored: "found (stored k v s) = (found s)(k \<mapsto> v)"
    and keys_dom: "set (keys_of s) = dom (found s)"
    and keys_empty: "distinct (keys_of empty_store)"
    and keys_stored: "distinct (keys_of s) \<Longrightarrow> distinct (keys_of (stored k v s))"
begin

definition store_all :: "('k \<times> 'v) list \<Rightarrow> 's \<Rightarrow> 's" where
  "store_all es s = fold (\<lambda>(k, v). stored k v) es s"

lemma found_store_all: "found (store_all es s) k = (case map_of (rev es) k of Some v \<Rightarrow> Some v | None \<Rightarrow> found s k)"
  by (induction es arbitrary: s)
    (auto simp: store_all_def found_stored map_add_def split: option.splits)

lemma keys_store_all: "distinct (keys_of s) \<Longrightarrow> distinct (keys_of (store_all es s))"
  by (induction es arbitrary: s) (auto simp: store_all_def keys_stored)

lemma keys_store_all_empty: "distinct (keys_of (store_all es empty_store))"
  by (rule keys_store_all [OF keys_empty])

lemma found_store_all_empty: "found (store_all es empty_store) k = map_of (rev es) k"
  by (simp add: found_store_all found_empty split: option.splits)

lemma key_store_all: "k \<in> set (keys_of (store_all es s)) \<longleftrightarrow> k \<in> set (keys_of s) \<or> k \<in> fst ` set es"
proof -
  have "map_of (rev es) k = None \<longleftrightarrow> k \<notin> fst ` set es"
    by (simp add: map_of_eq_None_iff)
  then show ?thesis
    by (auto simp: keys_dom dom_def found_store_all split: option.splits)
qed

end

lemma map_of_obj_insert_index:
  "k \<notin> set (map fst ps) \<Longrightarrow> map_of (obj_insert_index n k v ps) = (map_of ps)(k \<mapsto> v)"
  by (induction n k v ps rule: obj_insert_index.induct) (auto split: option.splits)

lemma keys_obj_insert_index: "set (map fst (obj_insert_index n k v ps)) = insert k (set (map fst ps))"
  by (induction n k v ps rule: obj_insert_index.induct) (auto split: option.splits)

lemma distinct_obj_insert_index:
  "k \<notin> set (map fst ps) \<Longrightarrow> distinct (map fst ps) \<Longrightarrow> distinct (map fst (obj_insert_index n k v ps))"
proof (induction n k v ps rule: obj_insert_index.induct)
  case (2 n k v k' v' ps)
  from "2.prems" have "k' \<noteq> k" by auto
  with "2.prems" have "k' \<notin> set (map fst (obj_insert_index n k v ps))"
    by (simp add: keys_obj_insert_index del: set_map)
  with 2 show ?case by (auto split: option.splits)
qed simp

lemma map_of_obj_replace:
  "k \<in> set (map fst ps) \<Longrightarrow> map_of (obj_replace k v ps) = (map_of ps)(k \<mapsto> v)"
  by (induction k v ps rule: obj_replace.induct) (auto simp: fun_upd_twist simp del: set_map)

lemma keys_obj_replace [simp]: "map fst (obj_replace k v ps) = map fst ps"
  by (induction k v ps rule: obj_replace.induct) auto

lemma map_of_obj_set [simp]: "map_of (obj_set k v ps) = (map_of ps)(k \<mapsto> v)"
proof (cases "k \<in> set (map fst ps)")
  case True
  then show ?thesis by (simp add: obj_set_def map_of_obj_replace)
next
  case False
  then have "map_of ps k = None" by (simp add: map_of_eq_None_iff)
  with False show ?thesis
    by (auto simp: obj_set_def map_of_obj_insert_index map_add_def fun_eq_iff
        simp del: set_map split: option.splits)
qed

lemma keys_obj_set: "set (map fst (obj_set k v ps)) = insert k (set (map fst ps))"
  by (auto simp: obj_set_def keys_obj_insert_index insert_absorb simp del: set_map split: option.splits)

lemma distinct_obj_set: "distinct (map fst ps) \<Longrightarrow> distinct (map fst (obj_set k v ps))"
  by (auto simp: obj_set_def distinct_obj_insert_index simp del: set_map split: option.splits)

interpretation objects: keyed_store obj_set map_of "map fst" "[]"
proof unfold_locales
  show "map_of [] = Map.empty" by simp
  show "map_of (obj_set k v ps) = (map_of ps)(k \<mapsto> v)" for k :: jsstr and v :: 'a and ps
    by simp
  show "set (map fst ps) = dom (map_of ps)" for ps :: "(jsstr \<times> 'a) list"
    by (simp add: dom_map_of_conv_image_fst)
  show "distinct (map fst ([] :: (jsstr \<times> 'a) list))" by simp
  show "distinct (map fst ps) \<Longrightarrow> distinct (map fst (obj_set k v ps))" for k v and ps :: "(jsstr \<times> 'a) list"
    by (rule distinct_obj_set)
qed

lemma from_entries_store_all: "from_entries es = objects.store_all es []"
  by (simp add: from_entries_def objects.store_all_def)

lemma map_of_from_entries: "map_of (from_entries es) k = map_of (rev es) k"
  by (simp only: from_entries_store_all objects.found_store_all_empty)

lemma distinct_from_entries: "distinct (map fst (from_entries es))"
  by (simp only: from_entries_store_all objects.keys_store_all_empty)

lemma fst_set_from_entries: "fst ` set (from_entries es) = fst ` set es"
  using objects.key_store_all [of _ es "[]"] by (auto simp: from_entries_store_all)

lemma from_entries_values:
  assumes "(k, v) \<in> set (from_entries es)"
  shows "(k, v) \<in> set es"
proof -
  from assms have "map_of (from_entries es) k = Some v"
    by (rule map_of_is_SomeI [OF distinct_from_entries])
  then have "map_of (rev es) k = Some v" by (simp add: map_of_from_entries)
  from map_of_SomeD [OF this] show ?thesis by simp
qed

text \<open>The own properties a spread \<open>{...v}\<close> copies.\<close>

definition spread :: "jsval \<Rightarrow> (jsstr \<times> jsval) list" where
  "spread v =
     (case v of
        JObj ps \<Rightarrow> ps
      | JArr xs \<Rightarrow> map (\<lambda>(i, x). (dec i, x)) (enumerate 0 xs)
      | JStr s \<Rightarrow> map (\<lambda>(i, c). (dec i, JStr [c])) (enumerate 0 s)
      | _ \<Rightarrow> [])"

lemma coalesce_not_nullish [simp]: "\<not> nullish v \<Longrightarrow> coalesce v d = v"
  by (simp add: coalesce_def)

lemma nullish_coalesce [simp]: "nullish (coalesce v d) \<longleftrightarrow> nullish v \<and> nullish d"
  by (simp add: coalesce_def)

lemma nullish_simps [simp]:
  "nullish JUndef" "nullish JNull" "\<not> nullish (JBool b)" "\<not> nullish (JNum x)"
  "\<not> nullish (JStr s)" "\<not> nullish (JArr xs)" "\<not> nullish (JObj ps)"
  by (simp_all add: nullish_def)

lemma obj_replace_id: "map_of ps k = Some v \<Longrightarrow> obj_replace k v ps = ps"
  by (induction k v ps rule: obj_replace.induct) auto

lemma obj_set_id: "map_of ps k = Some v \<Longrightarrow> obj_set k v ps = ps"
  using map_of_SomeD [of ps k v] by (force simp: obj_set_def obj_replace_id)

lemma spread_JObj [simp]: "spread (JObj ps) = ps"
  by (simp add: spread_def)

lemma fld_obj_set:
  "fld (JObj (obj_set (js k) v ps)) k' = (if k' = k then v else fld (JObj ps) k')"
  by simp

section \<open>Exceptions\<close>

datatype exn =
    MonitorImportError jsstr
  | ErrorMsg jsstr \<comment> \<open>\<open>new Error(message)\<close>\<close>
  | TypeError
  | URIError
  | SyntaxError
  | ReferenceError
  | NetworkError \<comment> \<open>\<open>fetch\<close> got no response in time\<close>
  | IllTyped \<comment> \<open>the run goes on with a value its declared type rules out: what follows is not modelled\<close>

text \<open>
  \<open>String(v)\<close>: arrays print their elements joined with commas; an object prints its class unless
  it has a property named \<open>toString\<close> of its own, which is not callable and makes the conversion
  fail.
\<close>

fun to_string :: "jsval \<Rightarrow> exn + jsstr"
  and to_string_items :: "jsval list \<Rightarrow> exn + jsstr list" where
  "to_string JUndef = Inr (js ''undefined'')"
| "to_string JNull = Inr (js ''null'')"
| "to_string (JBool b) = Inr (if b then js ''true'' else js ''false'')"
| "to_string (JNum x) = Inr (num_to_str x)"
| "to_string (JStr s) = Inr s"
| "to_string (JArr xs) =
     (case to_string_items xs of Inl e \<Rightarrow> Inl e | Inr ss \<Rightarrow> Inr (join (js '','') ss))"
| "to_string (JObj ps) =
     (if js ''toString'' \<in> set (map fst ps) then Inl TypeError else Inr (js ''[object Object]''))"
| "to_string_items [] = Inr []"
| "to_string_items (x # xs) =
     (case (if nullish x then Inr [] else to_string x) of
        Inl e \<Rightarrow> Inl e
      | Inr s \<Rightarrow> (case to_string_items xs of Inl e \<Rightarrow> Inl e | Inr ss \<Rightarrow> Inr (s # ss)))"

lemma to_string_error:
  "to_string v = Inl e \<Longrightarrow> e = TypeError"
  "to_string_items xs = Inl e \<Longrightarrow> e = TypeError"
  by (induction v and xs rule: to_string_to_string_items.induct)
    (auto split: sum.splits if_splits)

end
