(* ===== verification/Js_Json.thy ===== *)
theory Js_Json
  imports Js_Value "HOL-Library.Monad_Syntax"
begin

text \<open>
  \<open>JSON.parse\<close> and \<open>JSON.stringify(v, null, indent)\<close>. The parser is a recursive descent over the
  code units with a fuel argument; \<open>json_fuel_enough\<close> shows that a fuel of one more than the length of
  the text is never used up, so \<open>None\<close> is always a syntax error.
\<close>

section \<open>Parsing\<close>

definition is_json_ws :: "code_unit \<Rightarrow> bool" where
  "is_json_ws c \<longleftrightarrow> c = 9 \<or> c = 10 \<or> c = 13 \<or> c = 32"

definition skip_ws :: "jsstr \<Rightarrow> jsstr" where
  "skip_ws s = dropWhile is_json_ws s"

definition hex4 :: "jsstr \<Rightarrow> nat option" where
  "hex4 s = (if length s < 4 then None else radix_value 16 (take 4 s))"

text \<open>The rest of a string literal after its opening quote.\<close>

definition simple_escape :: "code_unit \<Rightarrow> code_unit option" where
  "simple_escape d =
     (if d = 34 \<or> d = 92 \<or> d = 47 then Some d
      else if d = 98 then Some 8
      else if d = 102 then Some 12
      else if d = 110 then Some 10
      else if d = 114 then Some 13
      else if d = 116 then Some 9
      else None)"

function json_string :: "jsstr \<Rightarrow> (jsstr \<times> jsstr) option" where
  "json_string [] = None"
| "json_string (c # r) =
     (if c = 34 then Some ([], r)
      else if c < 32 then None
      else if c = 92 then
        (case r of
           [] \<Rightarrow> None
         | d # t \<Rightarrow>
             (case simple_escape d of
                Some u \<Rightarrow> map_option (apfst (Cons u)) (json_string t)
              | None \<Rightarrow>
                  if d = 117 then
                    (case hex4 t of
                       None \<Rightarrow> None
                     | Some u \<Rightarrow> map_option (apfst (Cons u)) (json_string (drop 4 t)))
                  else None))
      else map_option (apfst (Cons c)) (json_string r))"
  by pat_completeness auto
termination
  by (relation "measure length") auto

declare json_string.simps(2) [simp del]

text \<open>The number grammar: no leading zeros, a digit on each side of the point.\<close>

definition json_exponent :: "jsstr \<Rightarrow> (int \<times> jsstr) option" where
  "json_exponent s =
     (case s of
        c # r \<Rightarrow>
          if c = 101 \<or> c = 69 then
            let neg = (r \<noteq> [] \<and> hd r = 45);
                t = (if r \<noteq> [] \<and> (hd r = 43 \<or> hd r = 45) then tl r else r);
                ds = takeWhile is_digit t
            in if ds = [] then None
               else Some (if neg then - int (undec ds) else int (undec ds), dropWhile is_digit t)
          else Some (0, s)
      | [] \<Rightarrow> Some (0, s))"

definition json_fraction :: "jsstr \<Rightarrow> (jsstr \<times> jsstr) option" where
  "json_fraction r =
     (case r of
        c # t \<Rightarrow>
          if c = 46 then
            (if takeWhile is_digit t = [] then None
             else Some (takeWhile is_digit t, dropWhile is_digit t))
          else Some ([], r)
      | [] \<Rightarrow> Some ([], []))"

definition json_unsigned :: "jsstr \<Rightarrow> (rat \<times> jsstr) option" where
  "json_unsigned t =
     (let ip = takeWhile is_digit t in
      if ip = [] \<or> (1 < length ip \<and> hd ip = 48) then None
      else do { (fp, r) \<leftarrow> json_fraction (dropWhile is_digit t);
                (e, rest) \<leftarrow> json_exponent r;
                Some (decimal_value ip fp e, rest) })"

definition json_number :: "jsstr \<Rightarrow> (jsnum \<times> jsstr) option" where
  "json_number s =
     (if s \<noteq> [] \<and> hd s = 45
      then do { (x, r) \<leftarrow> json_unsigned (tl s); Some (to_double (- x), r) }
      else do { (x, r) \<leftarrow> json_unsigned s; Some (to_double x, r) })"

definition next_unit :: "jsstr \<Rightarrow> (code_unit \<times> jsstr) option" where
  "next_unit s = (case skip_ws s of [] \<Rightarrow> None | c # r \<Rightarrow> Some (c, r))"

fun json_value :: "nat \<Rightarrow> jsstr \<Rightarrow> (jsval \<times> jsstr) option"
  and json_items :: "nat \<Rightarrow> jsstr \<Rightarrow> (jsval list \<times> jsstr) option"
  and json_members :: "nat \<Rightarrow> jsstr \<Rightarrow> ((jsstr \<times> jsval) list \<times> jsstr) option" where
  "json_value 0 s = None"
| "json_value (Suc n) s =
     do { (c, r) \<leftarrow> next_unit s;
          if c = 123 then
            do { (d, t) \<leftarrow> next_unit r;
                 if d = 125 then Some (JObj [], t)
                 else do { (es, t) \<leftarrow> json_members n r; Some (JObj (from_entries es), t) } }
          else if c = 91 then
            do { (d, t) \<leftarrow> next_unit r;
                 if d = 93 then Some (JArr [], t)
                 else do { (xs, t) \<leftarrow> json_items n r; Some (JArr xs, t) } }
          else if c = 34 then do { (k, t) \<leftarrow> json_string r; Some (JStr k, t) }
          else if starts_with (js ''true'') (c # r) then Some (JBool True, drop 3 r)
          else if starts_with (js ''false'') (c # r) then Some (JBool False, drop 4 r)
          else if starts_with (js ''null'') (c # r) then Some (JNull, drop 3 r)
          else do { (x, t) \<leftarrow> json_number (c # r); Some (JNum x, t) } }"
| "json_items 0 s = None"
| "json_items (Suc n) s =
     do { (v, r) \<leftarrow> json_value n s;
          (d, t) \<leftarrow> next_unit r;
          if d = 44 then do { (vs, u) \<leftarrow> json_items n t; Some (v # vs, u) }
          else if d = 93 then Some ([v], t)
          else None }"
| "json_members 0 s = None"
| "json_members (Suc n) s =
     do { (q, r) \<leftarrow> next_unit s;
          if q \<noteq> 34 then None
          else do { (k, r1) \<leftarrow> json_string r;
                    (col, r2) \<leftarrow> next_unit r1;
                    if col \<noteq> 58 then None
                    else do { (v, r3) \<leftarrow> json_value n r2;
                              (d, t) \<leftarrow> next_unit r3;
                              if d = 44 then do { (es, u) \<leftarrow> json_members n t; Some ((k, v) # es, u) }
                              else if d = 125 then Some ([(k, v)], t)
                              else None } } }"

text \<open>\<open>JSON.parse(s)\<close>, with \<open>None\<close> for the \<open>SyntaxError\<close> it throws.\<close>

definition json_parse :: "jsstr \<Rightarrow> jsval option" where
  "json_parse s =
     (case json_value (2 * length s + 2) s of
        Some (v, r) \<Rightarrow> if skip_ws r = [] then Some v else None
      | None \<Rightarrow> None)"

section \<open>Printing\<close>

definition hex_digit :: "nat \<Rightarrow> code_unit" where
  "hex_digit d = (if d < 10 then 48 + d else 87 + d)"

definition hex_pad4 :: "nat \<Rightarrow> jsstr" where
  "hex_pad4 n = [hex_digit (n div 4096 mod 16), hex_digit (n div 256 mod 16),
                 hex_digit (n div 16 mod 16), hex_digit (n mod 16)]"

definition is_surrogate :: "code_unit \<Rightarrow> bool" where
  "is_surrogate c \<longleftrightarrow> 55296 \<le> c \<and> c \<le> 57343"

definition is_high :: "code_unit \<Rightarrow> bool" where
  "is_high c \<longleftrightarrow> 55296 \<le> c \<and> c \<le> 56319"

definition is_low :: "code_unit \<Rightarrow> bool" where
  "is_low c \<longleftrightarrow> 56320 \<le> c \<and> c \<le> 57343"

definition quote_unit :: "code_unit \<Rightarrow> jsstr" where
  "quote_unit c =
     (if c = 8 then [92, 98] else if c = 9 then [92, 116] else if c = 10 then [92, 110]
      else if c = 12 then [92, 102] else if c = 13 then [92, 114]
      else if c = 34 then [92, 34] else if c = 92 then [92, 92]
      else if c < 32 then [92, 117] @ hex_pad4 c
      else [c])"

text \<open>A lone surrogate is escaped, a pair is printed as it is.\<close>

fun quote_units :: "jsstr \<Rightarrow> jsstr" where
  "quote_units [] = []"
| "quote_units [c] = (if is_surrogate c then [92, 117] @ hex_pad4 c else quote_unit c)"
| "quote_units (c # d # s) =
     (if is_high c \<and> is_low d then c # d # quote_units s
      else if is_surrogate c then ([92, 117] @ hex_pad4 c) @ quote_units (d # s)
      else quote_unit c @ quote_units (d # s))"

definition json_quote :: "jsstr \<Rightarrow> jsstr" where
  "json_quote s = [34] @ quote_units s @ [34]"

definition json_indent :: "nat \<Rightarrow> nat \<Rightarrow> jsstr" where \<comment> \<open>a line break and \<open>d\<close> levels, when indenting\<close>
  "json_indent w d = (if w = 0 then [] else 10 # replicate (w * d) 32)"

text \<open>
  \<open>JSON.stringify(v, null, w)\<close> at depth \<open>d\<close>; a property that holds \<open>undefined\<close> is left out and an
  array element that does prints as \<open>null\<close>, as does a number that is not finite.
\<close>

fun json_print :: "nat \<Rightarrow> nat \<Rightarrow> jsval \<Rightarrow> jsstr"
  and json_print_items :: "nat \<Rightarrow> nat \<Rightarrow> jsval list \<Rightarrow> jsstr list"
  and json_print_members :: "nat \<Rightarrow> nat \<Rightarrow> (jsstr \<times> jsval) list \<Rightarrow> jsstr list" where
  "json_print w d JUndef = js ''null''"
| "json_print w d JNull = js ''null''"
| "json_print w d (JBool b) = (if b then js ''true'' else js ''false'')"
| "json_print w d (JNum x) = (case x of Fin _ \<Rightarrow> num_to_str x | _ \<Rightarrow> js ''null'')"
| "json_print w d (JStr s) = json_quote s"
| "json_print w d (JArr xs) =
     (case json_print_items w (Suc d) xs of
        [] \<Rightarrow> js ''[]''
      | ps \<Rightarrow> [91] @ json_indent w (Suc d) @ join (44 # json_indent w (Suc d)) ps @ json_indent w d @ [93])"
| "json_print w d (JObj ms) =
     (case json_print_members w (Suc d) ms of
        [] \<Rightarrow> js ''{}''
      | ps \<Rightarrow> [123] @ json_indent w (Suc d) @ join (44 # json_indent w (Suc d)) ps @ json_indent w d @ [125])"
| "json_print_items w d [] = []"
| "json_print_items w d (x # xs) = json_print w d x # json_print_items w d xs"
| "json_print_members w d [] = []"
| "json_print_members w d ((k, v) # ms) =
     (if v = JUndef then json_print_members w d ms
      else (json_quote k @ [58] @ (if w = 0 then [] else [32]) @ json_print w d v)
           # json_print_members w d ms)"

definition json_stringify :: "nat \<Rightarrow> jsval \<Rightarrow> jsstr" where
  "json_stringify w v = json_print w 0 v"

section \<open>The fuel is enough\<close>

lemma length_skip_ws: "length (skip_ws s) \<le> length s"
  by (simp add: skip_ws_def length_dropWhile_le)

lemma next_unit_shorter: "next_unit s = Some (c, r) \<Longrightarrow> length r < length s"
  using length_skip_ws [of s] by (auto simp: next_unit_def split: list.splits)

lemma json_string_shorter: "json_string s = Some (k, r) \<Longrightarrow> length r < length s"
proof (induction s arbitrary: k r rule: json_string.induct)
  case 1
  then show ?case by simp
next
  case (2 c r')
  note step = "2.prems" [unfolded json_string.simps(2)]
  show ?case
  proof (cases "c = 34 \<or> c < 32 \<or> c \<noteq> 92")
    case True
    with step show ?thesis
      by (auto split: if_splits dest: "2.IH"(3) [rotated 3])
  next
    case False
    then have c: "c = 92" by simp
    show ?thesis
    proof (cases r')
      case Nil
      with step c show ?thesis by simp
    next
      case (Cons d t)
      show ?thesis
      proof (cases "simple_escape d")
        case None
        with step c Cons obtain u k' where d: "d = 117" "hex4 t = Some u"
          "json_string (drop 4 t) = Some (k', r)"
          by (auto split: if_splits option.splits)
        from "2.IH"(1) [OF _ _ _ Cons None d] c have "length r < length (drop 4 t)" by simp
        with Cons show ?thesis by simp
      next
        case (Some u)
        with step c Cons obtain k' where "json_string t = Some (k', r)" by auto
        from "2.IH"(2) [OF _ _ _ Cons Some this] c Cons show ?thesis by simp
      qed
    qed
  qed
qed

lemma dropWhile_shorter: "takeWhile P s \<noteq> [] \<Longrightarrow> length (dropWhile P s) < length s"
  by (cases s) (auto simp: less_Suc_eq_le length_dropWhile_le split: if_splits)

lemma json_exponent_le: "json_exponent s = Some (e, r) \<Longrightarrow> length r \<le> length s"
proof (cases s)
  case (Cons c t)
  have "length (dropWhile is_digit (tl t)) \<le> Suc (length t)"
    by (metis diff_le_self le_Suc_eq le_trans length_dropWhile_le length_tl)
  moreover have "length (dropWhile is_digit t) \<le> Suc (length t)"
    by (simp add: le_SucI length_dropWhile_le)
  moreover assume "json_exponent s = Some (e, r)"
  ultimately show ?thesis
    using Cons by (auto simp: json_exponent_def Let_def split: if_splits)
qed (auto simp: json_exponent_def)

lemma json_fraction_le: "json_fraction r = Some (fp, r') \<Longrightarrow> length r' \<le> length r"
  by (auto simp: json_fraction_def le_SucI length_dropWhile_le split: list.splits if_splits)

lemma json_unsigned_shorter: "json_unsigned t = Some (x, r) \<Longrightarrow> length r < length t"
proof -
  assume "json_unsigned t = Some (x, r)"
  then obtain fp r1 e where "takeWhile is_digit t \<noteq> []"
    and "json_fraction (dropWhile is_digit t) = Some (fp, r1)" and "json_exponent r1 = Some (e, r)"
    by (auto simp: json_unsigned_def Let_def bind_eq_Some_conv split: if_splits)
  with dropWhile_shorter json_fraction_le json_exponent_le show ?thesis
    by (meson le_less_trans order_trans)
qed

lemma json_number_shorter: "json_number s = Some (x, r) \<Longrightarrow> length r < length s"
  using json_unsigned_shorter [of s] json_unsigned_shorter [of "tl s"]
  by (auto simp: json_number_def bind_eq_Some_conv split: if_splits)

lemma json_shorter:
  "json_value n s = Some (v, r) \<Longrightarrow> length r < length s"
  "json_items n s = Some (vs, r) \<Longrightarrow> length r < length s"
  "json_members n s = Some (es, r) \<Longrightarrow> length r < length s"
proof (induction n arbitrary: s v r vs es)
  case 0
  {
    case 1 then show ?case by simp
  next
    case 2 then show ?case by simp
  next
    case 3 then show ?case by simp
  }
next
  case (Suc n)
  {
    case 1
    then obtain c t where ct: "next_unit s = Some (c, t)" by (auto simp: bind_eq_Some_conv)
    then have "length t < length s" by (rule next_unit_shorter)
    moreover from 1 ct have "length r \<le> length t"
      by (auto simp: bind_eq_Some_conv split: if_splits
          dest!: Suc.IH(2) Suc.IH(3) next_unit_shorter json_string_shorter json_number_shorter)
    ultimately show ?case by linarith
  next
    case 2
    then obtain v' r' d t where v: "json_value n s = Some (v', r')" "next_unit r' = Some (d, t)"
      and rest: "r = t \<or> (\<exists>us. json_items n t = Some (us, r))"
      by (auto simp: bind_eq_Some_conv split: if_splits)
    from rest have "length r \<le> length t" using Suc.IH(2) by fastforce
    with Suc.IH(1) [OF v(1)] next_unit_shorter [OF v(2)] show ?case by linarith
  next
    case 3
    then obtain q r0 k r1 col r2 v' r3 d t where
      m: "next_unit s = Some (q, r0)" "json_string r0 = Some (k, r1)" "next_unit r1 = Some (col, r2)"
        "json_value n r2 = Some (v', r3)" "next_unit r3 = Some (d, t)"
      and rest: "r = t \<or> (\<exists>us. json_members n t = Some (us, r))"
      by (auto simp: bind_eq_Some_conv split: if_splits)
    from rest have "length r \<le> length t" using Suc.IH(3) by fastforce
    with Suc.IH(1) [OF m(4)] next_unit_shorter [OF m(1)] json_string_shorter [OF m(2)]
      next_unit_shorter [OF m(3)] next_unit_shorter [OF m(5)]
    show ?case by linarith
  }
qed

text \<open>Two amounts of fuel beyond twice the length give the same outcome.\<close>

lemma json_fuel_stable:
  "2 * length s + 1 \<le> n \<Longrightarrow> 2 * length s + 1 \<le> m \<Longrightarrow> json_value n s = json_value m s"
  "2 * length s + 2 \<le> n \<Longrightarrow> 2 * length s + 2 \<le> m \<Longrightarrow> json_items n s = json_items m s"
  "2 * length s + 2 \<le> n \<Longrightarrow> 2 * length s + 2 \<le> m \<Longrightarrow> json_members n s = json_members m s"
proof (induction n arbitrary: s m)
  case 0
  {
    case 1 then show ?case by simp
  next
    case 2 then show ?case by simp
  next
    case 3 then show ?case by simp
  }
next
  case (Suc n)
  {
    case 1
    then obtain m' where m: "m = Suc m'" by (cases m) auto
    have ih: "json_items n r = json_items m' r" "json_members n r = json_members m' r"
      if "next_unit s = Some (c, r)" for c r
      using next_unit_shorter [OF that] 1 m by (auto intro: Suc.IH(2,3))
    show ?case
      unfolding m json_value.simps by (rule Option.bind_cong [OF refl]) (auto simp: ih intro!: Option.bind_cong)
  next
    case 2
    then obtain m' where m: "m = Suc m'" by (cases m) auto
    from 2 m have v: "json_value n s = json_value m' s" by (auto intro: Suc.IH(1))
    have ih: "json_items n t = json_items m' t"
      if "json_value m' s = Some (w, r)" "next_unit r = Some (d, t)" for w r d t
      using json_shorter(1) [OF that(1)] next_unit_shorter [OF that(2)] 2 m by (auto intro: Suc.IH(2))
    show ?case
      unfolding m json_items.simps v
      by (rule Option.bind_cong [OF refl]) (auto simp: ih intro!: Option.bind_cong)
  next
    case 3
    then obtain m' where m: "m = Suc m'" by (cases m) auto
    have v: "json_value n r2 = json_value m' r2"
      if "next_unit s = Some (q, r0)" "json_string r0 = Some (k, r1)" "next_unit r1 = Some (col, r2)"
      for q r0 k r1 col r2
      using next_unit_shorter [OF that(1)] json_string_shorter [OF that(2)]
        next_unit_shorter [OF that(3)] 3 m by (auto intro: Suc.IH(1))
    have ih: "json_members n t = json_members m' t"
      if "next_unit s = Some (q, r0)" "json_string r0 = Some (k, r1)" "next_unit r1 = Some (col, r2)"
        "json_value m' r2 = Some (w, r3)" "next_unit r3 = Some (d, t)" for q r0 k r1 col r2 w r3 d t
      using next_unit_shorter [OF that(1)] json_string_shorter [OF that(2)]
        next_unit_shorter [OF that(3)] json_shorter(1) [OF that(4)] next_unit_shorter [OF that(5)] 3 m
      by (auto intro: Suc.IH(3))
    show ?case
      unfolding m json_members.simps
      by (rule Option.bind_cong [OF refl]) (auto simp: v ih intro!: Option.bind_cong)
  }
qed

lemma json_fuel_enough:
  "2 * length s + 2 \<le> n \<Longrightarrow> json_value n s = json_value (2 * length s + 2) s"
  by (rule json_fuel_stable(1)) simp_all

end
