(* ===== verification/Js_Uri.thy ===== *)
theory Js_Uri
  imports Js_Json
begin

text \<open>
  UTF-8 and percent encoding: the byte length a \<open>TextEncoder\<close> reports, \<open>encodeURIComponent\<close>,
  \<open>decodeURIComponent\<close> (each raising \<open>URIError\<close> where the standard says so, here \<open>None\<close>), and the
  fact that decoding undoes encoding.
\<close>

section \<open>Code points and bytes\<close>

text \<open>The code points of a string; a lone surrogate is \<open>None\<close>.\<close>

fun code_points :: "jsstr \<Rightarrow> nat option list" where
  "code_points [] = []"
| "code_points (c # s) =
     (if is_high c then
        (case s of
           d # t \<Rightarrow>
             if is_low d then Some (65536 + (c - 55296) * 1024 + (d - 56320)) # code_points t
             else None # code_points s
         | [] \<Rightarrow> [None])
      else if is_low c then None # code_points s
      else Some c # code_points s)"

definition utf8 :: "nat \<Rightarrow> nat list" where
  "utf8 p =
     (if p < 128 then [p]
      else if p < 2048 then [192 + p div 64, 128 + p mod 64]
      else if p < 65536 then [224 + p div 4096, 128 + p div 64 mod 64, 128 + p mod 64]
      else [240 + p div 262144, 128 + p div 4096 mod 64, 128 + p div 64 mod 64, 128 + p mod 64])"

text \<open>\<open>new TextEncoder().encode(s).byteLength\<close>: a lone surrogate is encoded as U+FFFD.\<close>

definition utf8_byte_length :: "jsstr \<Rightarrow> nat" where
  "utf8_byte_length s =
     sum_list (map (\<lambda>p. case p of Some q \<Rightarrow> length (utf8 q) | None \<Rightarrow> 3) (code_points s))"

section \<open>Iteration\<close>

text \<open>The elements \<open>for \<dots> of\<close> visits; the ones of a string are its characters.\<close>

fun characters :: "jsstr \<Rightarrow> jsstr list" where
  "characters [] = []"
| "characters [c] = [[c]]"
| "characters (c # d # s) =
     (if is_high c \<and> is_low d then [c, d] # characters s else [c] # characters (d # s))"

definition iterate :: "jsval \<Rightarrow> exn + jsval list" where
  "iterate v =
     (case v of
        JArr xs \<Rightarrow> Inr xs
      | JStr s \<Rightarrow> Inr (map JStr (characters s))
      | _ \<Rightarrow> Inl TypeError)"

section \<open>encodeURIComponent\<close>

definition uri_unreserved :: "nat \<Rightarrow> bool" where
  "uri_unreserved c \<longleftrightarrow> is_alnum c \<or> c \<in> set (js ''-_.!~*'') \<or> c = 39 \<or> c = 40 \<or> c = 41"

definition hex_upper :: "nat \<Rightarrow> code_unit" where
  "hex_upper d = (if d < 10 then 48 + d else 55 + d)"

definition percent_byte :: "nat \<Rightarrow> jsstr" where
  "percent_byte b = [37, hex_upper (b div 16), hex_upper (b mod 16)]"

definition encode_point :: "nat \<Rightarrow> jsstr" where
  "encode_point p = (if uri_unreserved p then [p] else concat (map percent_byte (utf8 p)))"

fun encode_points :: "nat option list \<Rightarrow> jsstr option" where
  "encode_points [] = Some []"
| "encode_points (None # ps) = None"
| "encode_points (Some p # ps) = map_option ((@) (encode_point p)) (encode_points ps)"

definition encode_uri :: "jsstr \<Rightarrow> jsstr option" where
  "encode_uri s = encode_points (code_points s)"

section \<open>decodeURIComponent\<close>

definition percent_decode :: "jsstr \<Rightarrow> (nat \<times> jsstr) option" where \<comment> \<open>one \<open>%XX\<close>\<close>
  "percent_decode s =
     (case s of
        p # a # b # t \<Rightarrow>
          if p = 37 then map_option (\<lambda>v. (v, t)) (radix_value 16 [a, b]) else None
      | _ \<Rightarrow> None)"

fun continuation :: "nat \<Rightarrow> nat \<Rightarrow> jsstr \<Rightarrow> (nat \<times> jsstr) option" where \<comment> \<open>the trailing bytes\<close>
  "continuation 0 acc s = Some (acc, s)"
| "continuation (Suc n) acc s =
     do { (b, t) \<leftarrow> percent_decode s;
          if 128 \<le> b \<and> b < 192 then continuation n (acc * 64 + (b - 128)) t else None }"

definition units_of_point :: "nat \<Rightarrow> jsstr" where
  "units_of_point p =
     (if p < 65536 then [p]
      else [55296 + (p - 65536) div 1024, 56320 + (p - 65536) mod 1024])"

text \<open>One escaped code point; overlong forms, surrogates and values past U+10FFFF are refused.\<close>

definition decode_point :: "jsstr \<Rightarrow> (nat \<times> jsstr) option" where
  "decode_point s =
     do { (b, t) \<leftarrow> percent_decode s;
          if b < 128 then Some (b, t)
          else if 192 \<le> b \<and> b < 224 then
            do { (p, u) \<leftarrow> continuation 1 (b - 192) t; if 128 \<le> p then Some (p, u) else None }
          else if 224 \<le> b \<and> b < 240 then
            do { (p, u) \<leftarrow> continuation 2 (b - 224) t;
                 if 2048 \<le> p \<and> \<not> is_surrogate p then Some (p, u) else None }
          else if 240 \<le> b \<and> b < 248 then
            do { (p, u) \<leftarrow> continuation 3 (b - 240) t;
                 if 65536 \<le> p \<and> p < 1114112 then Some (p, u) else None }
          else None }"

function decode_uri :: "jsstr \<Rightarrow> jsstr option" where
  "decode_uri [] = Some []"
| "decode_uri (c # s) =
     (if c = 37 then
        (case decode_point (c # s) of
           Some (p, t) \<Rightarrow>
             if length t < length (c # s) then map_option ((@) (units_of_point p)) (decode_uri t)
             else None
         | None \<Rightarrow> None)
      else map_option (Cons c) (decode_uri s))"
  by pat_completeness auto
termination
  by (relation "measure length") auto

declare decode_uri.simps(2) [simp del]

section \<open>Decoding undoes encoding\<close>

lemma hex_upper_value: "d < 16 \<Longrightarrow> digit_value (hex_upper d) = Some d"
  by (auto simp: hex_upper_def digit_value_def is_digit_def)

lemma percent_decode_byte: "b < 256 \<Longrightarrow> percent_decode (percent_byte b @ t) = Some (b, t)"
  by (simp add: percent_byte_def percent_decode_def radix_value_def hex_upper_value less_mult_imp_div_less)

lemma continuation_rounds:
  "continuation 1 a s = continuation (Suc 0) a s"
  "continuation 2 a s = continuation (Suc (Suc 0)) a s"
  "continuation 3 a s = continuation (Suc (Suc (Suc 0))) a s"
  by (simp_all only: One_nat_def numeral_2_eq_2 numeral_3_eq_3)

text \<open>Well-formed strings: code units are 16 bits wide and surrogates come in pairs.\<close>

definition well_formed :: "jsstr \<Rightarrow> bool" where
  "well_formed s \<longleftrightarrow> (\<forall>c\<in>set s. c < 65536) \<and> None \<notin> set (code_points s)"

lemma decode_point_utf8:
  assumes "p < 1114112" and "\<not> is_surrogate p"
  shows "decode_point (concat (map percent_byte (utf8 p)) @ t) = Some (p, t)"
proof -
  have mod: "128 + x mod 64 < 256" "128 + x mod 64 - 128 = x mod 64" "128 + x mod 64 < 192" for x :: nat
    by (auto simp: less_imp_le_nat)
  consider "p < 128" | "128 \<le> p" "p < 2048" | "2048 \<le> p" "p < 65536" | "65536 \<le> p"
    by linarith
  then show ?thesis
  proof cases
    case 1
    then show ?thesis by (simp add: utf8_def decode_point_def percent_decode_byte)
  next
    case 2
    then have u: "utf8 p = [192 + p div 64, 128 + p mod 64]" and b: "192 + p div 64 < 224"
      by (simp add: utf8_def, linarith)
    from 2(1) b mod [of p] show ?thesis
      by (simp add: u decode_point_def percent_decode_byte continuation_rounds)
  next
    case 3
    then have u: "utf8 p = [224 + p div 4096, 128 + p div 64 mod 64, 128 + p mod 64]"
      and b: "224 + p div 4096 < 240"
      by (simp add: utf8_def, linarith)
    have "p div 4096 = p div 64 div 64" by (simp add: div_mult2_eq [symmetric])
    then have eq: "((p div 4096) * 64 + p div 64 mod 64) * 64 + p mod 64 = p"
      by (simp only: div_mult_mod_eq)
    from 3(1) b mod [of p] mod [of "p div 64"] assms(2) eq show ?thesis
      by (simp add: u decode_point_def percent_decode_byte continuation_rounds)
  next
    case 4
    then have u: "utf8 p = [240 + p div 262144, 128 + p div 4096 mod 64, 128 + p div 64 mod 64,
        128 + p mod 64]"
      by (simp add: utf8_def)
    from assms(1) have b: "240 + p div 262144 < 248" by linarith
    have "p div 4096 = p div 64 div 64" "p div 262144 = p div 64 div 64 div 64"
      by (simp_all add: div_mult2_eq [symmetric])
    then have eq: "(((p div 262144) * 64 + p div 4096 mod 64) * 64 + p div 64 mod 64) * 64 + p mod 64 = p"
      by (simp only: div_mult_mod_eq)
    from 4 b assms(1) mod [of p] mod [of "p div 64"] mod [of "p div 4096"] eq show ?thesis
      by (simp add: u decode_point_def percent_decode_byte continuation_rounds)
  qed
qed

lemma utf8_not_Nil [simp]: "utf8 p \<noteq> []"
  by (simp add: utf8_def)

lemma decode_uri_encode_point:
  assumes "p < 1114112" and "\<not> is_surrogate p"
  shows "decode_uri (encode_point p @ t) = map_option ((@) (units_of_point p)) (decode_uri t)"
proof (cases "uri_unreserved p")
  case True
  then have "p \<noteq> 37" "p < 65536"
    by (auto simp: uri_unreserved_def is_alnum_def is_alpha_def is_upper_def is_lower_def
        is_digit_def js_def)
  with True show ?thesis
    by (cases "decode_uri t") (simp_all add: encode_point_def units_of_point_def decode_uri.simps(2))
next
  case False
  obtain b bs where b: "utf8 p = b # bs" by (cases "utf8 p") auto
  then have "concat (map percent_byte (utf8 p)) @ t
      = 37 # hex_upper (b div 16) # hex_upper (b mod 16) # concat (map percent_byte bs) @ t"
    by (simp add: percent_byte_def)
  moreover from decode_point_utf8 [OF assms, of t] this
  have "decode_point (37 # hex_upper (b div 16) # hex_upper (b mod 16) # concat (map percent_byte bs) @ t)
      = Some (p, t)" by simp
  ultimately show ?thesis
    using False by (simp add: encode_point_def decode_uri.simps(2))
qed

lemma code_points_valid:
  "\<forall>c\<in>set s. c < 65536 \<Longrightarrow> Some p \<in> set (code_points s) \<Longrightarrow> p < 1114112 \<and> \<not> is_surrogate p"
proof (induction s rule: code_points.induct)
  case 1
  then show ?case by simp
next
  case (2 c s)
  then show ?case
    by (auto simp: is_high_def is_low_def is_surrogate_def split: if_splits list.splits)
qed

lemma code_points_units:
  "\<forall>c\<in>set s. c < 65536 \<Longrightarrow> None \<notin> set (code_points s) \<Longrightarrow>
    concat (map (\<lambda>p. units_of_point (the p)) (code_points s)) = s"
proof (induction s rule: code_points.induct)
  case 1
  then show ?case by simp
next
  case (2 c s)
  have pair: "units_of_point (65536 + (c - 55296) * 1024 + (d - 56320)) = [c, d]"
    if "is_high c" "is_low d" for d
  proof -
    from that have "55296 \<le> c" "56320 \<le> d" "d < 56320 + 1024"
      by (auto simp: is_high_def is_low_def)
    then obtain m k where "c = 55296 + m" "d = 56320 + k" "k < 1024"
      by (metis le_iff_add nat_add_left_cancel_less)
    then show ?thesis by (simp add: units_of_point_def)
  qed
  consider d t where "is_high c" "s = d # t" "is_low d" | "\<not> is_high c" "\<not> is_low c"
    | "is_high c" "\<forall>d t. s = d # t \<longrightarrow> \<not> is_low d" | "\<not> is_high c" "is_low c"
    by (cases s) auto
  then show ?case
  proof cases
    case 1
    with 2 pair [of d] show ?thesis by simp
  next
    case 2
    with "2.prems" "2.IH" show ?thesis by (simp add: units_of_point_def)
  next
    case 3
    then have "None \<in> set (code_points (c # s))" by (cases s) simp_all
    with "2.prems" show ?thesis by blast
  next
    case 4
    then have "None \<in> set (code_points (c # s))" by simp
    with "2.prems" show ?thesis by blast
  qed
qed

lemma encode_points_Some:
  "None \<notin> set ps \<Longrightarrow> encode_points ps = Some (concat (map (\<lambda>p. encode_point (the p)) ps))"
proof (induction ps)
  case (Cons p ps)
  then show ?case by (cases p) auto
qed simp

lemma encode_uri_None_iff: "encode_uri s = None \<longleftrightarrow> None \<in> set (code_points s)"
proof -
  have "encode_points ps = None" if "None \<in> set ps" for ps
    using that
  proof (induction ps)
    case (Cons p ps)
    then show ?case by (cases p) auto
  qed simp
  then show ?thesis
    using encode_points_Some by (fastforce simp: encode_uri_def)
qed

lemma decode_uri_points:
  "(\<And>p. p \<in> set ps \<Longrightarrow> p < 1114112 \<and> \<not> is_surrogate p) \<Longrightarrow>
    decode_uri (concat (map encode_point ps)) = Some (concat (map units_of_point ps))"
  by (induction ps) (auto simp: decode_uri_encode_point)

lemma decode_encode_uri:
  assumes "well_formed s"
  shows "\<exists>e. encode_uri s = Some e \<and> decode_uri e = Some s"
proof -
  from assms have s: "\<forall>c\<in>set s. c < 65536" "None \<notin> set (code_points s)"
    by (auto simp: well_formed_def)
  let ?ps = "map the (code_points s)"
  have "encode_uri s = Some (concat (map encode_point ?ps))"
    using encode_points_Some [OF s(2)] by (simp add: encode_uri_def comp_def)
  moreover have "p < 1114112 \<and> \<not> is_surrogate p" if "p \<in> set ?ps" for p
    using that s by (auto intro!: code_points_valid) (metis option.exhaust_sel code_points_valid s(1))+
  then have "decode_uri (concat (map encode_point ?ps)) = Some (concat (map units_of_point ?ps))"
    by (rule decode_uri_points)
  ultimately show ?thesis
    using code_points_units [OF s] by (simp add: comp_def)
qed

end
