(* ===== verification/Js_Regex.thy ===== *)
theory Js_Regex
  imports Prelude
begin

text \<open>
  Regular expressions with ECMAScript's backtracking semantics. \<open>rmatch\<close> lists the outcomes of a
  match in the order the backtracking matcher tries them, so its head is the match JavaScript
  reports; a state holds the text before the cursor (reversed), the text after it and the
  captures. \<open>lang\<close> is the denotational reading of the expressions without assertions, and
  \<open>rmatch_iff_lang\<close> states that the matcher finds exactly the words of the language.
\<close>

section \<open>Expressions\<close>

datatype re =
    Eps
  | Cls bool "(code_unit \<times> code_unit) list" \<comment> \<open>\<open>[\<dots>]\<close>, or \<open>[^\<dots>]\<close> when the flag is set\<close>
  | Seq re re
  | Alt re re
  | Star bool re \<comment> \<open>\<open>*\<close> when the flag is set, \<open>*?\<close> when not\<close>
  | Grp nat re
  | Bol
  | Eol
  | WordB

type_synonym mstate = "jsstr \<times> jsstr \<times> (nat \<times> jsstr) list"

definition in_cls :: "bool \<Rightarrow> (code_unit \<times> code_unit) list \<Rightarrow> code_unit \<Rightarrow> bool" where
  "in_cls neg rs c \<longleftrightarrow> (\<exists>r\<in>set rs. fst r \<le> c \<and> c \<le> snd r) \<noteq> neg"

definition is_word_unit :: "code_unit \<Rightarrow> bool" where
  "is_word_unit c \<longleftrightarrow> is_alnum c \<or> c = 95"

definition at_word_boundary :: "jsstr \<Rightarrow> jsstr \<Rightarrow> bool" where
  "at_word_boundary l s \<longleftrightarrow>
     (case l of [] \<Rightarrow> False | c # _ \<Rightarrow> is_word_unit c)
     \<noteq> (case s of [] \<Rightarrow> False | c # _ \<Rightarrow> is_word_unit c)"

section \<open>The backtracking matcher\<close>

definition shorter :: "mstate \<Rightarrow> mstate \<Rightarrow> bool" where
  "shorter st st' \<longleftrightarrow> length (fst (snd st')) < length (fst (snd st))"

text \<open>
  Iterations of a quantifier: an iteration that consumes nothing is refused, so as many rounds
  as there are code units left are enough.
\<close>

fun star_iter :: "bool \<Rightarrow> (mstate \<Rightarrow> mstate list) \<Rightarrow> nat \<Rightarrow> mstate \<Rightarrow> mstate list" where
  "star_iter g f 0 st = [st]"
| "star_iter g f (Suc n) st =
     (let more = concat (map (star_iter g f n) (filter (shorter st) (f st)))
      in if g then more @ [st] else st # more)"

primrec rmatch :: "re \<Rightarrow> mstate \<Rightarrow> mstate list" where
  "rmatch Eps st = [st]"
| "rmatch (Cls neg rs) st =
     (case st of (l, s, cs) \<Rightarrow>
       (case s of [] \<Rightarrow> [] | c # s' \<Rightarrow> if in_cls neg rs c then [(c # l, s', cs)] else []))"
| "rmatch (Seq a b) st = concat (map (rmatch b) (rmatch a st))"
| "rmatch (Alt a b) st = rmatch a st @ rmatch b st"
| "rmatch (Star g a) st = star_iter g (rmatch a) (length (fst (snd st))) st"
| "rmatch (Grp k a) st =
     (case st of (l, s, cs) \<Rightarrow>
       map (\<lambda>(l', s', cs'). (l', s', (k, take (length s - length s') s) # cs'))
         (rmatch a (l, s, cs)))"
| "rmatch Bol st = (case st of (l, s, cs) \<Rightarrow> if l = [] then [st] else [])"
| "rmatch Eol st = (case st of (l, s, cs) \<Rightarrow> if s = [] then [st] else [])"
| "rmatch WordB st = (case st of (l, s, cs) \<Rightarrow> if at_word_boundary l s then [st] else [])"

section \<open>Building expressions\<close>

definition any_re :: re where \<comment> \<open>\<open>[\s\S]\<close>\<close>
  "any_re = Cls True []"

definition dot_re :: re where \<comment> \<open>\<open>.\<close>: no line terminator\<close>
  "dot_re = Cls True [(10, 10), (13, 13), (8232, 8233)]"

definition space_re :: re where \<comment> \<open>\<open>\s\<close>\<close>
  "space_re = Cls False [(9, 13), (32, 32), (160, 160), (5760, 5760), (8192, 8202), (8232, 8233),
     (8239, 8239), (8287, 8287), (12288, 12288), (65279, 65279)]"

definition nonspace_re :: re where \<comment> \<open>\<open>\S\<close>\<close>
  "nonspace_re = Cls True [(9, 13), (32, 32), (160, 160), (5760, 5760), (8192, 8202), (8232, 8233),
     (8239, 8239), (8287, 8287), (12288, 12288), (65279, 65279)]"

definition digit_re :: re where \<comment> \<open>\<open>\d\<close>\<close>
  "digit_re = Cls False [(48, 57)]"

definition unit_re :: "code_unit \<Rightarrow> re" where
  "unit_re c = Cls False [(c, c)]"

definition unit_i_re :: "code_unit \<Rightarrow> re" where \<comment> \<open>one ASCII letter under the \<open>i\<close> flag\<close>
  "unit_i_re c = (if is_lower c then Cls False [(c, c), (c - 32, c - 32)]
                  else if is_upper c then Cls False [(c, c), (c + 32, c + 32)]
                  else Cls False [(c, c)])"

primrec seq_re :: "re list \<Rightarrow> re" where
  "seq_re [] = Eps"
| "seq_re (r # rs) = Seq r (seq_re rs)"

fun alt_re :: "re list \<Rightarrow> re" where
  "alt_re [] = Cls False []"
| "alt_re [r] = r"
| "alt_re (r # rs) = Alt r (alt_re rs)"

definition lit_re :: "jsstr \<Rightarrow> re" where
  "lit_re s = seq_re (map unit_re s)"

definition lit_i_re :: "jsstr \<Rightarrow> re" where
  "lit_i_re s = seq_re (map unit_i_re s)"

definition opt_re :: "re \<Rightarrow> re" where
  "opt_re r = Alt r Eps"

definition plus_re :: "re \<Rightarrow> re" where
  "plus_re r = Seq r (Star True r)"

primrec upto_re :: "nat \<Rightarrow> re \<Rightarrow> re" where \<comment> \<open>\<open>{0,n}\<close>\<close>
  "upto_re 0 r = Eps"
| "upto_re (Suc n) r = Alt (Seq r (upto_re n r)) Eps"

lemmas re_build_defs = any_re_def dot_re_def space_re_def nonspace_re_def digit_re_def unit_re_def
  unit_i_re_def lit_re_def lit_i_re_def opt_re_def plus_re_def

section \<open>Searching, testing and replacing\<close>

text \<open>\<open>exec\<close>: the first position with an outcome; what precedes it (reversed) and the outcome.\<close>

fun rexec_from :: "re \<Rightarrow> jsstr \<Rightarrow> jsstr \<Rightarrow> (jsstr \<times> jsstr \<times> mstate) option" where
  "rexec_from r l [] =
     (case rmatch r (l, [], []) of m # _ \<Rightarrow> Some (l, [], m) | [] \<Rightarrow> None)"
| "rexec_from r l (c # s) =
     (case rmatch r (l, c # s, []) of
        m # _ \<Rightarrow> Some (l, c # s, m)
      | [] \<Rightarrow> rexec_from r (c # l) s)"

definition rtest :: "re \<Rightarrow> jsstr \<Rightarrow> bool" where
  "rtest r s \<longleftrightarrow> rexec_from r [] s \<noteq> None"

text \<open>The text an outcome consumed, and a capture of it.\<close>

definition matched :: "jsstr \<Rightarrow> mstate \<Rightarrow> jsstr" where
  "matched s m = take (length s - length (fst (snd m))) s"

definition capture :: "nat \<Rightarrow> mstate \<Rightarrow> jsstr option" where
  "capture k m = map_of (snd (snd m)) k"

definition rexec :: "re \<Rightarrow> jsstr \<Rightarrow> mstate option" where
  "rexec r s = map_option (\<lambda>(l, t, m). m) (rexec_from r [] s)"

text \<open>\<open>replace\<close> without the \<open>g\<close> flag, with a function of the match.\<close>

definition sub_first :: "re \<Rightarrow> (jsstr \<Rightarrow> mstate \<Rightarrow> jsstr) \<Rightarrow> jsstr \<Rightarrow> jsstr" where
  "sub_first r f s =
     (case rexec_from r [] s of
        None \<Rightarrow> s
      | Some (l, t, m) \<Rightarrow> rev l @ f (matched t m) m @ fst (snd m))"

text \<open>\<open>replace\<close> with the \<open>g\<close> flag; after an empty match the cursor moves on by one code unit.\<close>

function sub_all_from :: "re \<Rightarrow> (jsstr \<Rightarrow> mstate \<Rightarrow> jsstr) \<Rightarrow> jsstr \<Rightarrow> jsstr \<Rightarrow> jsstr" where
  "sub_all_from r f l s =
     (case rmatch r (l, s, []) of
        [] \<Rightarrow> (case s of [] \<Rightarrow> [] | c # s' \<Rightarrow> c # sub_all_from r f (c # l) s')
      | m # _ \<Rightarrow>
          f (matched s m) m
          @ (if length (fst (snd m)) < length s then sub_all_from r f (fst m) (fst (snd m))
             else (case s of [] \<Rightarrow> [] | c # s' \<Rightarrow> c # sub_all_from r f (c # l) s')))"
  by pat_completeness auto
termination
  by (relation "measure (\<lambda>(r, f, l, s). length s)") auto

declare sub_all_from.simps [simp del]

definition sub_all :: "re \<Rightarrow> (jsstr \<Rightarrow> mstate \<Rightarrow> jsstr) \<Rightarrow> jsstr \<Rightarrow> jsstr" where
  "sub_all r f s = sub_all_from r f [] s"

text \<open>\<open>matchAll\<close>: the start of each match, the text after it, and the outcome.\<close>

function match_all_from :: "re \<Rightarrow> nat \<Rightarrow> jsstr \<Rightarrow> jsstr \<Rightarrow> (nat \<times> jsstr \<times> mstate) list" where
  "match_all_from r i l s =
     (case rmatch r (l, s, []) of
        [] \<Rightarrow> (case s of [] \<Rightarrow> [] | c # s' \<Rightarrow> match_all_from r (Suc i) (c # l) s')
      | m # _ \<Rightarrow>
          (i, matched s m, m)
          # (if length (fst (snd m)) < length s
             then match_all_from r (i + (length s - length (fst (snd m)))) (fst m) (fst (snd m))
             else (case s of [] \<Rightarrow> [] | c # s' \<Rightarrow> match_all_from r (Suc i) (c # l) s')))"
  by pat_completeness auto
termination
  by (relation "measure (\<lambda>(r, i, l, s). length s)") auto

declare match_all_from.simps [simp del]

definition match_all :: "re \<Rightarrow> jsstr \<Rightarrow> (nat \<times> jsstr \<times> mstate) list" where
  "match_all r s = match_all_from r 0 [] s"

section \<open>The language of an expression\<close>

primrec plain :: "re \<Rightarrow> bool" where
  "plain Eps = True"
| "plain (Cls _ _) = True"
| "plain (Seq a b) = (plain a \<and> plain b)"
| "plain (Alt a b) = (plain a \<and> plain b)"
| "plain (Star _ a) = plain a"
| "plain (Grp _ a) = plain a"
| "plain Bol = False"
| "plain Eol = False"
| "plain WordB = False"

inductive_set star_lang :: "jsstr set \<Rightarrow> jsstr set" for L where
  star_Nil: "[] \<in> star_lang L"
| star_step: "u \<in> L \<Longrightarrow> u \<noteq> [] \<Longrightarrow> v \<in> star_lang L \<Longrightarrow> u @ v \<in> star_lang L"

inductive_simps in_star_lang_Nil [simp]: "[] \<in> star_lang L"

primrec lang :: "re \<Rightarrow> jsstr set" where
  "lang Eps = {[]}"
| "lang (Cls neg rs) = {[c] | c. in_cls neg rs c}"
| "lang (Seq a b) = {u @ v | u v. u \<in> lang a \<and> v \<in> lang b}"
| "lang (Alt a b) = lang a \<union> lang b"
| "lang (Star g a) = star_lang (lang a)"
| "lang (Grp k a) = lang a"
| "lang Bol = {}"
| "lang Eol = {}"
| "lang WordB = {}"

text \<open>What an outcome of a plain expression looks like: it moved the cursor over a word.\<close>

definition moves :: "jsstr set \<Rightarrow> mstate \<Rightarrow> mstate \<Rightarrow> bool" where
  "moves L st st' \<longleftrightarrow>
     (\<exists>w. fst (snd st) = w @ fst (snd st') \<and> fst st' = rev w @ fst st \<and> w \<in> L)"

lemma movesI: "s = w @ s' \<Longrightarrow> l' = rev w @ l \<Longrightarrow> w \<in> L \<Longrightarrow> moves L (l, s, cs) (l', s', cs')"
  by (auto simp: moves_def)

lemma moves_mono: "moves L st st' \<Longrightarrow> L \<subseteq> M \<Longrightarrow> moves M st st'"
  by (auto simp: moves_def)

lemma moves_trans:
  assumes "moves L st st'" and "moves M st' st''" and "\<And>u v. u \<in> L \<Longrightarrow> v \<in> M \<Longrightarrow> u @ v \<in> N"
  shows "moves N st st''"
  using assms unfolding moves_def by (metis append.assoc rev_append)

lemma star_iter_moves:
  assumes step: "\<And>a b. b \<in> set (f a) \<Longrightarrow> moves L a b"
  shows "st' \<in> set (star_iter g f n st) \<Longrightarrow> moves (star_lang L) st st'"
proof (induction n arbitrary: st)
  case 0
  then show ?case by (auto simp: moves_def intro: star_Nil)
next
  case (Suc n)
  then consider "st' = st" | mid where "mid \<in> set (f st)" "shorter st mid"
      "st' \<in> set (star_iter g f n mid)"
    by (auto simp: Let_def split: if_splits)
  then show ?case
  proof cases
    case 1
    then show ?thesis by (auto simp: moves_def intro: star_Nil)
  next
    case 2
    from step [OF 2(1)] obtain w where w: "fst (snd st) = w @ fst (snd mid)"
      "fst mid = rev w @ fst st" "w \<in> L" by (auto simp: moves_def)
    with 2(2) have "w \<noteq> []" by (auto simp: shorter_def)
    with w have "moves (L - {[]}) st mid" by (auto simp: moves_def)
    moreover from Suc.IH [OF 2(3)] have "moves (star_lang L) mid st'" .
    ultimately show ?thesis by (rule moves_trans) (auto intro: star_step)
  qed
qed

lemma rmatch_moves: "plain r \<Longrightarrow> st' \<in> set (rmatch r st) \<Longrightarrow> moves (lang r) st st'"
proof (induction r arbitrary: st st')
  case (Seq a b)
  then obtain mid where "mid \<in> set (rmatch a st)" "st' \<in> set (rmatch b mid)"
    by auto
  with Seq have "moves (lang a) st mid" and "moves (lang b) mid st'"
    by auto
  then show ?case by (rule moves_trans) auto
next
  case (Alt a b)
  from Alt.prems consider "st' \<in> set (rmatch a st)" | "st' \<in> set (rmatch b st)" by auto
  then show ?case
  proof cases
    case 1
    with Alt.IH(1) Alt.prems(1) have "moves (lang a) st st'" by simp
    then show ?thesis by (rule moves_mono) simp
  next
    case 2
    with Alt.IH(2) Alt.prems(1) have "moves (lang b) st st'" by simp
    then show ?thesis by (rule moves_mono) simp
  qed
next
  case (Star g a)
  have "moves (lang a) x y" if "y \<in> set (rmatch a x)" for x y
    using Star.IH [OF _ that] Star.prems(1) by simp
  from star_iter_moves [of "rmatch a", OF this] Star.prems(2) show ?case by simp
next
  case (Grp k a)
  obtain l s cs where st: "st = (l, s, cs)" by (cases st)
  with Grp.prems obtain l' s' cs' where out: "(l', s', cs') \<in> set (rmatch a (l, s, cs))"
    and "st' = (l', s', (k, take (length s - length s') s) # cs')"
    by auto
  with Grp.IH [OF _ out] Grp.prems(1) st show ?case by (auto simp: moves_def)
qed (auto simp: moves_def split: list.splits if_splits)

text \<open>Every word of the language is found, from any state.\<close>

lemma star_iter_step:
  "mid \<in> set (f st) \<Longrightarrow> shorter st mid \<Longrightarrow> out \<in> set (star_iter g f n mid) \<Longrightarrow>
    out \<in> set (star_iter g f (Suc n) st)"
proof -
  assume "mid \<in> set (f st)" and "shorter st mid" and "out \<in> set (star_iter g f n mid)"
  then have "out \<in> set (concat (map (star_iter g f n) (filter (shorter st) (f st))))"
    by (simp only: set_concat set_map set_filter) blast
  then show ?thesis
    by (cases "g = True") (simp_all only: star_iter.simps Let_def if_True if_False set_append Un_iff simp_thms list.set insert_iff)
qed

lemma star_iter_complete:
  assumes step: "\<And>l s cs w s'. s = w @ s' \<Longrightarrow> w \<in> L \<Longrightarrow> \<exists>cs'. (rev w @ l, s', cs') \<in> set (f (l, s, cs))"
  shows "w \<in> star_lang L \<Longrightarrow> s = w @ s' \<Longrightarrow> length w \<le> n \<Longrightarrow>
    \<exists>cs'. (rev w @ l, s', cs') \<in> set (star_iter g f n (l, s, cs))"
proof (induction w arbitrary: l s cs n rule: star_lang.induct)
  case star_Nil
  then show ?case by (cases n) (auto simp: Let_def)
next
  case (star_step u v)
  then obtain n' where n: "n = Suc n'" by (cases n) auto
  from star_step.prems have s: "s = u @ (v @ s')" by simp
  from step [OF s star_step.hyps(1)] obtain cs1 where
    mid: "(rev u @ l, v @ s', cs1) \<in> set (f (l, s, cs))" by blast
  have "length v \<le> n'" using star_step.prems(2) star_step.hyps(2) n by (cases u) auto
  then obtain cs' where
    fin: "(rev v @ (rev u @ l), s', cs') \<in> set (star_iter g f n' (rev u @ l, v @ s', cs1))"
    using star_step.IH [of "v @ s'"] by blast
  have "shorter (l, s, cs) (rev u @ l, v @ s', cs1)"
    using s star_step.hyps(2) by (auto simp: shorter_def)
  from star_iter_step [of _ f, OF mid this fin]
  have "(rev (u @ v) @ l, s', cs') \<in> set (star_iter g f (Suc n') (l, s, cs))" by simp
  then show ?case using n by blast
qed

lemma rmatch_complete:
  "plain r \<Longrightarrow> w \<in> lang r \<Longrightarrow> s = w @ s' \<Longrightarrow> \<exists>cs'. (rev w @ l, s', cs') \<in> set (rmatch r (l, s, cs))"
proof (induction r arbitrary: w l s s' cs)
  case (Seq a b)
  then obtain u v where w: "w = u @ v" "u \<in> lang a" "v \<in> lang b" by auto
  with Seq.prems have "s = u @ (v @ s')" by simp
  with Seq.IH(1) [of u s "v @ s'" l cs] Seq.prems(1) w(2) obtain cs1 where
    "(rev u @ l, v @ s', cs1) \<in> set (rmatch a (l, s, cs))" by auto
  moreover from Seq.IH(2) [of v "v @ s'" s' "rev u @ l" cs1] Seq.prems(1) w(3) obtain cs2 where
    "(rev v @ rev u @ l, s', cs2) \<in> set (rmatch b (rev u @ l, v @ s', cs1))" by auto
  ultimately show ?case using w(1) by auto
next
  case (Alt a b)
  then show ?case by fastforce
next
  case (Star g a)
  have step: "\<exists>cs'. (rev w @ l, s', cs') \<in> set (rmatch a (l, s, cs))"
    if "s = w @ s'" "w \<in> lang a" for l s cs w s'
    using Star.IH that Star.prems(1) by auto
  have "w \<in> star_lang (lang a)" using Star.prems(2) by simp
  then show ?case
    using star_iter_complete [where L = "lang a" and f = "rmatch a", OF step, of w s s' "length s" l g cs]
      Star.prems(3) by simp
next
  case (Grp k a)
  then obtain cs' where "(rev w @ l, s', cs') \<in> set (rmatch a (l, s, cs))"
    by (metis lang.simps(6) plain.simps(6))
  then have "(rev w @ l, s', (k, take (length s - length s') s) # cs') \<in> set (rmatch (Grp k a) (l, s, cs))"
    by (simp only: rmatch.simps prod.case set_map) (rule rev_image_eqI, assumption, simp)
  then show ?case by blast
qed (auto split: list.splits)

lemma rmatch_iff_lang:
  assumes "plain r"
  shows "(\<exists>cs'. (l', s', cs') \<in> set (rmatch r (l, s, cs))) \<longleftrightarrow>
    (\<exists>w\<in>lang r. s = w @ s' \<and> l' = rev w @ l)"
proof
  assume "\<exists>cs'. (l', s', cs') \<in> set (rmatch r (l, s, cs))"
  then obtain cs' where "(l', s', cs') \<in> set (rmatch r (l, s, cs))" ..
  from rmatch_moves [OF assms this] show "\<exists>w\<in>lang r. s = w @ s' \<and> l' = rev w @ l"
    by (auto simp: moves_def)
next
  assume "\<exists>w\<in>lang r. s = w @ s' \<and> l' = rev w @ l"
  then obtain w where w: "w \<in> lang r" "s = w @ s'" "l' = rev w @ l" by blast
  show "\<exists>cs'. (l', s', cs') \<in> set (rmatch r (l, s, cs))"
    unfolding w(3) by (rule rmatch_complete [OF assms w(1,2)])
qed

lemma rmatch_Nil_iff: "plain r \<Longrightarrow> rmatch r (l, s, cs) = [] \<longleftrightarrow> (\<nexists>w s'. w \<in> lang r \<and> s = w @ s')"
proof
  assume r: "plain r" and none: "rmatch r (l, s, cs) = []"
  show "\<nexists>w s'. w \<in> lang r \<and> s = w @ s'"
  proof
    assume "\<exists>w s'. w \<in> lang r \<and> s = w @ s'"
    then obtain w s' where "w \<in> lang r" "s = w @ s'" by blast
    from rmatch_complete [OF r this, of l cs] none show False by simp
  qed
next
  assume r: "plain r" and no: "\<nexists>w s'. w \<in> lang r \<and> s = w @ s'"
  show "rmatch r (l, s, cs) = []"
  proof (rule ccontr)
    assume "rmatch r (l, s, cs) \<noteq> []"
    then obtain m where "m \<in> set (rmatch r (l, s, cs))"
      by (meson list.set_sel(1))
    with rmatch_moves [OF r this] no show False by (auto simp: moves_def)
  qed
qed

lemma rexec_from_None_iff:
  "plain r \<Longrightarrow> rexec_from r l s = None \<longleftrightarrow> (\<nexists>u w v. w \<in> lang r \<and> s = u @ w @ v)"
proof (induction s arbitrary: l)
  case Nil
  then show ?case
    using rmatch_Nil_iff [of r l "[]" "[]"] by (auto split: list.splits)
next
  case (Cons c s)
  show ?case
  proof (cases "rmatch r (l, c # s, [])")
    case Nil
    with Cons.prems have here: "\<nexists>w v. w \<in> lang r \<and> c # s = w @ v"
      by (simp add: rmatch_Nil_iff)
    have "(\<exists>u w v. w \<in> lang r \<and> c # s = u @ w @ v) \<longleftrightarrow> (\<exists>u w v. w \<in> lang r \<and> s = u @ w @ v)"
      using here by (metis append_Cons append_eq_Cons_conv)
    with Nil Cons show ?thesis by simp
  next
    case (Cons m ms)
    then have "\<exists>w v. w \<in> lang r \<and> c # s = w @ v"
      using rmatch_Nil_iff [OF \<open>plain r\<close>, of l "c # s" "[]"] by auto
    then have "\<exists>u w v. w \<in> lang r \<and> c # s = u @ w @ v"
      by (metis append_Nil)
    with Cons show ?thesis by simp
  qed
qed

text \<open>\<open>test\<close> finds a word of the language somewhere in the text.\<close>

lemma rtest_iff: "plain r \<Longrightarrow> rtest r s \<longleftrightarrow> (\<exists>u w v. w \<in> lang r \<and> s = u @ w @ v)"
  by (simp add: rtest_def rexec_from_None_iff)

lemma rtest_Seq_Bol:
  assumes "plain r"
  shows "rtest (Seq Bol r) s \<longleftrightarrow> (\<exists>w v. w \<in> lang r \<and> s = w @ v)"
proof -
  have later: "rexec_from (Seq Bol r) l t = None" if "l \<noteq> []" for l t
    using that by (induction t arbitrary: l) auto
  show ?thesis
  proof (cases s)
    case Nil
    then show ?thesis
      using rmatch_Nil_iff [OF assms, of "[]" "[]" "[]"]
      by (auto simp: rtest_def split: list.splits)
  next
    case (Cons c t)
    with later [of "[c]" t] rmatch_Nil_iff [OF assms, of "[]" s "[]"] show ?thesis
      by (auto simp: rtest_def split: list.splits)
  qed
qed

section \<open>Languages of the built expressions\<close>

lemma plain_seq_re [simp]: "plain (seq_re rs) \<longleftrightarrow> (\<forall>r\<in>set rs. plain r)"
  by (induction rs) auto

lemma plain_alt_re [simp]: "plain (alt_re rs) \<longleftrightarrow> (\<forall>r\<in>set rs. plain r)"
  by (induction rs rule: alt_re.induct) auto

lemma plain_build [simp]:
  "plain any_re" "plain dot_re" "plain space_re" "plain nonspace_re" "plain digit_re"
  "plain (unit_re c)" "plain (unit_i_re c)" "plain (lit_re s)" "plain (lit_i_re s)"
  "plain (opt_re r) \<longleftrightarrow> plain r" "plain (plus_re r) \<longleftrightarrow> plain r"
  by (auto simp: re_build_defs)

lemma lang_unit_re [simp]: "lang (unit_re c) = {[c]}"
  by (auto simp: unit_re_def in_cls_def)

lemma lang_lit_re [simp]: "lang (lit_re s) = {s}"
  by (induction s) (auto simp: lit_re_def)

lemma lang_opt_re [simp]: "lang (opt_re r) = insert [] (lang r)"
  by (auto simp: opt_re_def)

lemma lang_alt_re [simp]: "lang (alt_re rs) = (\<Union>r\<in>set rs. lang r)"
  by (induction rs rule: alt_re.induct) (auto simp: in_cls_def)

text \<open>Repeated classes: any run of members, and a non-empty run.\<close>

lemma star_lang_Cls: "star_lang {[c] | c. P c} = {w. \<forall>c\<in>set w. P c}"
proof (intro equalityI subsetI)
  fix w assume "w \<in> star_lang {[c] | c. P c}"
  then show "w \<in> {w. \<forall>c\<in>set w. P c}" by induction auto
next
  fix w assume "w \<in> {w. \<forall>c\<in>set w. P c}"
  then show "w \<in> star_lang {[c] | c. P c}"
  proof (induction w)
    case Nil
    then show ?case by simp
  next
    case (Cons c w)
    then have "[c] @ w \<in> star_lang {[c] | c. P c}"
      by (intro star_step) auto
    then show ?case by simp
  qed
qed

lemma lang_plus_Cls: "lang (plus_re (Cls neg rs)) = {w. w \<noteq> [] \<and> (\<forall>c\<in>set w. in_cls neg rs c)}"
proof -
  have "{u @ v |u v. (\<exists>c. u = [c] \<and> P c) \<and> (\<forall>c\<in>set v. P c)} = {w. w \<noteq> [] \<and> (\<forall>c\<in>set w. P c)}"
    for P :: "code_unit \<Rightarrow> bool"
  proof (intro equalityI subsetI)
    fix w assume "w \<in> {w. w \<noteq> [] \<and> (\<forall>c\<in>set w. P c)}"
    then obtain c v where "w = [c] @ v" "P c" "\<forall>c\<in>set v. P c" by (cases w) auto
    then show "w \<in> {u @ v |u v. (\<exists>c. u = [c] \<and> P c) \<and> (\<forall>c\<in>set v. P c)}" by blast
  qed auto
  then show ?thesis by (simp add: plus_re_def star_lang_Cls)
qed

end
