(* ===== verification/Js_Result.thy ===== *)
theory Js_Result
  imports Js_Value
begin

text \<open>
  Computations that may raise: \<open>Inl\<close> the exception or \<open>Inr\<close> the value, sequenced as the source
  sequences its statements.
\<close>

definition bindE :: "exn + 'a \<Rightarrow> ('a \<Rightarrow> exn + 'b) \<Rightarrow> exn + 'b" where
  "bindE m f = (case m of Inl e \<Rightarrow> Inl e | Inr a \<Rightarrow> f a)"

fun mapE :: "('a \<Rightarrow> exn + 'b) \<Rightarrow> 'a list \<Rightarrow> exn + 'b list" where
  "mapE f [] = Inr []"
| "mapE f (x # xs) = bindE (f x) (\<lambda>y. bindE (mapE f xs) (\<lambda>ys. Inr (y # ys)))"

lemma mapE_cong [fundef_cong]: "xs = ys \<Longrightarrow> (\<And>x. x \<in> set ys \<Longrightarrow> f x = g x) \<Longrightarrow> mapE f xs = mapE g ys"
  by (induction xs arbitrary: ys) auto

lemma mapE_Inr:
  "mapE f xs = Inr ys \<longleftrightarrow> list_all2 (\<lambda>x y. f x = Inr y) xs ys"
proof (induction xs arbitrary: ys)
  case Nil
  then show ?case by (cases ys) auto
next
  case (Cons x xs)
  show ?case
  proof (cases "f x")
    case Inl
    then show ?thesis by (auto simp: bindE_def list_all2_Cons1)
  next
    case (Inr y)
    then show ?thesis using Cons.IH by (cases "mapE f xs") (auto simp: bindE_def list_all2_Cons1)
  qed
qed


text \<open>A value with a property, or a \<open>TypeError\<close>: the only exception \<open>String\<close> raises.\<close>

definition okE :: "('a \<Rightarrow> bool) \<Rightarrow> exn + 'a \<Rightarrow> bool" where
  "okE P m \<longleftrightarrow> (case m of Inr a \<Rightarrow> P a | Inl e \<Rightarrow> e = TypeError)"

named_theorems okE_intros \<open>rules that walk through a computation\<close>

lemma okE_Inr [okE_intros]: "P a \<Longrightarrow> okE P (Inr a)"
  by (simp add: okE_def)

lemma okE_bind: "okE Q m \<Longrightarrow> (\<And>a. Q a \<Longrightarrow> okE P (f a)) \<Longrightarrow> okE P (bindE m f)"
  by (cases m) (simp_all add: okE_def bindE_def)

lemma okE_if [okE_intros]: "(b \<Longrightarrow> okE P m) \<Longrightarrow> (\<not> b \<Longrightarrow> okE P n) \<Longrightarrow> okE P (if b then m else n)"
  by simp

lemma okE_option [okE_intros]:
  "(x = None \<Longrightarrow> okE P m) \<Longrightarrow> (\<And>a. x = Some a \<Longrightarrow> okE P (f a)) \<Longrightarrow> okE P (case x of None \<Rightarrow> m | Some a \<Rightarrow> f a)"
  by (cases x) simp_all

lemma okE_mono: "okE Q m \<Longrightarrow> (\<And>a. Q a \<Longrightarrow> P a) \<Longrightarrow> okE P m"
  by (auto simp: okE_def split: sum.splits)

lemma okE_map:
  "(\<And>x. okE P (f x)) \<Longrightarrow> okE (\<lambda>ys. length ys = length xs \<and> (\<forall>y\<in>set ys. P y)) (mapE f xs)"
proof (induction xs)
  case (Cons x xs)
  show ?case
    unfolding mapE.simps
    by (rule okE_bind [OF Cons.prems], rule okE_bind [OF Cons.IH [OF Cons.prems]], rule okE_Inr) simp
qed (simp add: okE_def)

end
