(* ===== verification/Request_Definition.thy ===== *)
theory Request_Definition
  imports Js_Uri Js_Regex Js_Result
begin

text \<open>
  The definition of a monitor's requests (\<open>features/monitors/request-definition.ts\<close>) and of its
  scripts (\<open>script-definition.ts\<close>): the records the importers build, the initial definition they
  copy, and the normalisation of the scripts of a stored definition, which works on whatever JSON
  the server returned and is therefore modelled on dynamic values.
\<close>

section \<open>The records\<close>

datatype step_kind = HTTP_REQUEST | ACTION | METRIC_VALIDATION

record script_definition =
  sc_enabled :: bool
  sc_language :: jsstr
  sc_code :: jsstr
  sc_runtime :: jsstr

record key_value_row =
  kv_id :: jsstr
  kv_enabled :: bool
  kv_key :: jsstr
  kv_value :: jsstr
  kv_description :: jsstr
  kv_sensitive :: "bool option"

record cookie_row = key_value_row +
  ck_domain :: jsstr
  ck_path :: jsstr

record investigation_check =
  ic_id :: jsstr
  ic_kind :: jsstr
  ic_label :: jsstr
  ic_query :: "jsstr option"
  ic_application :: "jsstr option"
  ic_binding :: "jsstr option"
  ic_services :: "jsstr list option"

record step_action =
  ac_id :: jsstr
  ac_enabled :: bool
  ac_type :: jsstr
  ac_output :: jsstr
  ac_expression :: jsstr
  ac_sensitive :: bool
  ac_fields :: "(jsstr \<times> jsstr) list option"

record metric_definition =
  me_provider :: jsstr
  me_profile :: jsstr
  me_metric_selector :: jsstr
  me_entity_selector :: jsstr
  me_aggregation :: jsstr
  me_window :: jsstr
  me_resolution :: jsstr
  me_baseline_window :: jsstr
  me_operator :: jsstr
  me_threshold :: jsnum
  me_missing_data :: jsstr

record auth_definition =
  au_type :: jsstr
  au_fields :: "(jsstr \<times> jsstr) list"

record body_definition =
  bo_type :: jsstr
  bo_content :: jsstr

record extractor_definition =
  ex_id :: jsstr
  ex_enabled :: bool
  ex_source :: jsstr
  ex_variable :: jsstr
  ex_expression :: jsstr
  ex_sensitive :: bool

record assertion_definition =
  as_id :: jsstr
  as_enabled :: bool
  as_type :: jsstr
  as_expression :: jsstr
  as_expected :: jsstr
  as_operator :: "jsstr option"

record tls_definition =
  tl_certificate :: jsstr
  tl_ca :: jsstr
  tl_minimum_version :: jsstr
  tl_verify_hostname :: bool

record proxy_definition =
  px_mode :: jsstr
  px_profile :: jsstr
  px_url :: jsstr
  px_no_proxy :: jsstr
  px_username_ref :: jsstr
  px_password_ref :: jsstr

record settings_definition =
  se_follow_redirects :: bool
  se_max_redirects :: jsnum
  se_compression :: bool
  se_timeout :: jsnum
  se_retries :: jsnum
  se_retry_backoff :: jsstr
  se_capture_body :: bool
  se_max_body_bytes :: jsnum

record request_part =
  rq_method :: jsstr
  rq_url :: jsstr
  rq_params :: "key_value_row list"
  rq_headers :: "key_value_row list"
  rq_cookies :: "cookie_row list"
  rq_persist_cookies :: bool
  rq_auth :: auth_definition
  rq_body :: body_definition
  rq_pre_request :: "step_action list"
  rq_pre_script :: script_definition
  rq_test_script :: script_definition
  rq_extractors :: "extractor_definition list"
  rq_assertions :: "assertion_definition list"
  rq_tls :: tls_definition
  rq_proxy :: proxy_definition
  rq_settings :: settings_definition

record step_definition =
  st_id :: jsstr
  st_name :: jsstr
  st_type :: step_kind
  st_enabled :: bool
  st_timeout :: jsnum
  st_actions :: "step_action list"
  st_metric :: metric_definition
  st_request :: request_part

record request_definition =
  rd_schema_version :: jsnum
  rd_pre_request :: script_definition
  rd_checks :: "investigation_check list option"
  rd_steps :: "step_definition list"

section \<open>The initial definition\<close>

definition create_key_value_row :: "jsstr \<Rightarrow> key_value_row" where
  "create_key_value_row i =
     \<lparr>kv_id = i, kv_enabled = True, kv_key = [], kv_value = [], kv_description = [],
      kv_sensitive = None\<rparr>"

definition blank_script :: script_definition where
  "blank_script =
     \<lparr>sc_enabled = False, sc_language = js ''javascript'', sc_code = [],
      sc_runtime = js ''rhythm-js-2''\<rparr>"

definition initial_metric :: metric_definition where
  "initial_metric =
     \<lparr>me_provider = js ''DYNATRACE'', me_profile = [],
      me_metric_selector = js ''builtin:host.cpu.usage'', me_entity_selector = [],
      me_aggregation = js ''AVG'', me_window = js ''10m'', me_resolution = js ''1m'',
      me_baseline_window = [], me_operator = js ''LESS_THAN'', me_threshold = nnum 80,
      me_missing_data = js ''FAIL''\<rparr>"

definition initial_request :: request_part where
  "initial_request =
     \<lparr>rq_method = js ''GET'', rq_url = [],
      rq_params = [create_key_value_row (js ''param-1'')],
      rq_headers = [(create_key_value_row (js ''header-1''))
        \<lparr>kv_key := js ''Accept'', kv_value := js ''application/json''\<rparr>],
      rq_cookies = [], rq_persist_cookies = True,
      rq_auth = \<lparr>au_type = js ''none'', au_fields = []\<rparr>,
      rq_body = \<lparr>bo_type = js ''none'', bo_content = []\<rparr>,
      rq_pre_request = [], rq_pre_script = blank_script, rq_test_script = blank_script,
      rq_extractors = [],
      rq_assertions = [\<lparr>as_id = js ''assertion-1'', as_enabled = True, as_type = js ''status'',
        as_expression = js ''status'', as_expected = js ''200'', as_operator = None\<rparr>],
      rq_tls = \<lparr>tl_certificate = [], tl_ca = [], tl_minimum_version = js ''TLS 1.2'',
        tl_verify_hostname = True\<rparr>,
      rq_proxy = \<lparr>px_mode = js ''environment'', px_profile = [], px_url = [], px_no_proxy = [],
        px_username_ref = [], px_password_ref = []\<rparr>,
      rq_settings = \<lparr>se_follow_redirects = True, se_max_redirects = nnum 5,
        se_compression = True, se_timeout = nnum 15000, se_retries = nnum 0,
        se_retry_backoff = js ''exponential'', se_capture_body = True,
        se_max_body_bytes = nnum 1048576\<rparr>\<rparr>"

definition initial_step :: step_definition where
  "initial_step =
     \<lparr>st_id = js ''step-request-1'', st_name = js ''Request 1'', st_type = HTTP_REQUEST,
      st_enabled = True, st_timeout = nnum 15000, st_actions = [], st_metric = initial_metric,
      st_request = initial_request\<rparr>"

definition initial_definition :: request_definition where
  "initial_definition =
     \<lparr>rd_schema_version = nnum 2, rd_pre_request = blank_script, rd_checks = Some [],
      rd_steps = [initial_step]\<rparr>"

section \<open>Normalising the scripts of a stored definition\<close>

definition empty_script :: jsval where
  "empty_script =
     JObj [(js ''enabled'', JBool False), (js ''language'', JStr (js ''javascript'')),
           (js ''code'', JStr []), (js ''runtimeVersion'', JStr (js ''rhythm-js-2''))]"

definition normalize_script :: "jsval \<Rightarrow> exn + jsval" where
  "normalize_script v =
     (case coalesce (fld v ''code'') (JStr []) of
        JStr code \<Rightarrow>
          Inr (JObj [(js ''enabled'', JBool (trim code \<noteq> [])),
                     (js ''language'', JStr (js ''javascript'')),
                     (js ''code'', JStr code),
                     (js ''runtimeVersion'', JStr (js ''rhythm-js-2'')),
                     (js ''apiMode'', coalesce (fld v ''apiMode'') (JStr (js ''rhythm''))),
                     (js ''continueOnFailure'', JBool (truthy (fld v ''continueOnFailure''))),
                     (js ''packages'', coalesce (fld v ''packages'') (JArr []))])
      | _ \<Rightarrow> Inl TypeError)"

definition normalize_step :: "jsval \<Rightarrow> exn + jsval" where
  "normalize_step step =
     (if nullish step then Inl TypeError
      else
        let request = fld step ''request'' in
        case normalize_script (coalesce (fld request ''preRequestScript'') empty_script) of
          Inl e \<Rightarrow> Inl e
        | Inr pre \<Rightarrow>
            (case normalize_script (coalesce (fld request ''testScript'') empty_script) of
               Inl e \<Rightarrow> Inl e
             | Inr test \<Rightarrow>
                 Inr (JObj (obj_set (js ''request'')
                   (JObj (obj_set (js ''testScript'') test
                     (obj_set (js ''preRequestScript'') pre (spread request))))
                   (spread step)))))"

definition normalize_definition_scripts :: "jsval \<Rightarrow> exn + jsval" where
  "normalize_definition_scripts v =
     (if nullish v then Inl TypeError
      else
        let checks = (case fld v ''investigationChecks'' of JArr xs \<Rightarrow> JArr (take 20 xs) | _ \<Rightarrow> JArr []);
            scripts = fld v ''scripts''
        in case normalize_script (coalesce (fld scripts ''preRequest'') empty_script) of
             Inl e \<Rightarrow> Inl e
           | Inr pre \<Rightarrow>
               (case fld v ''steps'' of
                  JArr steps \<Rightarrow>
                    (case mapE normalize_step steps of
                       Inl e \<Rightarrow> Inl e
                     | Inr steps' \<Rightarrow>
                         Inr (JObj (obj_set (js ''steps'') (JArr steps')
                           (obj_set (js ''scripts'')
                             (JObj (obj_set (js ''preRequest'') pre (spread scripts)))
                             (obj_set (js ''investigationChecks'') checks (spread v))))))
                | _ \<Rightarrow> Inl TypeError))"

section \<open>Facts about normalisation\<close>

definition script_value :: "jsstr \<Rightarrow> jsval \<Rightarrow> bool \<Rightarrow> jsval \<Rightarrow> jsval" where
  "script_value code mode cont packages =
     JObj [(js ''enabled'', JBool (trim code \<noteq> [])),
           (js ''language'', JStr (js ''javascript'')),
           (js ''code'', JStr code),
           (js ''runtimeVersion'', JStr (js ''rhythm-js-2'')),
           (js ''apiMode'', mode),
           (js ''continueOnFailure'', JBool cont),
           (js ''packages'', packages)]"

lemma normalize_script_Inr:
  "normalize_script v = Inr w \<longleftrightarrow>
     (\<exists>code. coalesce (fld v ''code'') (JStr []) = JStr code \<and>
        w = script_value code (coalesce (fld v ''apiMode'') (JStr (js ''rhythm'')))
              (truthy (fld v ''continueOnFailure'')) (coalesce (fld v ''packages'') (JArr [])))"
  unfolding normalize_script_def script_value_def
  by (cases "coalesce (fld v ''code'') (JStr [])") auto

lemma fld_script_value [simp]:
  "fld (script_value c m b p) ''enabled'' = JBool (trim c \<noteq> [])"
  "fld (script_value c m b p) ''code'' = JStr c"
  "fld (script_value c m b p) ''apiMode'' = m"
  "fld (script_value c m b p) ''continueOnFailure'' = JBool b"
  "fld (script_value c m b p) ''packages'' = p"
  by (simp_all add: script_value_def)

lemma not_nullish_script_value [simp]: "\<not> nullish (script_value c m b p)"
  by (simp add: script_value_def)

lemma normalize_script_idem: "normalize_script v = Inr w \<Longrightarrow> normalize_script w = Inr w"
  by (auto simp: normalize_script_Inr)

lemma normalize_script_not_nullish: "normalize_script v = Inr w \<Longrightarrow> \<not> nullish w"
  by (auto simp: normalize_script_Inr)

lemma normalize_step_Inr:
  "normalize_step v = Inr w \<longleftrightarrow>
     \<not> nullish v \<and>
     (\<exists>pre test.
        normalize_script (coalesce (fld (fld v ''request'') ''preRequestScript'') empty_script) = Inr pre \<and>
        normalize_script (coalesce (fld (fld v ''request'') ''testScript'') empty_script) = Inr test \<and>
        w = JObj (obj_set (js ''request'')
              (JObj (obj_set (js ''testScript'') test
                (obj_set (js ''preRequestScript'') pre (spread (fld v ''request''))))) (spread v)))"
  unfolding normalize_step_def Let_def
  by (cases "normalize_script (coalesce (fld (fld v ''request'') ''preRequestScript'') empty_script)";
      cases "normalize_script (coalesce (fld (fld v ''request'') ''testScript'') empty_script)") auto

lemma normalize_step_idem: 
  assumes "normalize_step v = Inr w"
  shows "normalize_step w = Inr w"
proof -
  from assms obtain pre test where
    pre: "normalize_script (coalesce (fld (fld v ''request'') ''preRequestScript'') empty_script) = Inr pre"
    and test: "normalize_script (coalesce (fld (fld v ''request'') ''testScript'') empty_script) = Inr test"
    and w: "w = JObj (obj_set (js ''request'')
              (JObj (obj_set (js ''testScript'') test
                (obj_set (js ''preRequestScript'') pre (spread (fld v ''request''))))) (spread v))"
    by (auto simp: normalize_step_Inr)
  let ?r = "JObj (obj_set (js ''testScript'') test
                (obj_set (js ''preRequestScript'') pre (spread (fld v ''request''))))"
  have r: "fld w ''request'' = ?r" by (simp add: w)
  have "fld ?r ''preRequestScript'' = pre" "fld ?r ''testScript'' = test" by simp_all
  with pre test have "normalize_script (coalesce (fld ?r ''preRequestScript'') empty_script) = Inr pre"
    "normalize_script (coalesce (fld ?r ''testScript'') empty_script) = Inr test"
    by (simp_all add: normalize_script_idem normalize_script_not_nullish del: fld_JObj)
  moreover have "w = JObj (obj_set (js ''request'')
              (JObj (obj_set (js ''testScript'') test
                (obj_set (js ''preRequestScript'') pre (spread ?r)))) (spread w))"
    by (simp add: w obj_set_id)
  moreover have "\<not> nullish w" by (simp add: w)
  ultimately show ?thesis by (auto simp only: normalize_step_Inr r)
qed

lemma normalize_definition_Inr:
  "normalize_definition_scripts v = Inr w \<longleftrightarrow>
     \<not> nullish v \<and>
     (\<exists>pre steps steps'.
        normalize_script (coalesce (fld (fld v ''scripts'') ''preRequest'') empty_script) = Inr pre \<and>
        fld v ''steps'' = JArr steps \<and> list_all2 (\<lambda>x y. normalize_step x = Inr y) steps steps' \<and>
        w = JObj (obj_set (js ''steps'') (JArr steps')
              (obj_set (js ''scripts'') (JObj (obj_set (js ''preRequest'') pre (spread (fld v ''scripts''))))
                (obj_set (js ''investigationChecks'')
                  (case fld v ''investigationChecks'' of JArr xs \<Rightarrow> JArr (take 20 xs) | _ \<Rightarrow> JArr [])
                  (spread v)))))"
  unfolding normalize_definition_scripts_def Let_def mapE_Inr [symmetric]
  by (cases "normalize_script (coalesce (fld (fld v ''scripts'') ''preRequest'') empty_script)";
      cases "fld v ''steps''") (auto split: sum.splits)

lemma normalize_steps_again:
  "list_all2 (\<lambda>x y. normalize_step x = Inr y) xs ys \<Longrightarrow>
    list_all2 (\<lambda>x y. normalize_step x = Inr y) ys ys"
  by (induction rule: list_all2_induct) (auto intro: normalize_step_idem)

text \<open>normalising a stored definition a second time changes nothing: the normalised scripts, the
  clipped list of checks and the order of the properties are a fixed point.\<close>

theorem normalize_definition_idem:
  assumes "normalize_definition_scripts v = Inr w"
  shows "normalize_definition_scripts w = Inr w"
proof -
  let ?checks = "case fld v ''investigationChecks'' of JArr xs \<Rightarrow> JArr (take 20 xs) | _ \<Rightarrow> JArr []"
  from assms obtain pre steps steps' where
    pre: "normalize_script (coalesce (fld (fld v ''scripts'') ''preRequest'') empty_script) = Inr pre"
    and steps: "list_all2 (\<lambda>x y. normalize_step x = Inr y) steps steps'"
    and w: "w = JObj (obj_set (js ''steps'') (JArr steps')
              (obj_set (js ''scripts'') (JObj (obj_set (js ''preRequest'') pre (spread (fld v ''scripts''))))
                (obj_set (js ''investigationChecks'') ?checks (spread v))))"
    by (auto simp only: normalize_definition_Inr)
  let ?s = "JObj (obj_set (js ''preRequest'') pre (spread (fld v ''scripts'')))"
  have fields: "fld w ''scripts'' = ?s" "fld w ''steps'' = JArr steps'"
    "fld w ''investigationChecks'' = ?checks" "\<not> nullish w"
    by (simp_all add: w)
  have "fld ?s ''preRequest'' = pre" by simp
  with pre have "normalize_script (coalesce (fld ?s ''preRequest'') empty_script) = Inr pre"
    by (simp add: normalize_script_idem normalize_script_not_nullish del: fld_JObj)
  moreover have "(case ?checks of JArr xs \<Rightarrow> JArr (take 20 xs) | _ \<Rightarrow> JArr []) = ?checks"
    by (simp split: jsval.split)
  then have "w = JObj (obj_set (js ''steps'') (JArr steps')
              (obj_set (js ''scripts'') (JObj (obj_set (js ''preRequest'') pre (spread ?s)))
                (obj_set (js ''investigationChecks'')
                  (case ?checks of JArr xs \<Rightarrow> JArr (take 20 xs) | _ \<Rightarrow> JArr []) (spread w))))"
    by (simp add: w obj_set_id)
  ultimately show ?thesis
    using normalize_steps_again [OF steps]
    by (auto simp only: normalize_definition_Inr fields intro!: exI [of _ pre] exI [of _ steps'])
qed

definition stored_definition_example :: jsval where
  "stored_definition_example =
     JObj [(js ''steps'', JArr [JObj [(js ''request'', JObj [(js ''testScript'',
             JObj [(js ''code'', JStr (js ''pm.test()''))])])]])]"

definition normalized_example :: jsval where
  "normalized_example =
     JObj [(js ''steps'', JArr [JObj [(js ''request'', JObj
             [(js ''testScript'', script_value (js ''pm.test()'') (JStr (js ''rhythm'')) False (JArr [])),
              (js ''preRequestScript'', script_value [] (JStr (js ''rhythm'')) False (JArr []))])]]),
           (js ''investigationChecks'', JArr []),
           (js ''scripts'', JObj [(js ''preRequest'',
              script_value [] (JStr (js ''rhythm'')) False (JArr []))])]"

lemma stored_definition_normalized:
  "normalize_definition_scripts stored_definition_example = Inr normalized_example"
  by code_simp

theorem normalize_definition_idem_witness:
  "normalize_definition_scripts normalized_example = Inr normalized_example"
  by (rule normalize_definition_idem [OF stored_definition_normalized])

end
