(* ===== verification/Import_Common.thy ===== *)
theory Import_Common
  imports Request_Definition
begin

text \<open>
  The helpers the two importers of \<open>features/monitors/monitor-import.ts\<close> share: the draft they
  return, the warnings they collect, the computations that may raise an exception while they append
  warnings, the recognition and masking of secrets, rows, queries, scripts and shell tokens.
\<close>

section \<open>Drafts, warnings and computations\<close>

record import_warning =
  wn_code :: jsstr
  wn_message :: jsstr
  wn_location :: "jsstr option"

record import_summary =
  sm_requests :: nat
  sm_folders :: nat
  sm_scripts :: nat
  sm_variables :: nat

datatype import_source = Postman | Curl

record imported_draft =
  dr_source :: import_source
  dr_name :: jsstr
  dr_description :: jsstr
  dr_definition :: request_definition
  dr_warnings :: "import_warning list"
  dr_summary :: import_summary

text \<open>
  Every function of the source that takes the array \<open>warnings\<close> only pushes to it, so a
  computation returns the warnings it adds. An exception leaves the importer and takes the array
  with it.
\<close>

type_synonym 'a import_run = "exn + 'a \<times> import_warning list"

definition retR :: "'a \<Rightarrow> 'a import_run" where
  "retR a = Inr (a, [])"

definition failR :: "exn \<Rightarrow> 'a import_run" where
  "failR e = Inl e"

definition warnR :: "import_warning \<Rightarrow> unit import_run" where
  "warnR w = Inr ((), [w])"

definition liftR :: "exn + 'a \<Rightarrow> 'a import_run" where
  "liftR m = (case m of Inl e \<Rightarrow> Inl e | Inr a \<Rightarrow> Inr (a, []))"

definition bindR :: "'a import_run \<Rightarrow> ('a \<Rightarrow> 'b import_run) \<Rightarrow> 'b import_run" where
  "bindR m f =
     (case m of
        Inl e \<Rightarrow> Inl e
      | Inr (a, ws) \<Rightarrow> (case f a of Inl e \<Rightarrow> Inl e | Inr (b, ws') \<Rightarrow> Inr (b, ws @ ws')))"

definition whenR :: "bool \<Rightarrow> unit import_run \<Rightarrow> unit import_run" where
  "whenR b m = (if b then m else retR ())"

fun mapR :: "('a \<Rightarrow> 'b import_run) \<Rightarrow> 'a list \<Rightarrow> 'b list import_run" where
  "mapR f [] = retR []"
| "mapR f (x # xs) = bindR (f x) (\<lambda>y. bindR (mapR f xs) (\<lambda>ys. retR (y # ys)))"

fun filterR :: "('a \<Rightarrow> bool import_run) \<Rightarrow> 'a list \<Rightarrow> 'a list import_run" where
  "filterR f [] = retR []"
| "filterR f (x # xs) =
     bindR (f x) (\<lambda>b. bindR (filterR f xs) (\<lambda>ys. retR (if b then x # ys else ys)))"

text \<open>\<open>map((x, index) => \<dots>)\<close>\<close>

definition mapiR :: "(nat \<Rightarrow> 'a \<Rightarrow> 'b import_run) \<Rightarrow> 'a list \<Rightarrow> 'b list import_run" where
  "mapiR f xs = mapR (\<lambda>(i, x). f i x) (enumerate 0 xs)"

text \<open>A plain property access \<open>v.key\<close>, which raises on \<open>null\<close> and \<open>undefined\<close>.\<close>

definition getR :: "jsval \<Rightarrow> string \<Rightarrow> jsval import_run" where
  "getR v k = (if nullish v then failR TypeError else retR (fld v k))"

definition import_error :: "jsstr \<Rightarrow> 'a import_run" where
  "import_error m = failR (MonitorImportError m)"

named_theorems ok_intros \<open>what a computation guarantees when it returns\<close>

definition okR :: "('a \<Rightarrow> bool) \<Rightarrow> 'a import_run \<Rightarrow> bool" where
  "okR P m \<longleftrightarrow> (case m of Inl e \<Rightarrow> True | Inr (a, ws) \<Rightarrow> P a)"

lemma okR_D: "okR P m \<Longrightarrow> m = Inr (a, ws) \<Longrightarrow> P a"
  by (simp add: okR_def)

lemma okR_I: "(\<And>a ws. m = Inr (a, ws) \<Longrightarrow> P a) \<Longrightarrow> okR P m"
  by (auto simp: okR_def split: sum.split)

lemma okR_mono: "okR P m \<Longrightarrow> (\<And>a. P a \<Longrightarrow> Q a) \<Longrightarrow> okR Q m"
  by (auto simp: okR_def split: sum.splits)

lemma okR_ret [ok_intros]: "P a \<Longrightarrow> okR P (retR a)"
  by (simp add: okR_def retR_def)

lemma okR_fail [ok_intros]: "okR P (failR e)" "okR P (import_error m)"
  by (simp_all add: okR_def failR_def import_error_def)

lemma okR_any [ok_intros]: "okR (\<lambda>_. True) m"
  by (auto simp: okR_def split: sum.splits)

lemma okR_bind: "okR Q m \<Longrightarrow> (\<And>a. Q a \<Longrightarrow> okR P (f a)) \<Longrightarrow> okR P (bindR m f)"
  by (fastforce simp: okR_def bindR_def split: sum.splits)

lemma okR_bind_any: "(\<And>a. okR P (f a)) \<Longrightarrow> okR P (bindR m f)"
  by (rule okR_bind [OF okR_any])

lemma okR_mapR: "(\<And>x. x \<in> set xs \<Longrightarrow> okR P (f x)) \<Longrightarrow> okR (\<lambda>ys. \<forall>y\<in>set ys. P y) (mapR f xs)"
proof (induction xs)
  case Nil
  then show ?case by (simp add: okR_ret)
next
  case (Cons x xs)
  have "okR P (f x)" and IH: "okR (\<lambda>ys. \<forall>y\<in>set ys. P y) (mapR f xs)"
    using Cons by simp_all
  then show ?case
    by (auto intro!: okR_bind [of P] okR_bind [OF IH] okR_ret)
qed

lemma okR_mapiR:
  "(\<And>i x. x \<in> set xs \<Longrightarrow> okR P (f i x)) \<Longrightarrow> okR (\<lambda>ys. \<forall>y\<in>set ys. P y) (mapiR f xs)"
  unfolding mapiR_def by (rule okR_mapR) (auto simp: in_set_enumerate_eq)

lemma bindR_Inr:
  "bindR m f = Inr (b, ws) \<longleftrightarrow>
     (\<exists>a w1 w2. m = Inr (a, w1) \<and> f a = Inr (b, w2) \<and> ws = w1 @ w2)"
  by (auto simp: bindR_def split: sum.splits)

lemma retR_Inr [simp]: "retR a = Inr (b, ws) \<longleftrightarrow> b = a \<and> ws = []"
  by (auto simp: retR_def)

lemma failR_Inr [simp]: "failR e \<noteq> Inr r" "import_error m \<noteq> Inr r"
  by (simp_all add: failR_def import_error_def)

lemma failR_Inl [simp]: "failR e = Inl e' \<longleftrightarrow> e' = e" "import_error m = Inl e' \<longleftrightarrow> e' = MonitorImportError m"
  by (auto simp: failR_def import_error_def)

lemma bind_ret [simp]: "bindR (retR a) f = f a"
  by (auto simp: bindR_def retR_def split: sum.split)

lemma bind_fail [simp]: "bindR (failR e) f = failR e" "bindR (import_error m) f = import_error m"
  by (simp_all add: bindR_def failR_def import_error_def)

lemma bind_assoc: "bindR (bindR m f) g = bindR m (\<lambda>a. bindR (f a) g)"
  by (auto simp: bindR_def split: sum.splits)

section \<open>Scripts, rows and texts\<close>

definition scriptDefinition :: "jsstr \<Rightarrow> script_definition" where
  "scriptDefinition code =
     \<lparr>sc_enabled = (trim code \<noteq> []), sc_language = js ''javascript'', sc_code = code,
      sc_runtime = js ''rhythm-js-2''\<rparr>"

definition row :: "jsstr \<Rightarrow> jsstr \<Rightarrow> jsstr \<Rightarrow> bool \<Rightarrow> jsstr \<Rightarrow> key_value_row" where
  "row i k v enabled d =
     \<lparr>kv_id = i, kv_enabled = enabled, kv_key = k, kv_value = v, kv_description = d,
      kv_sensitive = None\<rparr>"

definition cookie_of_row :: "key_value_row \<Rightarrow> cookie_row" where
  \<comment> \<open>\<open>{...row, domain: "", path: "/", sensitive: true}\<close>\<close>
  "cookie_of_row r =
     \<lparr>kv_id = kv_id r, kv_enabled = kv_enabled r, kv_key = kv_key r, kv_value = kv_value r,
      kv_description = kv_description r, kv_sensitive = Some True, ck_domain = [], ck_path = js ''/''\<rparr>"

definition stringValue :: "jsval \<Rightarrow> exn + jsstr" where
  "stringValue v = (if nullish v then Inr [] else to_string v)"

definition descriptionText :: "jsval \<Rightarrow> jsstr" where
  "descriptionText v =
     (case v of
        JStr s \<Rightarrow> s
      | _ \<Rightarrow> if is_object v then (case fld v ''content'' of JStr s \<Rightarrow> s | _ \<Rightarrow> []) else [])"

definition clone :: "'a \<Rightarrow> 'a" where \<comment> \<open>a deep copy: the records are values\<close>
  "clone v = v"

definition maskInlineValue :: "jsstr \<Rightarrow> jsstr" where
  "maskInlineValue v = (if 24 < length v then take 8 v @ [8230] else v)"

definition max_source_bytes :: nat where
  "max_source_bytes = 2 * 1024 * 1024"

definition max_steps :: nat where
  "max_steps = 50"

definition assertSourceSize :: "jsstr \<Rightarrow> unit import_run" where
  "assertSourceSize source =
     (if trim source = [] then import_error (js ''Paste or choose a file to import.'')
      else if max_source_bytes < utf8_byte_length source
      then import_error (js ''Import files are limited to 2 MB.'')
      else retR ())"

definition makeHTTPDefinitionStep :: "nat \<Rightarrow> jsstr \<Rightarrow> jsstr \<Rightarrow> step_definition" where
  "makeHTTPDefinitionStep i name verb =
     (let step = clone initial_step in
      step\<lparr>st_id := js ''step-import-'' @ dec (i + 1), st_name := name,
           st_request := (st_request step)\<lparr>rq_method := to_upper verb, rq_url := [], rq_params := [],
             rq_headers := [], rq_cookies := [], rq_assertions := []\<rparr>\<rparr>)"

section \<open>Secrets\<close>

definition sensitive_key_re :: re where
  "sensitive_key_re =
     alt_re [lit_i_re (js ''authorization''), lit_i_re (js ''cookie''), lit_i_re (js ''password''),
       lit_i_re (js ''passwd''), lit_i_re (js ''secret''), lit_i_re (js ''token''),
       seq_re [lit_i_re (js ''api''), opt_re (Cls False [(45, 45), (95, 95), (32, 32)]), lit_i_re (js ''key'')],
       seq_re [lit_i_re (js ''private''), opt_re (Cls False [(45, 45), (95, 95), (32, 32)]), lit_i_re (js ''key'')],
       lit_i_re (js ''credential''), lit_i_re (js ''signature''), lit_i_re (js ''session'')]"

definition isSensitive :: "jsstr \<Rightarrow> jsval \<Rightarrow> bool" where
  "isSensitive key ty \<longleftrightarrow> ty = JStr (js ''secret'') \<or> rtest sensitive_key_re key"

abbreviation sensitive :: "jsstr \<Rightarrow> bool" where
  "sensitive key \<equiv> isSensitive key JUndef"

definition template_re :: re where \<comment> \<open>\<open>\{\{[^}]+\}\}\<close>\<close>
  "template_re = seq_re [lit_re (js ''{{''), plus_re (Cls True [(125, 125)]), lit_re (js ''}}'')]"

definition isTemplate :: "jsstr \<Rightarrow> bool" where
  "isTemplate v \<longleftrightarrow> rtest template_re v"

definition alias_join_re :: re where \<comment> \<open>\<open>[^a-zA-Z0-9]+(.)\<close>\<close>
  "alias_join_re = Seq (plus_re (Cls True [(97, 122), (65, 90), (48, 57)])) (Grp 1 dot_re)"

definition alias_lead_re :: re where \<comment> \<open>\<open>^[^a-zA-Z]+\<close>\<close>
  "alias_lead_re = Seq Bol (plus_re (Cls True [(97, 122), (65, 90)]))"

definition toAlias :: "jsstr \<Rightarrow> jsstr" where
  "toAlias v =
     (let words = sub_first alias_lead_re (\<lambda>_ _. [])
                    (sub_all alias_join_re (\<lambda>_ m. case capture 1 m of Some c \<Rightarrow> to_upper c | None \<Rightarrow> []) v)
      in case words of
           c # w \<Rightarrow> to_lower [c] @ w
         | [] \<Rightarrow> js ''importedCredential'')"

definition secretPlaceholder :: "jsstr \<Rightarrow> jsstr" where
  "secretPlaceholder key = js ''{{ secrets.'' @ toAlias key @ js '' }}''"

definition secretOrTemplate :: "jsstr \<Rightarrow> jsstr \<Rightarrow> jsstr" where
  "secretOrTemplate v alias = (if v = [] \<or> isTemplate v then v else secretPlaceholder alias)"

definition protectSecretValue :: "jsstr \<Rightarrow> jsstr \<Rightarrow> jsstr option \<Rightarrow> jsstr import_run" where
  "protectSecretValue key v location =
     (if \<not> sensitive key \<or> isTemplate v then retR v
      else bindR (warnR \<lparr>wn_code = js ''SECRET_VALUE'',
             wn_message = js ''The value of sensitive field '' @ [8220] @ key @ [8221]
               @ js '' was replaced with '' @ secretPlaceholder key @ js ''.'',
             wn_location = location\<rparr>)
           (\<lambda>_. retR (secretPlaceholder key)))"

fun protect_visit :: "jsval \<Rightarrow> jsval \<times> bool"
  and protect_items :: "jsval list \<Rightarrow> jsval list \<times> bool"
  and protect_fields :: "(jsstr \<times> jsval) list \<Rightarrow> (jsstr \<times> jsval) list \<times> bool" where
  "protect_visit (JArr xs) = (let (ys, c) = protect_items xs in (JArr ys, c))"
| "protect_visit (JObj ps) = (let (qs, c) = protect_fields ps in (JObj (from_entries qs), c))"
| "protect_visit v = (v, False)"
| "protect_items [] = ([], False)"
| "protect_items (x # xs) =
     (let (y, c) = protect_visit x; (ys, d) = protect_items xs in (y # ys, c \<or> d))"
| "protect_fields [] = ([], False)"
| "protect_fields ((k, v) # ps) =
     (let (w, c) = (case v of
                      JStr s \<Rightarrow> if sensitive k \<and> \<not> isTemplate s
                                then (JStr (secretPlaceholder k), True) else (v, False)
                    | _ \<Rightarrow> protect_visit v);
          (qs, d) = protect_fields ps
      in ((k, w) # qs, c \<or> d))"

definition protectBody :: "jsstr \<Rightarrow> jsstr option \<Rightarrow> jsstr import_run" where
  "protectBody body location =
     (if trim body = [] then retR body
      else case json_parse body of
             None \<Rightarrow> retR body
           | Some parsed \<Rightarrow>
               (let (safe, changed) = protect_visit parsed in
                if changed
                then bindR (warnR \<lparr>wn_code = js ''SECRET_BODY'',
                       wn_message = js ''Likely credential values in the JSON body were replaced with Rhythm secret placeholders.'',
                       wn_location = location\<rparr>)
                     (\<lambda>_. retR (json_stringify 2 safe))
                else retR body))"

section \<open>URLs and queries\<close>

text \<open>
  What \<open>new URL(text)\<close> gives the importers: the host, the two credentials still percent-encoded,
  and the address printed after both have been cleared. The parser of the platform is a parameter,
  \<open>None\<close> standing for its exception.
\<close>

record url_parts =
  ur_host :: jsstr
  ur_username :: jsstr
  ur_password :: jsstr
  ur_bare :: jsstr

type_synonym url_parser = "jsstr \<Rightarrow> url_parts option"

definition safeDecode :: "jsstr \<Rightarrow> jsstr" where
  "safeDecode v =
     (case decode_uri (map (\<lambda>c. if c = 43 then 32 else c) v) of Some s \<Rightarrow> s | None \<Rightarrow> v)"

definition splitURLQuery :: "jsstr \<Rightarrow> jsstr \<times> key_value_row list" where
  "splitURLQuery raw =
     (case index_of (js ''?'') raw of
        None \<Rightarrow> (raw, [])
      | Some i \<Rightarrow>
          (take i raw,
           map (\<lambda>(n, pair).
               case index_of (js ''='') pair of
                 None \<Rightarrow> row (js ''param-import-'' @ dec (n + 1)) (safeDecode pair) (safeDecode []) True []
               | Some e \<Rightarrow> row (js ''param-import-'' @ dec (n + 1)) (safeDecode (take e pair))
                             (safeDecode (drop (e + 1) pair)) True [])
             (enumerate 0 (filter (\<lambda>p. p \<noteq> []) (split_on 38 (drop (i + 1) raw))))))"

definition stripQuery :: "jsstr \<Rightarrow> jsstr" where
  "stripQuery v = (case index_of (js ''?'') v of None \<Rightarrow> v | Some i \<Rightarrow> take i v)"

definition safeHost :: "url_parser \<Rightarrow> jsstr \<Rightarrow> jsstr" where
  "safeHost parse_url v =
     (case parse_url (sub_all template_re (\<lambda>_ _. js ''placeholder'') v) of
        Some u \<Rightarrow> ur_host u
      | None \<Rightarrow> [])"

definition removeURLCredentials :: "url_parser \<Rightarrow> jsstr \<Rightarrow> jsstr \<times> jsstr \<times> jsstr" where
  "removeURLCredentials parse_url v =
     (case parse_url v of
        None \<Rightarrow> (v, [], [])
      | Some u \<Rightarrow>
          (case (decode_uri (ur_username u), decode_uri (ur_password u)) of
             (Some username, Some password) \<Rightarrow>
               if username = [] \<and> password = [] then (v, [], [])
               else (ur_bare u, username, password)
           | _ \<Rightarrow> (v, [], [])))"

text \<open>The loops that mask the values of the query parameters, and the test for a cookie header.\<close>

definition protect_param :: "jsstr option \<Rightarrow> key_value_row \<Rightarrow> key_value_row import_run" where
  "protect_param location p =
     bindR (protectSecretValue (kv_key p) (kv_value p) location)
       (\<lambda>v. retR (p\<lparr>kv_value := v, kv_sensitive := Some (sensitive (kv_key p))\<rparr>))"

definition is_cookie_key :: "jsstr \<Rightarrow> bool" where \<comment> \<open>\<open>/^cookie$/i\<close>\<close>
  "is_cookie_key k \<longleftrightarrow> rtest (seq_re [Bol, lit_i_re (js ''cookie''), Eol]) k"

section \<open>Shell words\<close>

text \<open>
  The scanner visits code points and this one code units: a code point outside the basic plane is
  neither a quote, a backslash nor white space, and neither are its two halves.
\<close>

record shell_state =
  sh_tokens :: "jsstr list"
  sh_token :: jsstr
  sh_quote :: "code_unit option"
  sh_escaped :: bool

definition shell_step :: "code_unit \<Rightarrow> shell_state \<Rightarrow> shell_state" where
  "shell_step c st =
     (if sh_escaped st then st\<lparr>sh_token := sh_token st @ [c], sh_escaped := False\<rparr>
      else if c = 92 \<and> sh_quote st \<noteq> Some 39 then st\<lparr>sh_escaped := True\<rparr>
      else case sh_quote st of
             Some q \<Rightarrow>
               if c = q then st\<lparr>sh_quote := None\<rparr> else st\<lparr>sh_token := sh_token st @ [c]\<rparr>
           | None \<Rightarrow>
               if c = 39 \<or> c = 34 then st\<lparr>sh_quote := Some c\<rparr>
               else if is_space c then
                 (if sh_token st \<noteq> []
                  then st\<lparr>sh_tokens := sh_tokens st @ [sh_token st], sh_token := []\<rparr> else st)
               else st\<lparr>sh_token := sh_token st @ [c]\<rparr>)"

definition tokenizeShell :: "jsstr \<Rightarrow> jsstr list import_run" where
  "tokenizeShell source =
     (let st = fold shell_step (trim source)
                 \<lparr>sh_tokens = [], sh_token = [], sh_quote = None, sh_escaped = False\<rparr>
      in if sh_quote st \<noteq> None
         then import_error (js ''The cURL command contains an unclosed quote.'')
         else
           let token = (if sh_escaped st then sh_token st @ [92] else sh_token st)
           in retR (if token \<noteq> [] then sh_tokens st @ [token] else sh_tokens st))"

definition splitLongOption :: "jsstr \<Rightarrow> jsstr \<times> jsstr option" where
  "splitLongOption v =
     (if \<not> starts_with (js ''--'') v then (v, None)
      else case index_of (js ''='') v of
             None \<Rightarrow> (v, None)
           | Some i \<Rightarrow> (take i v, Some (drop (i + 1) v)))"

definition json_start_re :: re where \<comment> \<open>\<open>^(?:\[|\{)\<close>\<close>
  "json_start_re = Seq Bol (Alt (unit_re 91) (unit_re 123))"

definition inferBodyType :: "jsstr \<Rightarrow> (jsstr \<times> jsstr) list \<Rightarrow> jsstr" where
  "inferBodyType body headers =
     (let contentType = (case find (\<lambda>(k, v). rtest (seq_re [Bol, lit_i_re (js ''content-type''), Eol]) k) headers of
                           Some (k, v) \<Rightarrow> v
                         | None \<Rightarrow> [])
      in if rtest (lit_i_re (js ''json'')) contentType \<or> rtest json_start_re (trim body) then js ''json''
         else if rtest (lit_i_re (js ''x-www-form-urlencoded'')) contentType then js ''form''
         else js ''raw'')"

end
