(* ===== verification/Import_Facts.thy ===== *)
theory Import_Facts
  imports Import_Common
begin

text \<open>
  Facts about the shared helpers: what a secret placeholder looks like, what masking does to a
  value, what reaches a JSON body, and how the shell tokenizer reads quoted words.
\<close>

lemma map_sum_Inr: "map_sum f g m = Inr y \<longleftrightarrow> (\<exists>x. m = Inr x \<and> y = g x)"
  by (cases m) auto

section \<open>The text a replacement can contain\<close>

definition drawn :: "code_unit set \<Rightarrow> mstate \<Rightarrow> bool" where
  "drawn A st \<longleftrightarrow> set (fst (snd st)) \<subseteq> A \<and> (\<forall>(k, c)\<in>set (snd (snd st)). set c \<subseteq> A)"

lemma drawn_star:
  assumes "\<And>a b. drawn A a \<Longrightarrow> b \<in> set (f a) \<Longrightarrow> drawn A b"
  shows "drawn A st \<Longrightarrow> out \<in> set (star_iter g f n st) \<Longrightarrow> drawn A out"
proof (induction n arbitrary: st)
  case 0
  then show ?case by simp
next
  case (Suc n)
  then consider "out = st" | mid where "mid \<in> set (f st)" "out \<in> set (star_iter g f n mid)"
    by (auto simp: Let_def split: if_splits)
  then show ?case
  proof cases
    case 1
    with Suc.prems show ?thesis by simp
  next
    case 2
    from Suc.IH [OF assms [OF Suc.prems(1) 2(1)] 2(2)] show ?thesis .
  qed
qed

lemma drawn_rmatch: "drawn A st \<Longrightarrow> out \<in> set (rmatch r st) \<Longrightarrow> drawn A out"
proof (induction r arbitrary: st out)
  case (Star g a)
  from Star.prems(2) have "out \<in> set (star_iter g (rmatch a) (length (fst (snd st))) st)" by simp
  moreover have "drawn A y" if "drawn A x" "y \<in> set (rmatch a x)" for x y
    using Star.IH that by blast
  ultimately show ?case using drawn_star [of A "rmatch a", OF _ Star.prems(1)] by blast
next
  case (Seq a b)
  from Seq.prems(2) obtain mid where "mid \<in> set (rmatch a st)" "out \<in> set (rmatch b mid)" by auto
  with Seq show ?case by blast
next
  case (Alt a b)
  from Alt.prems(2) have "out \<in> set (rmatch a st) \<or> out \<in> set (rmatch b st)" by simp
  with Alt show ?case by blast
next
  case (Cls neg rs)
  then show ?case by (fastforce simp: drawn_def split: list.splits if_splits)
next
  case (Grp k a)
  obtain l s cs where st: "st = (l, s, cs)" by (cases st)
  with Grp.prems obtain l' s' cs' where out: "(l', s', cs') \<in> set (rmatch a (l, s, cs))"
    "out = (l', s', (k, take (length s - length s') s) # cs')" by auto
  with Grp.IH [OF Grp.prems(1)] st have "drawn A (l', s', cs')" by blast
  moreover from Grp.prems(1) st have "set (take (length s - length s') s) \<subseteq> A"
    by (auto simp: drawn_def dest: in_set_takeD)
  ultimately show ?case using out by (auto simp: drawn_def)
qed (auto simp: drawn_def split: list.splits if_splits)

lemma set_sub_all_from:
  assumes "\<And>t m. set t \<subseteq> A \<Longrightarrow> drawn A m \<Longrightarrow> set (f t m) \<subseteq> B" and "A \<subseteq> B"
  shows "set s \<subseteq> A \<Longrightarrow> set (sub_all_from r f l s) \<subseteq> B"
proof (induction "length s" arbitrary: l s rule: less_induct)
  case less
  have tail: "set (case s of [] \<Rightarrow> [] | c # s' \<Rightarrow> c # sub_all_from r f (c # l) s') \<subseteq> B"
  proof (cases s)
    case (Cons c s')
    with less.prems have "set (sub_all_from r f (c # l) s') \<subseteq> B" by (intro less.hyps) auto
    with Cons less.prems assms(2) show ?thesis by auto
  qed simp
  show ?case
  proof (cases "rmatch r (l, s, [])")
    case Nil
    with tail show ?thesis by (simp add: sub_all_from.simps)
  next
    case (Cons m ms)
    have "drawn A (l, s, [])" using less.prems by (simp add: drawn_def)
    from drawn_rmatch [OF this, of m r] Cons have m: "drawn A m" by simp
    have "set (matched s m) \<subseteq> A"
      using less.prems by (auto simp: matched_def dest: in_set_takeD)
    from this m have "set (f (matched s m) m) \<subseteq> B" by (rule assms(1))
    moreover have "set (sub_all_from r f (fst m) (fst (snd m))) \<subseteq> B" if "length (fst (snd m)) < length s"
      using less.hyps [OF that] m by (simp add: drawn_def)
    ultimately show ?thesis
      using Cons tail by (simp add: sub_all_from.simps [of r f l s])
  qed
qed

lemma set_sub_all:
  "(\<And>t m. set t \<subseteq> A \<Longrightarrow> drawn A m \<Longrightarrow> set (f t m) \<subseteq> B) \<Longrightarrow> A \<subseteq> B \<Longrightarrow> set s \<subseteq> A \<Longrightarrow>
    set (sub_all r f s) \<subseteq> B"
  unfolding sub_all_def by (rule set_sub_all_from)

lemma rmatch_rest: "m \<in> set (rmatch r (l, s, [])) \<Longrightarrow> set (fst (snd m)) \<subseteq> set s"
  using drawn_rmatch [of "set s" "(l, s, [])" m r] by (simp add: drawn_def)

lemma rexec_from_parts:
  "rexec_from r l s = Some (l', t, m) \<Longrightarrow> set l' \<subseteq> set l \<union> set s \<and> set (fst (snd m)) \<subseteq> set s"
proof (induction s arbitrary: l)
  case Nil
  then have "m \<in> set (rmatch r (l, [], []))" "l' = l" by (auto split: list.splits)
  from rmatch_rest [OF this(1)] this(2) show ?case by auto
next
  case (Cons c s)
  show ?case
  proof (cases "rmatch r (l, c # s, [])")
    case Nil
    with Cons.prems have "rexec_from r (c # l) s = Some (l', t, m)" by simp
    from Cons.IH [OF this] show ?thesis by auto
  next
    case (Cons m' ms)
    with \<open>rexec_from r l (c # s) = Some (l', t, m)\<close> have "m' = m" "l' = l" by simp_all
    with Cons rmatch_rest [of m r l "c # s"] show ?thesis by auto
  qed
qed

lemma set_sub_first:
  assumes "\<And>t m. f t m = []"
  shows "set (sub_first r f s) \<subseteq> set s"
proof (cases "rexec_from r [] s")
  case (Some x)
  obtain l t m where "x = (l, t, m)" by (cases x)
  with Some rexec_from_parts [of r "[]" s l t m] assms show ?thesis
    by (auto simp: sub_first_def)
qed (simp add: sub_first_def)

section \<open>Aliases and placeholders\<close>

text \<open>
  The two code units an alias must not contain: the closing brace would end the reference early,
  and the dollar sign is special in a replacement text. Neither is introduced by changing case.
\<close>

definition plain_key :: "jsstr \<Rightarrow> bool" where
  "plain_key k \<longleftrightarrow> 125 \<notin> set k \<and> 36 \<notin> set k"

lemma special_upper_unit: "b \<in> {125, 36} \<Longrightarrow> b \<in> set (upper_unit c) \<Longrightarrow> c = b"
proof (cases "is_lower c")
  case True
  assume b: "b \<in> {125, 36}" "b \<in> set (upper_unit c)"
  with True have "c - 32 = b" "97 \<le> c" "c \<le> 122" by (simp_all add: upper_unit_def is_lower_def)
  with b(1) show ?thesis by auto
next
  case False
  assume b: "b \<in> {125, 36}" "b \<in> set (upper_unit c)"
  with False have "c = b \<or> 224 \<le> c \<and> c \<le> 254 \<and> b = c - 32"
    by (auto simp: upper_unit_def split: if_splits)
  with b(1) show ?thesis by auto
qed

lemma special_to_upper: "b \<in> {125, 36} \<Longrightarrow> b \<notin> set s \<Longrightarrow> b \<notin> set (to_upper s)"
  using special_upper_unit by (auto simp: to_upper_def)

lemma special_lower_unit: "b \<in> {125, 36} \<Longrightarrow> b = lower_unit c \<Longrightarrow> c = b"
proof -
  assume b: "b \<in> {125, 36}" "b = lower_unit c"
  then have "c = b \<or> (65 \<le> c \<and> c \<le> 90 \<and> c + 32 = b) \<or> (192 \<le> c \<and> c + 32 = b)"
    by (auto simp: lower_unit_def is_upper_def split: if_splits)
  with b(1) show ?thesis by auto
qed

lemma special_toAlias:
  assumes b: "b \<in> {125, 36}" and "b \<notin> set v"
  shows "b \<notin> set (toAlias v)"
proof -
  let ?f = "\<lambda>_ m. case capture 1 m of Some c \<Rightarrow> to_upper c | None \<Rightarrow> []"
  have "set (sub_all alias_join_re ?f v) \<subseteq> - {b}"
  proof (rule set_sub_all [of "- {b}"])
    fix t m assume "drawn (- {b}) m"
    then have "b \<notin> set c" if "capture 1 m = Some c" for c
      using map_of_SomeD [OF that [unfolded capture_def]] by (auto simp: drawn_def)
    then show "set (?f t m) \<subseteq> - {b}"
      by (cases "capture 1 m") (use special_to_upper [OF b] in auto)
  qed (use assms in auto)
  moreover have "set (sub_first alias_lead_re (\<lambda>_ _. []) w) \<subseteq> set w" for w
    by (rule set_sub_first) simp
  ultimately have "b \<notin> set (sub_first alias_lead_re (\<lambda>_ _. []) (sub_all alias_join_re ?f v))"
    by blast
  moreover have lower: "lower_unit c \<noteq> b" if "c \<noteq> b" for c
    using special_lower_unit [OF b, of c] that by auto
  moreover have "b \<notin> set (js ''importedCredential'')"
    using b by (auto simp: js_def)
  ultimately show ?thesis
    unfolding toAlias_def Let_def
    by (cases "sub_first alias_lead_re (\<lambda>_ _. []) (sub_all alias_join_re ?f v)")
      (simp, simp add: to_lower_def lower [symmetric] not_sym [OF lower])
qed

lemma isTemplate_iff:
  "isTemplate v \<longleftrightarrow> (\<exists>u x w. v = u @ [123, 123] @ x @ [125, 125] @ w \<and> x \<noteq> [] \<and> 125 \<notin> set x)"
proof -
  have braces: "js ''{{'' = [123, 123]" "js ''}}'' = [125, 125]" by (simp_all add: js_def)
  have "lang template_re = {[123, 123] @ x @ [125, 125] | x. x \<noteq> [] \<and> 125 \<notin> set x}"
    by (auto simp: template_re_def lang_plus_Cls in_cls_def braces)
  moreover have "plain template_re" by (simp add: template_re_def)
  ultimately have "isTemplate v \<longleftrightarrow>
      (\<exists>u t w. (\<exists>x. t = [123, 123] @ x @ [125, 125] \<and> x \<noteq> [] \<and> 125 \<notin> set x) \<and> v = u @ t @ w)"
    by (simp only: isTemplate_def rtest_iff mem_Collect_eq)
  also have "\<dots> \<longleftrightarrow> (\<exists>u x w. v = u @ ([123, 123] @ x @ [125, 125]) @ w \<and> x \<noteq> [] \<and> 125 \<notin> set x)"
    by blast
  finally show ?thesis by (simp only: append_assoc)
qed

lemma isTemplate_context: "isTemplate v \<Longrightarrow> isTemplate (u @ v @ w)"
  unfolding isTemplate_iff by (metis append.assoc)

lemma placeholder_template:
  assumes "125 \<notin> set key"
  shows "isTemplate (secretPlaceholder key)"
proof -
  let ?x = "js '' secrets.'' @ toAlias key @ [32]"
  have "125 \<notin> set ?x" using special_toAlias [of 125, OF _ assms] by (auto simp: js_def)
  moreover have "secretPlaceholder key = [] @ [123, 123] @ ?x @ [125, 125] @ []"
    by (simp add: secretPlaceholder_def js_def)
  moreover have "?x \<noteq> []" by simp
  ultimately show ?thesis unfolding isTemplate_iff by blast
qed

lemma placeholder_no_dollar: "36 \<notin> set key \<Longrightarrow> 36 \<notin> set (secretPlaceholder key)"
  using special_toAlias [of 36 key] by (auto simp: secretPlaceholder_def js_def)

section \<open>Replacing references keeps templates\<close>

lemma expand_dollar_plain: "36 \<notin> set r \<Longrightarrow> expand_dollar m pre post r = r"
  by (induction m pre post r rule: expand_dollar.induct) auto

lemma replace_all_from_hit:
  assumes r: "36 \<notin> set r" and "p \<noteq> []"
  shows "contains_str p s \<Longrightarrow> \<exists>u w. replace_all_from p r pre s = u @ r @ w"
proof (induction "length s" arbitrary: s pre rule: less_induct)
  case less
  show ?case
  proof (cases s)
    case Nil
    with less.prems assms(2) show ?thesis by (simp add: contains_str_def)
  next
    case (Cons c t)
    show ?thesis
    proof (cases "starts_with p s")
      case True
      have "replace_all_from p r pre s = [] @ r @ replace_all_from p r (pre @ p) (drop (length p) (c # t))"
        using True Cons assms by (simp add: replace_all_from.simps(2) expand_dollar_plain)
      then show ?thesis by blast
    next
      case False
      with Cons less.prems have "contains_str p t"
        by (auto simp: contains_str_def)
      with less.hyps [of t "pre @ [c]"] Cons obtain u w
        where "replace_all_from p r (pre @ [c]) t = u @ r @ w" by auto
      with False Cons have "replace_all_from p r pre s = (c # u) @ r @ w"
        by (simp add: replace_all_from.simps(2))
      then show ?thesis by blast
    qed
  qed
qed

lemma replace_all_template:
  assumes "isTemplate v" "isTemplate r" "36 \<notin> set r" "p \<noteq> []"
  shows "isTemplate (replace_all p r v)"
proof (cases "contains_str p v")
  case True
  with replace_all_from_hit [OF assms(3,4)] obtain u w where "replace_all p r v = u @ r @ w"
    unfolding replace_all_def by blast
  with assms(2) show ?thesis by (simp only: isTemplate_context)
next
  case False
  with assms(1) show ?thesis by (simp add: replace_all_id)
qed

section \<open>Masking\<close>

text \<open>
  The contract of masking, whatever the keys and values are: a value stored under a secret key is
  replaced unless it is a reference already, and the replacement is a reference.
\<close>

locale masking =
  fixes secret :: "'k \<Rightarrow> bool"
    and reference :: "'v \<Rightarrow> bool"
    and replacement :: "'k \<Rightarrow> 'v"
    and regular :: "'k \<Rightarrow> bool"
  assumes replacement_reference: "regular k \<Longrightarrow> reference (replacement k)"
begin

definition mask :: "'k \<Rightarrow> 'v \<Rightarrow> 'v" where
  "mask k v = (if \<not> secret k \<or> reference v then v else replacement k)"

lemma mask_reference: "regular k \<Longrightarrow> secret k \<Longrightarrow> reference (mask k v)"
  by (simp add: mask_def replacement_reference)

lemma mask_idem: "regular k \<Longrightarrow> mask k (mask k v) = mask k v"
  by (simp add: mask_def replacement_reference)

lemma mask_open: "\<not> secret k \<Longrightarrow> mask k v = v"
  by (simp add: mask_def)

lemma mask_all_reference:
  "(k, w) \<in> set (map (\<lambda>(k, v). (k, mask k v)) kvs) \<Longrightarrow> regular k \<Longrightarrow> secret k \<Longrightarrow> reference w"
  by (auto simp: mask_reference)

end

interpretation secrets: masking sensitive isTemplate secretPlaceholder "\<lambda>k. 125 \<notin> set k"
  by unfold_locales (rule placeholder_template)

lemma protectSecretValue_mask: "okR (\<lambda>w. w = secrets.mask key v) (protectSecretValue key v location)"
  by (simp add: protectSecretValue_def okR_def retR_def warnR_def bindR_def secrets.mask_def)

text \<open>
  What becomes of a value given under a name: the placeholder of the name when the name is sensitive
  and the value is a literal, that is, has no template in it; otherwise the value itself. A field of
  an authorization is kept when it is empty or has a template in it.
\<close>

definition masked_value :: "jsstr \<Rightarrow> jsstr \<Rightarrow> jsstr \<Rightarrow> bool" where
  "masked_value key given w \<longleftrightarrow>
     (if sensitive key \<and> \<not> isTemplate given then w = secretPlaceholder key else w = given)"

definition masked_field :: "jsstr \<Rightarrow> jsstr \<Rightarrow> jsstr \<Rightarrow> bool" where
  "masked_field alias given w \<longleftrightarrow>
     (if given = [] \<or> isTemplate given then w = given else w = secretPlaceholder alias)"

definition masked_row :: "key_value_row \<Rightarrow> key_value_row \<Rightarrow> bool" where
  "masked_row q p \<longleftrightarrow> kv_key p = kv_key q \<and> masked_value (kv_key q) (kv_value q) (kv_value p)"

lemma masked_value_mask: "masked_value key v w \<longleftrightarrow> w = secrets.mask key v"
  by (simp add: masked_value_def secrets.mask_def)

lemma protectSecretValue_masked: "okR (masked_value key v) (protectSecretValue key v location)"
  by (rule okR_mono [OF protectSecretValue_mask]) (simp add: masked_value_mask)

lemma secretOrTemplate_masked: "masked_field alias v (secretOrTemplate v alias)"
  by (simp add: masked_field_def secretOrTemplate_def)

lemma protect_param_masked: "okR (masked_row p) (protect_param location p)"
  unfolding protect_param_def masked_row_def
  by (rule okR_bind [OF protectSecretValue_masked]) (auto intro!: okR_ret)

lemma okR_if2: "(c \<Longrightarrow> okR P a) \<Longrightarrow> (\<not> c \<Longrightarrow> okR P b) \<Longrightarrow> okR P (if c then a else b)"
  by simp

lemma okR_mapR_list_all2: "(\<And>x. okR (P x) (f x)) \<Longrightarrow> okR (list_all2 P xs) (mapR f xs)"
proof (induction xs)
  case Nil
  then show ?case by (simp add: okR_ret)
next
  case (Cons x xs)
  have "okR (list_all2 P xs) (mapR f xs)" "okR (P x) (f x)" using Cons by simp_all
  then show ?case
    by (auto intro!: okR_bind [of "P x"] okR_bind [of "list_all2 P xs"] okR_ret)
qed

lemma protect_params_masked: "okR (list_all2 masked_row q) (mapR (protect_param location) q)"
  by (rule okR_mapR_list_all2) (rule protect_param_masked)

end
