(* ===== verification/Import_Postman.thy ===== *)
theory Import_Postman
  imports Import_Common
begin

text \<open>
  The import of a Postman collection (\<open>parsePostmanCollection\<close> of
  \<open>features/monitors/monitor-import.ts\<close>). The source casts what \<open>JSON.parse\<close> returns to the
  collection type without checking it, so the importer is modelled on dynamic values: a malformed
  collection takes the branch, or raises the exception, the running code does. The one case left
  out, \<open>IllTyped\<close>, is a key that is truthy but not a string reaching a row declared to hold a
  string.
\<close>

section \<open>Events and scripts\<close>

definition scriptSource :: "jsval \<Rightarrow> exn + jsstr" where
  "scriptSource script =
     (case fld script ''exec'' of
        JArr xs \<Rightarrow> map_sum id (join [10]) (to_string_items xs)
      | JStr s \<Rightarrow> Inr s
      | _ \<Rightarrow> Inr [])"

record event_scripts =
  ev_pre :: "jsstr list"
  ev_tests :: "jsstr list"
  ev_count :: nat

definition add_event :: "jsval \<Rightarrow> event_scripts \<Rightarrow> event_scripts import_run" where
  "add_event event r =
     bindR (getR event ''script'') (\<lambda>script.
     bindR (liftR (scriptSource script)) (\<lambda>source.
     if source = [] then retR r
     else if fld event ''listen'' = JStr (js ''prerequest'')
     then retR (r\<lparr>ev_pre := ev_pre r @ [source], ev_count := ev_count r + 1\<rparr>)
     else if fld event ''listen'' = JStr (js ''test'')
     then retR (r\<lparr>ev_tests := ev_tests r @ [source], ev_count := ev_count r + 1\<rparr>)
     else retR r))"

fun add_events :: "jsval list \<Rightarrow> event_scripts \<Rightarrow> event_scripts import_run" where
  "add_events [] r = retR r"
| "add_events (e # es) r = bindR (add_event e r) (add_events es)"

text \<open>Iterating a string visits characters, which have no script; other values are not iterable.\<close>

definition eventScripts :: "jsval \<Rightarrow> event_scripts import_run" where
  "eventScripts events =
     (case coalesce events (JArr []) of
        JArr es \<Rightarrow> add_events es \<lparr>ev_pre = [], ev_tests = [], ev_count = 0\<rparr>
      | JStr _ \<Rightarrow> retR \<lparr>ev_pre = [], ev_tests = [], ev_count = 0\<rparr>
      | _ \<Rightarrow> failR TypeError)"

section \<open>Addresses\<close>

definition buildPostmanURL :: "jsval \<Rightarrow> jsstr import_run" where
  "buildPostmanURL url =
     bindR (liftR (stringValue (fld url ''protocol''))) (\<lambda>p.
     let protocol = (if p \<noteq> [] then p else js ''https'');
         part = (\<lambda>sep v. case v of
                   JArr xs \<Rightarrow> bindR (mapR (\<lambda>x. liftR (stringValue x)) xs) (\<lambda>ss. retR (join sep ss))
                 | _ \<Rightarrow> liftR (stringValue v))
     in
     bindR (part (js ''.'') (fld url ''host'')) (\<lambda>host.
     bindR (part (js ''/'') (fld url ''path'')) (\<lambda>path.
     retR (if host \<noteq> [] then protocol @ js ''://'' @ host @ js ''/'' @ path else []))))"

definition string_key :: "jsval \<Rightarrow> jsstr import_run" where \<comment> \<open>a key stored in a row\<close>
  "string_key v = (case v of JStr s \<Rightarrow> retR s | _ \<Rightarrow> failR IllTyped)"

definition postman_param :: "nat \<Rightarrow> jsval \<Rightarrow> key_value_row import_run" where
  "postman_param i p =
     bindR (string_key (fld p ''key'')) (\<lambda>key.
     bindR (liftR (stringValue (fld p ''value''))) (\<lambda>v.
     retR (row (js ''param-import-'' @ dec (i + 1)) key v (fld p ''disabled'' \<noteq> JBool True)
             (descriptionText (fld p ''description'')))))"

definition has_key :: "jsval \<Rightarrow> bool import_run" where
  "has_key v = bindR (getR v ''key'') (\<lambda>k. retR (truthy k))"

definition postmanURL :: "jsval \<Rightarrow> (jsstr \<times> key_value_row list) import_run" where
  "postmanURL v =
     (case v of
        JStr s \<Rightarrow> retR (splitURLQuery s)
      | _ \<Rightarrow>
        if \<not> truthy v \<or> \<not> is_object v then retR ([], [])
        else
          bindR (liftR (stringValue (fld v ''raw''))) (\<lambda>raw.
          let query = (case fld v ''query'' of JArr qs \<Rightarrow> qs | _ \<Rightarrow> []);
              address = (if raw \<noteq> [] then retR raw else buildPostmanURL v)
          in if query = [] then bindR address (\<lambda>a. retR (splitURLQuery a))
             else
               bindR address (\<lambda>a.
               bindR (filterR has_key query) (\<lambda>qs.
               bindR (mapiR postman_param qs) (\<lambda>params.
               retR (stripQuery a, params))))))"

section \<open>Authorization\<close>

definition warnAuthSecret :: "jsstr option \<Rightarrow> jsstr \<Rightarrow> jsstr \<Rightarrow> unit import_run" where
  "warnAuthSecret v label location =
     (case v of
        None \<Rightarrow> retR ()
      | Some s \<Rightarrow>
          if s = [] \<or> isTemplate s then retR ()
          else warnR \<lparr>wn_code = js ''AUTH_SECRET'',
                 wn_message = js ''The '' @ label @ js '' was replaced with a Rhythm secret placeholder.'',
                 wn_location = Some location\<rparr>)"

definition auth_entry :: "jsval \<Rightarrow> (jsstr \<times> jsstr) import_run" where
  "auth_entry entry =
     bindR (liftR (stringValue (fld entry ''value''))) (\<lambda>v.
     bindR (liftR (to_string (fld entry ''key''))) (\<lambda>k. retR (k, v)))"

definition auth_values :: "jsval \<Rightarrow> (jsstr \<times> jsstr) list import_run" where
  "auth_values auth =
     bindR (liftR (to_string (fld auth ''type''))) (\<lambda>ty.
     case fld_str auth ty of
       JArr entries \<Rightarrow>
         bindR (filterR has_key entries) (\<lambda>es. bindR (mapR auth_entry es) (\<lambda>kvs. retR (from_entries kvs)))
     | _ \<Rightarrow> retR [])"

definition field_or_empty :: "(jsstr \<times> jsstr) list \<Rightarrow> string \<Rightarrow> jsstr" where \<comment> \<open>\<open>values.k ?? ""\<close>\<close>
  "field_or_empty kvs k = (case map_of kvs (js k) of Some s \<Rightarrow> s | None \<Rightarrow> [])"

definition no_auth :: auth_definition where
  "no_auth = \<lparr>au_type = js ''none'', au_fields = []\<rparr>"

definition mapPostmanAuth :: "jsval \<Rightarrow> jsstr \<Rightarrow> auth_definition import_run" where
  "mapPostmanAuth auth location =
     (let ty = fld auth ''type'' in
      if \<not> truthy auth \<or> \<not> truthy ty \<or> ty = JStr (js ''noauth'') then retR no_auth
      else
        bindR (auth_values auth) (\<lambda>kvs.
        let bearer = (\<lambda>v alias. \<lparr>au_type = js ''bearer'',
                        au_fields = [(js ''token'', secretOrTemplate v (js alias))]\<rparr>)
        in
        if ty = JStr (js ''basic'') then
          bindR (warnAuthSecret (map_of kvs (js ''password'')) (js ''Basic Auth password'') location) (\<lambda>_.
          retR \<lparr>au_type = js ''basic'',
                au_fields = [(js ''username'', field_or_empty kvs ''username''),
                  (js ''password'', if field_or_empty kvs ''password'' \<noteq> []
                    then secretOrTemplate (field_or_empty kvs ''password'') (js ''importedPassword'')
                    else [])]\<rparr>)
        else if ty = JStr (js ''bearer'') then
          bindR (warnAuthSecret (map_of kvs (js ''token'')) (js ''bearer token'') location) (\<lambda>_.
          retR (bearer (field_or_empty kvs ''token'') ''importedBearerToken''))
        else if ty = JStr (js ''apikey'') then
          (let key = (if field_or_empty kvs ''key'' \<noteq> [] then field_or_empty kvs ''key'' else js ''X-API-Key'') in
           bindR (warnAuthSecret (map_of kvs (js ''value''))
                    (js ''API key '' @ [8220] @ key @ [8221]) location) (\<lambda>_.
           retR \<lparr>au_type = js ''apiKey'',
                 au_fields = [(js ''name'', key),
                   (js ''value'', secretOrTemplate (field_or_empty kvs ''value'') (toAlias key)),
                   (js ''location'', if map_of kvs (js ''in'') = Some (js ''query'') then js ''query''
                                     else js ''header'')]\<rparr>))
        else if ty = JStr (js ''oauth2'') \<and> field_or_empty kvs ''accessToken'' \<noteq> [] then
          bindR (warnAuthSecret (map_of kvs (js ''accessToken'')) (js ''OAuth 2.0 access token'') location) (\<lambda>_.
          retR (bearer (field_or_empty kvs ''accessToken'') ''importedAccessToken''))
        else
          bindR (liftR (to_string ty)) (\<lambda>name.
          bindR (warnR \<lparr>wn_code = js ''UNSUPPORTED_AUTH'',
                   wn_message = js ''Postman auth type '' @ [8220] @ name @ [8221]
                     @ js '' is not supported by the controlled importer. Configure it in the Auth or Pre-request section.'',
                   wn_location = Some location\<rparr>) (\<lambda>_.
          retR no_auth))))"

section \<open>Bodies\<close>

definition encodeR :: "jsstr \<Rightarrow> jsstr import_run" where
  "encodeR s = (case encode_uri s of Some e \<Rightarrow> retR e | None \<Rightarrow> failR URIError)"

text \<open>
  One field of a form: the key is converted to a string wherever it is printed or tested, but
  masking a value under a key that is not a string raises.
\<close>

definition encoded_field :: "jsstr \<Rightarrow> jsval \<Rightarrow> jsstr import_run" where
  "encoded_field location field =
     bindR (liftR (to_string (fld field ''key''))) (\<lambda>key.
     bindR (encodeR key) (\<lambda>k.
     bindR (liftR (stringValue (fld field ''value''))) (\<lambda>v.
     bindR (if sensitive key \<and> \<not> isTemplate v \<and> \<not> is_string (fld field ''key'') then failR TypeError
            else protectSecretValue key v (Some location)) (\<lambda>w.
     bindR (encodeR w) (\<lambda>e.
     retR (k @ js ''='' @ e))))))"

definition is_file_field :: "jsval \<Rightarrow> bool" where
  "is_file_field v \<longleftrightarrow> fld v ''type'' = JStr (js ''file'')"

definition keep_field :: "bool \<Rightarrow> jsval \<Rightarrow> bool import_run" where
  "keep_field multipart field =
     bindR (getR field ''disabled'') (\<lambda>d.
     retR (\<not> truthy d \<and> truthy (fld field ''key'') \<and> (multipart \<longrightarrow> \<not> is_file_field field)))"

definition form_fields :: "jsval \<Rightarrow> jsval list" where
  "form_fields v = (case v of JArr fs \<Rightarrow> fs | _ \<Rightarrow> [])"

definition raw_language :: "jsval \<Rightarrow> jsstr import_run" where
  "raw_language body =
     (let options = fld body ''options'' in
      if is_object options \<and> (is_object (fld options ''raw'') \<or> fld options ''raw'' = JNull)
      then bindR (getR (fld options ''raw'') ''language'') (\<lambda>l. liftR (stringValue l))
      else retR [])"

definition no_body :: body_definition where
  "no_body = \<lparr>bo_type = js ''none'', bo_content = []\<rparr>"

definition postman_file :: "string \<Rightarrow> jsstr \<Rightarrow> unit import_run" where
  "postman_file message location =
     warnR \<lparr>wn_code = js ''POSTMAN_FILE'', wn_message = js message, wn_location = Some location\<rparr>"

definition mapPostmanBody :: "jsval \<Rightarrow> jsstr \<Rightarrow> body_definition import_run" where
  "mapPostmanBody body location =
     (if \<not> truthy body \<or> fld body ''disabled'' = JBool True then retR no_body
      else
        let mode = (case fld body ''mode'' of JStr m \<Rightarrow> m | _ \<Rightarrow> js ''none'') in
        if mode = js ''raw'' then
          bindR (liftR (stringValue (fld body ''raw''))) (\<lambda>content.
          bindR (raw_language body) (\<lambda>language.
          bindR (protectBody content (Some location)) (\<lambda>safe.
          retR \<lparr>bo_type = (if language = js ''json'' \<or> rtest json_start_re (trim content)
                            then js ''json'' else js ''raw''),
                bo_content = safe\<rparr>)))
        else if mode = js ''urlencoded'' then
          bindR (filterR (keep_field False) (form_fields (fld body ''urlencoded''))) (\<lambda>fields.
          bindR (mapR (encoded_field location) fields) (\<lambda>parts.
          retR \<lparr>bo_type = js ''form'', bo_content = join (js ''&'') parts\<rparr>))
        else if mode = js ''formdata'' then
          bindR (filterR (keep_field True) (form_fields (fld body ''formdata''))) (\<lambda>supported.
          bindR (whenR (list_ex is_file_field (form_fields (fld body ''formdata'')))
                   (postman_file ''Postman multipart file paths were not imported. Configure file content explicitly in the Body section.'' location)) (\<lambda>_.
          bindR (mapR (encoded_field location) supported) (\<lambda>parts.
          retR \<lparr>bo_type = js ''multipart'', bo_content = join (js ''&'') parts\<rparr>)))
        else if mode = js ''graphql'' then
          bindR (liftR (stringValue (fld (if is_object (fld body ''graphql'') then fld body ''graphql'' else JObj [])
                                       ''query''))) (\<lambda>q.
          retR \<lparr>bo_type = js ''graphql'', bo_content = q\<rparr>)
        else
          bindR (whenR (mode = js ''file'')
                   (postman_file ''A local file body cannot be imported from a Postman export. Configure the body explicitly.'' location)) (\<lambda>_.
          retR no_body))"

section \<open>Requests\<close>

text \<open>The filter over the headers: those that stay, and the values of the cookie headers.\<close>

fun split_headers :: "jsval list \<Rightarrow> (jsval list \<times> jsstr list) import_run" where
  "split_headers [] = retR ([], [])"
| "split_headers (h # hs) =
     bindR (getR h ''key'') (\<lambda>k.
     bindR (liftR (stringValue k)) (\<lambda>key.
     if is_cookie_key key then
       bindR (liftR (stringValue (fld h ''value''))) (\<lambda>v.
       bindR (split_headers hs) (\<lambda>(kept, cs). retR (kept, v # cs)))
     else
       bindR (split_headers hs) (\<lambda>(kept, cs). retR (if truthy k then h # kept else kept, cs))))"

definition postman_header :: "jsstr \<Rightarrow> jsstr \<Rightarrow> nat \<Rightarrow> jsval \<Rightarrow> key_value_row import_run" where
  "postman_header step_id location i h =
     bindR (string_key (fld h ''key'')) (\<lambda>key.
     bindR (liftR (stringValue (fld h ''value''))) (\<lambda>v.
     bindR (protectSecretValue key v (Some location)) (\<lambda>w.
     retR ((row (js ''header-import-'' @ step_id @ js ''-'' @ dec (i + 1)) key w
              (fld h ''disabled'' \<noteq> JBool True) (descriptionText (fld h ''description'')))
           \<lparr>kv_sensitive := Some (isSensitive key (fld h ''type''))\<rparr>))))"

definition postman_cookies :: "jsstr \<Rightarrow> jsstr list \<Rightarrow> cookie_row list" where
  "postman_cookies step_id cookie_headers =
     filter (\<lambda>c. kv_key c \<noteq> [])
       (map (\<lambda>(i, v).
           let key = (case index_of (js ''='') v of None \<Rightarrow> trim v | Some e \<Rightarrow> trim (take e v)) in
           cookie_of_row (row (js ''cookie-import-'' @ step_id @ js ''-'' @ dec (i + 1)) key
             (secretPlaceholder (if key \<noteq> [] then key else js ''cookie'')) True []))
         (enumerate 0 (concat (map (split_on 59) cookie_headers))))"

definition mapPostmanRequest ::
  "step_definition \<Rightarrow> jsval \<Rightarrow> jsval \<Rightarrow> jsstr list \<Rightarrow> jsstr list \<Rightarrow> jsstr \<Rightarrow> step_definition import_run" where
  "mapPostmanRequest step request auth pre tests location =
     bindR (postmanURL (fld request ''url'')) (\<lambda>(address, query).
     bindR (mapR (protect_param (Some location)) query) (\<lambda>params.
     bindR (case coalesce (fld request ''header'') (JArr []) of
              JArr hs \<Rightarrow> split_headers hs
            | _ \<Rightarrow> failR TypeError) (\<lambda>(kept, cookie_headers).
     bindR (mapiR (postman_header (st_id step) location) kept) (\<lambda>headers.
     let cookies = postman_cookies (st_id step) cookie_headers in
     bindR (whenR (cookies \<noteq> []) (warnR \<lparr>wn_code = js ''COOKIE_SECRET'',
              wn_message = js ''Cookie values were replaced with Rhythm secret placeholders during import.'',
              wn_location = Some location\<rparr>)) (\<lambda>_.
     bindR (mapPostmanAuth auth location) (\<lambda>au.
     bindR (mapPostmanBody (fld request ''body'') location) (\<lambda>body.
     retR (step\<lparr>st_request := (st_request step)\<lparr>rq_url := address, rq_params := params,
             rq_headers := headers, rq_cookies := cookies, rq_auth := au, rq_body := body,
             rq_pre_script := scriptDefinition (join [10, 10] pre),
             rq_test_script := scriptDefinition (join [10, 10] tests),
             rq_assertions := []\<rparr>\<rparr>))))))))"

section \<open>The walk over the items\<close>

record postman_context =
  cx_path :: "jsstr list"
  cx_auth :: jsval
  cx_pre :: "jsstr list"
  cx_tests :: "jsstr list"

record visit_state =
  vs_steps :: "step_definition list"
  vs_folders :: nat
  vs_scripts :: nat

definition trimmed_or :: "jsval \<Rightarrow> jsstr \<Rightarrow> jsstr import_run" where \<comment> \<open>\<open>v?.trim() || d\<close>\<close>
  "trimmed_or v d =
     (case v of
        JUndef \<Rightarrow> retR d
      | JNull \<Rightarrow> retR d
      | JStr s \<Rightarrow> retR (if trim s \<noteq> [] then trim s else d)
      | _ \<Rightarrow> failR TypeError)"

definition inherits :: "jsval \<Rightarrow> bool" where
  "inherits auth \<longleftrightarrow> auth = JUndef \<or> fld auth ''type'' = JStr (js ''inherit'')"

definition folder_context :: "jsval \<Rightarrow> jsstr \<Rightarrow> event_scripts \<Rightarrow> postman_context \<Rightarrow> postman_context" where
  "folder_context item name ev cx =
     \<lparr>cx_path = cx_path cx @ [name],
      cx_auth = (if inherits (fld item ''auth'') then cx_auth cx else fld item ''auth''),
      cx_pre = cx_pre cx @ ev_pre ev,
      cx_tests = ev_tests ev @ cx_tests cx\<rparr>"

definition request_auth :: "jsval \<Rightarrow> postman_context \<Rightarrow> jsval" where
  "request_auth request cx =
     (let auth = fld request ''auth'' in
      if inherits auth \<or> auth = JNull then cx_auth cx else auth)"

definition request_method :: "jsval \<Rightarrow> jsstr import_run" where
  "request_method request =
     (case coalesce (fld request ''method'') (JStr (js ''GET'')) of
        JStr m \<Rightarrow> retR m
      | _ \<Rightarrow> failR TypeError)"

definition example_count :: "jsval \<Rightarrow> nat" where
  "example_count item = (case fld item ''response'' of JArr rs \<Rightarrow> length rs | _ \<Rightarrow> 0)"

text \<open>An item without children: one request, or nothing to import.\<close>

definition visit_request ::
  "jsval \<Rightarrow> jsstr \<Rightarrow> event_scripts \<Rightarrow> postman_context \<Rightarrow> visit_state \<Rightarrow> visit_state import_run" where
  "visit_request item name ev cx st =
     (let location = join (js '' / '') (cx_path cx @ [name]);
          request = fld item ''request''
      in
      if \<not> truthy request then
        bindR (warnR \<lparr>wn_code = js ''EMPTY_ITEM'',
                 wn_message = js ''This collection item has no HTTP request and was skipped.'',
                 wn_location = Some location\<rparr>) (\<lambda>_. retR st)
      else if max_steps \<le> length (vs_steps st) then
        import_error (js ''This collection contains more than '' @ dec max_steps
          @ js '' requests. Split it into smaller collections before importing.'')
      else
        bindR (request_method request) (\<lambda>verb.
        let step = (makeHTTPDefinitionStep (length (vs_steps st)) location verb)
                     \<lparr>st_enabled := (fld item ''disabled'' \<noteq> JBool True)\<rparr> in
        bindR (mapPostmanRequest step request (request_auth request cx)
                 (filter (\<lambda>s. s \<noteq> []) (cx_pre cx @ ev_pre ev))
                 (filter (\<lambda>s. s \<noteq> []) (ev_tests ev @ cx_tests cx)) location) (\<lambda>step'.
        bindR (whenR (example_count item \<noteq> 0)
                 (warnR \<lparr>wn_code = js ''EXAMPLES_NOT_IMPORTED'',
                    wn_message = dec (example_count item) @ js '' saved response example''
                      @ (if example_count item = 1 then js '' was'' else js ''s were'')
                      @ js '' not imported because monitor revisions store live execution evidence instead.'',
                    wn_location = Some location\<rparr>)) (\<lambda>_.
        retR (st\<lparr>vs_steps := vs_steps st @ [step']\<rparr>)))))"

text \<open>A property of a value is smaller than the value, so the walk ends.\<close>

lemma size_fld_str: "fld_str v k = w \<Longrightarrow> w \<noteq> JUndef \<Longrightarrow> (\<And>x. w \<noteq> JNum x) \<Longrightarrow> size w < size v"
proof -
  assume w: "fld_str v k = w" "w \<noteq> JUndef" "\<And>x. w \<noteq> JNum x"
  then obtain ps where v: "v = JObj ps" "map_of ps k = Some w"
    by (auto simp: fld_str_def split: jsval.splits option.splits if_splits)
  then have "(k, w) \<in> set ps" by (simp add: map_of_SomeD)
  then have "size w < Suc (size_list (size_prod (\<lambda>_. 0) size) ps)"
    by (induction ps) auto
  with v show "size w < size v" by simp
qed

lemma size_fld_items: "fld v k = JArr xs \<Longrightarrow> size_list size xs < size v"
  using size_fld_str [of v "js k" "JArr xs"] by (simp add: fld_def)

function visit :: "jsval list \<Rightarrow> postman_context \<Rightarrow> visit_state \<Rightarrow> visit_state import_run" where
  "visit [] cx st = retR st"
| "visit (item # rest) cx st =
     bindR (getR item ''name'') (\<lambda>n.
     bindR (trimmed_or n (js ''Untitled request'')) (\<lambda>name.
     bindR (eventScripts (fld item ''event'')) (\<lambda>ev.
     let st1 = st\<lparr>vs_scripts := vs_scripts st + ev_count ev\<rparr> in
     bindR (case fld item ''item'' of
              JArr xs \<Rightarrow> visit xs (folder_context item name ev cx) (st1\<lparr>vs_folders := vs_folders st1 + 1\<rparr>)
            | _ \<Rightarrow> visit_request item name ev cx st1) (\<lambda>st2.
     visit rest cx st2))))"
  by pat_completeness auto
termination
  by (relation "measure (\<lambda>(items, cx, st). size_list size items)")
    (auto dest: size_fld_items)

declare visit.simps(2) [simp del]

section \<open>Collection variables\<close>

definition keep_variable :: "jsval \<Rightarrow> bool import_run" where
  "keep_variable v = bindR (getR v ''key'') (\<lambda>k. retR (truthy k \<and> \<not> truthy (fld v ''disabled'')))"

text \<open>
  Adding to the set of sensitive keys: equal strings, numbers and booleans are one element, two
  arrays or objects never are.
\<close>

definition add_key :: "jsval \<Rightarrow> jsval list \<Rightarrow> jsval list" where
  "add_key k ks = (if \<not> is_object k \<and> k \<in> set ks then ks else ks @ [k])"

record variable_state =
  va_sensitive :: "jsval list"
  va_safe :: "(jsstr \<times> jsstr) list"

definition collect_variable :: "jsval \<Rightarrow> variable_state \<Rightarrow> variable_state import_run" where
  "collect_variable v st =
     bindR (liftR (stringValue (fld v ''value''))) (\<lambda>text.
     let key = fld v ''key'' in
     bindR (liftR (to_string key)) (\<lambda>name.
     if isSensitive name (fld v ''type'') then
       bindR (warnR \<lparr>wn_code = js ''SECRET_VARIABLE'',
                wn_message = js ''The value of '' @ [8220] @ name @ [8221]
                  @ js '' was not imported. Create a Rhythm secret and keep the {{'' @ name
                  @ js ''}} reference, or set it in a pre-request script.'',
                wn_location = Some (js ''Variable '' @ name)\<rparr>) (\<lambda>_.
       retR (st\<lparr>va_sensitive := add_key key (va_sensitive st)\<rparr>))
     else if name = js ''__proto__'' then retR st \<comment> \<open>assigning a string to the prototype does nothing\<close>
     else retR (st\<lparr>va_safe := obj_set name text (va_safe st)\<rparr>)))"

fun collect_variables :: "jsval list \<Rightarrow> variable_state \<Rightarrow> variable_state import_run" where
  "collect_variables [] st = retR st"
| "collect_variables (v # vs) st = bindR (collect_variable v st) (collect_variables vs)"

definition buildCollectionVariableSetup :: "(jsstr \<times> jsstr) list \<Rightarrow> jsstr" where
  "buildCollectionVariableSetup variables =
     (if variables = [] then []
      else join [10]
        [js ''// Imported non-sensitive Postman collection variables.'',
         js ''const importedCollectionVariables = ''
           @ json_stringify 2 (JObj (map (\<lambda>(k, v). (k, JStr v)) variables)) @ js '';'',
         js ''for (const [key, value] of Object.entries(importedCollectionVariables)) {'',
         js ''  pm.collectionVariables.set(key, value);'',
         js ''}''])"

definition replace_references :: "jsstr list \<Rightarrow> jsstr \<Rightarrow> jsstr" where
  "replace_references keys v =
     fold (\<lambda>k r. replace_all (js ''{{ '' @ k @ js '' }}'') (secretPlaceholder k)
                   (replace_all (js ''{{'' @ k @ js ''}}'') (secretPlaceholder k) r)) keys v"

definition replaceSensitivePostmanReferences :: "jsval list \<Rightarrow> step_definition \<Rightarrow> step_definition import_run" where
  "replaceSensitivePostmanReferences keys step =
     (if keys = [] then retR step
      else if \<not> list_all is_string keys then failR TypeError
      else
        let rep = replace_references (map (\<lambda>k. case k of JStr s \<Rightarrow> s | _ \<Rightarrow> []) keys);
            req = st_request step
        in retR (step\<lparr>st_request := req\<lparr>
             rq_url := rep (rq_url req),
             rq_params := map (\<lambda>r. r\<lparr>kv_value := rep (kv_value r)\<rparr>) (rq_params req),
             rq_headers := map (\<lambda>r. r\<lparr>kv_value := rep (kv_value r)\<rparr>) (rq_headers req),
             rq_cookies := map (\<lambda>r. r\<lparr>kv_value := rep (kv_value r)\<rparr>) (rq_cookies req),
             rq_body := (rq_body req)\<lparr>bo_content := rep (bo_content (rq_body req))\<rparr>,
             rq_auth := (rq_auth req)\<lparr>au_fields :=
               from_entries (map (\<lambda>(k, v). (k, rep v)) (au_fields (rq_auth req)))\<rparr>\<rparr>\<rparr>))"

section \<open>The collection\<close>

definition schema_re :: re where \<comment> \<open>\<open>v2\.(0|1)\.0\<close>\<close>
  "schema_re = seq_re [lit_re (js ''v2.''), Alt (unit_re 48) (unit_re 49), lit_re (js ''.0'')]"

definition check_schema :: "jsval \<Rightarrow> unit import_run" where
  "check_schema info =
     (let schema = coalesce (fld info ''schema'') (JStr []) in
      if truthy schema then
        bindR (liftR (to_string schema)) (\<lambda>s.
        whenR (\<not> rtest schema_re s)
          (warnR \<lparr>wn_code = js ''POSTMAN_SCHEMA'',
             wn_message = js ''This is not a Postman Collection v2.0/v2.1 export. Rhythm will attempt a compatible import; Postman v3 multi-file collections should be exported as v2.1 JSON first.'',
             wn_location = None\<rparr>))
      else
        warnR \<lparr>wn_code = js ''POSTMAN_SCHEMA_MISSING'',
          wn_message = js ''The collection does not identify its schema version. Rhythm treated it as a Postman v2.1-compatible collection.'',
          wn_location = None\<rparr>)"

definition collection_variables :: "jsval \<Rightarrow> jsval list import_run" where
  "collection_variables collection =
     (case coalesce (fld collection ''variable'') (JArr []) of
        JArr vs \<Rightarrow> filterR keep_variable vs
      | _ \<Rightarrow> failR TypeError)"

definition add_setup :: "jsstr \<Rightarrow> step_definition list \<Rightarrow> step_definition list" where
  "add_setup preamble steps =
     (case steps of
        first # rest \<Rightarrow>
          if preamble = [] then steps
          else
            let req = st_request first;
                code = join [10, 10] (filter (\<lambda>s. s \<noteq> []) [preamble, sc_code (rq_pre_script req)])
            in first\<lparr>st_request := req\<lparr>rq_pre_script := scriptDefinition code\<rparr>\<rparr> # rest
      | [] \<Rightarrow> [])"

definition read_collection :: "jsstr \<Rightarrow> (jsval \<times> jsval list) import_run" where \<comment> \<open>collection and items\<close>
  "read_collection source =
     bindR (assertSourceSize source) (\<lambda>_.
     case json_parse source of
       None \<Rightarrow> import_error (js ''This file is not valid JSON. Export the collection from Postman as Collection v2.1 JSON and try again.'')
     | Some collection \<Rightarrow>
         bindR (getR collection ''info'') (\<lambda>info.
         case (truthy info, fld collection ''item'') of
           (True, JArr items) \<Rightarrow> retR (collection, items)
         | _ \<Rightarrow> import_error (js ''This JSON is not a Postman collection. A collection must contain info and item fields.'')))"

definition root_context :: "jsval \<Rightarrow> event_scripts \<Rightarrow> postman_context" where
  "root_context collection ev =
     \<lparr>cx_path = [], cx_auth = fld collection ''auth'', cx_pre = ev_pre ev, cx_tests = ev_tests ev\<rparr>"

definition walk_collection :: "jsval \<Rightarrow> jsval list \<Rightarrow> (variable_state \<times> nat \<times> visit_state) import_run" where
  "walk_collection collection items =
     bindR (check_schema (fld collection ''info'')) (\<lambda>_.
     bindR (collection_variables collection) (\<lambda>variables.
     bindR (collect_variables variables \<lparr>va_sensitive = [], va_safe = []\<rparr>) (\<lambda>va.
     bindR (eventScripts (fld collection ''event'')) (\<lambda>ev.
     bindR (visit items (root_context collection ev)
              \<lparr>vs_steps = [], vs_folders = 0, vs_scripts = ev_count ev\<rparr>) (\<lambda>st.
     if vs_steps st = []
     then import_error (js ''The collection does not contain any importable HTTP requests.'')
     else retR (va, length variables, st))))))"

definition finish_steps :: "variable_state \<Rightarrow> step_definition list \<Rightarrow> step_definition list import_run" where
  "finish_steps va steps =
     mapR (replaceSensitivePostmanReferences (va_sensitive va))
       (add_setup (buildCollectionVariableSetup (va_safe va)) steps)"

definition parsePostmanCollection :: "jsstr \<Rightarrow> exn + imported_draft" where
  "parsePostmanCollection source =
     map_sum id (\<lambda>(draft, ws). draft\<lparr>dr_warnings := ws\<rparr>)
       (bindR (read_collection source) (\<lambda>(collection, items).
        bindR (walk_collection collection items) (\<lambda>(va, variables, st).
        bindR (finish_steps va (vs_steps st)) (\<lambda>steps.
        bindR (trimmed_or (fld (fld collection ''info'') ''name'') (js ''Imported Postman collection'')) (\<lambda>name.
        retR \<lparr>dr_source = Postman,
              dr_name = name,
              dr_description =
                (let d = descriptionText (fld (fld collection ''info'') ''description'') in
                 if d \<noteq> [] then d else js ''Imported from a Postman collection.''),
              dr_definition = (clone initial_definition)\<lparr>rd_steps := steps\<rparr>,
              dr_warnings = [],
              dr_summary = \<lparr>sm_requests = length steps, sm_folders = vs_folders st,
                sm_scripts = vs_scripts st, sm_variables = variables\<rparr>\<rparr>)))))"

end
