(* ===== verification/Json_Numbers.thy ===== *)
theory Json_Numbers
  imports Js_Json
begin

text \<open>
  Printing a number and reading it back gives the number: seventeen digits always determine a
  binary64 value, so the shortest decimal the printer looks for exists.
\<close>

section \<open>Exponents\<close>

lemma pow2_nonzero [simp]: "pow2 k \<noteq> 0" "\<not> pow2 k < 0" "0 \<le> pow2 k"
  using pow2_pos [of k] by linarith+

lemma pow10_nonzero [simp]: "pow10 k \<noteq> 0" "\<not> pow10 k < 0" "0 \<le> pow10 k"
  using pow10_pos [of k] by linarith+

lemma pow2_add: "pow2 (a + b) = pow2 a * pow2 b"
proof -
  have *: "pow2 k = (2 :: rat) powi k" for k
    by (simp add: pow2_def power_int_def field_simps)
  show ?thesis by (simp add: * power_int_add)
qed

lemma pow10_add: "pow10 (a + b) = pow10 a * pow10 b"
proof -
  have *: "pow10 k = (10 :: rat) powi k" for k
    by (simp add: pow10_def power_int_def field_simps)
  show ?thesis by (simp add: * power_int_add)
qed

lemma pow2_of_nat: "pow2 (int n) = 2 ^ n"
  by (simp add: pow2_def)

lemma pow10_of_nat: "pow10 (int n) = 10 ^ n"
  by (simp add: pow10_def)

lemma pow2_mono: "a \<le> b \<Longrightarrow> pow2 a \<le> pow2 b"
proof -
  assume "a \<le> b"
  then have "pow2 b = pow2 a * 2 ^ nat (b - a)"
    using pow2_add [of a "b - a"] by (simp add: pow2_def [of "b - a"])
  moreover have "pow2 a * 1 \<le> pow2 a * 2 ^ nat (b - a)" by (rule mult_left_mono) (simp_all add: less_imp_le)
  ultimately show ?thesis by simp
qed

lemma pow2_less: "pow2 a < pow2 b \<Longrightarrow> a < b"
  using pow2_mono [of b a] by linarith

lemma dec_bounds: "n < 10 ^ length (dec n) \<and> (0 < n \<longrightarrow> 10 ^ (length (dec n) - 1) \<le> n)"
proof (induction n rule: dec.induct)
  case (1 n)
  show ?case
  proof (cases "n < 10")
    case True
    then have "dec n = [48 + n]" by (simp add: dec.simps)
    with True show ?thesis by simp
  next
    case False
    let ?l = "length (dec (n div 10))"
    have l: "length (dec n) = Suc ?l" and pos: "0 < ?l" using False by (subst dec.simps) simp_all
    from 1 False have b: "n div 10 < 10 ^ ?l" "10 ^ (?l - 1) \<le> n div 10" by simp_all
    from b(1) have "n < 10 * 10 ^ ?l" by linarith
    moreover have "10 * 10 ^ (?l - 1) \<le> n" using b(2) by linarith
    moreover have "10 * 10 ^ (?l - 1) = (10 :: nat) ^ ?l" using pos by (cases ?l) simp_all
    ultimately show ?thesis by (simp add: l)
  qed
qed

lemma ratio_bounds:
  fixes f :: "int \<Rightarrow> rat"
  assumes add: "\<And>a b. f (a + b) = f a * f b" and pos: "\<And>a. 0 < f a"
    and n: "f (nl - 1) \<le> of_int n" "of_int n < f nl" and d: "f (dl - 1) \<le> of_int d" "of_int d < f dl"
    and x: "x = of_int n / of_int d"
  shows "f (nl - dl - 1) \<le> x \<and> x < f (nl - dl + 1)"
proof
  have d0: "(0 :: rat) < of_int d" using d(1) pos [of "dl - 1"] by linarith
  have "f (nl - dl - 1) * of_int d \<le> f (nl - dl - 1) * f dl"
    using d(2) pos by (simp add: less_imp_le)
  also have "\<dots> = f (nl - 1)" using add [of "nl - dl - 1" dl] by simp
  also have "\<dots> \<le> of_int n" by (rule n(1))
  finally show "f (nl - dl - 1) \<le> x" using d0 x by (simp add: pos_le_divide_eq)
  have "of_int n < f nl" by (rule n(2))
  also have "f nl = f (nl - dl + 1) * f (dl - 1)" using add [of "nl - dl + 1" "dl - 1"] by simp
  also have "\<dots> \<le> f (nl - dl + 1) * of_int d" using d(1) pos by (simp add: less_imp_le)
  finally show "x < f (nl - dl + 1)" using d0 x by (simp add: pos_divide_less_eq)
qed

lemma quotient_pos:
  assumes "0 < x" "quotient_of x = (n, d)"
  shows "0 < n" "0 < d" "x = of_int n / of_int d"
proof -
  show d: "0 < d" using assms(2) by (rule quotient_of_denom_pos)
  show "x = of_int n / of_int d" using assms(2) by (rule quotient_of_div)
  with assms(1) d show "0 < n" by (simp add: zero_less_divide_iff)
qed

lemma ilog10_bounds:
  assumes "0 < x"
  shows "pow10 (ilog10 x) \<le> x \<and> x < pow10 (ilog10 x + 1)"
proof -
  obtain n d where q: "quotient_of x = (n, d)" by (cases "quotient_of x")
  note nd = quotient_pos [OF assms q]
  have b: "pow10 (int (length (dec (nat z))) - 1) \<le> of_int z \<and> of_int z < pow10 (int (length (dec (nat z))))" if "0 < z" for z
  proof -
    have e: "int (length (dec (nat z))) - 1 = int (length (dec (nat z)) - 1)"
      by (cases "dec (nat z)") simp_all
    have "int (10 ^ (length (dec (nat z)) - 1)) \<le> z" "z < int (10 ^ length (dec (nat z)))"
      using dec_bounds [of "nat z"] that by (simp_all add: nat_le_iff nat_less_iff le_nat_iff)
    then have "(of_int (int (10 ^ (length (dec (nat z)) - 1))) :: rat) \<le> of_int z"
      "of_int z < (of_int (int (10 ^ length (dec (nat z)))) :: rat)"
      by (simp_all only: of_int_le_iff of_int_less_iff)
    then show ?thesis by (simp only: e pow10_of_nat of_int_of_nat_eq of_nat_power of_nat_numeral of_int_power of_int_numeral)
  qed
  let ?k = "int (length (dec (nat n))) - int (length (dec (nat d)))"
  have "pow10 (?k - 1) \<le> x \<and> x < pow10 (?k + 1)"
    by (rule ratio_bounds [of pow10, OF pow10_add pow10_pos _ _ _ _ nd(3)]) (simp_all add: b nd(1,2))
  moreover have "ilog10 x = (if pow10 ?k \<le> x then ?k else ?k - 1)"
    by (simp add: ilog10_def q Let_def)
  ultimately show ?thesis by (cases "pow10 ?k \<le> x") simp_all
qed

lemma ilog2_bounds:
  assumes "0 < x"
  shows "pow2 (ilog2 x) \<le> x \<and> x < pow2 (ilog2 x + 1)"
proof -
  obtain n d where q: "quotient_of x = (n, d)" by (cases "quotient_of x")
  note nd = quotient_pos [OF assms q]
  have b: "pow2 (int (bit_len (nat z)) - 1) \<le> of_int z \<and> of_int z < pow2 (int (bit_len (nat z)))" if "0 < z" for z
  proof -
    have "bit_len (nat z) \<noteq> 0" using that by (subst bit_len.simps) simp
    then have e: "int (bit_len (nat z)) - 1 = int (bit_len (nat z) - 1)" by simp
    have "int (2 ^ (bit_len (nat z) - 1)) \<le> z" "z < int (2 ^ bit_len (nat z))"
      using bit_len_bounds [of "nat z"] that by (simp_all add: nat_le_iff nat_less_iff le_nat_iff)
    then have "(of_int (int (2 ^ (bit_len (nat z) - 1))) :: rat) \<le> of_int z"
      "of_int z < (of_int (int (2 ^ bit_len (nat z))) :: rat)"
      by (simp_all only: of_int_le_iff of_int_less_iff)
    then show ?thesis by (simp only: e pow2_of_nat of_int_of_nat_eq of_nat_power of_nat_numeral of_int_power of_int_numeral)
  qed
  let ?k = "int (bit_len (nat n)) - int (bit_len (nat d))"
  have "pow2 (?k - 1) \<le> x \<and> x < pow2 (?k + 1)"
    by (rule ratio_bounds [of pow2, OF pow2_add pow2_pos _ _ _ _ nd(3)]) (simp_all add: b nd(1,2))
  moreover have "ilog2 x = (if pow2 ?k \<le> x then ?k else ?k - 1)"
    by (simp add: ilog2_def q Let_def)
  ultimately show ?thesis by (cases "pow2 ?k \<le> x") simp_all
qed

section \<open>Seventeen digits\<close>

lemma round_half_even_near:
  assumes "\<bar>x - of_int n\<bar> < 1 / 2"
  shows "round_half_even x = n"
proof -
  have "\<lfloor>x\<rfloor> = n \<or> \<lfloor>x\<rfloor> = n - 1" using assms by (auto simp: floor_eq_iff abs_less_iff)
  then show ?thesis using assms by (auto simp: round_half_even_def Let_def)
qed

lemma round_half_even_error: "\<bar>of_int (round_half_even x) - x\<bar> \<le> 1 / 2"
proof -
  have "of_int \<lfloor>x\<rfloor> \<le> x" "x < of_int \<lfloor>x\<rfloor> + 1" using floor_correct [of x] by simp_all
  then show ?thesis by (auto simp: round_half_even_def Let_def)
qed

definition last_place :: "rat \<Rightarrow> int" where \<comment> \<open>the exponent of the unit in the last place\<close>
  "last_place x = max (ilog2 x - 52) (- 1074)"

definition rounded :: "rat \<Rightarrow> rat" where
  "rounded x = of_int (round_half_even (x / pow2 (last_place x))) * pow2 (last_place x)"

lemma to_double_pos:
  "0 < x \<Longrightarrow> to_double x = (if pow2 1024 \<le> rounded x then Infinite False else Fin (rounded x))"
  by (simp add: to_double_def rounded_def last_place_def Let_def)

lemma to_double_minus:
  "to_double y = Fin x \<Longrightarrow> to_double (- y) = Fin (- x)"
  by (cases "y = 0") (auto simp: to_double_def Let_def split: if_splits)

text \<open>Of a binary64 value: a whole number of units, fewer than two to the fifty-third.\<close>

lemma double_units:
  assumes "0 < x" "to_double x = Fin x"
  obtains n where "x = of_int n * pow2 (last_place x)" "of_int n < (2 :: rat) ^ 53"
    "last_place x = - 1074 \<or> (2 :: rat) ^ 52 \<le> of_int n"
proof -
  let ?u = "pow2 (last_place x)"
  have "rounded x = x" using assms by (simp add: to_double_pos split: if_splits)
  then obtain n where n: "x = of_int n * ?u" unfolding rounded_def by metis
  have "x < pow2 (ilog2 x + 1)" using ilog2_bounds [OF assms(1)] by simp
  also have "\<dots> \<le> pow2 (53 + last_place x)" by (rule pow2_mono) (simp add: last_place_def)
  also have "\<dots> = 2 ^ 53 * ?u" using pow2_of_nat [of 53] by (simp add: pow2_add)
  finally have "of_int n * ?u < 2 ^ 53 * ?u" by (simp only: n [symmetric])
  then have less: "of_int n < (2 :: rat) ^ 53" by (rule mult_right_less_imp_less) (simp add: less_imp_le)
  have "(2 :: rat) ^ 52 \<le> of_int n" if "last_place x \<noteq> - 1074"
  proof -
    have "2 ^ 52 * ?u = pow2 (52 + last_place x)" using pow2_of_nat [of 52] by (simp add: pow2_add)
    also have "52 + last_place x = ilog2 x" using that by (simp add: last_place_def max_def split: if_splits)
    also have "pow2 (ilog2 x) \<le> of_int n * ?u" using ilog2_bounds [OF assms(1)] by (simp only: n [symmetric])
    finally show ?thesis by (rule mult_right_le_imp_le) simp
  qed
  with n less show ?thesis by (intro that) auto
qed

lemma rounded_near:
  assumes "x = of_int n * pow2 q" "last_place y = q" "\<bar>y - x\<bar> < pow2 q / 2"
  shows "rounded y = x"
proof -
  have "y / pow2 q - of_int n = (y - x) / pow2 q" using assms(1) by (simp add: diff_divide_distrib)
  then have "\<bar>y / pow2 q - of_int n\<bar> = \<bar>y - x\<bar> / pow2 q" by simp
  also have "\<dots> < 1 / 2" using assms(3) by (simp add: pos_divide_less_eq)
  finally show ?thesis by (simp add: rounded_def assms(1,2) round_half_even_near)
qed

text \<open>A value closer than a fifth of the unit in the last place rounds to it, across a power of two as well.\<close>

lemma near_double:
  assumes "0 < x" "to_double x = Fin x" and err: "\<bar>y - x\<bar> \<le> x / (2 * 10 ^ 16)"
  shows "to_double y = Fin x"
proof -
  define q where "q = last_place x"
  have q: "- 1074 \<le> q" by (simp add: q_def last_place_def)
  from double_units [OF assms(1,2)] obtain n where n: "x = of_int n * pow2 q"
    "of_int n < (2 :: rat) ^ 53" "q = - 1074 \<or> (2 :: rat) ^ 52 \<le> of_int n" unfolding q_def .
  have p: "pow2 (int k + q) = 2 ^ k * pow2 q" for k by (simp add: pow2_add pow2_of_nat)
  have "x / (2 * 10 ^ 16) < 2 ^ 53 * pow2 q / (2 * 10 ^ 16)"
    using n(2) by (subst n(1)) (simp add: divide_strict_right_mono)
  also have "\<dots> < pow2 q / 2" by simp
  finally have half: "\<bar>y - x\<bar> < pow2 q / 2" using err by linarith
  have "x / (2 * 10 ^ 16) < x" using assms(1) by (simp add: field_simps)
  with err have y: "0 < y" by linarith
  note y2 = ilog2_bounds [OF y]
  have "of_int (n + 1) \<le> (of_int (2 ^ 53) :: rat)" unfolding of_int_le_iff
    using n(2) of_int_less_iff [of n "2 ^ 53", where 'a = rat] by simp
  then have "of_int (n + 1) * pow2 q \<le> 2 ^ 53 * pow2 q" by (intro mult_right_mono) simp_all
  then have "x + pow2 q \<le> pow2 (53 + q)" using p [of 53] by (simp add: n(1) algebra_simps)
  with half have "y < pow2 (53 + q)" using pow2_pos [of q] by linarith
  with y2 have "pow2 (ilog2 y) < pow2 (53 + q)" by linarith
  from pow2_less [OF this] have upper: "last_place y \<le> q" using q by (simp add: last_place_def)
  have "rounded y = x"
  proof (cases "last_place y = q")
    case True
    with n(1) half show ?thesis by (intro rounded_near)
  next
    case False
    with upper have less: "last_place y < q" "q \<noteq> - 1074" by (auto simp: last_place_def)
    with n(3) have ge: "(2 :: rat) ^ 52 * pow2 q \<le> x" by (simp add: n(1))
    have "2251799813685248 * pow2 q < y" using half ge [simplified] pow2_pos [of q] by linarith
    then have "pow2 (51 + q) < y" using p [of 51] by simp
    with y2 have "pow2 (51 + q) < pow2 (ilog2 y + 1)" by linarith
    from pow2_less [OF this] less have lp: "last_place y = q - 1" by (simp add: last_place_def)
    then have "ilog2 y + 1 \<le> 52 + q" by (simp add: last_place_def)
    from pow2_mono [OF this] y2 p [of 52] have "y < 2 ^ 52 * pow2 q" by simp
    with half ge have "of_int n * pow2 q < (2 ^ 52 + 1 / 2) * pow2 q" by (simp add: n(1) [symmetric] algebra_simps)
    then have "of_int n < (2 ^ 52 + 1 / 2 :: rat)" by (rule mult_right_less_imp_less) simp
    then have "n < 2 ^ 52 + 1" using of_int_less_iff [of n "2 ^ 52 + 1", where 'a = rat] by simp
    then have le: "of_int n \<le> (2 :: rat) ^ 52" using of_int_le_iff [of n "2 ^ 52", where 'a = rat] by simp
    have half_q: "pow2 q = 2 * pow2 (q - 1)" using pow2_add [of "q - 1" 1] by (simp add: pow2_def [of 1])
    have "x / (2 * 10 ^ 16) \<le> 2 ^ 52 * pow2 q / (2 * 10 ^ 16)"
      using le by (subst n(1)) (simp add: divide_right_mono)
    also have "\<dots> < pow2 (q - 1) / 2" by (simp add: half_q)
    finally have "\<bar>y - x\<bar> < pow2 (q - 1) / 2" using err by linarith
    moreover have "x = of_int (2 * n) * pow2 (q - 1)" by (simp add: n(1) half_q)
    ultimately show ?thesis using lp by (intro rounded_near)
  qed
  moreover have "\<not> pow2 1024 \<le> x" using assms(1,2) by (auto simp: to_double_pos split: if_splits)
  ultimately show ?thesis using y by (simp add: to_double_pos)
qed

section \<open>Shortest decimals\<close>

lemma decimal_candidate_bounds:
  assumes "0 < x" "0 < k" "decimal_candidate x k = (m, e)"
  shows "10 ^ (k - 1) \<le> m" "m \<le> 10 ^ k" "e = ilog10 x + 1 - int k" "\<bar>of_int m * pow10 e - x\<bar> \<le> pow10 e / 2"
proof -
  show e: "e = ilog10 x + 1 - int k" using assms(3) by (simp add: decimal_candidate_def Let_def)
  have m: "m = round_half_even (x / pow10 e)" using assms(3) by (auto simp: decimal_candidate_def Let_def)
  note x = ilog10_bounds [OF assms(1)]
  note round = round_half_even_error [of "x / pow10 e", folded m]
  have "ilog10 x = int (k - 1) + e" using assms(2) e by simp
  then have "pow10 (ilog10 x) = 10 ^ (k - 1) * pow10 e" by (simp only: pow10_add pow10_of_nat)
  with x have "10 ^ (k - 1) \<le> x / pow10 e" by (simp add: pos_le_divide_eq)
  with round have "10 ^ (k - 1) < of_int m + (1 :: rat)" by linarith
  then have "of_int (10 ^ (k - 1)) < (of_int (m + 1) :: rat)" by simp
  then show "10 ^ (k - 1) \<le> m" unfolding of_int_less_iff by simp
  have "ilog10 x + 1 = int k + e" using e by simp
  then have "pow10 (ilog10 x + 1) = 10 ^ k * pow10 e" by (simp only: pow10_add pow10_of_nat)
  with x have "x / pow10 e < 10 ^ k" by (simp add: pos_divide_less_eq)
  with round have "of_int m < 10 ^ k + (1 :: rat)" by linarith
  then have "(of_int m :: rat) < of_int (10 ^ k + 1)" by simp
  then show "m \<le> 10 ^ k" unfolding of_int_less_iff by simp
  have "\<bar>of_int m * pow10 e - x\<bar> = \<bar>of_int m - x / pow10 e\<bar> * pow10 e"
    by (simp add: abs_mult [symmetric, of _ "pow10 e", simplified] left_diff_distrib)
  also have "\<dots> \<le> 1 / 2 * pow10 e" using round by (intro mult_right_mono) simp_all
  finally show "\<bar>of_int m * pow10 e - x\<bar> \<le> pow10 e / 2" by simp
qed

lemma seventeen_digits:
  assumes "0 < x" "to_double x = Fin x" "decimal_candidate x 17 = (m, e)"
  shows "to_double (of_int m * pow10 e) = Fin x"
proof (rule near_double [OF assms(1,2)])
  note c = decimal_candidate_bounds [OF assms(1) _ assms(3)]
  have "pow10 (ilog10 x) = 10 ^ 16 * pow10 e"
    using pow10_add [of 16 e] pow10_of_nat [of 16] by (simp add: c(3) add.commute)
  then have "pow10 e \<le> x / 10 ^ 16" using ilog10_bounds [OF assms(1)] by simp
  with c(4) show "\<bar>of_int m * pow10 e - x\<bar> \<le> x / (2 * 10 ^ 16)" by simp
qed

lemma length_dec:
  assumes "10 ^ (k - 1) \<le> n" "n < 10 ^ k" "0 < k"
  shows "length (dec n) = k"
proof -
  have "0 < n" using assms(1) by (rule order.strict_trans2 [rotated]) simp
  with dec_bounds [of n] have b: "n < 10 ^ length (dec n)" "10 ^ (length (dec n) - 1) \<le> n" by simp_all
  have "10 ^ (k - 1) < (10 :: nat) ^ length (dec n)" "(10 :: nat) ^ (length (dec n) - 1) < 10 ^ k"
    using assms(1,2) b by linarith+
  then have "k - 1 < length (dec n)" "length (dec n) - 1 < k" by (simp_all add: power_strict_increasing_iff)
  then show ?thesis using assms(3) by linarith
qed

lemma hd_dec: "0 < n \<Longrightarrow> hd (dec n) \<noteq> 48"
proof (induction n rule: dec.induct)
  case (1 n)
  then show ?case by (cases "n < 10") (simp_all add: dec.simps [of n])
qed

text \<open>Digits and the place of the point, and the value they stand for.\<close>

definition digits_of :: "jsstr \<Rightarrow> bool" where
  "digits_of ds \<longleftrightarrow> ds \<noteq> [] \<and> list_all is_digit ds \<and> hd ds \<noteq> 48"

definition digits_value :: "jsstr \<Rightarrow> int \<Rightarrow> rat" where
  "digits_value ds n = of_nat (undec ds) * pow10 (n - int (length ds))"

lemma shortest_decimal:
  assumes "0 < x" "to_double x = Fin x" "shortest_decimal x = (ds, n)"
  shows "digits_of ds \<and> to_double (digits_value ds n) = Fin x"
proof -
  let ?ok = "\<lambda>k. case decimal_candidate x k of (m, e) \<Rightarrow> to_double (of_int m * pow10 e) = Fin x"
  obtain k where k: "0 < k" "?ok k" and sd: "(let m = fst (decimal_candidate x k)
      in if m = 10 ^ k then (js ''1'', ilog10 x + 2) else (dec (nat m), ilog10 x + 1)) = (ds, n)"
  proof (cases "find ?ok [1..<18]")
    case (Some k)
    then have "0 < k" "?ok k" unfolding find_Some_iff by auto
    with assms(3) show ?thesis unfolding shortest_decimal_def Some by (intro that [of k]) simp_all
  next
    case None
    then have "\<not> ?ok 17" by (auto simp: find_None_iff)
    with seventeen_digits [OF assms(1,2)] show ?thesis by (auto split: prod.splits)
  qed
  obtain m e where c: "decimal_candidate x k = (m, e)" by (cases "decimal_candidate x k")
  note b = decimal_candidate_bounds [OF assms(1) k(1) c]
  show ?thesis
  proof (cases "m = 10 ^ k")
    case True
    with sd c have ds: "ds = js ''1''" "n = ilog10 x + 2" by simp_all
    have "of_int m * pow10 e = pow10 (int k + e)" using True by (simp add: pow10_add pow10_of_nat)
    also have "\<dots> = digits_value ds n" using b(3) by (simp add: ds digits_value_def undec_def js_def add.commute)
    finally show ?thesis using k(2) c by (simp add: ds(1) digits_of_def js_def is_digit_def)
  next
    case False
    with sd c have ds: "ds = dec (nat m)" "n = ilog10 x + 1" by simp_all
    have "0 < m" using b(1) by (rule order.strict_trans2 [rotated]) simp
    have "length ds = k" unfolding ds(1)
      using b(1,2) False k(1) \<open>0 < m\<close> by (intro length_dec) (simp_all add: le_nat_iff nat_less_iff)
    then have "digits_value ds n = of_int m * pow10 e"
      using b(3) \<open>0 < m\<close> by (simp add: digits_value_def ds of_nat_nat)
    then show ?thesis using k(2) c \<open>0 < m\<close> by (simp add: digits_of_def ds(1) hd_dec)
  qed
qed

section \<open>Laying out and reading back\<close>

lemma undec_foldl: "foldl (\<lambda>a c. 10 * a + (c - 48)) a s = a * 10 ^ length s + undec s" for a :: nat
proof (induction s arbitrary: a)
  case (Cons c s)
  from Cons.IH [of "10 * a + (c - 48)"] Cons.IH [of "c - 48"] show ?case
    by (simp add: undec_def algebra_simps)
qed (simp add: undec_def)

lemma undec_append: "undec (s @ t) = undec s * 10 ^ length t + undec t"
  using undec_foldl [of "undec s" t] by (simp add: undec_def)

lemma undec_zeros: "undec (replicate n 48) = 0"
  by (induction n) (simp_all add: undec_def)

lemma undec_leading_zeros: "undec (48 # replicate n 48 @ ds) = undec ds"
proof -
  have "undec (replicate (Suc n) 48 @ ds) = undec ds" by (simp only: undec_append undec_zeros mult_zero_left add_0)
  then show ?thesis by simp
qed

lemma takeWhile_digits:
  assumes "list_all is_digit ds" "r = [] \<or> \<not> is_digit (hd r)"
  shows "takeWhile is_digit (ds @ r) = ds" "dropWhile is_digit (ds @ r) = r"
proof -
  have "takeWhile is_digit r = []" "dropWhile is_digit r = r" using assms(2) by (cases r; simp)+
  then show "takeWhile is_digit (ds @ r) = ds" "dropWhile is_digit (ds @ r) = r"
    using assms(1) by (simp_all add: list_all_iff)
qed

text \<open>What may follow a number: nothing the parser would take for a part of it.\<close>

definition number_ends :: "jsstr \<Rightarrow> bool" where
  "number_ends r \<longleftrightarrow> r = [] \<or> \<not> is_digit (hd r) \<and> hd r \<noteq> 46 \<and> hd r \<noteq> 101 \<and> hd r \<noteq> 69"

lemma json_unsigned_parts:
  assumes "digits_of ip \<or> ip = [48]" "list_all is_digit ip" "list_all is_digit fp"
    "f = (if fp = [] then [] else 46 # fp)" "r = [] \<or> \<not> is_digit (hd r) \<and> hd r \<noteq> 46"
    "json_exponent r = Some (e, rest)"
  shows "json_unsigned (ip @ f @ r) = Some (decimal_value ip fp e, rest)"
proof -
  have "f @ r = [] \<or> \<not> is_digit (hd (f @ r))" using assms(4,5) by (cases r) (auto simp: is_digit_def)
  note ip = takeWhile_digits [OF assms(2) this]
  have "json_fraction (f @ r) = Some (fp, r)"
  proof (cases "fp = []")
    case True
    with assms(4,5) show ?thesis by (cases r) (simp_all add: json_fraction_def)
  next
    case False
    have "r = [] \<or> \<not> is_digit (hd r)" using assms(5) by blast
    from False assms(4) takeWhile_digits [OF assms(3) this] show ?thesis by (simp add: json_fraction_def)
  qed
  with ip assms(1,6) show ?thesis by (auto simp: json_unsigned_def digits_of_def)
qed

lemma no_exponent: "number_ends r \<Longrightarrow> json_exponent r = Some (0, r)"
  by (cases r) (auto simp: json_exponent_def number_ends_def)

lemma json_exponent_print:
  assumes "number_ends r"
  shows "json_exponent ([101, if z < 0 then 45 else 43] @ dec (nat \<bar>z\<bar>) @ r) = Some (z, r)"
proof -
  have "r = [] \<or> \<not> is_digit (hd r)" using assms by (auto simp: number_ends_def)
  with takeWhile_digits [OF list_all_dec] show ?thesis by (simp add: json_exponent_def Let_def)
qed

lemma layout_read:
  assumes "digits_of ds" "number_ends r"
  shows "json_unsigned (layout_digits ds n @ r) = Some (digits_value ds n, r)"
proof -
  let ?k = "int (length ds)"
  have ds: "list_all is_digit ds" "ds \<noteq> []" "hd ds \<noteq> 48" using assms(1) by (auto simp: digits_of_def)
  have r: "r = [] \<or> \<not> is_digit (hd r) \<and> hd r \<noteq> 46" using assms(2) by (auto simp: number_ends_def)
  have take: "digits_of (take j ds)" "list_all is_digit (take j ds)" "list_all is_digit (drop j ds)" if "0 < j" for j
    using ds that by (auto simp: digits_of_def list_all_iff dest: in_set_takeD in_set_dropD)
  consider "?k \<le> n" "n \<le> 21" | "\<not> ?k \<le> n" "0 < n" "n \<le> 21" | "n \<le> 0" "- 6 < n" | "n \<le> - 6 \<or> 21 < n"
    by linarith
  then show ?thesis
  proof cases
    case 1
    let ?z = "replicate (nat (n - ?k)) 48"
    have "json_unsigned ((ds @ ?z) @ [] @ r) = Some (decimal_value (ds @ ?z) [] 0, r)"
      by (rule json_unsigned_parts [OF _ _ _ _ r no_exponent [OF assms(2)]])
        (use ds in \<open>auto simp: digits_of_def is_digit_def list_all_iff\<close>)
    with 1 show ?thesis
      by (simp add: layout_digits_def decimal_value_def digits_value_def undec_append undec_zeros pow10_def)
  next
    case 2
    let ?j = "nat n"
    have "json_unsigned (take ?j ds @ (46 # drop ?j ds) @ r) = Some (decimal_value (take ?j ds) (drop ?j ds) 0, r)"
      by (rule json_unsigned_parts [OF _ _ _ _ r no_exponent [OF assms(2)]]) (use 2 take in auto)
    with 2 show ?thesis
      by (simp add: layout_digits_def decimal_value_def digits_value_def)
  next
    case 3
    let ?f = "replicate (nat (- n)) 48 @ ds"
    have "json_unsigned ([48] @ (46 # ?f) @ r) = Some (decimal_value [48] ?f 0, r)"
      by (rule json_unsigned_parts [OF _ _ _ _ r no_exponent [OF assms(2)]])
        (use ds in \<open>auto simp: is_digit_def list_all_iff\<close>)
    moreover have "\<not> ?k \<le> n" using 3 ds(2) by (cases ds) simp_all
    ultimately show ?thesis using 3
      by (simp add: layout_digits_def decimal_value_def digits_value_def undec_leading_zeros)
  next
    case 4
    let ?e = "[101, if n - 1 < 0 then 45 else 43] @ dec (nat \<bar>n - 1\<bar>)"
    have "json_unsigned (take 1 ds @ (if drop 1 ds = [] then [] else 46 # drop 1 ds) @ ?e @ r)
        = Some (decimal_value (take 1 ds) (drop 1 ds) (n - 1), r)"
      by (rule json_unsigned_parts) (use take [of 1] json_exponent_print [OF assms(2), of "n - 1"] in \<open>auto simp: is_digit_def\<close>)
    moreover have "layout_digits ds n @ r = take 1 ds @ (if drop 1 ds = [] then [] else 46 # drop 1 ds) @ ?e @ r"
      using 4 ds(2) by (cases ds) (auto simp: layout_digits_def)
    moreover have "decimal_value (take 1 ds) (drop 1 ds) (n - 1) = digits_value ds n"
      using ds(2) by (cases ds) (simp_all add: decimal_value_def digits_value_def algebra_simps)
    ultimately show ?thesis by simp
  qed
qed

lemma hd_layout: "digits_of ds \<Longrightarrow> is_digit (hd (layout_digits ds n @ r)) \<and> layout_digits ds n \<noteq> []"
  by (cases ds) (auto simp: layout_digits_def digits_of_def is_digit_def take_Cons' Let_def)

text \<open>A number that is a binary64 value is printed as a text that reads back as itself.\<close>

theorem number_read:
  assumes "to_double x = Fin x" "number_ends r"
  shows "json_number (num_to_str (Fin x) @ r) = Some (Fin x, r)"
proof (cases "x = 0")
  case True
  from assms(2) have "json_unsigned ([48] @ [] @ r) = Some (decimal_value [48] [] 0, r)"
    by (intro json_unsigned_parts no_exponent) (auto simp: number_ends_def is_digit_def)
  with True show ?thesis
    by (simp add: num_to_str_def json_number_def js_def decimal_value_def undec_def to_double_def)
next
  case False
  obtain ds n where sd: "shortest_decimal \<bar>x\<bar> = (ds, n)" by (cases "shortest_decimal \<bar>x\<bar>")
  have abs: "to_double \<bar>x\<bar> = Fin \<bar>x\<bar>" using assms(1) to_double_minus [of x x] by (simp add: abs_if)
  with shortest_decimal [OF _ _ sd] False have ds: "digits_of ds" "to_double (digits_value ds n) = Fin \<bar>x\<bar>" by simp_all
  note u = layout_read [OF ds(1) assms(2), of n] hd_layout [OF ds(1), of n r]
  show ?thesis
  proof (cases "x < 0")
    case True
    with sd have "shortest_decimal (- x) = (ds, n)" by simp
    with u(1) to_double_minus [OF ds(2)] True show ?thesis
      by (simp add: num_to_str_def json_number_def)
  next
    case False
    with sd have "shortest_decimal x = (ds, n)" by simp
    with False \<open>x \<noteq> 0\<close> u ds(2) show ?thesis
      by (auto simp: num_to_str_def json_number_def is_digit_def)
  qed
qed

section \<open>Digits\<close>

lemma undec_pos:
  assumes "list_all is_digit s" "s \<noteq> []" "hd s \<noteq> 48"
  shows "0 < undec s"
proof -
  obtain c t where s: "s = [c] @ t" using assms(2) by (cases s) auto
  with assms have "0 < undec [c]" by (auto simp: undec_def is_digit_def)
  then show ?thesis by (simp add: s undec_append del: append.simps)
qed

lemma dec_undec:
  "list_all is_digit s \<Longrightarrow> s \<noteq> [] \<Longrightarrow> length s = 1 \<or> hd s \<noteq> 48 \<Longrightarrow> dec (undec s) = s"
proof (induction s rule: rev_induct)
  case (snoc c s)
  then obtain b where c: "c = 48 + b" "b < 10"
    by (intro that [of "c - 48"]) (auto simp: is_digit_def)
  show ?case
  proof (cases "s = []")
    case True
    with c show ?thesis by (simp add: undec_def dec.simps)
  next
    case False
    with snoc.prems have s: "list_all is_digit s" "hd s \<noteq> 48" by simp_all
    with snoc.IH False have "dec (undec s) = s" by simp
    moreover have "\<not> 10 * undec s + b < 10" using undec_pos [OF s(1) False s(2)] by linarith
    ultimately show ?thesis using c by (simp add: undec_snoc dec.simps [of "10 * undec s + b"])
  qed
qed simp

end
