(* ===== verification/Json_Facts.thy ===== *)
theory Json_Facts
  imports Json_Numbers
begin

text \<open>
  Parsing undoes printing: a value as \<open>JSON.parse\<close> builds them is read back from its text, with
  and without indentation, so a copy made through JSON is the value and two values are equal when
  their texts are.
\<close>

section \<open>Strings\<close>

lemma radix_hex: "d < 16 \<Longrightarrow> digit_value (hex_digit d) = Some d"
  by (auto simp: digit_value_def hex_digit_def is_digit_def)

lemma hex4_pad4:
  assumes "c < 65536"
  shows "hex4 (hex_pad4 c @ r) = Some c"
proof -
  have "16 * (16 * (16 * (c div 4096 mod 16) + c div 256 mod 16) + c div 16 mod 16) + c mod 16 = c"
  proof -
    have "c div 4096 mod 16 = c div 4096" using assms by (simp add: less_mult_imp_div_less)
    moreover have "16 * (c div 4096) + c div 256 mod 16 = c div 256" using mult_div_mod_eq [of 16 "c div 256"] by (simp add: div_mult2_eq [symmetric])
    moreover have "16 * (c div 256) + c div 16 mod 16 = c div 16" using mult_div_mod_eq [of 16 "c div 16"] by (simp add: div_mult2_eq [symmetric])
    ultimately show ?thesis by simp
  qed
  moreover have "c div 4096 < 16" using assms by (simp add: less_mult_imp_div_less)
  ultimately show ?thesis by (simp add: hex4_def hex_pad4_def radix_value_def radix_hex)
qed

lemma quote_unit_read:
  assumes "\<not> is_surrogate c"
  shows "json_string (quote_unit c @ r) = map_option (apfst (Cons c)) (json_string r)"
proof -
  consider "c = 8" | "c = 9" | "c = 10" | "c = 12" | "c = 13" | "c = 34" | "c = 92"
    | "c < 32" "c \<notin> {8, 9, 10, 12, 13}" | "32 \<le> c" "c \<noteq> 34" "c \<noteq> 92" by force
  then show ?thesis
  proof cases
    case 8
    have "hex4 (hex_pad4 c @ r) = Some c" using 8 by (intro hex4_pad4) simp
    then show ?thesis
      using 8 by (simp add: quote_unit_def json_string.simps(2) simple_escape_def hex_pad4_def)
  qed (simp_all add: quote_unit_def json_string.simps(2) simple_escape_def)
qed

lemma escaped_unit_read:
  assumes "is_surrogate c"
  shows "json_string ([92, 117] @ hex_pad4 c @ r) = map_option (apfst (Cons c)) (json_string r)"
proof -
  have "hex4 (hex_pad4 c @ r) = Some c" using assms by (intro hex4_pad4) (simp add: is_surrogate_def)
  then show ?thesis by (simp add: json_string.simps(2) simple_escape_def hex_pad4_def)
qed

lemma string_read: "json_string (quote_units s @ 34 # r) = Some (s, r)"
proof (induction s rule: quote_units.induct)
  case 1
  then show ?case by (simp add: json_string.simps(2))
next
  case (2 c)
  then show ?case
    using quote_unit_read [of c "34 # r"] escaped_unit_read [of c "34 # r"] by (simp add: json_string.simps(2) [of 34])
next
  case (3 c d s)
  consider "is_high c \<and> is_low d" | "\<not> (is_high c \<and> is_low d)" "is_surrogate c" | "\<not> (is_high c \<and> is_low d)" "\<not> is_surrogate c"
    by blast
  then show ?case
  proof cases
    case 1
    then show ?thesis using "3.IH"(1) by (simp add: json_string.simps(2) is_high_def is_low_def)
  next
    case 2
    then show ?thesis using "3.IH"(2) escaped_unit_read [of c "quote_units (d # s) @ 34 # r"] by auto
  next
    case 3
    then show ?thesis using "3.IH"(3) quote_unit_read [of c "quote_units (d # s) @ 34 # r"] by auto
  qed
qed

section \<open>Values\<close>

text \<open>Values as \<open>JSON.parse\<close> builds them: binary64 numbers, keys in their order and never twice.\<close>

fun json_like :: "jsval \<Rightarrow> bool" where
  "json_like JUndef = False"
| "json_like JNull = True"
| "json_like (JBool b) = True"
| "json_like (JNum x) = (case x of Fin y \<Rightarrow> to_double y = Fin y | _ \<Rightarrow> False)"
| "json_like (JStr s) = True"
| "json_like (JArr xs) = list_all json_like xs"
| "json_like (JObj ms) = (from_entries ms = ms \<and> list_all (\<lambda>m. json_like (snd m)) ms)"

lemma skip_indent: "skip_ws (json_indent w d @ s) = skip_ws s"
proof -
  have "dropWhile is_json_ws (replicate n 32 @ s) = dropWhile is_json_ws s" for n
    by (induction n) (simp_all add: is_json_ws_def)
  then show ?thesis by (simp add: json_indent_def skip_ws_def is_json_ws_def)
qed

lemma next_indent [simp]: "next_unit (json_indent w d @ s) = next_unit s"
  by (simp add: next_unit_def skip_indent)

lemma next_plain: "\<not> is_json_ws c \<Longrightarrow> next_unit (c # s) = Some (c, s)"
  by (simp add: next_unit_def skip_ws_def)

lemma next_ws: "is_json_ws c \<Longrightarrow> next_unit (c # s) = next_unit s"
  by (simp add: next_unit_def skip_ws_def)

lemma value_indent: "json_value n (json_indent w d @ s) = json_value n s"
  by (cases n) simp_all

lemma members_indent: "json_members n (json_indent w d @ s) = json_members n s"
  by (cases n) simp_all

lemma items_indent: "json_items n (json_indent w d @ s) = json_items n s"
  by (cases n) (simp_all add: value_indent)

lemma indent_ends: "number_ends s \<Longrightarrow> number_ends (json_indent w d @ s)"
  by (simp add: number_ends_def json_indent_def is_digit_def)

text \<open>The parser reads a value off a text, given fuel enough.\<close>

definition reads :: "(nat \<Rightarrow> jsstr \<Rightarrow> ('a \<times> jsstr) option) \<Rightarrow> jsstr \<Rightarrow> 'a \<Rightarrow> jsstr \<Rightarrow> bool" where
  "reads f s v r \<longleftrightarrow> (\<exists>N. \<forall>n\<ge>N. f n s = Some (v, r))"

lemma reads_Suc: "(\<And>n. N \<le> n \<Longrightarrow> f (Suc n) s = Some (v, r)) \<Longrightarrow> reads f s v r"
  unfolding reads_def by (metis Suc_le_D Suc_le_mono)

lemma reads_items:
  assumes "reads json_value s v t" "next_unit t = Some (c, u)"
    "c = 93 \<and> vs = [] \<and> u = r \<or> c = 44 \<and> reads json_items u vs r"
  shows "reads json_items s (v # vs) r"
proof -
  from assms(1) obtain N where N: "\<forall>n\<ge>N. json_value n s = Some (v, t)" by (auto simp: reads_def)
  from assms(3) show ?thesis
  proof
    assume "c = 93 \<and> vs = [] \<and> u = r"
    with assms(2) N show ?thesis by (intro reads_Suc [of N]) simp
  next
    assume c: "c = 44 \<and> reads json_items u vs r"
    then obtain M where "\<forall>n\<ge>M. json_items n u = Some (vs, r)" by (auto simp: reads_def)
    with c assms(2) N show ?thesis by (intro reads_Suc [of "max N M"]) simp
  qed
qed

lemma reads_members:
  assumes "next_unit s = Some (34, s1)" "json_string s1 = Some (k, 58 # s2)"
    "reads json_value s2 v t" "next_unit t = Some (c, u)"
    "c = 125 \<and> ms = [] \<and> u = r \<or> c = 44 \<and> reads json_members u ms r"
  shows "reads json_members s ((k, v) # ms) r"
proof -
  from assms(3) obtain N where N: "\<forall>n\<ge>N. json_value n s2 = Some (v, t)" by (auto simp: reads_def)
  have colon: "next_unit (58 # s2) = Some (58, s2)" by (simp add: next_plain is_json_ws_def)
  from assms(5) show ?thesis
  proof
    assume "c = 125 \<and> ms = [] \<and> u = r"
    with assms(1,2,4) N colon show ?thesis by (intro reads_Suc [of N]) simp
  next
    assume c: "c = 44 \<and> reads json_members u ms r"
    then obtain M where "\<forall>n\<ge>M. json_members n u = Some (ms, r)" by (auto simp: reads_def)
    with c assms(1,2,4) N colon show ?thesis by (intro reads_Suc [of "max N M"]) simp
  qed
qed

lemma reads_array:
  assumes "reads json_items s xs r" "next_unit s = Some (c, t)" "c \<noteq> 93"
  shows "reads json_value (91 # s) (JArr xs) r"
proof -
  from assms(1) obtain N where "\<forall>n\<ge>N. json_items n s = Some (xs, r)" by (auto simp: reads_def)
  with assms(2,3) show ?thesis by (intro reads_Suc [of N]) (simp add: next_plain is_json_ws_def)
qed

lemma reads_object:
  assumes "reads json_members s ms r" "next_unit s = Some (c, t)" "c \<noteq> 125"
  shows "reads json_value (123 # s) (JObj (from_entries ms)) r"
proof -
  from assms(1) obtain N where "\<forall>n\<ge>N. json_members n s = Some (ms, r)" by (auto simp: reads_def)
  with assms(2,3) show ?thesis by (intro reads_Suc [of N]) (simp add: next_plain is_json_ws_def)
qed

lemma hd_num_to_str:
  assumes "to_double x = Fin x"
  shows "\<exists>c t. num_to_str (Fin x) = c # t \<and> (c = 45 \<or> is_digit c)"
proof (cases "x = 0")
  case True
  then show ?thesis by (simp add: num_to_str_def js_def is_digit_def)
next
  case False
  obtain ds n where sd: "shortest_decimal \<bar>x\<bar> = (ds, n)" by (cases "shortest_decimal \<bar>x\<bar>")
  have "to_double \<bar>x\<bar> = Fin \<bar>x\<bar>" using assms to_double_minus [of x x] by (simp add: abs_if)
  with shortest_decimal [OF _ _ sd] False have "digits_of ds" by simp
  with hd_layout [of ds n "[]"] sd False show ?thesis
    by (cases "layout_digits ds n") (auto simp: num_to_str_def)
qed

text \<open>The first character of a printed value: not white space, nor the end of an array.\<close>

lemma print_first:
  assumes "json_like v"
  shows "\<exists>c t. json_print w d v = c # t \<and> \<not> is_json_ws c \<and> c \<noteq> 93"
proof (cases v)
  case (JNum x)
  with assms obtain y where y: "x = Fin y" "to_double y = Fin y" by (auto split: jsnum.splits)
  from hd_num_to_str [OF y(2)] JNum y show ?thesis by (auto simp: is_json_ws_def is_digit_def)
qed (use assms in \<open>auto simp: js_def is_json_ws_def json_quote_def split: list.splits\<close>)

lemma next_print:
  assumes "json_like v"
  shows "\<exists>c t. next_unit (json_print w d v @ s) = Some (c, t) \<and> c \<noteq> 93"
  using print_first [OF assms, of w d] next_plain by force

lemma reads_number:
  assumes "to_double x = Fin x" "number_ends r"
  shows "reads json_value (num_to_str (Fin x) @ r) (JNum (Fin x)) r"
proof -
  from hd_num_to_str [OF assms(1)] obtain c t where c: "num_to_str (Fin x) = c # t" "c = 45 \<or> is_digit c" by blast
  then have "json_number (c # t @ r) = Some (Fin x, r)" using number_read [OF assms] by simp
  with c show ?thesis
    by (intro reads_Suc [of 0]) (auto simp: next_plain is_json_ws_def is_digit_def js_def)
qed

lemma reads_indent:
  "reads json_items (json_indent w d @ s) xs r = reads json_items s xs r"
  "reads json_members (json_indent w d @ s) ms r = reads json_members s ms r"
  "reads json_value (json_indent w d @ s) v r = reads json_value s v r"
  by (simp_all add: reads_def items_indent members_indent value_indent)

lemma reads_word:
  "reads json_value (js ''null'' @ r) JNull r"
  "reads json_value ((if b then js ''true'' else js ''false'') @ r) (JBool b) r"
  by (rule reads_Suc [of 0], simp add: js_def next_plain is_json_ws_def)+

lemma reads_string: "reads json_value (json_quote s @ r) (JStr s) r"
  using string_read [of s r] by (intro reads_Suc [of 0]) (simp add: json_quote_def next_plain is_json_ws_def)

lemma print_items_Nil: "json_print_items w d xs = [] \<longleftrightarrow> xs = []"
  by (cases xs) simp_all

lemma print_members_Nil: "list_all (\<lambda>m. json_like (snd m)) ms \<Longrightarrow> json_print_members w d ms = [] \<longleftrightarrow> ms = []"
  by (cases ms) (auto split: if_splits)

lemma items_step:
  assumes "json_like x" "reads json_value (json_print w d x @ t) x t"
    "t = json_indent w d' @ 93 # r \<and> xs = [] \<or> (\<exists>u. t = 44 # json_indent w d @ u \<and> reads json_items u xs r)"
  shows "reads json_items (json_print w d x @ t) (x # xs) r"
  using assms(3)
proof
  assume "t = json_indent w d' @ 93 # r \<and> xs = []"
  then show ?thesis by (intro reads_items [OF assms(2), of 93 r]) (simp_all add: next_plain is_json_ws_def)
next
  assume "\<exists>u. t = 44 # json_indent w d @ u \<and> reads json_items u xs r"
  then obtain u where u: "t = 44 # json_indent w d @ u" "reads json_items u xs r" by blast
  then show ?thesis
    by (intro reads_items [OF assms(2), of 44 "json_indent w d @ u"]) (simp_all add: next_plain is_json_ws_def reads_indent)
qed

lemma members_step:
  assumes "json_like v" "reads json_value (json_print w d v @ t) v t"
    "t = json_indent w d' @ 125 # r \<and> ms = [] \<or> (\<exists>u. t = 44 # json_indent w d @ u \<and> reads json_members u ms r)"
  shows "reads json_members (json_quote k @ [58] @ (if w = 0 then [] else [32]) @ json_print w d v @ t) ((k, v) # ms) r"
proof -
  let ?s2 = "(if w = 0 then [] else [32]) @ json_print w d v @ t"
  have q: "next_unit (json_quote k @ 58 # ?s2) = Some (34, quote_units k @ 34 # 58 # ?s2)"
    by (simp add: json_quote_def next_plain is_json_ws_def)
  have "json_value n ?s2 = json_value n (json_print w d v @ t)" for n
    by (cases n) (simp_all add: next_ws is_json_ws_def)
  with assms(2) have v: "reads json_value ?s2 v t" by (simp add: reads_def)
  note step = reads_members [OF q string_read v]
  from assms(3) show ?thesis
  proof
    assume "t = json_indent w d' @ 125 # r \<and> ms = []"
    then show ?thesis using step [of 125 r] by (simp add: next_plain is_json_ws_def)
  next
    assume "\<exists>u. t = 44 # json_indent w d @ u \<and> reads json_members u ms r"
    then obtain u where "t = 44 # json_indent w d @ u" "reads json_members u ms r" by blast
    then show ?thesis
      using step [of 44 "json_indent w d @ u"] by (simp add: next_plain is_json_ws_def reads_indent)
  qed
qed

lemma value_read:
  "json_like v \<Longrightarrow> number_ends r \<Longrightarrow> reads json_value (json_print w d v @ r) v r"
  "list_all json_like xs \<Longrightarrow> xs \<noteq> [] \<Longrightarrow>
   reads json_items (join (44 # json_indent w d) (json_print_items w d xs) @ json_indent w d' @ 93 # r) xs r"
  "list_all (\<lambda>m. json_like (snd m)) ms \<Longrightarrow> ms \<noteq> [] \<Longrightarrow>
   reads json_members (join (44 # json_indent w d) (json_print_members w d ms) @ json_indent w d' @ 125 # r) ms r"
proof (induction w d v and w d xs and w d ms arbitrary: r and r d' and r d'
    rule: json_print_json_print_items_json_print_members.induct)
  case (4 w d x)
  then show ?case by (auto simp: reads_number split: jsnum.splits)
next
  case (6 w d xs)
  show ?case
  proof (cases "xs = []")
    case True
    then show ?thesis
      by (intro reads_Suc [of 0]) (simp add: js_def next_plain is_json_ws_def)
  next
    case False
    then obtain x ys where xs: "xs = x # ys" by (cases xs) auto
    let ?s = "join (44 # json_indent w (Suc d)) (json_print_items w (Suc d) xs) @ json_indent w d @ 93 # r"
    have "reads json_items ?s xs r" using "6.IH" "6.prems"(1) False by simp
    then have "reads json_items (json_indent w (Suc d) @ ?s) xs r" by (simp add: reads_indent)
    moreover obtain c t where "next_unit (json_indent w (Suc d) @ ?s) = Some (c, t)" "c \<noteq> 93"
    proof -
      have "json_like x" using "6.prems"(1) xs by simp
      from next_print [OF this, of w "Suc d"] that show ?thesis
        by (cases "json_print_items w (Suc d) ys") (fastforce simp: xs)+
    qed
    ultimately have "reads json_value (91 # json_indent w (Suc d) @ ?s) (JArr xs) r"
      by (rule reads_array)
    moreover have "json_print w d (JArr xs) @ r = 91 # json_indent w (Suc d) @ ?s"
      by (simp add: xs)
    ultimately show ?thesis by simp
  qed
next
  case (7 w d ms)
  then have ok: "from_entries ms = ms" "list_all (\<lambda>m. json_like (snd m)) ms" by simp_all
  show ?case
  proof (cases "ms = []")
    case True
    then show ?thesis
      by (intro reads_Suc [of 0]) (simp add: js_def next_plain is_json_ws_def)
  next
    case False
    let ?ps = "json_print_members w (Suc d) ms"
    let ?s = "join (44 # json_indent w (Suc d)) ?ps @ json_indent w d @ 125 # r"
    have "reads json_members ?s ms r" using "7.IH" ok(2) False by simp
    then have "reads json_members (json_indent w (Suc d) @ ?s) ms r" by (simp add: reads_indent)
    moreover have "\<exists>t. next_unit (json_indent w (Suc d) @ ?s) = Some (34, t)"
    proof -
      obtain k v ns where ms: "ms = (k, v) # ns" using False by (cases ms) auto
      with ok(2) have "v \<noteq> JUndef" by auto
      then show ?thesis
        by (cases "json_print_members w (Suc d) ns") (auto simp: ms json_quote_def next_plain is_json_ws_def)
    qed
    ultimately have "reads json_value (123 # json_indent w (Suc d) @ ?s) (JObj (from_entries ms)) r"
      by (auto intro: reads_object)
    moreover have "json_print w d (JObj ms) @ r = 123 # json_indent w (Suc d) @ ?s"
      using print_members_Nil [OF ok(2), of w "Suc d"] False by (cases ?ps) simp_all
    ultimately show ?thesis by (simp only: ok(1))
  qed
next
  case (9 w d x xs)
  then have x: "json_like x" and xs: "list_all json_like xs" by simp_all
  show ?case
  proof (cases "xs = []")
    case True
    have "number_ends (json_indent w d' @ 93 # r)" by (rule indent_ends) (simp add: number_ends_def is_digit_def)
    from items_step [OF x "9.IH"(1) [OF x this], where d' = d' and r = r and xs = "[]"] True show ?thesis by simp
  next
    case False
    let ?t = "44 # json_indent w d @ join (44 # json_indent w d) (json_print_items w d xs) @ json_indent w d' @ 93 # r"
    have "number_ends ?t" by (simp add: number_ends_def is_digit_def)
    from items_step [OF x "9.IH"(1) [OF x this]] "9.IH"(2) [OF xs False]
    show ?thesis using False print_items_Nil [of w d xs] by (simp add: join_Cons)
  qed
next
  case (11 w d k v ms)
  then have v: "json_like v" "v \<noteq> JUndef" and ms: "list_all (\<lambda>m. json_like (snd m)) ms" by auto
  show ?case
  proof (cases "ms = []")
    case True
    have "number_ends (json_indent w d' @ 125 # r)" by (rule indent_ends) (simp add: number_ends_def is_digit_def)
    from members_step [OF v(1) "11.IH"(2) [OF v(2,1) this], where d' = d' and r = r and ms = "[]"] True v(2) show ?thesis by simp
  next
    case False
    let ?t = "44 # json_indent w d @ join (44 # json_indent w d) (json_print_members w d ms) @ json_indent w d' @ 125 # r"
    have "number_ends ?t" by (simp add: number_ends_def is_digit_def)
    from members_step [OF v(1) "11.IH"(2) [OF v(2,1) this]] "11.IH"(3) [OF v(2) ms False]
    show ?thesis using False v(2) print_members_Nil [OF ms, of w d] by (simp add: join_Cons)
  qed
qed (simp_all add: reads_word reads_string)

section \<open>Round trip\<close>

theorem json_round_trip: "json_like v \<Longrightarrow> json_parse (json_stringify w v) = Some v"
proof -
  assume "json_like v"
  from value_read(1) [OF this, of "[]" w 0] obtain N
    where N: "\<forall>n\<ge>N. json_value n (json_stringify w v) = Some (v, [])"
    by (auto simp: reads_def number_ends_def json_stringify_def)
  let ?s = "json_stringify w v"
  have "json_value (2 * length ?s + 2) ?s = json_value (max N (2 * length ?s + 2)) ?s"
    by (rule json_fuel_enough [symmetric]) simp
  with N show ?thesis by (simp add: json_parse_def skip_ws_def)
qed

lemma json_text_inject:
  "json_like v \<Longrightarrow> json_like u \<Longrightarrow> json_stringify w v = json_stringify w u \<longleftrightarrow> v = u"
  by (metis json_round_trip option.inject)

end
