(* ===== verification/Json_Copy.thy ===== *)
theory Json_Copy
  imports Json_Facts
begin

text \<open>
  What a copy through JSON is: \<open>JSON.parse(JSON.stringify(v))\<close> drops the members that hold
  \<open>undefined\<close>, turns \<open>undefined\<close> items and numbers that are not finite into \<open>null\<close>, and keeps
  everything else. Copying is idempotent.
\<close>

section \<open>Rounded numbers stay\<close>

lemma rounded_multiple:
  assumes "y = of_int n * pow2 q" "last_place y \<le> q"
  shows "rounded y = y"
proof -
  define l where "l = last_place y"
  have "pow2 q = pow2 l * 2 ^ nat (q - l)"
    using assms(2) pow2_add [of l "q - l"] by (simp add: l_def pow2_def [of "q - last_place y"])
  then have y: "y = of_int (n * 2 ^ nat (q - l)) * pow2 l" using assms(1) by simp
  then have "y / pow2 l = of_int (n * 2 ^ nat (q - l))" by (simp add: field_simps)
  then have "round_half_even (y / pow2 l) = n * 2 ^ nat (q - l)" by (simp only: round_half_even_int)
  with y show ?thesis by (simp only: rounded_def l_def)
qed

lemma last_place_le:
  assumes "0 < y" "y < pow2 (53 + q)" "- 1074 \<le> q"
  shows "last_place y \<le> q"
proof -
  have "pow2 (ilog2 y) < pow2 (53 + q)" using assms(2) ilog2_bounds [OF assms(1)] by linarith
  from pow2_less [OF this] show ?thesis using assms(3) by (simp add: last_place_def)
qed

lemma to_double_again_pos:
  assumes "0 < x" "to_double x = Fin y"
  shows "to_double y = Fin y"
proof -
  define q where "q = last_place x"
  have q: "- 1074 \<le> q" by (simp add: q_def last_place_def)
  define n where "n = round_half_even (x / pow2 q)"
  from assms have y: "y = of_int n * pow2 q" "\<not> pow2 1024 \<le> y"
    by (simp_all add: to_double_pos rounded_def n_def q_def split: if_splits)
  have "x < pow2 (ilog2 x + 1)" using ilog2_bounds [OF assms(1)] by simp
  also have "\<dots> \<le> pow2 (53 + q)" by (rule pow2_mono) (simp add: q_def last_place_def)
  finally have "x / pow2 q < 2 ^ 53" using pow2_of_nat [of 53] by (simp add: pow2_add pos_divide_less_eq)
  moreover have "0 < x / pow2 q" using assms(1) by simp
  ultimately have "of_int n < (2 ^ 53 + 1 :: rat)" "- 1 < (of_int n :: rat)"
    using round_half_even_error [of "x / pow2 q", folded n_def] by linarith+
  then have n: "n \<le> 2 ^ 53" "0 \<le> n"
    using of_int_less_iff [of n "2 ^ 53 + 1", where 'a = rat] of_int_less_iff [of "- 1" n, where 'a = rat] by simp_all
  show ?thesis
  proof (cases "n = 0")
    case True
    then show ?thesis by (simp add: y(1) to_double_def)
  next
    case False
    with n have pos: "0 < y" by (simp add: y(1))
    have "rounded y = y"
    proof (cases "n = 2 ^ 53")
      case True
      have "pow2 q * 2 = pow2 (q + 1)" using pow2_add [of q 1] by (simp add: pow2_def [of 1])
      then have "y = of_int (2 ^ 52) * pow2 (q + 1)" by (simp add: y(1) True)
      moreover have "pow2 (53 + (q + 1)) = 2 * (2 ^ 53 * pow2 q)"
        using pow2_add [of "53 + q" 1] pow2_of_nat [of 53] by (simp add: pow2_add [of 53 q] pow2_def [of 1] add.assoc)
      then have "y < pow2 (53 + (q + 1))" using pos by (simp add: y(1) True)
      with pos q have "last_place y \<le> q + 1" by (intro last_place_le) simp_all
      ultimately show ?thesis by (rule rounded_multiple)
    next
      case False
      with n have "(of_int n :: rat) < of_int (2 ^ 53)" unfolding of_int_less_iff by simp
      then have "y < pow2 (53 + q)" using pow2_of_nat [of 53] by (simp add: pow2_add y(1))
      with pos q have "last_place y \<le> q" by (intro last_place_le)
      with y(1) show ?thesis by (rule rounded_multiple)
    qed
    with pos y(2) show ?thesis by (simp add: to_double_pos)
  qed
qed

lemma to_double_again: "to_double x = Fin y \<Longrightarrow> to_double y = Fin y"
proof -
  assume x: "to_double x = Fin y"
  consider "x = 0" | "0 < x" | "0 < - x" by linarith
  then show ?thesis
  proof cases
    case 1
    with x show ?thesis by (auto simp: to_double_def)
  next
    case 2
    with x show ?thesis by (intro to_double_again_pos)
  next
    case 3
    with to_double_again_pos [OF 3 to_double_minus [OF x]] to_double_minus [of "- y" "- y"] show ?thesis by simp
  qed
qed

section \<open>The order of keys\<close>

definition key_before :: "jsstr \<Rightarrow> jsstr \<Rightarrow> bool" where
  "key_before k l =
     (case (index_key k, index_key l) of
        (Some m, Some n) \<Rightarrow> m < n
      | (None, Some n) \<Rightarrow> False
      | _ \<Rightarrow> k \<noteq> l)"

definition ordered :: "(jsstr \<times> 'v) list \<Rightarrow> bool" where
  "ordered ms \<longleftrightarrow> sorted_wrt key_before (map fst ms)"

lemma insert_index_last:
  "index_key k = Some n \<Longrightarrow> \<forall>l\<in>fst ` set ms. key_before l k \<Longrightarrow> obj_insert_index n k v ms = ms @ [(k, v)]"
  by (induction n k v ms rule: obj_insert_index.induct) (auto simp: key_before_def split: option.splits)

lemma obj_set_last:
  assumes "\<forall>l\<in>fst ` set ms. key_before l k"
  shows "obj_set k v ms = ms @ [(k, v)]"
proof -
  have "k \<notin> fst ` set ms" using assms by (auto simp: key_before_def split: option.splits)
  with assms insert_index_last [of k _ ms v] show ?thesis
    by (auto simp: obj_set_def split: option.split)
qed

lemma ordered_from_entries: "ordered ms \<Longrightarrow> from_entries ms = ms"
proof (induction ms rule: rev_induct)
  case (snoc m ms)
  then have "from_entries ms = ms" "\<forall>l\<in>fst ` set ms. key_before l (fst m)"
    by (auto simp: ordered_def sorted_wrt_append)
  then show ?case by (cases m) (simp add: from_entries_def obj_set_last)
qed (simp add: from_entries_def)

lemma key_before_irrefl [simp]: "\<not> key_before k k"
  by (simp add: key_before_def split: option.split)

lemma index_key_dec: "index_key k = Some n \<Longrightarrow> k = dec n"
  using dec_undec [of k] by (auto simp: index_key_def split: if_splits)

lemma ordered_insert_index:
  "index_key k = Some n \<Longrightarrow> k \<notin> fst ` set ms \<Longrightarrow> ordered ms \<Longrightarrow> ordered (obj_insert_index n k v ms)"
proof (induction n k v ms rule: obj_insert_index.induct)
  case (2 n k v k' v' ms)
  from "2.prems" have neq: "k' \<noteq> k" and rest: "ordered ms" "\<forall>l\<in>fst ` set ms. key_before k' l"
    by (auto simp: ordered_def)
  have k: "fst ` set (obj_insert_index n k v ms) = insert k (fst ` set ms)"
    using keys_obj_insert_index [of n k v ms] by simp
  show ?case
  proof (cases "\<exists>m. index_key k' = Some m \<and> m < n")
    case True
    then obtain m where m: "index_key k' = Some m" "m < n" by blast
    with 2 rest k show ?thesis by (auto simp: ordered_def key_before_def)
  next
    case False
    have "key_before k k'"
      using False "2.prems"(1) neq index_key_dec [of k n] index_key_dec [of k']
      by (auto simp: key_before_def not_less le_less split: option.split)
    moreover from this rest(2) "2.prems"(1) have "\<forall>l\<in>fst ` set ms. key_before k l"
      by (fastforce simp: key_before_def split: option.splits)
    ultimately have "ordered ((k, v) # (k', v') # ms)"
      using "2.prems"(3) by (auto simp: ordered_def)
    with False show ?thesis by (auto split: option.split)
  qed
qed (simp add: ordered_def)

lemma ordered_obj_set: "ordered ms \<Longrightarrow> ordered (obj_set k v ms)"
proof -
  assume ms: "ordered ms"
  consider "k \<in> fst ` set ms" | n where "k \<notin> fst ` set ms" "index_key k = Some n"
    | "k \<notin> fst ` set ms" "index_key k = None" by fastforce
  then show ?thesis
  proof cases
    case 3
    then have "\<forall>l\<in>fst ` set ms. key_before l k" by (auto simp: key_before_def split: option.split)
    with ms 3 show ?thesis by (auto simp: obj_set_def ordered_def sorted_wrt_append)
  qed (use ms in \<open>simp_all add: obj_set_def ordered_insert_index, simp add: ordered_def\<close>)
qed

lemma from_entries_ordered: "ordered (from_entries es)"
proof (induction es rule: rev_induct)
  case (snoc m es)
  then show ?case by (cases m) (simp add: from_entries_def ordered_obj_set)
qed (simp add: from_entries_def ordered_def)

lemma from_entries_id: "from_entries ms = ms \<longleftrightarrow> ordered ms"
  using ordered_from_entries from_entries_ordered by metis

section \<open>Copies\<close>

text \<open>Values of a running script: numbers are binary64 values and keys are in their order.\<close>

fun runtime_value :: "jsval \<Rightarrow> bool" where
  "runtime_value (JNum x) = (case x of Fin y \<Rightarrow> to_double y = Fin y | _ \<Rightarrow> True)"
| "runtime_value (JArr xs) = list_all runtime_value xs"
| "runtime_value (JObj ms) = (ordered ms \<and> list_all (\<lambda>m. runtime_value (snd m)) ms)"
| "runtime_value _ = True"

fun json_copy :: "jsval \<Rightarrow> jsval" where
  "json_copy JUndef = JNull"
| "json_copy (JNum x) = (case x of Fin _ \<Rightarrow> JNum x | _ \<Rightarrow> JNull)"
| "json_copy (JArr xs) = JArr (map json_copy xs)"
| "json_copy (JObj ms) = JObj (map (\<lambda>m. (fst m, json_copy (snd m))) (filter (\<lambda>m. snd m \<noteq> JUndef) ms))"
| "json_copy v = v"

lemma ordered_sub:
  assumes "ordered ms"
  shows "ordered (map (\<lambda>m. (fst m, f (snd m))) (filter P ms))"
proof -
  have "map fst (map (\<lambda>m. (fst m, f (snd m))) (filter P ms)) = map fst (filter P ms)" by simp
  moreover have "sorted_wrt key_before (map fst (filter P ms))"
    using assms by (auto simp: ordered_def sorted_wrt_map intro: sorted_wrt_filter)
  ultimately show ?thesis by (simp only: ordered_def)
qed

lemma json_like_copy: "runtime_value v \<Longrightarrow> json_like (json_copy v)"
proof (induction v rule: json_copy.induct)
  case (4 ms)
  then show ?case by (auto simp: from_entries_id ordered_sub list_all_iff)
qed (auto simp: list_all_iff split: jsnum.splits)

lemma copy_not_undefined [simp]: "json_copy v \<noteq> JUndef"
  by (cases v) (auto split: jsnum.split)

lemma print_copy:
  "json_print w d (json_copy v) = json_print w d v"
  "json_print_items w d (map json_copy xs) = json_print_items w d xs"
  "json_print_members w d (map (\<lambda>m. (fst m, json_copy (snd m))) (filter (\<lambda>m. snd m \<noteq> JUndef) ms))
     = json_print_members w d ms"
  by (induction w d v and w d xs and w d ms rule: json_print_json_print_items_json_print_members.induct)
    (auto split: jsnum.split)

theorem copied: "runtime_value v \<Longrightarrow> json_parse (json_stringify w v) = Some (json_copy v)"
  using json_round_trip [OF json_like_copy, of v w] by (simp add: json_stringify_def print_copy)

lemma json_like_well_formed: "json_like v \<Longrightarrow> runtime_value v \<and> json_copy v = v"
proof (induction v rule: json_like.induct)
  case (6 xs)
  then show ?case by (auto simp: list_all_iff intro!: map_idI)
next
  case (7 ms)
  then have "json_like (snd m) \<and> snd m \<noteq> JUndef \<and> json_copy (snd m) = snd m" if "m \<in> set ms" for m
    using that by (auto simp: list_all_iff)
  with 7 show ?case by (auto simp: list_all_iff from_entries_id filter_id_conv intro!: map_idI)
qed (auto split: jsnum.splits)

lemma copy_copy [simp]: "runtime_value v \<Longrightarrow> json_copy (json_copy v) = json_copy v"
  using json_like_well_formed json_like_copy by blast

section \<open>What the parser builds\<close>

lemma number_well_formed: "json_number s = Some (x, r) \<Longrightarrow> runtime_value (JNum x)"
  by (auto simp: json_number_def bind_eq_Some_conv to_double_again split: if_splits jsnum.split)

lemma parsed_values:
  "json_value n s = Some (v, r) \<Longrightarrow> runtime_value v"
  "json_items n s = Some (vs, r) \<Longrightarrow> list_all runtime_value vs"
  "json_members n s = Some (es, r) \<Longrightarrow> list_all (\<lambda>m. runtime_value (snd m)) es"
proof (induction n arbitrary: s v r vs es)
  case (Suc n)
  {
    case 1
    have obj: "runtime_value (JObj (from_entries ms))" if "json_members n t = Some (ms, u)" for ms t u
      using Suc.IH(3) [OF that] from_entries_values by (fastforce simp: list_all_iff from_entries_ordered)
    have arr: "runtime_value (JArr xs)" if "json_items n t = Some (xs, u)" for xs t u
      using Suc.IH(2) [OF that] by simp
    have rest: "runtime_value JNull" "runtime_value (JBool b)" "runtime_value (JStr k)" "runtime_value (JArr [])"
      "runtime_value (JObj [])" for b k by (simp_all add: ordered_def)
    from 1 show ?case
      by (auto simp: bind_eq_Some_conv rest simp del: runtime_value.simps split: if_splits
          dest: obj arr number_well_formed intro: rest)
  next
    case 2
    then show ?case by (auto simp: bind_eq_Some_conv split: if_splits dest: Suc.IH)
  next
    case 3
    then show ?case by (auto simp: bind_eq_Some_conv split: if_splits dest: Suc.IH)
  }
qed simp_all

theorem parsed_well_formed: "json_parse s = Some v \<Longrightarrow> runtime_value v"
  unfolding json_parse_def
  by (auto simp del: json_value.simps split: option.splits if_splits dest: parsed_values)

end
