(* ===== verification/Postman_Facts.thy ===== *)
theory Postman_Facts
  imports Import_Facts Import_Postman Json_Copy
begin

text \<open>
  What an imported Postman collection guarantees: how many requests it has and how they are named,
  what becomes of the values under sensitive names, which scripts a request runs and in which order, and which collection variables the preamble script defines.
\<close>

section \<open>One request\<close>

lemma okR_if [ok_intros]: "okR P a \<Longrightarrow> okR P b \<Longrightarrow> okR P (if c then a else b)"
  by simp

text \<open>
  What the authorization of a request becomes: none, or fields whose secret is empty, a value of the
  export with a template in it, or a placeholder.
\<close>

lemma masked_field_Nil: "masked_field alias [] []"
  by (simp add: masked_field_def)

definition masked_auth :: "(jsstr \<times> jsstr) list \<Rightarrow> auth_definition \<Rightarrow> bool" where
  "masked_auth kvs au \<longleftrightarrow>
     (\<exists>p. au_fields au = [(js ''username'', field_or_empty kvs ''username''), (js ''password'', p)] \<and>
        masked_field (js ''importedPassword'') (field_or_empty kvs ''password'') p) \<or>
     (\<exists>t. au_fields au = [(js ''token'', t)] \<and>
        (masked_field (js ''importedBearerToken'') (field_or_empty kvs ''token'') t \<or>
         masked_field (js ''importedAccessToken'') (field_or_empty kvs ''accessToken'') t)) \<or>
     (\<exists>n v l. au_fields au = [(js ''name'', n), (js ''value'', v), (js ''location'', l)] \<and>
        l \<in> {js ''query'', js ''header''} \<and>
        masked_field (toAlias n) (field_or_empty kvs ''value'') v)"

definition auth_masked :: "jsval \<Rightarrow> auth_definition \<Rightarrow> bool" where
  "auth_masked auth au \<longleftrightarrow> au = no_auth \<or> (\<exists>kvs w. auth_values auth = Inr (kvs, w) \<and> masked_auth kvs au)"

lemma mapPostmanAuth_masked: "okR (auth_masked auth) (mapPostmanAuth auth location)"
proof -
  have none: "auth_masked auth no_auth" by (simp add: auth_masked_def)
  have kvs: "okR (\<lambda>kvs. \<exists>w. auth_values auth = Inr (kvs, w)) (auth_values auth)"
    by (auto simp: okR_def split: sum.split)
  have basic: "masked_auth kvs \<lparr>au_type = ty, au_fields = [(js ''username'', field_or_empty kvs ''username''), (js ''password'', p)]\<rparr>"
    if "masked_field (js ''importedPassword'') (field_or_empty kvs ''password'') p" for kvs ty p
    using that unfolding masked_auth_def by (intro disjI1 exI [of _ p]) simp
  have bearer: "masked_auth kvs \<lparr>au_type = ty, au_fields = [(js ''token'', t)]\<rparr>"
    if "masked_field (js ''importedBearerToken'') (field_or_empty kvs ''token'') t \<or>
      masked_field (js ''importedAccessToken'') (field_or_empty kvs ''accessToken'') t" for kvs ty t
    using that unfolding masked_auth_def by (intro disjI2 disjI1 exI [of _ t]) simp
  have key: "masked_auth kvs \<lparr>au_type = ty, au_fields = [(js ''name'', n),
      (js ''value'', secretOrTemplate (field_or_empty kvs ''value'') (toAlias n)), (js ''location'', l)]\<rparr>"
    if "l \<in> {js ''query'', js ''header''}" for kvs ty n l
    using that secretOrTemplate_masked [of "toAlias n" "field_or_empty kvs ''value''"]
    unfolding masked_auth_def by (intro disjI2 exI [of _ n] exI [of _ l] exI) (auto simp only: auth_definition.simps)
  have empty: "masked_field (js ''importedPassword'') (field_or_empty kvs ''password'')
      (if field_or_empty kvs ''password'' \<noteq> [] then secretOrTemplate (field_or_empty kvs ''password'') (js ''importedPassword'') else [])"
    for kvs
    by (simp add: secretOrTemplate_masked) (simp add: masked_field_def)
  have some: "auth_masked auth au" if "\<exists>w. auth_values auth = Inr (kvs, w)" "masked_auth kvs au" for kvs au
    using that by (auto simp: auth_masked_def)
  show ?thesis
    unfolding mapPostmanAuth_def Let_def
    by (intro okR_if okR_ret none okR_bind [OF kvs] okR_bind_any; rule some, assumption)
      (auto intro!: basic bearer key empty masked_field_Nil simp only: secretOrTemplate_masked split: if_split)
qed

text \<open>The headers of a request, and the rows they become.\<close>

definition given_headers :: "jsval \<Rightarrow> jsval list" where
  "given_headers request = (case fld request ''header'' of JArr hs \<Rightarrow> hs | _ \<Rightarrow> [])"

definition header_masked :: "jsval \<Rightarrow> key_value_row \<Rightarrow> bool" where
  "header_masked g h \<longleftrightarrow>
     fld g ''key'' = JStr (kv_key h) \<and>
     (\<exists>v. stringValue (fld g ''value'') = Inr v \<and> masked_value (kv_key h) v (kv_value h))"

lemma liftR_ok: "okR (\<lambda>a. m = Inr a) (liftR m)"
  by (auto simp: okR_def liftR_def retR_def failR_def split: sum.split)

lemma string_key_ok: "okR (\<lambda>k. v = JStr k) (string_key v)"
  by (auto simp: string_key_def okR_fail split: jsval.split intro!: okR_ret)

lemma postman_header_masked: "okR (header_masked h) (postman_header i location n h)"
  unfolding postman_header_def
  by (intro okR_bind [OF string_key_ok] okR_bind [OF liftR_ok] okR_bind [OF protectSecretValue_masked] okR_ret)
    (simp add: header_masked_def row_def)

lemma split_headers_kept: "set hs \<subseteq> S \<Longrightarrow> okR (\<lambda>(keep, cs). \<forall>h\<in>set keep. h \<in> S) (split_headers hs)"
proof (induction hs rule: split_headers.induct)
  case 1
  then show ?case by (simp add: okR_ret)
next
  case (2 h hs)
  then have S: "h \<in> S" "set hs \<subseteq> S" by simp_all
  note IH = "2.IH" [OF _ S(2)]
  show ?case
    unfolding split_headers.simps
    by (rule okR_bind_any, rule okR_bind_any, rule okR_if2, rule okR_bind_any)
      (rule okR_bind [OF IH(1)] okR_bind [OF IH(2)], assumption, auto intro!: okR_ret simp: S(1) split: if_splits)+
qed

lemma given_headers_kept:
  "okR (\<lambda>(keep, cs). \<forall>h\<in>set keep. h \<in> set (given_headers request))
     (case coalesce (fld request ''header'') (JArr []) of JArr hs \<Rightarrow> split_headers hs | _ \<Rightarrow> failR TypeError)"
proof (cases "nullish (fld request ''header'')")
  case True
  then show ?thesis by (simp add: coalesce_def okR_ret)
next
  case False
  then show ?thesis
    by (auto simp: given_headers_def split_headers_kept okR_fail coalesce_def split: jsval.split)
qed

lemma postman_cookies_masked:
  "c \<in> set (postman_cookies i hs) \<Longrightarrow> kv_value c = secretPlaceholder (kv_key c)"
  by (auto simp: postman_cookies_def cookie_of_row_def row_def Let_def)

definition mapped_auth :: "jsval \<Rightarrow> auth_definition \<Rightarrow> bool" where \<comment> \<open>the result of mapping some authorization\<close>
  "mapped_auth auth au \<longleftrightarrow> (\<exists>location ws. mapPostmanAuth auth location = Inr (au, ws))"

definition request_shape ::
  "step_definition \<Rightarrow> jsval \<Rightarrow> jsstr list \<Rightarrow> jsstr list \<Rightarrow> step_definition \<Rightarrow> bool" where
  "request_shape step auth pre tests s \<longleftrightarrow>
     st_id s = st_id step \<and> st_name s = st_name step \<and> st_enabled s = st_enabled step \<and>
     rq_method (st_request s) = rq_method (st_request step) \<and>
     mapped_auth auth (rq_auth (st_request s)) \<and>
     rq_pre_script (st_request s) = scriptDefinition (join [10, 10] pre) \<and>
     rq_test_script (st_request s) = scriptDefinition (join [10, 10] tests)"

text \<open>
  The secrets of the request that an exported request becomes, once the references to the variables
  \<open>ks\<close> have been renamed in every value.
\<close>

definition postman_masked :: "jsstr list \<Rightarrow> jsval \<Rightarrow> jsval \<Rightarrow> step_definition \<Rightarrow> bool" where
  "postman_masked ks request auth s \<longleftrightarrow>
     (\<exists>params headers au.
        (\<exists>address query w. postmanURL (fld request ''url'') = Inr ((address, query), w) \<and>
           list_all2 masked_row query params) \<and>
        (\<forall>h\<in>set headers. \<exists>g\<in>set (given_headers request). header_masked g h) \<and>
        auth_masked auth au \<and>
        map (\<lambda>r. (kv_key r, kv_value r)) (rq_params (st_request s)) =
          map (\<lambda>r. (kv_key r, replace_references ks (kv_value r))) params \<and>
        map (\<lambda>r. (kv_key r, kv_value r)) (rq_headers (st_request s)) =
          map (\<lambda>r. (kv_key r, replace_references ks (kv_value r))) headers \<and>
        (\<forall>c\<in>set (rq_cookies (st_request s)).
           kv_value c = replace_references ks (secretPlaceholder (kv_key c))) \<and>
        au_fields (rq_auth (st_request s)) = map (\<lambda>(k, v). (k, replace_references ks v)) (au_fields au))"

lemma replace_no_references [simp]: "replace_references [] = id"
  by (simp add: replace_references_def fun_eq_iff)

lemma postman_maskedI:
  assumes "postmanURL (fld request ''url'') = Inr ((address, query), w)"
    and "list_all2 masked_row query (rq_params (st_request s))"
    and "\<forall>h\<in>set (rq_headers (st_request s)). \<exists>g\<in>set (given_headers request). header_masked g h"
    and "\<forall>c\<in>set (rq_cookies (st_request s)). kv_value c = secretPlaceholder (kv_key c)"
    and "auth_masked auth (rq_auth (st_request s))"
  shows "postman_masked [] request auth s"
  unfolding postman_masked_def
  by (intro exI [of _ "rq_params (st_request s)"] exI [of _ "rq_headers (st_request s)"]
      exI [of _ "rq_auth (st_request s)"]) (use assms in \<open>auto simp: case_prod_unfold\<close>)

lemma mapPostmanRequest_ok:
  "okR (\<lambda>s. request_shape step auth pre tests s \<and> postman_masked [] request auth s)
     (mapPostmanRequest step request auth pre tests location)"
proof -
  have url: "okR (\<lambda>(address, query). \<exists>w. postmanURL v = Inr ((address, query), w)) (postmanURL v)" for v
    by (auto simp: okR_def split: sum.split)
  have headers: "okR (\<lambda>hs. \<forall>h\<in>set hs. \<exists>g\<in>G. header_masked g h) (mapiR (postman_header i location) gs)"
    if gs: "\<forall>g\<in>set gs. g \<in> G" for i gs G
  proof (rule okR_mapiR)
    fix n h assume h: "h \<in> set gs"
    show "okR (\<lambda>r. \<exists>g\<in>G. header_masked g r) (postman_header i location n h)"
      by (rule okR_mono [OF postman_header_masked]) (use gs h in blast)
  qed
  have auth: "okR (\<lambda>au. auth_masked auth au \<and> mapped_auth auth au) (mapPostmanAuth auth location)"
    using mapPostmanAuth_masked [of auth location]
    by (auto simp: okR_def mapped_auth_def split: sum.splits)
  show ?thesis
    unfolding mapPostmanRequest_def Let_def
    apply (rule okR_bind [OF url], clarsimp)
    apply (rule okR_bind [OF protect_params_masked])
    apply (rule okR_bind [OF given_headers_kept], clarsimp)
    apply (rule okR_bind [OF headers], assumption)
    apply (rule okR_bind_any)
    apply (rule okR_bind [OF auth])
    apply (rule okR_bind_any)
    apply (rule okR_ret)
    apply (auto simp: request_shape_def postman_cookies_masked intro!: postman_maskedI)
    done
qed

section \<open>The requests of a collection\<close>

text \<open>
  A request of a collection is the chain of items that leads to it, outermost folder first. The
  name of the imported step, its scripts and its authorization are functions of that chain, stated
  here without the traversal: names from the outside in, pre-request scripts from the outside in,
  test scripts from the inside out, and the innermost authorization that does not inherit.
\<close>

function request_chains :: "jsval list \<Rightarrow> jsval list \<Rightarrow> jsval list list" where
  "request_chains up [] = []"
| "request_chains up (item # rest) =
     (case fld item ''item'' of
        JArr xs \<Rightarrow> request_chains (up @ [item]) xs
      | _ \<Rightarrow> if truthy (fld item ''request'') then [up @ [item]] else [])
     @ request_chains up rest"
  by pat_completeness auto
termination
  by (relation "measure (\<lambda>(up, items). size_list size items)") (auto dest: size_fld_items)

declare request_chains.simps(2) [simp del]

definition item_name :: "jsval \<Rightarrow> jsstr" where
  "item_name item =
     (case fld item ''name'' of
        JStr s \<Rightarrow> if trim s \<noteq> [] then trim s else js ''Untitled request''
      | _ \<Rightarrow> js ''Untitled request'')"

definition scripts_of :: "jsval \<Rightarrow> event_scripts" where
  "scripts_of v =
     (case eventScripts (fld v ''event'') of
        Inr (ev, _) \<Rightarrow> ev
      | Inl _ \<Rightarrow> \<lparr>ev_pre = [], ev_tests = [], ev_count = 0\<rparr>)"

definition chain_pre :: "jsval list \<Rightarrow> jsstr list" where
  "chain_pre chain = concat (map (\<lambda>v. ev_pre (scripts_of v)) chain)"

definition chain_tests :: "jsval list \<Rightarrow> jsstr list" where
  "chain_tests chain = concat (map (\<lambda>v. ev_tests (scripts_of v)) (rev chain))"

definition chain_name :: "jsval list \<Rightarrow> jsstr" where
  "chain_name chain = join (js '' / '') (map item_name chain)"

definition chain_auth :: "jsval \<Rightarrow> jsval list \<Rightarrow> jsval" where
  "chain_auth coll chain =
     foldl (\<lambda>auth v. if inherits (fld v ''auth'') then auth else fld v ''auth'') (fld coll ''auth'') chain"

definition chain_request_auth :: "jsval \<Rightarrow> jsval list \<Rightarrow> jsval" where
  "chain_request_auth coll chain =
     (let auth = fld (fld (last chain) ''request'') ''auth'' in
      if inherits auth \<or> auth = JNull then chain_auth coll (butlast chain) else auth)"

definition step_of_chain :: "jsval \<Rightarrow> jsval list \<Rightarrow> step_definition \<Rightarrow> bool" where
  "step_of_chain coll chain s \<longleftrightarrow>
     st_name s = chain_name chain \<and>
     st_enabled s = (fld (last chain) ''disabled'' \<noteq> JBool True) \<and>
     rq_pre_script (st_request s) = scriptDefinition (join [10, 10] (chain_pre (coll # chain))) \<and>
     rq_test_script (st_request s) = scriptDefinition (join [10, 10] (chain_tests (coll # chain))) \<and>
     mapped_auth (chain_request_auth coll chain) (rq_auth (st_request s))"

definition chain_context :: "jsval \<Rightarrow> jsval list \<Rightarrow> postman_context" where
  "chain_context coll up =
     \<lparr>cx_path = map item_name up, cx_auth = chain_auth coll up,
      cx_pre = chain_pre (coll # up), cx_tests = chain_tests (coll # up)\<rparr>"

lemma add_events_nonempty:
  "[] \<notin> set (ev_pre r) \<Longrightarrow> [] \<notin> set (ev_tests r) \<Longrightarrow>
    okR (\<lambda>r. [] \<notin> set (ev_pre r) \<and> [] \<notin> set (ev_tests r)) (add_events es r)"
proof (induction es r rule: add_events.induct)
  case (1 r)
  then show ?case by (simp add: okR_ret)
next
  case (2 e es r)
  have "okR (\<lambda>r. [] \<notin> set (ev_pre r) \<and> [] \<notin> set (ev_tests r)) (add_event e r)"
    unfolding add_event_def using "2.prems" by (auto intro!: okR_bind_any okR_ret)
  then show ?case using "2.IH" by (auto intro: okR_bind)
qed

lemma scripts_of_nonempty: "[] \<notin> set (ev_pre (scripts_of v))" "[] \<notin> set (ev_tests (scripts_of v))"
proof -
  have "okR (\<lambda>r. [] \<notin> set (ev_pre r) \<and> [] \<notin> set (ev_tests r)) (eventScripts w)" for w
    unfolding eventScripts_def by (auto split: jsval.split intro!: okR_ret okR_fail add_events_nonempty)
  from this [of "fld v ''event''"] show "[] \<notin> set (ev_pre (scripts_of v))" "[] \<notin> set (ev_tests (scripts_of v))"
    by (auto simp: scripts_of_def okR_def split: sum.splits)
qed

lemma chain_scripts_nonempty: "filter (\<lambda>s. s \<noteq> []) (chain_pre c) = chain_pre c"
  "filter (\<lambda>s. s \<noteq> []) (chain_tests c) = chain_tests c"
  using scripts_of_nonempty by (auto simp: chain_pre_def chain_tests_def filter_id_conv)

lemma chain_pre_snoc: "chain_pre (up @ [v]) = chain_pre up @ ev_pre (scripts_of v)"
  by (simp add: chain_pre_def)

lemma chain_tests_snoc: "chain_tests (up @ [v]) = ev_tests (scripts_of v) @ chain_tests up"
  by (simp add: chain_tests_def)

lemma folder_chain_context:
  "folder_context v (item_name v) (scripts_of v) (chain_context coll up) = chain_context coll (up @ [v])"
  using chain_pre_snoc [of "coll # up" v] chain_tests_snoc [of "coll # up" v]
  by (simp add: folder_context_def chain_context_def chain_auth_def)

lemma trimmed_or_name:
  "trimmed_or (fld v ''name'') (js ''Untitled request'') = Inr (name, ws) \<Longrightarrow> name = item_name v"
  by (auto simp: trimmed_or_def item_name_def split: jsval.splits)

lemma eventScripts_scripts_of: "eventScripts (fld v ''event'') = Inr (ev, ws) \<Longrightarrow> ev = scripts_of v"
  by (simp add: scripts_of_def)

definition step_id :: "nat \<Rightarrow> jsstr" where
  "step_id i = js ''step-import-'' @ dec (i + 1)"

lemma makeHTTPDefinitionStep_simps [simp]:
  "st_id (makeHTTPDefinitionStep i name verb) = step_id i"
  "st_name (makeHTTPDefinitionStep i name verb) = name"
  "rq_method (st_request (makeHTTPDefinitionStep i name verb)) = to_upper verb"
  by (simp_all add: makeHTTPDefinitionStep_def step_id_def Let_def)

definition good_step :: "jsval \<Rightarrow> nat \<Rightarrow> jsval list \<Rightarrow> step_definition \<Rightarrow> bool" where
  "good_step coll i chain s \<longleftrightarrow>
     step_of_chain coll chain s \<and> st_id s = step_id i \<and>
     postman_masked [] (fld (last chain) ''request'') (chain_request_auth coll chain) s"

lemma visit_request_spec:
  assumes "visit_request item (item_name item) (scripts_of item) (chain_context coll up) st = Inr (st', ws)"
  shows "if truthy (fld item ''request'')
         then \<exists>s. vs_steps st' = vs_steps st @ [s] \<and> length (vs_steps st) < max_steps \<and>
                good_step coll (length (vs_steps st)) (up @ [item]) s
         else st' = st"
proof (cases "truthy (fld item ''request'')")
  case False
  with assms show ?thesis by (simp add: visit_request_def Let_def warnR_def bindR_def retR_def)
next
  case True
  let ?req = "fld item ''request''"
  let ?loc = "join (js '' / '') (cx_path (chain_context coll up) @ [item_name item])"
  let ?pre = "filter (\<lambda>s. s \<noteq> []) (cx_pre (chain_context coll up) @ ev_pre (scripts_of item))"
  let ?tests = "filter (\<lambda>s. s \<noteq> []) (ev_tests (scripts_of item) @ cx_tests (chain_context coll up))"
  from True assms have small: "length (vs_steps st) < max_steps"
    by (auto simp: visit_request_def Let_def split: if_splits)
  with True assms obtain verb s w where
    s: "mapPostmanRequest ((makeHTTPDefinitionStep (length (vs_steps st)) ?loc verb)
          \<lparr>st_enabled := (fld item ''disabled'' \<noteq> JBool True)\<rparr>) ?req
          (request_auth ?req (chain_context coll up)) ?pre ?tests ?loc = Inr (s, w)"
    and st': "st' = st\<lparr>vs_steps := vs_steps st @ [s]\<rparr>"
    by (auto simp: visit_request_def Let_def bindR_Inr)
  from okR_D [OF mapPostmanRequest_ok s] have shape:
    "request_shape ((makeHTTPDefinitionStep (length (vs_steps st)) ?loc verb)
        \<lparr>st_enabled := (fld item ''disabled'' \<noteq> JBool True)\<rparr>)
      (request_auth ?req (chain_context coll up)) ?pre ?tests s" and
    masked: "postman_masked [] ?req (request_auth ?req (chain_context coll up)) s" by simp_all
  have "?pre = chain_pre (coll # up @ [item])" "?tests = chain_tests (coll # up @ [item])"
    using chain_pre_snoc [of "coll # up" item] chain_tests_snoc [of "coll # up" item]
      chain_scripts_nonempty [of "coll # up @ [item]"]
    by (simp_all add: chain_context_def)
  moreover have "request_auth ?req (chain_context coll up) = chain_request_auth coll (up @ [item])"
    by (simp add: request_auth_def chain_request_auth_def chain_context_def Let_def)
  moreover have "?loc = chain_name (up @ [item])" by (simp add: chain_name_def chain_context_def)
  ultimately have "good_step coll (length (vs_steps st)) (up @ [item]) s"
    using shape masked by (simp add: request_shape_def good_step_def step_of_chain_def)
  with True small st' show ?thesis by auto
qed

definition good_steps :: "jsval \<Rightarrow> nat \<Rightarrow> jsval list list \<Rightarrow> step_definition list \<Rightarrow> bool" where
  "good_steps coll n cs new \<longleftrightarrow>
     length new = length cs \<and> (\<forall>i<length new. good_step coll (n + i) (cs ! i) (new ! i))"

lemma good_steps_append:
  assumes "good_steps coll n xs as" and "good_steps coll (n + length as) ys bs"
  shows "good_steps coll n (xs @ ys) (as @ bs)"
proof -
  have "good_step coll (n + i) ((xs @ ys) ! i) ((as @ bs) ! i)" if "i < length as + length bs" for i
  proof (cases "i < length as")
    case True
    with assms show ?thesis by (simp add: good_steps_def nth_append)
  next
    case False
    define j where "j = i - length as"
    with False that have j: "i = length as + j" "j < length bs" by simp_all
    with assms(2) have "good_step coll (n + length as + j) (ys ! j) (bs ! j)"
      unfolding good_steps_def by blast
    with j assms(1) show ?thesis by (simp add: good_steps_def nth_append add.assoc)
  qed
  with assms show ?thesis by (simp add: good_steps_def)
qed

lemma good_steps_Nil [simp]: "good_steps coll n [] []"
  by (simp add: good_steps_def)

lemma visit_spec:
  "visit items (chain_context coll up) st = Inr (st', ws) \<Longrightarrow>
    \<exists>new. vs_steps st' = vs_steps st @ new \<and>
      good_steps coll (length (vs_steps st)) (request_chains up items) new \<and>
      (length (vs_steps st) \<le> max_steps \<longrightarrow> length (vs_steps st') \<le> max_steps)"
proof (induction items "chain_context coll up" st arbitrary: up st' ws rule: visit.induct)
  case (1 st)
  then show ?case by simp
next
  case (2 item rest st)
  from "2.prems" obtain n w1 name w2 ev w3 st2 w4 w5 where
    n: "getR item ''name'' = Inr (n, w1)" and
    name: "trimmed_or n (js ''Untitled request'') = Inr (name, w2)" and
    ev: "eventScripts (fld item ''event'') = Inr (ev, w3)" and
    st2: "(case fld item ''item'' of
              JArr xs \<Rightarrow> visit xs (folder_context item name ev (chain_context coll up))
                (st\<lparr>vs_scripts := vs_scripts st + ev_count ev,
                   vs_folders := vs_folders (st\<lparr>vs_scripts := vs_scripts st + ev_count ev\<rparr>) + 1\<rparr>)
            | _ \<Rightarrow> visit_request item name ev (chain_context coll up)
                (st\<lparr>vs_scripts := vs_scripts st + ev_count ev\<rparr>)) = Inr (st2, w4)" and
    rest: "visit rest (chain_context coll up) st2 = Inr (st', w5)"
    unfolding visit.simps bindR_Inr Let_def by blast
  from n have "n = fld item ''name''" by (simp add: getR_def split: if_splits)
  with name have name_eq: "name = item_name item" by (simp add: trimmed_or_name)
  from ev have ev_eq: "ev = scripts_of item" by (rule eventScripts_scripts_of)
  have here: "\<exists>new. vs_steps st2 = vs_steps st @ new \<and>
      good_steps coll (length (vs_steps st))
        (case fld item ''item'' of JArr xs \<Rightarrow> request_chains (up @ [item]) xs
         | _ \<Rightarrow> if truthy (fld item ''request'') then [up @ [item]] else []) new \<and>
      (length (vs_steps st) \<le> max_steps \<longrightarrow> length (vs_steps st2) \<le> max_steps)"
  proof (cases "\<exists>xs. fld item ''item'' = JArr xs")
    case True
    then obtain xs where xs: "fld item ''item'' = JArr xs" ..
    have cx: "folder_context item name ev (chain_context coll up) = chain_context coll (up @ [item])"
      unfolding name_eq ev_eq by (rule folder_chain_context)
    from st2 xs cx have "visit xs (chain_context coll (up @ [item]))
        (st\<lparr>vs_scripts := vs_scripts st + ev_count ev,
           vs_folders := vs_folders (st\<lparr>vs_scripts := vs_scripts st + ev_count ev\<rparr>) + 1\<rparr>) = Inr (st2, w4)"
      by simp
    from "2.hyps"(1) [OF refl xs cx this] xs show ?thesis by simp
  next
    case False
    then have "visit_request item name ev (chain_context coll up)
        (st\<lparr>vs_scripts := vs_scripts st + ev_count ev\<rparr>) = Inr (st2, w4)"
      using st2 by (cases "fld item ''item''") auto
    from visit_request_spec [OF this [unfolded name_eq ev_eq]] False show ?thesis
      by (cases "fld item ''item''") (auto simp: good_steps_def split: if_splits)
  qed
  from here obtain new where new: "vs_steps st2 = vs_steps st @ new" and
    good: "good_steps coll (length (vs_steps st))
        (case fld item ''item'' of JArr xs \<Rightarrow> request_chains (up @ [item]) xs
         | _ \<Rightarrow> if truthy (fld item ''request'') then [up @ [item]] else []) new" and
    small: "length (vs_steps st) \<le> max_steps \<longrightarrow> length (vs_steps st2) \<le> max_steps" by blast
  from "2.hyps"(2) [OF refl refl rest] obtain more where
    more: "vs_steps st' = vs_steps st2 @ more"
      "good_steps coll (length (vs_steps st2)) (request_chains up rest) more"
      "length (vs_steps st2) \<le> max_steps \<longrightarrow> length (vs_steps st') \<le> max_steps" by blast
  from new more(1) have "vs_steps st' = vs_steps st @ new @ more" by simp
  moreover have "good_steps coll (length (vs_steps st)) (request_chains up (item # rest)) (new @ more)"
    unfolding request_chains.simps(2)
    by (rule good_steps_append [OF good]) (use new more(2) in simp)
  ultimately show ?case using small more(3) by blast
qed

section \<open>Variables and references\<close>

definition variables_of :: "jsval \<Rightarrow> jsval list" where
  "variables_of coll = (case fld coll ''variable'' of JArr vs \<Rightarrow> vs | _ \<Rightarrow> [])"

text \<open>The variables whose values are left out: those with a sensitive name or the type \<open>secret\<close>.\<close>

definition secret_names :: "jsval list \<Rightarrow> jsstr set" where
  "secret_names vs = {k. \<exists>v\<in>set vs. fld v ''key'' = JStr k \<and> isSensitive k (fld v ''type'')}"

definition variables_inv :: "jsval list \<Rightarrow> variable_state \<Rightarrow> bool" where
  "variables_inv vs st \<longleftrightarrow>
     (\<forall>k. JStr k \<in> set (va_sensitive st) \<longrightarrow> k \<in> secret_names vs) \<and>
     (\<forall>(k, t)\<in>set (va_safe st). \<not> sensitive k)"

lemma set_obj_set: "(k', t') \<in> set (obj_set k t ps) \<Longrightarrow> (k', t') = (k, t) \<or> (k', t') \<in> set ps"
proof -
  have ins: "set (obj_insert_index n k t ps) = insert (k, t) (set ps)" for n and ps :: "(jsstr \<times> 'a) list"
    by (induction n k t ps rule: obj_insert_index.induct) (auto split: option.splits)
  have rep: "set (obj_replace k t ps) \<subseteq> insert (k, t) (set ps)" for ps :: "(jsstr \<times> 'a) list"
    by (induction k t ps rule: obj_replace.induct) auto
  assume "(k', t') \<in> set (obj_set k t ps)"
  with rep [of ps] ins show ?thesis by (auto simp: obj_set_def split: if_splits option.splits)
qed

lemma collect_variable_inv:
  assumes "variables_inv vs st" and "v \<in> set vs"
  shows "okR (variables_inv vs) (collect_variable v st)"
proof -
  have name: "okR (\<lambda>n. to_string (fld v ''key'') = Inr n) (liftR (to_string (fld v ''key'')))"
    by (rule liftR_ok)
  have secret: "variables_inv vs (st\<lparr>va_sensitive := add_key (fld v ''key'') (va_sensitive st)\<rparr>)"
    if n: "isSensitive n (fld v ''type'')" "to_string (fld v ''key'') = Inr n" for n
  proof -
    have "k \<in> secret_names vs" if "fld v ''key'' = JStr k" for k
      using that n assms(2) by (auto simp: secret_names_def)
    then show ?thesis using assms(1) by (auto simp: variables_inv_def add_key_def)
  qed
  have safe: "variables_inv vs (st\<lparr>va_safe := obj_set n t (va_safe st)\<rparr>)"
    if "\<not> isSensitive n (fld v ''type'')" for n t
    using that assms(1) set_obj_set by (fastforce simp: variables_inv_def isSensitive_def)
  show ?thesis
    unfolding collect_variable_def Let_def
    by (rule okR_bind_any, rule okR_bind [OF name]) (auto intro!: okR_bind_any okR_ret secret safe assms(1))
qed

lemma collect_variables_inv:
  "variables_inv us st \<Longrightarrow> set vs \<subseteq> set us \<Longrightarrow> okR (variables_inv us) (collect_variables vs st)"
proof (induction vs st rule: collect_variables.induct)
  case (1 st)
  then show ?case by (simp add: okR_ret)
next
  case (2 v vs st)
  have "okR (variables_inv us) (collect_variable v st)"
    by (rule collect_variable_inv) (use "2.prems" in auto)
  then show ?case using "2.IH" "2.prems" by (auto intro!: okR_bind)
qed

lemma filterR_subset: "okR (\<lambda>ys. set ys \<subseteq> set xs) (filterR f xs)"
proof (induction xs)
  case Nil
  then show ?case by (simp add: okR_ret)
next
  case (Cons x xs)
  show ?case by (auto intro!: okR_bind_any okR_bind [OF Cons] okR_ret split: if_splits)
qed

lemma collection_variables_subset: "okR (\<lambda>vs. set vs \<subseteq> set (variables_of coll)) (collection_variables coll)"
proof (cases "nullish (fld coll ''variable'')")
  case True
  then show ?thesis by (simp add: collection_variables_def coalesce_def okR_ret)
next
  case False
  then show ?thesis
    by (auto simp: collection_variables_def variables_of_def filterR_subset okR_fail split: jsval.split)
qed

lemma walk_collection_spec:
  assumes "walk_collection coll items = Inr ((va, n, st), ws)"
  shows "variables_inv (variables_of coll) va \<and>
    good_steps coll 0 (request_chains [] items) (vs_steps st) \<and>
    vs_steps st \<noteq> [] \<and> length (vs_steps st) \<le> max_steps"
proof -
  from assms obtain vs w1 w2 ev w3 w4 where
    vs: "collection_variables coll = Inr (vs, w1)" and
    va: "collect_variables vs \<lparr>va_sensitive = [], va_safe = []\<rparr> = Inr (va, w2)" and
    ev: "eventScripts (fld coll ''event'') = Inr (ev, w3)" and
    st: "visit items (root_context coll ev)
           \<lparr>vs_steps = [], vs_folders = 0, vs_scripts = ev_count ev\<rparr> = Inr (st, w4)" and
    ne: "vs_steps st \<noteq> []"
    unfolding walk_collection_def by (auto simp: bindR_Inr split: if_splits)
  from okR_D [OF collection_variables_subset vs] have "set vs \<subseteq> set (variables_of coll)" .
  then have "okR (variables_inv (variables_of coll)) (collect_variables vs \<lparr>va_sensitive = [], va_safe = []\<rparr>)"
    by (intro collect_variables_inv) (simp add: variables_inv_def)
  from okR_D [OF this va] have "variables_inv (variables_of coll) va" .
  moreover have "root_context coll ev = chain_context coll []"
    using eventScripts_scripts_of [OF ev]
    by (simp add: root_context_def chain_context_def chain_auth_def chain_pre_def chain_tests_def)
  with visit_spec [of items coll "[]"] st obtain new where "vs_steps st = new"
    "good_steps coll 0 (request_chains [] items) new" "length (vs_steps st) \<le> max_steps"
    by fastforce
  ultimately show ?thesis using ne by simp
qed

definition kept :: "step_definition \<Rightarrow> step_definition \<Rightarrow> bool" where
  \<comment> \<open>what the replacement of references leaves alone\<close>
  "kept s t \<longleftrightarrow>
     st_id t = st_id s \<and> st_name t = st_name s \<and> st_enabled t = st_enabled s \<and>
     rq_pre_script (st_request t) = rq_pre_script (st_request s) \<and>
     rq_test_script (st_request t) = rq_test_script (st_request s)"

definition ordered_fields :: "step_definition \<Rightarrow> bool" where
  "ordered_fields s \<longleftrightarrow> ordered (au_fields (rq_auth (st_request s)))"

lemma map_fields_kept:
  "ordered ps \<Longrightarrow> from_entries (map (\<lambda>(k, v). (k, f v)) ps) = map (\<lambda>(k, v). (k, f v)) ps"
  by (rule ordered_from_entries) (simp add: ordered_def comp_def case_prod_unfold)

lemma auth_fields_ordered:
  "ordered [(js ''username'', u), (js ''password'', p)]" "ordered [(js ''token'', t)]"
  "ordered [(js ''name'', n), (js ''value'', v), (js ''location'', l)]" "ordered []"
proof -
  have "sorted_wrt key_before [js ''username'', js ''password'']"
    "sorted_wrt key_before [js ''name'', js ''value'', js ''location'']"
    by code_simp+
  then show "ordered [(js ''username'', u), (js ''password'', p)]" "ordered [(js ''token'', t)]"
    "ordered [(js ''name'', n), (js ''value'', v), (js ''location'', l)]" "ordered []"
    by (simp_all only: ordered_def list.map fst_conv) simp_all
qed

lemma mapPostmanAuth_ordered: "okR (\<lambda>au. ordered (au_fields au)) (mapPostmanAuth auth location)"
  unfolding mapPostmanAuth_def Let_def no_auth_def
  by (intro okR_bind_any okR_if okR_ret; simp only: auth_definition.simps auth_fields_ordered)

lemma mapped_auth_ordered: "mapped_auth auth au \<Longrightarrow> ordered (au_fields au)"
  using okR_D [OF mapPostmanAuth_ordered] by (auto simp: mapped_auth_def)

lemma replaceSensitive_kept: "replaceSensitivePostmanReferences ks s = Inr (t, ws) \<Longrightarrow> kept s t"
  by (auto simp: replaceSensitivePostmanReferences_def kept_def Let_def split: if_splits)

definition key_names :: "jsval list \<Rightarrow> jsstr list" where
  "key_names keys = map (\<lambda>k. case k of JStr s \<Rightarrow> s | _ \<Rightarrow> []) keys"

lemma replaceSensitive_masked:
  assumes t: "replaceSensitivePostmanReferences keys s = Inr (t, ws)"
    and s: "postman_masked [] request auth s" "ordered_fields s"
  shows "postman_masked (key_names keys) request auth t"
proof (cases "keys = []")
  case True
  with t s show ?thesis by (simp add: replaceSensitivePostmanReferences_def key_names_def)
next
  case False
  let ?rep = "replace_references (key_names keys)"
  from t False have "t = s\<lparr>st_request := (st_request s)\<lparr>
      rq_url := ?rep (rq_url (st_request s)),
      rq_params := map (\<lambda>r. r\<lparr>kv_value := ?rep (kv_value r)\<rparr>) (rq_params (st_request s)),
      rq_headers := map (\<lambda>r. r\<lparr>kv_value := ?rep (kv_value r)\<rparr>) (rq_headers (st_request s)),
      rq_cookies := map (\<lambda>r. r\<lparr>kv_value := ?rep (kv_value r)\<rparr>) (rq_cookies (st_request s)),
      rq_body := (rq_body (st_request s))\<lparr>bo_content := ?rep (bo_content (rq_body (st_request s)))\<rparr>,
      rq_auth := (rq_auth (st_request s))\<lparr>au_fields :=
        from_entries (map (\<lambda>(k, v). (k, ?rep v)) (au_fields (rq_auth (st_request s))))\<rparr>\<rparr>\<rparr>"
    by (simp add: replaceSensitivePostmanReferences_def Let_def key_names_def split: if_splits)
  then have fields:
    "map (\<lambda>r. (kv_key r, kv_value r)) (rq_params (st_request t)) =
       map (\<lambda>(k, v). (k, ?rep v)) (map (\<lambda>r. (kv_key r, kv_value r)) (rq_params (st_request s)))"
    "map (\<lambda>r. (kv_key r, kv_value r)) (rq_headers (st_request t)) =
       map (\<lambda>(k, v). (k, ?rep v)) (map (\<lambda>r. (kv_key r, kv_value r)) (rq_headers (st_request s)))"
    "rq_cookies (st_request t) = map (\<lambda>r. r\<lparr>kv_value := ?rep (kv_value r)\<rparr>) (rq_cookies (st_request s))"
    "au_fields (rq_auth (st_request t)) = map (\<lambda>(k, v). (k, ?rep v)) (au_fields (rq_auth (st_request s)))"
    using map_fields_kept [OF s(2) [unfolded ordered_fields_def]] by simp_all
  from s(1) obtain params headers au where given:
    "\<exists>address query w. postmanURL (fld request ''url'') = Inr ((address, query), w) \<and> list_all2 masked_row query params"
    "\<forall>h\<in>set headers. \<exists>g\<in>set (given_headers request). header_masked g h" "auth_masked auth au" and
    rows: "map (\<lambda>r. (kv_key r, kv_value r)) (rq_params (st_request s)) = map (\<lambda>r. (kv_key r, kv_value r)) params"
      "map (\<lambda>r. (kv_key r, kv_value r)) (rq_headers (st_request s)) = map (\<lambda>r. (kv_key r, kv_value r)) headers"
      "\<forall>c\<in>set (rq_cookies (st_request s)). kv_value c = secretPlaceholder (kv_key c)"
      "au_fields (rq_auth (st_request s)) = au_fields au"
    unfolding postman_masked_def by (auto simp: case_prod_unfold)
  have pairs: "map (\<lambda>(k, v). (k, ?rep v)) (map (\<lambda>r. (kv_key r, kv_value r)) rs) =
      map (\<lambda>r. (kv_key r, ?rep (kv_value r))) rs" for rs :: "key_value_row list"
    by simp
  show ?thesis
    unfolding postman_masked_def fields rows(1,2,4) pairs
    by (intro exI [of _ params] exI [of _ headers] exI [of _ au] conjI given refl) (use rows(3) in auto)
qed



section \<open>The whole import\<close>

lemma mapR_list_all2: "mapR f xs = Inr (ys, ws) \<Longrightarrow> list_all2 (\<lambda>x y. \<exists>w. f x = Inr (y, w)) xs ys"
  by (induction xs arbitrary: ys ws) (auto simp: bindR_Inr)

lemma parsePostman_parts:
  assumes "parsePostmanCollection source = Inr d"
  obtains coll items va n st steps w1 w2 w3 where
    "json_parse source = Some coll" "fld coll ''item'' = JArr items" "truthy (fld coll ''info'')"
    "walk_collection coll items = Inr ((va, n, st), w2)"
    "finish_steps va (vs_steps st) = Inr (steps, w3)"
    "rd_steps (dr_definition d) = steps"
    "dr_summary d = \<lparr>sm_requests = length steps, sm_folders = vs_folders st,
       sm_scripts = vs_scripts st, sm_variables = n\<rparr>"
proof -
  from assms obtain coll items va n st steps w1 w2 w3 where
    read: "read_collection source = Inr ((coll, items), w1)" and
    rest: "walk_collection coll items = Inr ((va, n, st), w2)"
      "finish_steps va (vs_steps st) = Inr (steps, w3)" and
    d: "rd_steps (dr_definition d) = steps"
      "dr_summary d = \<lparr>sm_requests = length steps, sm_folders = vs_folders st,
       sm_scripts = vs_scripts st, sm_variables = n\<rparr>"
    unfolding parsePostmanCollection_def map_sum_Inr
    by (auto simp: bindR_Inr split: prod.splits)
  from read have "json_parse source = Some coll" "fld coll ''item'' = JArr items" "truthy (fld coll ''info'')"
    unfolding read_collection_def
    by (auto simp: bindR_Inr getR_def split: option.splits if_splits jsval.splits bool.splits)
  with rest d that show ?thesis by blast
qed

definition draft_steps :: "imported_draft \<Rightarrow> step_definition list" where
  "draft_steps d = rd_steps (dr_definition d)"

text \<open>The first step's pre-request script, once the definitions of the variables precede it.\<close>

definition pre_script :: "jsstr \<Rightarrow> jsval \<Rightarrow> nat \<Rightarrow> jsval list \<Rightarrow> script_definition" where
  "pre_script preamble coll i chain =
     (let code = join [10, 10] (chain_pre (coll # chain)) in
      scriptDefinition (if i = 0 \<and> preamble \<noteq> []
                        then join [10, 10] (filter (\<lambda>s. s \<noteq> []) [preamble, code]) else code))"

lemma add_setup_nth:
  "i < length steps \<Longrightarrow> add_setup preamble steps ! i =
     (if i = 0 \<and> preamble \<noteq> []
      then (steps ! i)\<lparr>st_request := (st_request (steps ! i))\<lparr>rq_pre_script := scriptDefinition
             (join [10, 10] (filter (\<lambda>s. s \<noteq> []) [preamble, sc_code (rq_pre_script (st_request (steps ! i)))]))\<rparr>\<rparr>
      else steps ! i)"
  by (cases steps) (simp_all add: add_setup_def Let_def nth_Cons')

lemma sc_code_scriptDefinition [simp]: "sc_code (scriptDefinition c) = c"
  by (simp add: scriptDefinition_def)

lemma finish_steps_nth:
  assumes fin: "finish_steps va steps = Inr (out, ws)"
    and good: "good_steps coll 0 cs steps"
  shows "length out = length cs \<and>
    (\<forall>i<length out. st_id (out ! i) = step_id i \<and> st_name (out ! i) = chain_name (cs ! i) \<and>
       st_enabled (out ! i) = (fld (last (cs ! i)) ''disabled'' \<noteq> JBool True) \<and>
       rq_test_script (st_request (out ! i)) = scriptDefinition (join [10, 10] (chain_tests (coll # cs ! i))) \<and>
       rq_pre_script (st_request (out ! i)) = pre_script (buildCollectionVariableSetup (va_safe va)) coll i (cs ! i) \<and>
       postman_masked (key_names (va_sensitive va)) (fld (last (cs ! i)) ''request'')
         (chain_request_auth coll (cs ! i)) (out ! i))"
proof -
  let ?preamble = "buildCollectionVariableSetup (va_safe va)"
  from fin have rel: "list_all2 (\<lambda>x y. \<exists>w. replaceSensitivePostmanReferences (va_sensitive va) x = Inr (y, w))
      (add_setup ?preamble steps) out"
    unfolding finish_steps_def by (rule mapR_list_all2)
  have len: "length (add_setup ?preamble steps) = length steps"
    by (simp add: add_setup_def Let_def split: list.split)
  with rel good have length: "length out = length cs" "length out = length steps"
    by (simp_all add: good_steps_def list_all2_lengthD [symmetric])
  have step: "st_id t = step_id i \<and> st_name t = chain_name (cs ! i) \<and>
       st_enabled t = (fld (last (cs ! i)) ''disabled'' \<noteq> JBool True) \<and>
       rq_test_script (st_request t) = scriptDefinition (join [10, 10] (chain_tests (coll # cs ! i))) \<and>
       rq_pre_script (st_request t) = pre_script ?preamble coll i (cs ! i) \<and> ordered_fields t \<and>
       postman_masked [] (fld (last (cs ! i)) ''request'') (chain_request_auth coll (cs ! i)) t"
    if "i < length steps" "t = add_setup ?preamble steps ! i" for i t
  proof -
    from good that(1) length have g: "good_step coll i (cs ! i) (steps ! i)"
      by (simp add: good_steps_def)
    then have keys: "ordered_fields (steps ! i)"
      using mapped_auth_ordered by (auto simp: good_step_def step_of_chain_def ordered_fields_def)
    from g have p: "rq_pre_script (st_request (steps ! i))
        = scriptDefinition (join [10, 10] (chain_pre (coll # cs ! i)))"
      by (simp add: good_step_def step_of_chain_def)
    from p have code: "sc_code (rq_pre_script (st_request (steps ! i))) = join [10, 10] (chain_pre (coll # cs ! i))"
      by simp
    have "rq_pre_script (st_request t) = pre_script ?preamble coll i (cs ! i)"
      unfolding that(2) add_setup_nth [OF that(1)] pre_script_def Let_def code
      by (rule if_split [where P = "\<lambda>x. rq_pre_script (st_request x) = _", THEN iffD2]) (simp add: p)
    moreover
    have "st_id t = st_id (steps ! i)" "st_name t = st_name (steps ! i)"
      "st_enabled t = st_enabled (steps ! i)"
      "rq_test_script (st_request t) = rq_test_script (st_request (steps ! i))"
      "ordered_fields t \<longleftrightarrow> ordered_fields (steps ! i)"
      "postman_masked ks request auth t \<longleftrightarrow> postman_masked ks request auth (steps ! i)" for ks request auth
      unfolding that(2) add_setup_nth [OF that(1)]
      by (cases "i = 0 \<and> ?preamble \<noteq> []"; simp add: postman_masked_def ordered_fields_def)+
    ultimately show ?thesis
      using g keys by (simp add: good_step_def step_of_chain_def)
  qed
  show ?thesis
  proof (intro conjI allI impI)
    fix i assume i: "i < length out"
    from list_all2_nthD2 [OF rel i] obtain w where
      w: "replaceSensitivePostmanReferences (va_sensitive va) (add_setup ?preamble steps ! i) = Inr (out ! i, w)"
      by blast
    note kept = replaceSensitive_kept [OF w, unfolded kept_def]
    note here = step [OF _ refl, of i]
    show "st_id (out ! i) = step_id i" "st_name (out ! i) = chain_name (cs ! i)"
      "st_enabled (out ! i) = (fld (last (cs ! i)) ''disabled'' \<noteq> JBool True)"
      "rq_test_script (st_request (out ! i)) = scriptDefinition (join [10, 10] (chain_tests (coll # cs ! i)))"
      "rq_pre_script (st_request (out ! i)) = pre_script ?preamble coll i (cs ! i)"
      using kept here i length by simp_all
    show "postman_masked (key_names (va_sensitive va)) (fld (last (cs ! i)) ''request'')
        (chain_request_auth coll (cs ! i)) (out ! i)"
      using replaceSensitive_masked [OF w] here i length by simp
  qed (rule length(1))
qed


text \<open>C3: an import returns between one and fifty requests, the summary counts them, and their ids
  are numbered from one in order, so no two are equal.\<close>

theorem postman_requests:
  assumes "parsePostmanCollection source = Inr d"
  shows "sm_requests (dr_summary d) = length (draft_steps d) \<and>
    1 \<le> length (draft_steps d) \<and> length (draft_steps d) \<le> 50 \<and>
    map st_id (draft_steps d) = map step_id [0..<length (draft_steps d)] \<and>
    distinct (map st_id (draft_steps d))"
proof -
  obtain coll items va n st steps w2 w3 where
    walk: "walk_collection coll items = Inr ((va, n, st), w2)" and
    fin: "finish_steps va (vs_steps st) = Inr (steps, w3)" and
    d: "rd_steps (dr_definition d) = steps"
      "dr_summary d = \<lparr>sm_requests = length steps, sm_folders = vs_folders st,
         sm_scripts = vs_scripts st, sm_variables = n\<rparr>"
    by (rule parsePostman_parts [OF assms])
  note spec = walk_collection_spec [OF walk]
  from spec have good: "good_steps coll 0 (request_chains [] items) (vs_steps st)" by simp
  note out = finish_steps_nth [OF fin good]
  have ids: "map st_id steps = map step_id [0..<length steps]"
    using out by (intro nth_equalityI) auto
  have "inj step_id" by (auto simp: inj_def step_id_def)
  then have "distinct (map st_id steps)"
    unfolding ids by (simp add: distinct_map inj_on_def inj_def)
  moreover have "length steps = length (vs_steps st)" using out good by (simp add: good_steps_def)
  ultimately show ?thesis using d ids spec by (auto simp: draft_steps_def max_steps_def Suc_le_eq)
qed

text \<open>C1: the import is the reference reading of the collection: its steps are the collection's
  requests in order, each named by the path to it, enabled unless it is disabled, running the
  pre-request scripts of the collection and of its folders from the outside in (after the preamble of
  the variables, in the first step) and their tests from the inside out.\<close>

theorem postman_refines_chains:
  assumes "parsePostmanCollection source = Inr d"
  shows "\<exists>coll items preamble.
    json_parse source = Some coll \<and> fld coll ''item'' = JArr items \<and>
    length (draft_steps d) = length (request_chains [] items) \<and>
    (\<forall>i<length (draft_steps d).
       let s = draft_steps d ! i; chain = request_chains [] items ! i in
       st_name s = chain_name chain \<and>
       st_enabled s = (fld (last chain) ''disabled'' \<noteq> JBool True) \<and>
       rq_pre_script (st_request s) = pre_script preamble coll i chain \<and>
       rq_test_script (st_request s) = scriptDefinition (join [10, 10] (chain_tests (coll # chain))))"
proof -
  obtain coll items va n st steps w2 w3 where
    parsed: "json_parse source = Some coll" "fld coll ''item'' = JArr items" and
    walk: "walk_collection coll items = Inr ((va, n, st), w2)" and
    fin: "finish_steps va (vs_steps st) = Inr (steps, w3)" and
    d: "rd_steps (dr_definition d) = steps"
    by (rule parsePostman_parts [OF assms])
  from walk_collection_spec [OF walk] have "good_steps coll 0 (request_chains [] items) (vs_steps st)" by simp
  from finish_steps_nth [OF fin this] parsed d show ?thesis
    unfolding draft_steps_def Let_def
    by (intro exI [of _ coll] exI [of _ items] exI [of _ "buildCollectionVariableSetup (va_safe va)"]) auto
qed


text \<open>the variables written into the preamble script never have a sensitive name or the type
  \<open>secret\<close>: their values are left out of the imported definition.\<close>

theorem postman_setup_open:
  assumes "walk_collection coll items = Inr ((va, n, st), ws)" and "(k, t) \<in> set (va_safe va)"
  shows "\<not> sensitive k"
  using walk_collection_spec [OF assms(1)] assms(2) by (auto simp: variables_inv_def)

section \<open>A concrete collection\<close>

definition sample_collection :: jsstr where
  "sample_collection = js ''{\"info\":{\"name\":\"S\"},\"variable\":[{\"key\":\"h\",\"value\":\"x\"},{\"key\":\"token\",\"value\":\"t\"}],\"item\":[{\"name\":\"F\",\"item\":[{\"name\":\"R\",\"request\":{\"header\":[{\"key\":\"X-Token\",\"value\":\"abc\"}]}}]}]}''"

definition sample_value :: jsval where
  "sample_value =
     JObj [(js ''info'', JObj [(js ''name'', JStr (js ''S''))]),
       (js ''variable'', JArr [JObj [(js ''key'', JStr (js ''h'')), (js ''value'', JStr (js ''x''))],
                               JObj [(js ''key'', JStr (js ''token'')), (js ''value'', JStr (js ''t''))]]),
       (js ''item'', JArr [JObj [(js ''name'', JStr (js ''F'')), (js ''item'', JArr
          [JObj [(js ''name'', JStr (js ''R'')), (js ''request'', JObj [(js ''header'', JArr
             [JObj [(js ''key'', JStr (js ''X-Token'')), (js ''value'', JStr (js ''abc''))]])])]])]])]"

definition sample_draft :: imported_draft where
  "sample_draft = projr (parsePostmanCollection sample_collection)"

lemma sample_returns: "isl (parsePostmanCollection sample_collection) = False"
  by code_simp

lemma sample_parsed: "parsePostmanCollection sample_collection = Inr sample_draft"
  using sample_returns by (cases "parsePostmanCollection sample_collection") (simp_all add: sample_draft_def)



definition sample_items :: "jsval list" where
  "sample_items = (case fld sample_value ''item'' of JArr xs \<Rightarrow> xs | _ \<Rightarrow> [])"


definition sample_walk :: "(variable_state \<times> nat \<times> visit_state) \<times> import_warning list" where
  "sample_walk = projr (walk_collection sample_value sample_items)"

lemma sample_walk_returns: "isl (walk_collection sample_value sample_items) = False"
  by code_simp

lemma sample_walk_eq:
  "walk_collection sample_value sample_items
     = Inr ((fst (fst sample_walk), fst (snd (fst sample_walk)), snd (snd (fst sample_walk))), snd sample_walk)"
  using sample_walk_returns
  by (cases "walk_collection sample_value sample_items") (simp_all add: sample_walk_def)

lemma sample_safe: "(js ''h'', js ''x'') \<in> set (va_safe (fst (fst sample_walk)))"
  by code_simp

theorem postman_requests_witness:
  "sm_requests (dr_summary sample_draft) = length (draft_steps sample_draft) \<and>
    map st_id (draft_steps sample_draft) = map step_id [0..<length (draft_steps sample_draft)]"
  using postman_requests [OF sample_parsed] by blast

theorem postman_refines_chains_witness:
  "\<exists>items. length (draft_steps sample_draft) = length (request_chains [] items)"
  using postman_refines_chains [OF sample_parsed] by blast


theorem postman_setup_open_witness: "\<not> sensitive (js ''h'')"
  by (rule postman_setup_open [OF sample_walk_eq sample_safe])

end
