(* ===== verification/Import_Curl.thy ===== *)
theory Import_Curl
  imports Import_Common
begin

text \<open>
  The import of a cURL command (\<open>parseCurlCommand\<close> of \<open>features/monitors/monitor-import.ts\<close>): the
  scan of the options, the assembly of the request, and what the imported request guarantees.
\<close>

section \<open>Options\<close>

record curl_state =
  cu_method :: jsstr
  cu_url :: jsstr
  cu_body_type :: jsstr
  cu_username :: jsstr
  cu_password :: jsstr
  cu_follow :: bool
  cu_compression :: bool
  cu_timeout :: jsnum
  cu_retries :: jsnum
  cu_insecure :: bool
  cu_proxy :: jsstr
  cu_headers :: "(jsstr \<times> jsstr) list"
  cu_cookies :: "(jsstr \<times> jsstr) list"
  cu_form :: "jsstr list"
  cu_data :: "jsstr list"

definition curl_start :: curl_state where
  "curl_start =
     \<lparr>cu_method = [], cu_url = [], cu_body_type = js ''none'', cu_username = [], cu_password = [],
      cu_follow = False, cu_compression = True, cu_timeout = nnum 15000, cu_retries = nnum 0,
      cu_insecure = False, cu_proxy = [], cu_headers = [], cu_cookies = [], cu_form = [],
      cu_data = []\<rparr>"

text \<open>\<open>take()\<close>: the inline value, or the next token and the fact that it was used up.\<close>

definition take_value :: "jsstr \<Rightarrow> jsstr option \<Rightarrow> jsstr list \<Rightarrow> (jsstr \<times> bool) import_run" where
  "take_value option_name inline rest =
     (case inline of
        Some v \<Rightarrow> retR (v, False)
      | None \<Rightarrow>
          (case rest of
             [] \<Rightarrow> import_error (option_name @ js '' requires a value.'')
           | v # _ \<Rightarrow>
               if starts_with (js ''-'') v then import_error (option_name @ js '' requires a value.'')
               else retR (v, True)))"

definition curl_warning :: "jsstr \<Rightarrow> jsstr \<Rightarrow> unit import_run" where
  "curl_warning code message = warnR \<lparr>wn_code = code, wn_message = message, wn_location = None\<rparr>"

definition add_header :: "jsstr \<Rightarrow> curl_state \<Rightarrow> curl_state import_run" where
  "add_header header st =
     (case index_of (js '':'') header of
        Some (Suc i) \<Rightarrow>
          retR (st\<lparr>cu_headers := cu_headers st @ [(trim (take (Suc i) header), trim (drop (Suc i + 1) header))]\<rparr>)
      | _ \<Rightarrow>
          bindR (curl_warning (js ''INVALID_HEADER'')
                   (js ''Header '' @ [8220] @ header @ [8221]
                    @ js '' was skipped because it has no name/value separator.''))
            (\<lambda>_. retR st))"

definition add_data :: "jsstr \<Rightarrow> curl_state \<Rightarrow> curl_state import_run" where
  "add_data v st =
     (if starts_with (js ''@'') v
      then bindR (curl_warning (js ''LOCAL_FILE'')
                    (js ''Local file data was not read. Replace the imported body placeholder with content or a safe runtime variable.''))
             (\<lambda>_. retR (st\<lparr>cu_data := cu_data st @ [js ''{{ importedFileBody }}'']\<rparr>))
      else retR (st\<lparr>cu_data := cu_data st @ [v]\<rparr>))"

definition add_form :: "jsstr \<Rightarrow> curl_state \<Rightarrow> curl_state import_run" where
  "add_form v st =
     (if contains_str (js ''=@'') v \<or> starts_with (js ''@'') v
      then bindR (curl_warning (js ''LOCAL_FILE'')
                    (js ''A multipart file path was not imported. Configure the file body explicitly in Rhythm.''))
             (\<lambda>_. retR (st\<lparr>cu_body_type := js ''multipart''\<rparr>))
      else retR (st\<lparr>cu_form := cu_form st @ [v], cu_body_type := js ''multipart''\<rparr>))"

definition set_user :: "jsstr \<Rightarrow> curl_state \<Rightarrow> curl_state" where
  "set_user v st =
     (case index_of (js '':'') v of
        None \<Rightarrow> st\<lparr>cu_username := v, cu_password := []\<rparr>
      | Some i \<Rightarrow> st\<lparr>cu_username := take i v, cu_password := drop (i + 1) v\<rparr>)"

definition cookie_pairs :: "jsstr \<Rightarrow> (jsstr \<times> jsstr) list" where
  "cookie_pairs v =
     concat (map (\<lambda>pair. case index_of (js ''='') pair of
                           Some (Suc i) \<Rightarrow> [(trim (take (Suc i) pair), trim (drop (Suc i + 1) pair))]
                         | _ \<Rightarrow> [])
               (split_on 59 v))"

definition max_time :: "jsstr \<Rightarrow> jsnum" where
  "max_time v = num_max (nnum 100) (num_or (num_round (num_mul (str_to_num v) (nnum 1000))) (nnum 15000))"

definition retry_count :: "jsstr \<Rightarrow> jsnum" where
  "retry_count v = num_min (nnum 10) (num_max (nnum 0) (num_or (parse_int v) (nnum 0)))"

text \<open>One token of the loop: the new state, and whether the token after it was its value.\<close>

definition curl_option :: "jsstr \<Rightarrow> jsstr list \<Rightarrow> curl_state \<Rightarrow> (curl_state \<times> bool) import_run" where
  "curl_option token rest st =
     (let (opt, inline) = splitLongOption token;
          with_value = (\<lambda>f. bindR (take_value opt inline rest)
                              (\<lambda>(v, used). bindR (f v) (\<lambda>st'. retR (st', used))));
          plainly = (\<lambda>st'. retR (st', False))
      in
      if opt \<in> {js ''-X'', js ''--request''} then
        with_value (\<lambda>v. retR (st\<lparr>cu_method := to_upper v\<rparr>))
      else if opt = js ''--url'' then with_value (\<lambda>v. retR (st\<lparr>cu_url := v\<rparr>))
      else if opt \<in> {js ''-H'', js ''--header''} then with_value (\<lambda>v. add_header v st)
      else if opt \<in> {js ''-d'', js ''--data'', js ''--data-raw'', js ''--data-binary'', js ''--data-ascii''} then
        with_value (\<lambda>v. add_data v st)
      else if opt = js ''--data-urlencode'' then
        with_value (\<lambda>v. retR (st\<lparr>cu_data := cu_data st @ [v], cu_body_type := js ''form''\<rparr>))
      else if opt \<in> {js ''-F'', js ''--form''} then with_value (\<lambda>v. add_form v st)
      else if opt \<in> {js ''-u'', js ''--user''} then with_value (\<lambda>v. retR (set_user v st))
      else if opt \<in> {js ''-b'', js ''--cookie''} then
        with_value (\<lambda>v. retR (st\<lparr>cu_cookies := cu_cookies st @ cookie_pairs v\<rparr>))
      else if opt \<in> {js ''-A'', js ''--user-agent''} then
        with_value (\<lambda>v. retR (st\<lparr>cu_headers := cu_headers st @ [(js ''User-Agent'', v)]\<rparr>))
      else if opt \<in> {js ''-e'', js ''--referer''} then
        with_value (\<lambda>v. retR (st\<lparr>cu_headers := cu_headers st @ [(js ''Referer'', v)]\<rparr>))
      else if opt \<in> {js ''-L'', js ''--location''} then plainly (st\<lparr>cu_follow := True\<rparr>)
      else if opt \<in> {js ''-I'', js ''--head''} then plainly (st\<lparr>cu_method := js ''HEAD''\<rparr>)
      else if opt = js ''--compressed'' then plainly (st\<lparr>cu_compression := True\<rparr>)
      else if opt = js ''--max-time'' then with_value (\<lambda>v. retR (st\<lparr>cu_timeout := max_time v\<rparr>))
      else if opt = js ''--retry'' then with_value (\<lambda>v. retR (st\<lparr>cu_retries := retry_count v\<rparr>))
      else if opt \<in> {js ''-x'', js ''--proxy''} then with_value (\<lambda>v. retR (st\<lparr>cu_proxy := v\<rparr>))
      else if opt \<in> {js ''-k'', js ''--insecure''} then plainly (st\<lparr>cu_insecure := True\<rparr>)
      else if opt \<in> {js ''--cert'', js ''--key'', js ''--cacert''} then
        with_value (\<lambda>_. bindR (curl_warning (js ''LOCAL_CERTIFICATE'')
            (opt @ js '' references a local file. Select an uploaded Rhythm certificate profile after import.''))
          (\<lambda>_. retR st))
      else if opt \<in> {js ''-s'', js ''--silent'', js ''-S'', js ''--show-error'', js ''-i'', js ''--include''} then
        plainly st
      else if starts_with (js ''-'') opt then
        bindR (curl_warning (js ''UNSUPPORTED_CURL_OPTION'')
            (js ''cURL option '' @ [8220] @ opt @ [8221] @ js '' is not supported and was ignored.''))
          (\<lambda>_. plainly st)
      else if cu_url st = [] then plainly (st\<lparr>cu_url := token\<rparr>)
      else
        bindR (curl_warning (js ''EXTRA_ARGUMENT'')
            (js ''Extra argument '' @ [8220] @ maskInlineValue token @ [8221] @ js '' was ignored.''))
          (\<lambda>_. plainly st))"

fun curl_options :: "jsstr list \<Rightarrow> curl_state \<Rightarrow> curl_state import_run" where
  "curl_options [] st = retR st"
| "curl_options (token # rest) st =
     bindR (curl_option token rest st)
       (\<lambda>(st', used). curl_options (if used then tl rest else rest) st')"

section \<open>The request\<close>

definition form_field :: "jsstr \<Rightarrow> jsstr import_run" where
  "form_field field =
     (let (key, v) = (case index_of (js ''='') field of
                        None \<Rightarrow> (field, [])
                      | Some i \<Rightarrow> (take i field, drop (i + 1) field))
      in case (encode_uri key, encode_uri v) of
           (Some k, Some w) \<Rightarrow> retR (k @ js ''='' @ w)
         | _ \<Rightarrow> failR URIError)"

definition is_authorization_key :: "jsstr \<Rightarrow> bool" where \<comment> \<open>\<open>/^authorization$/i\<close>\<close>
  "is_authorization_key k \<longleftrightarrow> rtest (seq_re [Bol, lit_i_re (js ''authorization''), Eol]) k"

definition is_bearer :: "jsstr \<Rightarrow> bool" where \<comment> \<open>\<open>/^Bearer\s+(.+)$/i\<close>\<close>
  "is_bearer v \<longleftrightarrow>
     rtest (seq_re [Bol, lit_i_re (js ''Bearer''), plus_re space_re, Grp 1 (plus_re dot_re), Eol]) v"

definition curl_body :: "curl_state \<Rightarrow> (jsstr \<times> jsstr) import_run" where \<comment> \<open>body type and body\<close>
  "curl_body st =
     (let body = (if cu_data st \<noteq> [] then join (js ''&'') (cu_data st) else []);
          body_type = (if cu_data st \<noteq> [] \<and> cu_body_type st = js ''none''
                       then inferBodyType body (cu_headers st) else cu_body_type st)
      in if cu_form st \<noteq> []
         then bindR (mapR form_field (cu_form st)) (\<lambda>fs. retR (body_type, join (js ''&'') fs))
         else retR (body_type, body))"

definition curl_auth :: "jsstr \<Rightarrow> jsstr \<Rightarrow> (jsstr \<times> jsstr) list \<Rightarrow> request_part \<Rightarrow> request_part import_run" where
  "curl_auth username password raw_headers req =
     (if username \<noteq> [] \<or> password \<noteq> [] then
        (let req' = req\<lparr>rq_auth := \<lparr>au_type = js ''basic'',
               au_fields = [(js ''username'', username),
                 (js ''password'', if password \<noteq> [] then js ''{{ secrets.importedPassword }}'' else [])]\<rparr>\<rparr>
         in bindR (whenR (password \<noteq> [])
                     (curl_warning (js ''BASIC_SECRET'')
                        (js ''The Basic Auth password was replaced with {{ secrets.importedPassword }}.'')))
              (\<lambda>_. retR req'))
      else
        case find (\<lambda>(k, v). is_authorization_key k) raw_headers of
          Some (k, v) \<Rightarrow>
            if is_bearer v then
              bindR (curl_warning (js ''BEARER_SECRET'')
                  (js ''The bearer token was replaced with {{ secrets.importedBearerToken }}.''))
                (\<lambda>_. retR (req\<lparr>
                   rq_headers := filter (\<lambda>h. \<not> is_authorization_key (kv_key h)) (rq_headers req),
                   rq_auth := \<lparr>au_type = js ''bearer'',
                     au_fields = [(js ''token'', js ''{{ secrets.importedBearerToken }}'')]\<rparr>\<rparr>))
            else retR req
        | None \<Rightarrow> retR req)"

definition proxy_credentials_re :: re where \<comment> \<open>\<open>\/\/[^/@]+@\<close>\<close>
  "proxy_credentials_re =
     seq_re [lit_re (js ''//''), plus_re (Cls True [(47, 47), (64, 64)]), unit_re 64]"

definition curl_proxy :: "jsstr \<Rightarrow> proxy_definition \<Rightarrow> proxy_definition import_run" where
  "curl_proxy proxy_url px =
     (if proxy_url = [] then retR px
      else
        let scheme = to_lower (hd (split_on 58 proxy_url));
            url = sub_first proxy_credentials_re (\<lambda>_ _. js ''//'') proxy_url
        in bindR (whenR (proxy_url \<noteq> url)
                    (curl_warning (js ''PROXY_SECRET'')
                       (js ''Proxy credentials embedded in the URL were removed. Select secret references in the Proxy section.'')))
             (\<lambda>_. retR (px\<lparr>px_mode := (if scheme \<in> {js ''http'', js ''https'', js ''socks5''} then scheme
                                      else js ''http''),
                           px_url := url\<rparr>)))"

definition curl_header :: "nat \<Rightarrow> jsstr \<times> jsstr \<Rightarrow> key_value_row import_run" where
  "curl_header i h =
     bindR (protectSecretValue (fst h) (snd h) None)
       (\<lambda>w. retR (row (js ''header-import-'' @ dec (i + 1)) (fst h) w True []))"

definition curl_cookie_rows :: "(jsstr \<times> jsstr) list \<Rightarrow> cookie_row list" where
  "curl_cookie_rows cookies =
     map (\<lambda>(i, key, v). cookie_of_row (row (js ''cookie-import-'' @ dec (i + 1)) key
           (secretPlaceholder (if key \<noteq> [] then key else js ''cookie'')) True []))
       (enumerate 0 cookies)"

definition curl_step :: "curl_state \<Rightarrow> jsstr \<Rightarrow> jsstr \<Rightarrow> jsstr \<Rightarrow> jsstr \<Rightarrow> jsstr \<Rightarrow> step_definition import_run" where
  "curl_step st url username password body_type body =
     (let verb = (if cu_method st \<noteq> [] then cu_method st
                  else if body_type = js ''none'' then js ''GET'' else js ''POST'');
          step = makeHTTPDefinitionStep 0 (js ''Imported cURL request'') verb;
          (address, query) = splitURLQuery url
      in
      bindR (mapR (protect_param None) query) (\<lambda>params.
      bindR (mapiR curl_header (filter (\<lambda>(key, v). \<not> is_cookie_key key) (cu_headers st))) (\<lambda>headers.
      bindR (whenR (cu_cookies st \<noteq> [])
               (curl_warning (js ''COOKIE_SECRET'')
                  (js ''Cookie values were replaced with secret placeholders. Map them to Rhythm secrets before running the monitor.''))) (\<lambda>_.
      bindR (curl_auth username password (cu_headers st)
               ((st_request step)\<lparr>rq_url := address, rq_params := params, rq_headers := headers,
                  rq_cookies := curl_cookie_rows (cu_cookies st)\<rparr>)) (\<lambda>req.
      bindR (protectBody body None) (\<lambda>content.
      bindR (whenR (cu_insecure st)
               (curl_warning (js ''INSECURE_TLS'')
                  (js ''cURL disabled TLS verification. Rhythm imported that choice; enable hostname verification before production use.''))) (\<lambda>_.
      bindR (curl_proxy (cu_proxy st) (rq_proxy req)) (\<lambda>px.
      retR (step\<lparr>
        st_timeout := cu_timeout st,
        st_request := req\<lparr>
          rq_body := \<lparr>bo_type = body_type, bo_content = content\<rparr>,
          rq_settings := (rq_settings req)\<lparr>se_follow_redirects := cu_follow st,
            se_compression := cu_compression st, se_timeout := cu_timeout st,
            se_retries := cu_retries st\<rparr>,
          rq_tls := (rq_tls req)\<lparr>tl_verify_hostname := \<not> cu_insecure st\<rparr>,
          rq_proxy := px\<rparr>\<rparr>)))))))))"

definition line_continuation_re :: re where \<comment> \<open>\<open>\\\r?\n\<close>\<close>
  "line_continuation_re = seq_re [unit_re 92, opt_re (unit_re 13), unit_re 10]"

definition curl_name_re :: re where \<comment> \<open>\<open>^curl(?:\.exe)?$\<close>, any case\<close>
  "curl_name_re = seq_re [Bol, lit_i_re (js ''curl''), opt_re (lit_i_re (js ''.exe'')), Eol]"

definition curl_tokens :: "jsstr \<Rightarrow> jsstr list import_run" where \<comment> \<open>the words of one cURL command\<close>
  "curl_tokens source =
     bindR (assertSourceSize source) (\<lambda>_.
     bindR (tokenizeShell (sub_all line_continuation_re (\<lambda>_ _. js '' '') source)) (\<lambda>tokens.
     if tokens = [] \<or> \<not> rtest curl_name_re (hd tokens)
     then import_error (js ''Paste a cURL command beginning with curl. Shell scripts and commands are not executed.'')
     else if list_ex (\<lambda>t. t \<in> {js ''&&'', js ''||'', js ''|'', js '';''}) tokens
     then import_error (js ''Import one cURL command at a time. Shell operators are not supported or executed.'')
     else retR tokens))"

definition curl_draft :: "url_parser \<Rightarrow> curl_state \<Rightarrow> imported_draft import_run" where
  "curl_draft parse_url st =
     (if cu_url st = [] then import_error (js ''The cURL command has no URL.'')
      else
      let (url, user, secret) = removeURLCredentials parse_url (cu_url st);
          moved = (cu_username st = [] \<and> user \<noteq> []);
          username = (if moved then user else cu_username st);
          password = (if moved then secret else cu_password st)
      in
      bindR (whenR moved
               (curl_warning (js ''URL_CREDENTIALS'')
                  (js ''Credentials embedded in the URL were moved to Basic Auth and the password was replaced with a secret placeholder.''))) (\<lambda>_.
      bindR (curl_body st) (\<lambda>(body_type, body).
      bindR (curl_step st url username password body_type body) (\<lambda>step.
      let host = safeHost parse_url (fst (splitURLQuery url)) in
      retR \<lparr>dr_source = Curl,
            dr_name = (if host \<noteq> [] then js ''Imported request '' @ [183] @ js '' '' @ host
                       else js ''Imported cURL request''),
            dr_description = js ''Imported from a cURL command.'',
            dr_definition = (clone initial_definition)\<lparr>rd_steps := [step]\<rparr>,
            dr_warnings = [],
            dr_summary = \<lparr>sm_requests = 1, sm_folders = 0, sm_scripts = 0, sm_variables = 0\<rparr>\<rparr>))))"

definition parseCurlCommand :: "url_parser \<Rightarrow> jsstr \<Rightarrow> exn + imported_draft" where
  "parseCurlCommand parse_url source =
     map_sum id (\<lambda>(draft, ws). draft\<lparr>dr_warnings := ws\<rparr>)
       (bindR (curl_tokens source) (\<lambda>tokens.
        bindR (curl_options (tl tokens) curl_start) (curl_draft parse_url)))"

end
