(* ===== verification/Curl_Facts.thy ===== *)
theory Curl_Facts
  imports Import_Facts Import_Curl
begin

text \<open>
  What an imported cURL command guarantees: one request with bounded settings, the
  placeholder in place of a literal under a sensitive name, TLS verification unless it was switched off, the exceptions that can
  leave the importer, and the words the shell tokenizer reads.
\<close>

section \<open>Exceptions\<close>

definition raisesR :: "(exn \<Rightarrow> bool) \<Rightarrow> 'a import_run \<Rightarrow> bool" where
  "raisesR E m \<longleftrightarrow> (\<forall>e. m = Inl e \<longrightarrow> E e)"

lemma raisesR_ret: "raisesR E (retR a)"
  by (simp add: raisesR_def retR_def)

lemma raisesR_warn: "raisesR E (warnR w)"
  by (simp add: raisesR_def warnR_def)

lemma raisesR_fail: "E e \<Longrightarrow> raisesR E (failR e)"
  by (simp add: raisesR_def)

lemma raisesR_import_error: "E (MonitorImportError m) \<Longrightarrow> raisesR E (import_error m)"
  by (simp add: raisesR_def)

lemma raisesR_bind: "raisesR E m \<Longrightarrow> (\<And>a. raisesR E (f a)) \<Longrightarrow> raisesR E (bindR m f)"
  by (auto simp: raisesR_def bindR_def split: sum.splits)

lemma raisesR_when: "raisesR E m \<Longrightarrow> raisesR E (whenR b m)"
  by (simp add: whenR_def raisesR_ret)

lemma raisesR_map: "(\<And>x. raisesR E (f x)) \<Longrightarrow> raisesR E (mapR f xs)"
  by (induction xs) (auto intro!: raisesR_ret raisesR_bind)

lemma raisesR_mapi: "(\<And>i x. raisesR E (f i x)) \<Longrightarrow> raisesR E (mapiR f xs)"
  unfolding mapiR_def by (rule raisesR_map) auto

lemma raisesR_if: "raisesR E a \<Longrightarrow> raisesR E b \<Longrightarrow> raisesR E (if c then a else b)"
  by simp

lemma raisesR_prod: "(\<And>a b. raisesR E (f a b)) \<Longrightarrow> raisesR E (case x of (a, b) \<Rightarrow> f a b)"
  by (cases x) simp

lemma raisesR_option:
  "raisesR E m \<Longrightarrow> (\<And>a. raisesR E (f a)) \<Longrightarrow> raisesR E (case x of None \<Rightarrow> m | Some a \<Rightarrow> f a)"
  by (cases x) simp_all

lemmas raises_intros = raisesR_prod raisesR_option raisesR_ret raisesR_warn raisesR_bind raisesR_when raisesR_map raisesR_mapi raisesR_if

definition import_exn :: "exn \<Rightarrow> bool" where
  "import_exn e \<longleftrightarrow> e = URIError \<or> (\<exists>m. e = MonitorImportError m)"

lemma raises_import [intro]: "raisesR import_exn (import_error m)" "raisesR import_exn (failR URIError)"
  by (auto intro!: raisesR_import_error raisesR_fail simp: import_exn_def)

lemma raises_protect: "raisesR E (protectSecretValue k v l)" "raisesR E (protectBody b l)"
  unfolding protectSecretValue_def protectBody_def
  by (auto intro!: raises_intros split: option.split prod.split)

lemma raises_take: "raisesR import_exn (take_value opt inline rest)"
  unfolding take_value_def by (auto intro!: raises_intros split: option.split list.split)

lemma raises_curl_helpers:
  "raisesR E (curl_warning c m)" "raisesR E (add_header h st)" "raisesR E (add_data v st)" "raisesR E (add_form v st)"
  unfolding add_header_def add_data_def add_form_def curl_warning_def
  by (auto intro!: raises_intros split: option.split nat.split)

lemma raises_option: "raisesR import_exn (curl_option token rest st)"
  unfolding curl_option_def Let_def
  by (cases "splitLongOption token")
    (simp only: prod.case, intro raises_intros raises_take raises_curl_helpers; simp add: raises_intros raises_curl_helpers split: prod.split)

lemma raises_options: "raisesR import_exn (curl_options tokens st)"
  by (induction tokens st rule: curl_options.induct)
    (auto intro!: raises_intros raises_option split: prod.split)

section \<open>Settings\<close>

definition bounded_settings :: "curl_state \<Rightarrow> bool" where
  "bounded_settings st \<longleftrightarrow>
     ((\<exists>t\<ge>100. cu_timeout st = Fin t) \<or> cu_timeout st = Infinite False) \<and>
     (\<exists>r. cu_retries st = Fin r \<and> 0 \<le> r \<and> r \<le> 10)"

lemma max_time_bounds: "(\<exists>t\<ge>100. max_time v = Fin t) \<or> max_time v = Infinite False"
proof -
  have "num_or (num_round (num_mul (str_to_num v) (nnum 1000))) (nnum 15000) \<noteq> NaN"
    by (rule num_or_not_NaN) simp
  from num_max_Fin_cases [OF this, of 100] show ?thesis by (simp add: max_time_def)
qed

lemma retry_count_bounds: "\<exists>r. retry_count v = Fin r \<and> 0 \<le> r \<and> r \<le> 10"
proof -
  have "num_or (parse_int v) (nnum 0) \<noteq> NaN" by (rule num_or_not_NaN) simp
  from num_clamp_bounds [OF this, of 0 10] show ?thesis by (simp add: retry_count_def)
qed

definition insecure_option :: "jsstr \<Rightarrow> bool" where
  "insecure_option token \<longleftrightarrow> fst (splitLongOption token) \<in> {js ''-k'', js ''--insecure''}"

definition option_inv :: "jsstr \<Rightarrow> curl_state \<Rightarrow> curl_state \<Rightarrow> bool" where
  "option_inv token st st' \<longleftrightarrow>
     (bounded_settings st \<longrightarrow> bounded_settings st') \<and>
     (cu_insecure st' \<longrightarrow> cu_insecure st \<or> insecure_option token)"

lemma helper_inv:
  "okR (option_inv t st) (add_header h st)" "okR (option_inv t st) (add_data v st)"
  "okR (option_inv t st) (add_form v st)"
  unfolding add_header_def add_data_def add_form_def
  by (auto intro!: okR_ret okR_bind_any simp: option_inv_def bounded_settings_def split: option.split nat.split)

lemma with_value_inv:
  "(\<And>v. okR P (f v)) \<Longrightarrow>
    okR (\<lambda>(st', used). P st') (bindR m (\<lambda>(v, used). bindR (f v) (\<lambda>st'. retR (st', used))))"
  by (intro okR_bind_any) (auto split: prod.split intro!: okR_bind [of P] okR_ret)

lemma plainly_inv: "P st' \<Longrightarrow> okR (\<lambda>(st', used). P st') (retR (st', b))"
  by (simp add: okR_ret)

lemma curl_option_inv: "okR (\<lambda>(st', used). option_inv token st st') (curl_option token rest st)"
proof -
  obtain opt inline where opt: "splitLongOption token = (opt, inline)" by (cases "splitLongOption token")
  have ret: "okR (option_inv token st) (retR st')" if "option_inv token st st'" for st'
    using that by (rule okR_ret)
  show ?thesis
    unfolding curl_option_def Let_def opt prod.case
    by (intro okR_if2 with_value_inv plainly_inv helper_inv okR_bind_any ret)
      (use max_time_bounds retry_count_bounds in
        \<open>simp_all add: option_inv_def bounded_settings_def set_user_def insecure_option_def opt
          split: option.split\<close>)
qed

lemma curl_options_inv:
  "curl_options tokens st = Inr (st', ws) \<Longrightarrow>
    (bounded_settings st \<longrightarrow> bounded_settings st') \<and>
    (cu_insecure st' \<longrightarrow> cu_insecure st \<or> (\<exists>t\<in>set tokens. insecure_option t))"
proof (induction tokens st arbitrary: ws rule: curl_options.induct)
  case (1 st)
  then show ?case by simp
next
  case (2 token rest st)
  then obtain st1 used w1 w2 where
    one: "curl_option token rest st = Inr ((st1, used), w1)" and
    more: "curl_options (if used then tl rest else rest) st1 = Inr (st', w2)"
    by (auto simp: bindR_Inr)
  have sub: "set (if used then tl rest else rest) \<subseteq> set rest"
    by (cases rest) auto
  from okR_D [OF curl_option_inv one] have "option_inv token st st1" by simp
  with "2.IH" [OF more] sub show ?case unfolding option_inv_def by auto
qed

section \<open>The request\<close>


lemma protect_curl_rows:
  "okR (\<lambda>hs. \<forall>h\<in>set hs. \<exists>v. (kv_key h, v) \<in> set kvs \<and> masked_value (kv_key h) v (kv_value h))
     (mapiR curl_header kvs)"
proof (rule okR_mapiR)
  fix i x assume "x \<in> set kvs"
  then show "okR (\<lambda>h. \<exists>v. (kv_key h, v) \<in> set kvs \<and> masked_value (kv_key h) v (kv_value h)) (curl_header i x)"
    unfolding curl_header_def
    by (intro okR_bind [OF protectSecretValue_masked] okR_ret) (auto simp: row_def intro: exI [of _ "snd x"])
qed

text \<open>The authorizations a cURL import can have: none, or one whose secret is a fixed reference.\<close>

definition curl_auth_masked :: "auth_definition \<Rightarrow> bool" where
  "curl_auth_masked au \<longleftrightarrow>
     au_fields au = [] \<or>
     (\<exists>user. au_fields au = [(js ''username'', user), (js ''password'', [])]) \<or>
     (\<exists>user. au_fields au = [(js ''username'', user), (js ''password'', js ''{{ secrets.importedPassword }}'')]) \<or>
     au_fields au = [(js ''token'', js ''{{ secrets.importedBearerToken }}'')]"

definition curl_auth_ok :: "request_part \<Rightarrow> request_part \<Rightarrow> bool" where
  "curl_auth_ok req req' \<longleftrightarrow>
     rq_params req' = rq_params req \<and> set (rq_headers req') \<subseteq> set (rq_headers req) \<and>
     rq_cookies req' = rq_cookies req \<and> rq_proxy req' = rq_proxy req \<and> rq_tls req' = rq_tls req \<and>
     (curl_auth_masked (rq_auth req) \<longrightarrow> curl_auth_masked (rq_auth req'))"

lemma curl_auth_spec: "okR (curl_auth_ok req) (curl_auth username password hs req)"
  unfolding curl_auth_def Let_def
  by (auto intro!: okR_bind_any okR_ret simp: curl_auth_ok_def curl_auth_masked_def split: option.split prod.split)

text \<open>
  The request a command gives, once its options have been read into a state: every parameter of the
  address in order, every header that is kept, every cookie in order, and the authorization.
\<close>

definition curl_masked :: "jsstr \<Rightarrow> curl_state \<Rightarrow> step_definition \<Rightarrow> bool" where
  "curl_masked url st s \<longleftrightarrow>
     list_all2 masked_row (snd (splitURLQuery url)) (rq_params (st_request s)) \<and>
     (\<forall>h\<in>set (rq_headers (st_request s)).
        \<exists>v. (kv_key h, v) \<in> set (cu_headers st) \<and> masked_value (kv_key h) v (kv_value h)) \<and>
     map kv_key (rq_cookies (st_request s)) = map fst (cu_cookies st) \<and>
     (\<forall>c\<in>set (rq_cookies (st_request s)).
        kv_value c = secretPlaceholder (if kv_key c \<noteq> [] then kv_key c else js ''cookie'')) \<and>
     curl_auth_masked (rq_auth (st_request s))"

definition curl_step_ok :: "jsstr \<Rightarrow> curl_state \<Rightarrow> step_definition \<Rightarrow> bool" where
  "curl_step_ok url st s \<longleftrightarrow>
     curl_masked url st s \<and> st_timeout s = cu_timeout st \<and>
     se_timeout (rq_settings (st_request s)) = cu_timeout st \<and>
     se_retries (rq_settings (st_request s)) = cu_retries st \<and>
     tl_verify_hostname (rq_tls (st_request s)) = (\<not> cu_insecure st)"

lemma curl_cookies_masked:
  "map kv_key (curl_cookie_rows kvs) = map fst kvs"
  "c \<in> set (curl_cookie_rows kvs) \<Longrightarrow>
     kv_value c = secretPlaceholder (if kv_key c \<noteq> [] then kv_key c else js ''cookie'')"
proof -
  have "map kv_key (curl_cookie_rows kvs) = map fst (map snd (enumerate 0 kvs))"
    by (simp add: curl_cookie_rows_def cookie_of_row_def row_def case_prod_unfold del: map_snd_enumerate)
  then show "map kv_key (curl_cookie_rows kvs) = map fst kvs" by simp
qed (auto simp: curl_cookie_rows_def cookie_of_row_def row_def)

lemma initial_auth_masked: "curl_auth_masked (rq_auth (st_request initial_step))"
  by (simp add: curl_auth_masked_def initial_step_def initial_request_def)

lemma curl_step_spec: "okR (curl_step_ok url st) (curl_step st url username password body_type body)"
proof -
  obtain address query where split: "splitURLQuery url = (address, query)" by (cases "splitURLQuery url")
  show ?thesis
    unfolding curl_step_def Let_def split prod.case
    apply (rule okR_bind [OF protect_params_masked])
    apply (rule okR_bind [OF protect_curl_rows])
    apply (rule okR_bind_any)
    apply (rule okR_bind [OF curl_auth_spec])
    apply (rule okR_bind_any)+
    apply (rule okR_ret)
    using initial_auth_masked curl_cookies_masked
    apply (auto simp: curl_step_ok_def curl_masked_def curl_auth_ok_def split
          makeHTTPDefinitionStep_def Let_def clone_def subset_iff)
    done
qed

definition bare_url :: "url_parser \<Rightarrow> curl_state \<Rightarrow> jsstr" where \<comment> \<open>the address without its credentials\<close>
  "bare_url parse_url st = fst (removeURLCredentials parse_url (cu_url st))"

definition curl_draft_ok :: "url_parser \<Rightarrow> curl_state \<Rightarrow> imported_draft \<Rightarrow> bool" where
  "curl_draft_ok parse_url st d \<longleftrightarrow>
     (\<exists>s. rd_steps (dr_definition d) = [s] \<and> curl_step_ok (bare_url parse_url st) st s) \<and>
     sm_requests (dr_summary d) = 1"

lemma curl_draft_spec: "okR (curl_draft_ok parse_url st) (curl_draft parse_url st)"
proof -
  obtain url user secret where url: "removeURLCredentials parse_url (cu_url st) = (url, user, secret)"
    by (cases "removeURLCredentials parse_url (cu_url st)")
  show ?thesis
    unfolding curl_draft_def Let_def url prod.case
    by (auto intro!: okR_bind_any okR_bind [OF curl_step_spec [of url]] okR_ret okR_fail
        simp: curl_draft_ok_def bare_url_def url split: prod.split)
qed

lemma parseCurl_parts:
  assumes "parseCurlCommand parse_url source = Inr d"
  obtains tokens st s w1 w2 where
    "curl_tokens source = Inr (tokens, w1)" "curl_options (tl tokens) curl_start = Inr (st, w2)"
    "rd_steps (dr_definition d) = [s]" "curl_step_ok (bare_url parse_url st) st s"
    "sm_requests (dr_summary d) = 1"
proof -
  from assms obtain tokens st d' w1 w2 w3 ws where
    parts: "curl_tokens source = Inr (tokens, w1)" "curl_options (tl tokens) curl_start = Inr (st, w2)"
    and d': "curl_draft parse_url st = Inr (d', w3)" and d: "d = d'\<lparr>dr_warnings := ws\<rparr>"
    unfolding parseCurlCommand_def map_sum_Inr by (auto simp: bindR_Inr split: prod.splits)
  from okR_D [OF curl_draft_spec d'] have "curl_draft_ok parse_url st d'" .
  with parts d that show ?thesis by (auto simp: curl_draft_ok_def)
qed

lemma curl_start_bounded: "bounded_settings curl_start" "\<not> cu_insecure curl_start"
  by (simp_all add: bounded_settings_def curl_start_def)

text \<open>C5: an imported cURL command is exactly one request, whose timeout is at least 100
  milliseconds, the same for the step and the request, and whose retries lie between 0 and 10,
  whatever the options said.\<close>

theorem curl_settings_bounded:
  assumes "parseCurlCommand parse_url source = Inr d"
  shows "\<exists>s. rd_steps (dr_definition d) = [s] \<and> sm_requests (dr_summary d) = 1 \<and>
    se_timeout (rq_settings (st_request s)) = st_timeout s \<and>
    ((\<exists>t\<ge>100. st_timeout s = Fin t) \<or> st_timeout s = Infinite False) \<and>
    (\<exists>r. se_retries (rq_settings (st_request s)) = Fin r \<and> 0 \<le> r \<and> r \<le> 10)"
proof -
  obtain tokens st s w1 w2 where
    opts: "curl_options (tl tokens) curl_start = Inr (st, w2)" and
    s: "rd_steps (dr_definition d) = [s]" "curl_step_ok (bare_url parse_url st) st s" "sm_requests (dr_summary d) = 1"
    by (rule parseCurl_parts [OF assms])
  from curl_options_inv [OF opts] curl_start_bounded have "bounded_settings st" by simp
  with s show ?thesis by (auto simp: curl_step_ok_def bounded_settings_def)
qed

text \<open>C4: in a cURL import a literal value given under a sensitive name is replaced by exactly the
  placeholder of that name, whatever it was. Here a value is literal when no template
  \<open>{{...}}\<close> occurs in it; a value in which one occurs is kept as it is, also where literal text
  stands beside the template, and so is a value under a name that is not sensitive. This holds of
  the query parameters of the address (the imported parameters are those of the address, in order)
  and of every imported header, whose value is determined in this way by a header of the command.
  Every cookie of the cookie options is imported with the placeholder of its name, and the
  authorization has no password, the fixed password reference or the fixed bearer token
  reference.\<close>

theorem curl_masks_secrets:
  assumes "parseCurlCommand parse_url source = Inr d" and "s \<in> set (rd_steps (dr_definition d))"
  shows "\<exists>tokens st w1 w2. curl_tokens source = Inr (tokens, w1) \<and>
    curl_options (tl tokens) curl_start = Inr (st, w2) \<and> curl_masked (bare_url parse_url st) st s"
proof -
  obtain tokens st s' w1 w2 where
    "curl_tokens source = Inr (tokens, w1)" "curl_options (tl tokens) curl_start = Inr (st, w2)"
    "rd_steps (dr_definition d) = [s']" "curl_step_ok (bare_url parse_url st) st s'"
    by (rule parseCurl_parts [OF assms(1)])
  with assms(2) have "curl_masked (bare_url parse_url st) st s" by (simp add: curl_step_ok_def)
  then show ?thesis using \<open>curl_tokens source = Inr (tokens, w1)\<close> \<open>curl_options _ _ = _\<close> by blast
qed

text \<open>the host name of the server is verified unless the command has an option that switches TLS
  verification off.\<close>

theorem curl_tls_verified:
  assumes "parseCurlCommand parse_url source = Inr d"
    and "curl_tokens source = Inr (tokens, ws)" and "\<not> list_ex insecure_option (tl tokens)"
    and "s \<in> set (rd_steps (dr_definition d))"
  shows "tl_verify_hostname (rq_tls (st_request s))"
proof -
  obtain tokens' st s' w1 w2 where
    "curl_tokens source = Inr (tokens', w1)" and
    opts: "curl_options (tl tokens') curl_start = Inr (st, w2)" and
    s: "rd_steps (dr_definition d) = [s']" "curl_step_ok (bare_url parse_url st) st s'"
    by (rule parseCurl_parts [OF assms(1)])
  with assms(2) have "tokens' = tokens" by simp
  with curl_options_inv [OF opts] curl_start_bounded(2) assms(3) have "\<not> cu_insecure st"
    by (auto simp: list_ex_iff)
  with s assms(4) show ?thesis by (simp add: curl_step_ok_def)
qed

section \<open>Exceptions of the importer\<close>

lemma raises_tokens: "raisesR import_exn (curl_tokens source)"
  unfolding curl_tokens_def assertSourceSize_def tokenizeShell_def Let_def
  by (intro raises_intros raises_import)

lemma raises_form: "raisesR import_exn (form_field f)"
  unfolding form_field_def Let_def by (auto intro!: raises_intros split: prod.split option.split)

lemma raises_curl_step: "raisesR import_exn (curl_step st url username password body_type body)"
  unfolding curl_step_def Let_def curl_auth_def curl_proxy_def protect_param_def curl_header_def
  by (intro raises_intros raises_protect raises_curl_helpers raises_import)

lemma raises_body: "raisesR import_exn (curl_body st)"
  unfolding curl_body_def Let_def by (intro raises_intros raises_form)

lemma raises_draft: "raisesR import_exn (curl_draft parse_url st)"
proof -
  obtain url user secret where "removeURLCredentials parse_url (cu_url st) = (url, user, secret)"
    by (cases "removeURLCredentials parse_url (cu_url st)")
  then show ?thesis
    unfolding curl_draft_def Let_def
    by (simp only: prod.case)
      (intro raisesR_if raisesR_bind raisesR_prod raisesR_ret raisesR_when raises_body raises_curl_step
        raises_curl_helpers raises_import)
qed

text \<open>when a cURL import fails, it fails with a message for the user, or because a form field
  holds half a surrogate pair, which cannot be percent-encoded. No other exception leaves it.\<close>

theorem curl_error_kinds:
  assumes "parseCurlCommand parse_url source = Inl e"
  shows "e = URIError \<or> (\<exists>m. e = MonitorImportError m)"
proof -
  have "raisesR import_exn (bindR (curl_tokens source) (\<lambda>tokens.
      bindR (curl_options (tl tokens) curl_start) (curl_draft parse_url)))" (is "raisesR _ ?m")
    by (intro raises_intros raises_tokens raises_options raises_draft)
  moreover from assms have "?m = Inl e" by (cases ?m) (simp_all add: parseCurlCommand_def)
  ultimately show ?thesis by (simp add: raisesR_def import_exn_def)
qed

section \<open>Shell words\<close>

definition shell_quote :: "jsstr \<Rightarrow> jsstr" where
  "shell_quote w = [39] @ w @ [39]"

lemma shell_quoted_body:
  "39 \<notin> set w \<Longrightarrow>
    fold shell_step w \<lparr>sh_tokens = ts, sh_token = t, sh_quote = Some 39, sh_escaped = False\<rparr>
      = \<lparr>sh_tokens = ts, sh_token = t @ w, sh_quote = Some 39, sh_escaped = False\<rparr>"
  by (induction w arbitrary: t) (auto simp: shell_step_def)

lemma shell_quoted_word:
  "39 \<notin> set w \<Longrightarrow>
    fold shell_step (shell_quote w) \<lparr>sh_tokens = ts, sh_token = t, sh_quote = None, sh_escaped = False\<rparr>
      = \<lparr>sh_tokens = ts, sh_token = t @ w, sh_quote = None, sh_escaped = False\<rparr>"
proof -
  assume w: "39 \<notin> set w"
  have "shell_step 39 \<lparr>sh_tokens = ts, sh_token = t, sh_quote = None, sh_escaped = False\<rparr>
      = \<lparr>sh_tokens = ts, sh_token = t, sh_quote = Some 39, sh_escaped = False\<rparr>"
    by (simp add: shell_step_def)
  then show ?thesis
    by (simp add: shell_quote_def shell_quoted_body [OF w]) (simp add: shell_step_def)
qed

lemma shell_words_fold:
  "ws \<noteq> [] \<Longrightarrow> \<forall>w\<in>set ws. w \<noteq> [] \<and> 39 \<notin> set w \<Longrightarrow>
    fold shell_step (join [32] (map shell_quote ws))
        \<lparr>sh_tokens = ts, sh_token = [], sh_quote = None, sh_escaped = False\<rparr>
      = \<lparr>sh_tokens = ts @ butlast ws, sh_token = last ws, sh_quote = None, sh_escaped = False\<rparr>"
proof (induction ws arbitrary: ts)
  case Nil
  then show ?case by simp
next
  case (Cons w ws)
  show ?case
  proof (cases ws)
    case Nil
    with Cons.prems show ?thesis by (simp add: shell_quoted_word)
  next
    case (Cons v vs)
    have "shell_step 32 \<lparr>sh_tokens = ts, sh_token = w, sh_quote = None, sh_escaped = False\<rparr>
        = \<lparr>sh_tokens = ts @ [w], sh_token = [], sh_quote = None, sh_escaped = False\<rparr>"
      using Cons.prems by (simp add: shell_step_def is_space_def)
    with Cons.prems Cons.IH [of "ts @ [w]"] Cons show ?thesis
      by (simp add: join_Cons shell_quoted_word del: join.simps)
  qed
qed

lemma trim_id: "s \<noteq> [] \<Longrightarrow> \<not> is_space (hd s) \<Longrightarrow> \<not> is_space (last s) \<Longrightarrow> trim s = s"
proof -
  assume s: "s \<noteq> []" "\<not> is_space (hd s)" "\<not> is_space (last s)"
  then have "dropWhile is_space s = s" by (cases s) auto
  moreover from s have "dropWhile is_space (rev s) = rev s" by (cases s rule: rev_cases) auto
  ultimately show "trim s = s" by (simp add: trim_def)
qed

lemma hd_last_quoted:
  "ws \<noteq> [] \<Longrightarrow> join [32] (map shell_quote ws) \<noteq> [] \<and> hd (join [32] (map shell_quote ws)) = 39 \<and>
    last (join [32] (map shell_quote ws)) = 39"
proof (induction ws)
  case (Cons w ws)
  then show ?case by (cases ws) (auto simp: shell_quote_def)
qed simp

text \<open>the tokenizer inverts quoting: non-empty words, each in single quotes and separated by
  blanks, are read back as they were, whatever blanks, backslashes or double quotes they hold.\<close>

theorem tokenize_quoted_words:
  assumes "\<forall>w\<in>set ws. w \<noteq> [] \<and> 39 \<notin> set w"
  shows "tokenizeShell (join [32] (map shell_quote ws)) = retR ws"
proof (cases "ws = []")
  case True
  then show ?thesis by (simp add: tokenizeShell_def)
next
  case False
  have trimmed: "trim (join [32] (map shell_quote ws)) = join [32] (map shell_quote ws)"
    using hd_last_quoted [OF False] by (intro trim_id) (auto simp: is_space_def)
  have "last ws \<noteq> []" using assms False by auto
  then show ?thesis
    using False by (simp add: tokenizeShell_def Let_def trimmed shell_words_fold [OF False assms])
qed

section \<open>Concrete commands\<close>

definition no_urls :: url_parser where
  "no_urls s = None"

definition sample_command :: jsstr where
  "sample_command = js ''curl -H 'X-Token: abc' h''"

definition sample_curl_draft :: imported_draft where
  "sample_curl_draft = projr (parseCurlCommand no_urls sample_command)"

lemma sample_curl_returns: "isl (parseCurlCommand no_urls sample_command) = False"
  by code_simp

lemma sample_curl_parsed: "parseCurlCommand no_urls sample_command = Inr sample_curl_draft"
  using sample_curl_returns
  by (cases "parseCurlCommand no_urls sample_command") (simp_all add: sample_curl_draft_def)

lemma sample_curl_step: "hd (rd_steps (dr_definition sample_curl_draft)) \<in> set (rd_steps (dr_definition sample_curl_draft))"
  by code_simp

lemma sample_curl_tokens:
  "curl_tokens sample_command = Inr (map js [''curl'', ''-H'', ''X-Token: abc'', ''h''], [])"
  by code_simp

theorem curl_settings_bounded_witness: "sm_requests (dr_summary sample_curl_draft) = 1"
  using curl_settings_bounded [OF sample_curl_parsed] by blast

lemma sample_curl_header:
  "map kv_value (rq_headers (st_request (hd (rd_steps (dr_definition sample_curl_draft))))) = [js ''{{ secrets.xToken }}'']"
  by code_simp

theorem curl_masks_secrets_witness:
  "(\<exists>st. curl_masked (bare_url no_urls st) st (hd (rd_steps (dr_definition sample_curl_draft)))) \<and>
    map kv_value (rq_headers (st_request (hd (rd_steps (dr_definition sample_curl_draft))))) = [js ''{{ secrets.xToken }}'']"
  using curl_masks_secrets [OF sample_curl_parsed sample_curl_step] sample_curl_header by blast

theorem curl_tls_verified_witness:
  "tl_verify_hostname (rq_tls (st_request (hd (rd_steps (dr_definition sample_curl_draft)))))"
  by (rule curl_tls_verified [OF sample_curl_parsed sample_curl_tokens _ sample_curl_step]) code_simp

definition not_curl :: exn where
  "not_curl = MonitorImportError (js ''Paste a cURL command beginning with curl. Shell scripts and commands are not executed.'')"

lemma other_command: "parseCurlCommand no_urls (js ''ls'') = Inl not_curl"
  by code_simp

theorem curl_error_kinds_witness: "not_curl = URIError \<or> (\<exists>m. not_curl = MonitorImportError m)"
  by (rule curl_error_kinds [OF other_command])

theorem tokenize_quoted_words_witness:
  "tokenizeShell (join [32] (map shell_quote [js ''a b'', js ''c''])) = retR [js ''a b'', js ''c'']"
  by (rule tokenize_quoted_words) (simp add: js_def)

text \<open>
  An empty argument is lost: with an empty word after \<open>-d\<close> a shell sends an empty body to the
  address that follows, but the tokenizer drops the empty word, the option takes the address as its
  value, and the import fails for want of a URL.
\<close>

theorem curl_empty_argument_lost:
  "parseCurlCommand no_urls (js ''curl -d '' @ [39, 39] @ js '' https://a'')
     = Inl (MonitorImportError (js ''The cURL command has no URL.''))"
  by code_simp

text \<open>A header that carries cookies is dropped, with neither a cookie nor a warning in its place.\<close>

definition cookie_command :: jsstr where
  "cookie_command = js ''curl -H 'Cookie: a=b' h''"

theorem curl_cookie_header_dropped:
  "(case parseCurlCommand no_urls cookie_command of
      Inl e \<Rightarrow> False
    | Inr d \<Rightarrow> dr_warnings d = [] \<and>
        map (\<lambda>s. (rq_headers (st_request s), rq_cookies (st_request s))) (rd_steps (dr_definition d)) = [([], [])])"
  by code_simp

end
