(* ===== verification/Api_Types.thy ===== *)
theory Api_Types
  imports Js_Uri
begin

text \<open>
  TypeScript's object types as data. A value of \<open>ty\<close> is the shape a type alias of
  \<open>lib/api-client/contracts.ts\<close> declares, and \<open>conforms\<close> decides whether a parsed JSON value has
  it. The casts of the client are unchecked, so these shapes are what the server is trusted to send;
  the properties of the client say what follows when it does.
\<close>

section \<open>Shapes\<close>

datatype ty =
    TString
  | TNumber
  | TBoolean
  | TNull
  | TJson \<comment> \<open>\<open>JsonValue\<close>\<close>
  | TLit jsstr
  | TArray ty
  | TRecord ty \<comment> \<open>\<open>Record<string, T>\<close>\<close>
  | TObject "(jsstr \<times> bool \<times> ty) list" \<comment> \<open>fields; the flag marks an optional one\<close>
  | TUnion "ty list"

definition need :: "string \<Rightarrow> ty \<Rightarrow> jsstr \<times> bool \<times> ty" where
  "need k t = (js k, False, t)"

definition may :: "string \<Rightarrow> ty \<Rightarrow> jsstr \<times> bool \<times> ty" where \<comment> \<open>\<open>k?: t\<close>\<close>
  "may k t = (js k, True, t)"

definition one_of :: "string list \<Rightarrow> ty" where
  "one_of ls = TUnion (map (\<lambda>l. TLit (js l)) ls)"

definition pick_ty :: "ty \<Rightarrow> string list \<Rightarrow> ty" where \<comment> \<open>\<open>Pick<T, K>\<close>\<close>
  "pick_ty t ks =
     (case t of TObject fs \<Rightarrow> TObject (filter (\<lambda>(k, _). k \<in> set (map js ks)) fs) | _ \<Rightarrow> t)"

definition both_ty :: "ty \<Rightarrow> ty \<Rightarrow> ty" where \<comment> \<open>an intersection of object types\<close>
  "both_ty t u =
     (case (t, u) of (TObject fs, TObject gs) \<Rightarrow> TObject (fs @ gs) | _ \<Rightarrow> TUnion [])"

fun is_json :: "jsval \<Rightarrow> bool"
  and are_json :: "jsval list \<Rightarrow> bool"
  and members_json :: "(jsstr \<times> jsval) list \<Rightarrow> bool" where
  "is_json JUndef = False"
| "is_json (JArr xs) = are_json xs"
| "is_json (JObj ps) = members_json ps"
| "is_json _ = True"
| "are_json [] = True"
| "are_json (x # xs) = (is_json x \<and> are_json xs)"
| "members_json [] = True"
| "members_json ((k, v) # ps) = (is_json v \<and> members_json ps)"

fun conforms :: "ty \<Rightarrow> jsval \<Rightarrow> bool"
  and conforms_fields :: "(jsstr \<times> bool \<times> ty) list \<Rightarrow> jsval \<Rightarrow> bool"
  and conforms_union :: "ty list \<Rightarrow> jsval \<Rightarrow> bool" where
  "conforms TString v = is_string v"
| "conforms TNumber v = (case v of JNum _ \<Rightarrow> True | _ \<Rightarrow> False)"
| "conforms TBoolean v = (case v of JBool _ \<Rightarrow> True | _ \<Rightarrow> False)"
| "conforms TNull v = (v = JNull)"
| "conforms TJson v = is_json v"
| "conforms (TLit s) v = (v = JStr s)"
| "conforms (TArray t) v = (case v of JArr xs \<Rightarrow> list_all (conforms t) xs | _ \<Rightarrow> False)"
| "conforms (TRecord t) v = (case v of JObj ps \<Rightarrow> list_all (\<lambda>p. conforms t (snd p)) ps | _ \<Rightarrow> False)"
| "conforms (TObject fs) v = ((case v of JObj _ \<Rightarrow> True | _ \<Rightarrow> False) \<and> conforms_fields fs v)"
| "conforms (TUnion ts) v = conforms_union ts v"
| "conforms_fields [] v = True"
| "conforms_fields ((k, optional, t) # fs) v =
     (((optional \<and> fld_str v k = JUndef) \<or> conforms t (fld_str v k)) \<and> conforms_fields fs v)"
| "conforms_union [] v = False"
| "conforms_union (t # ts) v = (conforms t v \<or> conforms_union ts v)"

section \<open>Reading fields of conforming values\<close>

named_theorems shapes \<open>what conforming to a declared shape says of a field\<close>

lemma conforms_fields_iff:
  "conforms_fields fs v \<longleftrightarrow>
     (\<forall>(k, optional, t)\<in>set fs. (optional \<and> fld_str v k = JUndef) \<or> conforms t (fld_str v k))"
  by (induction fs) auto

lemma conforms_union_iff: "conforms_union ts v \<longleftrightarrow> (\<exists>t\<in>set ts. conforms t v)"
  by (induction ts) auto

lemma conforms_one_of [simp]: "conforms (one_of ls) v \<longleftrightarrow> (\<exists>l\<in>set ls. v = JStr (js l))"
  by (auto simp: one_of_def conforms_union_iff)

lemma conforms_need:
  "conforms (TObject fs) v \<Longrightarrow> need k t \<in> set fs \<Longrightarrow> conforms t (fld v k)"
  by (fastforce simp: need_def fld_def conforms_fields_iff)

lemma conforms_may:
  "conforms (TObject fs) v \<Longrightarrow> may k t \<in> set fs \<Longrightarrow> fld v k = JUndef \<or> conforms t (fld v k)"
  by (fastforce simp: may_def fld_def conforms_fields_iff)

lemma conforms_object: "conforms (TObject fs) v \<Longrightarrow> \<exists>ps. v = JObj ps"
  by (cases v) auto

lemma undef_conforms [simp]: "\<not> conforms t JUndef"
  and "conforms_fields fs v \<Longrightarrow> True" and undef_conforms_union [simp]: "\<not> conforms_union ts JUndef"
proof (induction t "JUndef" and fs v and ts "JUndef" rule: conforms_conforms_fields_conforms_union.induct)
qed auto

lemma conforms_not_nullish: "conforms (TObject fs) v \<Longrightarrow> \<not> nullish v"
  by (auto dest!: conforms_object simp: nullish_def)

lemma conforms_string: "conforms TString v \<Longrightarrow> \<exists>s. v = JStr s"
  by (cases v) auto

lemma conforms_number: "conforms TNumber v \<Longrightarrow> \<exists>x. v = JNum x"
  by (cases v) auto

lemma conforms_boolean: "conforms TBoolean v \<Longrightarrow> \<exists>b. v = JBool b"
  by (cases v) auto

lemma conforms_array: "conforms (TArray t) v \<Longrightarrow> \<exists>xs. v = JArr xs \<and> (\<forall>x\<in>set xs. conforms t x)"
  by (cases v) (auto simp: list_all_iff)

end
