(* ===== verification/Api_Contracts.thy ===== *)
theory Api_Contracts
  imports Api_Types
begin

text \<open>
  The shapes of \<open>lib/api-client/contracts.ts\<close>, one definition per type alias, under the same
  name in snake case. A field's type that other aliases refer to by an indexed access, as in
  \<open>RunContract["status"]\<close>, has a definition of its own; aliases stand after the ones they use.
\<close>

definition api_meta :: ty where
  "api_meta = TObject
      [need ''requestId'' TString,
       may ''page'' (TObject
          [need ''limit'' TNumber, need ''total'' TNumber, may ''nextCursor'' TString])]"

definition api_success :: "ty \<Rightarrow> ty" where
  "api_success t = TObject
      [need ''data'' t, need ''meta'' api_meta]"

definition api_error_response :: ty where
  "api_error_response = TObject
      [need ''error'' (TObject
          [need ''code'' TString, need ''message'' TString,
           may ''details'' (TObject
              [may ''fields'' (TArray (TObject
                  [need ''path'' TString, need ''message'' TString]))])]),
       need ''meta'' api_meta]"

definition monitor_state :: ty where
  "monitor_state = one_of [''DRAFT'', ''PUBLISHED'', ''ENABLED'', ''DISABLED'', ''ARCHIVED'']"

definition monitor_health :: ty where
  "monitor_health = one_of [''UNKNOWN'', ''HEALTHY'', ''WARNING'', ''FAILING'', ''PAUSED'']"

definition monitor_contract :: ty where
  "monitor_contract = TObject
      [need ''id'' TString, need ''name'' TString, need ''slug'' TString,
       may ''description'' TString, may ''ownerId'' TString, need ''tags'' (TArray TString),
       may ''environmentId'' TString, need ''state'' monitor_state,
       need ''health'' monitor_health, need ''enabled'' TBoolean, need ''stepCount'' TNumber,
       may ''scheduleSummary'' TString, may ''successRate24h'' TNumber,
       may ''lastLatencyMs'' TNumber, may ''lastRunAt'' TString,
       may ''currentDraftRevisionId'' TString, may ''latestPublishedRevisionId'' TString,
       need ''updatedAt'' TString]"

definition revision_contract :: ty where
  "revision_contract = TObject
      [need ''id'' TString, need ''monitorId'' TString, need ''revisionNumber'' TNumber,
       need ''status'' (one_of [''DRAFT'', ''PUBLISHED'']), need ''schemaVersion'' TNumber,
       need ''definition'' (TRecord TJson), may ''changeSummary'' TString,
       may ''publishedBy'' TString, may ''publishedAt'' TString, need ''createdBy'' TString,
       need ''createdAt'' TString]"

definition schedule_contract :: ty where
  "schedule_contract = TObject
      [may ''id'' TString, may ''monitorId'' TString,
       need ''type'' (one_of [''MANUAL'', ''INTERVAL'', ''CRON'']), may ''expression'' TString,
       may ''intervalSeconds'' TNumber, need ''timezone'' TString,
       need ''jitterSeconds'' TNumber,
       need ''concurrencyPolicy'' (one_of [''SKIP_IF_RUNNING'', ''QUEUE'', ''ALLOW'']),
       need ''missedRunPolicy'' (one_of [''SKIP'', ''RUN_ONCE'']), need ''active'' TBoolean,
       may ''nextRunAt'' TString]"

definition alert_source_type :: ty where
  "alert_source_type = one_of [''RHYTHM_MONITOR'', ''RHYTHM_BROWSER_MONITOR'', ''OPENSEARCH_ALERTING'']"

definition alert_state :: ty where
  "alert_state = one_of [''OPEN'', ''ACKNOWLEDGED'', ''RESOLVED'', ''SUPPRESSED'', ''ERROR'']"

definition alert_severity :: ty where
  "alert_severity = one_of [''INFO'', ''LOW'', ''WARNING'', ''HIGH'', ''CRITICAL'']"

definition alert_contract :: ty where
  "alert_contract = TObject
      [need ''id'' TString, need ''sourceType'' alert_source_type, may ''monitorId'' TString,
       may ''monitorName'' TString, may ''browserMonitorId'' TString,
       may ''browserMonitorName'' TString, may ''applicationId'' TString,
       may ''applicationName'' TString, may ''applicationCarId'' TString,
       may ''serviceId'' TString, may ''serviceName'' TString, may ''receiverId'' TString,
       need ''state'' alert_state,
       may ''upstreamState'' (one_of [''ACTIVE'', ''ACKNOWLEDGED'', ''COMPLETED'', ''DELETED'', ''ERROR'']),
       need ''severity'' alert_severity, need ''title'' TString, may ''description'' TString,
       may ''failureCategory'' TString, may ''failedStepId'' TString,
       need ''consecutiveFailures'' TNumber, may ''externalMonitorId'' TString,
       may ''externalMonitorName'' TString,
       may ''externalMonitorType'' (one_of [''QUERY_LEVEL'', ''BUCKET_LEVEL'', ''DOCUMENT_LEVEL'']),
       may ''externalTriggerId'' TString, may ''externalTriggerName'' TString,
       may ''externalAlertId'' TString, may ''bucketKey'' TString, may ''hitCount'' TNumber,
       need ''evidence'' (TRecord TJson), may ''dashboardUrl'' TString,
       may ''firstTriggeredAt'' TString, may ''lastTriggeredAt'' TString,
       may ''lastReceivedAt'' TString, may ''lastReconciledAt'' TString,
       may ''acknowledgedAt'' TString, may ''acknowledgedBy'' TString,
       may ''resolvedAt'' TString, need ''createdAt'' TString, need ''updatedAt'' TString]"

definition alert_event_contract :: ty where
  "alert_event_contract = TObject
      [need ''id'' TString, need ''eventType'' TString, may ''upstreamState'' TString,
       need ''summary'' TString, need ''evidence'' (TRecord TJson), need ''occurredAt'' TString]"

definition investigation_item_contract :: ty where
  "investigation_item_contract = TObject
      [need ''id'' TString, need ''kind'' (one_of [''ELF_QUERY'', ''DYNATRACE'']),
       need ''label'' TString, may ''queryId'' TString, may ''applicationId'' TString,
       may ''environmentBindingId'' TString, may ''serviceIds'' (TArray TString),
       need ''status'' (one_of [''PENDING'', ''RUNNING'', ''PASSED'', ''FAILED'', ''ERROR'', ''SKIPPED'']),
       need ''attempt'' TNumber, need ''summary'' TString, need ''evidence'' (TRecord TJson),
       may ''lastError'' TString, may ''startedAt'' TString, may ''endedAt'' TString,
       may ''elfHref'' TString, may ''dynatraceHref'' TString]"

definition investigation_report_contract :: ty where
  "investigation_report_contract = TObject
      [need ''alertId'' TString, may ''runId'' TString,
       need ''items'' (TArray investigation_item_contract)]"

definition open_search_alert_receiver_contract :: ty where
  "open_search_alert_receiver_contract = TObject
      [need ''id'' TString, need ''applicationId'' TString, need ''applicationName'' TString,
       may ''applicationCarId'' TString, may ''serviceId'' TString, may ''serviceName'' TString,
       need ''name'' TString, need ''enabled'' TBoolean, may ''dashboardUrl'' TString,
       need ''expectedMonitorTypes'' (TArray (one_of [''QUERY_LEVEL'', ''BUCKET_LEVEL'', ''DOCUMENT_LEVEL''])),
       need ''reconciliationIntervalSeconds'' TNumber, may ''lastDeliveryAt'' TString,
       may ''lastReconciledAt'' TString,
       need ''lastReconciliationStatus'' (one_of [''NOT_RUN'', ''SUCCESS'', ''FAILED'']),
       may ''lastReconciliationError'' TString, need ''createdAt'' TString,
       need ''updatedAt'' TString, may ''token'' TString]"

definition open_search_alert_setup_contract :: ty where
  "open_search_alert_setup_contract = TObject
      [need ''receiverId'' TString, need ''webhookPath'' TString, need ''webhookUrl'' TString,
       need ''headers'' (TRecord TString), need ''queryTemplate'' TString,
       need ''bucketTemplate'' TString, need ''documentTemplate'' TString,
       need ''dashboardSteps'' (TArray TString), need ''credentialWarning'' TString]"

definition open_search_alert_delivery_contract :: ty where
  "open_search_alert_delivery_contract = TObject
      [need ''id'' TString,
       need ''status'' (one_of [''ACCEPTED'', ''PROCESSED'', ''REJECTED'', ''DUPLICATE'']),
       need ''schemaVersion'' TString, need ''eventCount'' TNumber, may ''safeError'' TString,
       need ''evidence'' (TRecord TJson), need ''receivedAt'' TString,
       may ''processedAt'' TString]"

definition open_search_alert_service_assignment_contract :: ty where
  "open_search_alert_service_assignment_contract = TObject
      [need ''assignedCount'' TNumber, may ''serviceId'' TString, may ''serviceName'' TString]"

definition audit_event_contract :: ty where
  "audit_event_contract = TObject
      [need ''id'' TString, may ''actorId'' TString, need ''action'' TString,
       need ''resourceType'' TString, need ''resourceId'' TString,
       need ''outcome'' (one_of [''SUCCESS'', ''FAILURE'']), may ''correlationId'' TString,
       need ''createdAt'' TString]"

definition search_monitor_hit :: ty where
  "search_monitor_hit = TObject
      [need ''id'' TString, need ''name'' TString, need ''slug'' TString,
       may ''description'' TString, need ''state'' monitor_state,
       need ''health'' monitor_health, need ''tags'' (TArray TString)]"

definition run_status :: ty where
  "run_status = one_of [''QUEUED'', ''STARTING'', ''RUNNING'', ''SUCCESS'', ''SUCCESS_WITH_WARNINGS'',
        ''FAILED'', ''TIMED_OUT'', ''CANCELLED'', ''ABORTED'', ''SKIPPED_CONDITION'']"

definition search_run_hit :: ty where
  "search_run_hit = TObject
      [need ''id'' TString, need ''monitorId'' TString, may ''monitorName'' TString,
       need ''status'' run_status, may ''triggerType'' TString, may ''failureCategory'' TString,
       need ''createdAt'' TString]"

definition search_alert_hit :: ty where
  "search_alert_hit = TObject
      [need ''id'' TString, need ''title'' TString, need ''state'' alert_state,
       need ''severity'' alert_severity, need ''sourceType'' alert_source_type,
       may ''monitorId'' TString, may ''monitorName'' TString, may ''applicationName'' TString,
       may ''serviceName'' TString, may ''description'' TString]"

definition search_resource_hit :: ty where
  "search_resource_hit = TObject
      [need ''kind'' (one_of [''APPLICATION'', ''SERVICE'', ''BROWSER_MONITOR'', ''ELF_QUERY'', ''ELF_RUN'',
            ''SUITE'', ''DEPLOYMENT_RUN'', ''CONFIGURATION'']),
       need ''id'' TString, need ''name'' TString, may ''description'' TString,
       may ''context'' TString, may ''applicationId'' TString, may ''queryId'' TString,
       may ''status'' TString]"

definition search_results_contract :: ty where
  "search_results_contract = TObject
      [need ''query'' TString, need ''monitors'' (TArray search_monitor_hit),
       need ''runs'' (TArray search_run_hit), need ''alerts'' (TArray search_alert_hit),
       need ''resources'' (TArray search_resource_hit)]"

definition configuration_profile_contract :: ty where
  "configuration_profile_contract = TObject
      [need ''id'' TString,
       need ''kind'' (one_of [''ENVIRONMENT'', ''SECRET_REFERENCE'', ''CERTIFICATE'', ''PROXY'', ''AUTH'',
            ''NOTIFICATION'', ''TELEMETRY'']),
       need ''name'' TString, may ''description'' TString, need ''profileType'' TString,
       need ''config'' (TRecord TJson), need ''active'' TBoolean, need ''updatedAt'' TString]"

definition validation_suite_contract :: ty where
  "validation_suite_contract = TObject
      [need ''id'' TString, need ''name'' TString, may ''description'' TString,
       may ''environment'' TString,
       need ''stages'' (TArray (TObject
          [need ''id'' TString, need ''name'' TString, need ''order'' TNumber,
           need ''checks'' (TArray (TObject
              [need ''id'' TString,
               need ''kind'' (one_of [''MONITOR'', ''BROWSER_MONITOR'', ''ELF_QUERY'', ''OPENSEARCH_ALERT'',
                    ''DYNATRACE_INFRASTRUCTURE'']),
               may ''monitorId'' TString, may ''browserMonitorId'' TString,
               may ''checkpointIds'' (TArray TString),
               may ''performanceBudgetIds'' (TArray TString), may ''queryId'' TString,
               may ''receiverId'' TString, may ''externalMonitorId'' TString,
               may ''externalTriggerId'' TString, may ''externalMonitorName'' TString,
               may ''externalTriggerName'' TString, may ''name'' TString,
               need ''required'' TBoolean, may ''applicationId'' TString,
               may ''environmentBindingId'' TString, may ''serviceIds'' (TArray TString),
               may ''ruleIds'' (TArray TString),
               may ''gateMode'' (one_of [''ADVISORY'', ''BLOCKING''])]))])),
       need ''parallelism'' TNumber, need ''failFast'' TBoolean,
       need ''timeoutSeconds'' TNumber, need ''baselinePolicy'' TString,
       need ''notificationPolicy'' TString, need ''updatedAt'' TString]"

definition validation_suite_run_results :: ty where
  "validation_suite_run_results = TArray (TObject
      [need ''stageId'' TString, need ''stageName'' TString, need ''checkId'' TString,
       need ''kind'' (one_of [''MONITOR'', ''BROWSER_MONITOR'', ''ELF_QUERY'', ''OPENSEARCH_ALERT'',
            ''DYNATRACE_INFRASTRUCTURE'']),
       may ''monitorId'' TString, may ''browserMonitorId'' TString, may ''queryId'' TString,
       may ''queryRevisionId'' TString, may ''elfRunId'' TString, may ''alertId'' TString,
       may ''receiverId'' TString, may ''externalMonitorId'' TString,
       may ''externalTriggerId'' TString, may ''externalMonitorName'' TString,
       may ''externalTriggerName'' TString, may ''alertState'' TString,
       may ''upstreamState'' TString, may ''name'' TString, need ''required'' TBoolean,
       need ''status'' TString, may ''monitorRunId'' TString, may ''browserRunId'' TString,
       may ''gateMode'' TString, may ''decision'' TString, may ''hitCount'' TNumber,
       may ''resolvedIndex'' TString, may ''failureCategory'' TString,
       may ''failureReason'' TString, need ''durationMs'' TNumber])"

definition validation_suite_run_contract :: ty where
  "validation_suite_run_contract = TObject
      [need ''id'' TString, need ''suiteId'' TString,
       need ''status'' (one_of [''QUEUED'', ''RUNNING'', ''CANCELLING'', ''PASSED'', ''PASSED_WITH_WARNINGS'',
            ''FAILED'', ''TIMED_OUT'', ''CANCELLED'']),
       need ''gateDecision'' (one_of [''PENDING'', ''ALLOW'', ''ALLOW_WITH_WARNINGS'', ''BLOCK'']),
       need ''triggerType'' TString, may ''triggerSource'' TString,
       need ''results'' validation_suite_run_results, need ''startedAt'' TString,
       may ''endedAt'' TString, need ''durationMs'' TNumber]"

definition deployment_distribution_contract :: ty where
  "deployment_distribution_contract = TObject
      [need ''sampleCount'' TNumber, need ''completedCount'' TNumber,
       need ''successCount'' TNumber, need ''failureCount'' TNumber,
       need ''timeoutCount'' TNumber, need ''successRate'' TNumber, need ''errorRate'' TNumber,
       need ''timeoutRate'' TNumber, may ''minMs'' TNumber, may ''averageMs'' TNumber,
       may ''p50Ms'' TNumber, may ''p75Ms'' TNumber, may ''p90Ms'' TNumber,
       may ''p95Ms'' TNumber, may ''p99Ms'' TNumber, may ''maxMs'' TNumber,
       may ''standardDeviationMs'' TNumber,
       may ''failureCategories'' (TUnion [TRecord TNumber, TNull]),
       may ''series'' (TUnion [TArray (TObject
          [may ''runId'' TString, need ''valueMs'' TNumber, need ''createdAt'' TString]), TNull])]"

definition dynatrace_statistics_contract :: ty where
  "dynatrace_statistics_contract = TObject
      [need ''sampleCount'' TNumber, may ''minimum'' TNumber, may ''maximum'' TNumber,
       may ''average'' TNumber, may ''latest'' TNumber, may ''p50'' TNumber, may ''p95'' TNumber]"

definition dynatrace_rule_result_contract :: ty where
  "dynatrace_rule_result_contract = TObject
      [need ''ruleId'' TString, need ''ruleName'' TString, need ''status'' TString,
       need ''gateMode'' TString, need ''metric'' TString, need ''statistic'' TString,
       may ''observed'' TNumber, may ''baseline'' TNumber, need ''threshold'' TNumber,
       need ''operator'' TString, need ''coveragePercent'' TNumber, need ''reason'' TString]"

definition dynatrace_deployment_comparison_contract :: ty where
  "dynatrace_deployment_comparison_contract = TObject
      [need ''checkId'' TString, need ''name'' TString, need ''applicationId'' TString,
       need ''environmentBindingId'' TString, may ''serviceId'' TString,
       need ''required'' TBoolean, need ''gateMode'' (one_of [''ADVISORY'', ''BLOCKING'']),
       may ''baselineRunId'' TString, may ''postRunId'' TString, need ''status'' TString,
       need ''decision'' TString,
       need ''baselineSummary'' (TRecord dynatrace_statistics_contract),
       need ''postSummary'' (TRecord dynatrace_statistics_contract),
       need ''baselineResourceCount'' TNumber, need ''postResourceCount'' TNumber,
       need ''addedResources'' TNumber, need ''missingResources'' TNumber,
       need ''ruleResults'' (TArray dynatrace_rule_result_contract),
       may ''failureCategory'' TString, may ''failureReason'' TString]"

definition deployment_validation_run_contract :: ty where
  "deployment_validation_run_contract = TObject
      [need ''id'' TString, need ''suiteId'' TString,
       need ''status'' (one_of [''QUEUED'', ''RUNNING'', ''CANCELLING'', ''CANCELLED'', ''FAILED'',
            ''COMPLETED'']),
       need ''phase'' TString,
       need ''gateDecision'' (one_of [''PENDING'', ''ALLOW'', ''ALLOW_WITH_WARNINGS'', ''BLOCK'']),
       need ''progress'' (TObject
          [need ''completed'' TNumber, need ''total'' TNumber, need ''message'' TString]),
       need ''deployment'' (TObject
          [may ''deploymentId'' TString, may ''version'' TString, may ''commit'' TString,
           may ''applicationId'' TString, may ''environment'' TString, may ''notes'' TString,
           need ''deploymentStart'' TString, may ''deploymentCompletedAt'' TString]),
       need ''configuration'' (TObject
          [need ''baselineWindow'' (one_of [''24h'', ''7d'', ''30d'']),
           need ''sampleCount'' TNumber, need ''sampleIntervalSeconds'' TNumber,
           need ''minimumSamples'' TNumber, may ''browserSampleCount'' TNumber,
           need ''regressionPercent'' TNumber, need ''regressionMinimumMs'' TNumber,
           may ''monitorRevisionIds'' (TRecord TString),
           may ''browserRevisionIds'' (TRecord TString),
           may ''elfRevisionIds'' (TRecord TString),
           may ''dynatraceRevisionNumbers'' (TRecord TNumber)]),
       need ''suiteSnapshot'' validation_suite_contract,
       need ''report'' (TObject
          [may ''runId'' TString, may ''suiteId'' TString, may ''suiteName'' TString,
           may ''status'' TString, may ''gateDecision'' TString, may ''recommendation'' TString,
           may ''baselineFrom'' TString, may ''baselineTo'' TString, may ''postFrom'' TString,
           may ''postTo'' TString, may ''warnings'' (TArray TString),
           may ''reasons'' (TArray TString),
           may ''monitors'' (TArray (TObject
              [need ''checkId'' TString, need ''monitorId'' TString,
               need ''monitorName'' TString, need ''revisionId'' TString,
               need ''required'' TBoolean, need ''baseline'' deployment_distribution_contract,
               need ''post'' deployment_distribution_contract, need ''classification'' TString,
               need ''deltaMs'' TNumber, need ''deltaPercent'' TNumber,
               need ''reasons'' (TArray TString),
               need ''samples'' (TArray (TObject
                  [need ''id'' TString, need ''monitorId'' TString,
                   may ''monitorRunId'' TString, need ''sampleNumber'' TNumber,
                   need ''status'' TString, need ''durationMs'' TNumber,
                   may ''failureCategory'' TString, need ''createdAt'' TString])),
               need ''steps'' (TArray (TObject
                  [need ''stepDefinitionId'' TString, need ''stepName'' TString,
                   need ''baseline'' deployment_distribution_contract,
                   need ''post'' deployment_distribution_contract,
                   need ''classification'' TString, need ''deltaMs'' TNumber,
                   need ''deltaPercent'' TNumber]))])),
           may ''browserMonitors'' (TArray (TObject
              [need ''checkId'' TString, need ''browserMonitorId'' TString,
               need ''monitorName'' TString, need ''revisionId'' TString,
               need ''required'' TBoolean, need ''baseline'' deployment_distribution_contract,
               need ''post'' deployment_distribution_contract, need ''classification'' TString,
               need ''deltaMs'' TNumber, need ''deltaPercent'' TNumber,
               need ''reasons'' (TArray TString),
               need ''samples'' (TArray (TObject
                  [need ''id'' TString, need ''browserMonitorId'' TString,
                   may ''browserRunId'' TString, need ''sampleNumber'' TNumber,
                   need ''status'' TString, need ''durationMs'' TNumber,
                   may ''failureCategory'' TString, need ''createdAt'' TString]))])),
           may ''elfResults'' validation_suite_run_results,
           may ''alertResults'' validation_suite_run_results,
           may ''dynatraceResults'' (TArray dynatrace_deployment_comparison_contract),
           may ''generatedAt'' TString]),
       may ''failureReason'' TString, may ''startedAt'' TString, may ''endedAt'' TString,
       need ''createdAt'' TString, need ''updatedAt'' TString]"

definition deployment_validation_run_summary_contract :: ty where
  "deployment_validation_run_summary_contract = both_ty (pick_ty deployment_validation_run_contract [''id'', ''suiteId'', ''status'', ''phase'', ''gateDecision'', ''progress'',
        ''deployment'', ''failureReason'', ''startedAt'', ''endedAt'', ''createdAt'',
        ''updatedAt''])
      (TObject
        [need ''suiteSnapshot'' (pick_ty validation_suite_contract [''name''])])"

definition dynatrace_environment_binding_contract :: ty where
  "dynatrace_environment_binding_contract = TObject
      [need ''id'' TString, need ''applicationId'' TString,
       need ''environmentProfileId'' TString, need ''environmentName'' TString,
       need ''environmentType'' TString, may ''baseUrlHost'' TString, need ''enabled'' TBoolean,
       need ''dynatraceConfigured'' TBoolean, need ''createdAt'' TString,
       need ''updatedAt'' TString]"

definition dynatrace_metric_mapping_contract :: ty where
  "dynatrace_metric_mapping_contract = TObject
      [may ''cpu'' TString, may ''memory'' TString, may ''hydraCpu'' TString,
       may ''hydraMemory'' TString, may ''timsCpu'' TString, may ''timsMemory'' TString]"

definition dynatrace_resource_mapping_contract :: ty where
  "dynatrace_resource_mapping_contract = TObject
      [may ''id'' TString, may ''serviceId'' TString,
       need ''platform'' (one_of [''HYDRA'', ''TIMS'']), need ''entityType'' TString,
       need ''mappingType'' (one_of [''ENTITY_ID'', ''TAG'', ''HOST_GROUP'', ''NAMESPACE'', ''WORKLOAD'',
            ''CONTAINER_GROUP'', ''CLUSTER'', ''HOST'']),
       need ''value'' TString, may ''label'' TString, need ''enabled'' TBoolean]"

definition dynatrace_rule_contract :: ty where
  "dynatrace_rule_contract = TObject
      [may ''id'' TString, may ''serviceId'' TString, need ''name'' TString,
       need ''metric'' (one_of [''CPU'', ''MEMORY'']),
       need ''statistic'' (one_of [''AVERAGE'', ''MAXIMUM'', ''LATEST'', ''P50'', ''P95'']),
       need ''operator'' (one_of [''GT'', ''GTE'', ''LT'', ''LTE'', ''EQ'']),
       need ''threshold'' TNumber,
       need ''comparison'' (one_of [''ABSOLUTE'', ''BASELINE_ABSOLUTE'', ''BASELINE_PERCENT'']),
       need ''scope'' (one_of [''APPLICATION'', ''SERVICE'', ''RESOURCE'']),
       need ''gateMode'' (one_of [''ADVISORY'', ''BLOCKING'']),
       may ''minimumCoveragePercent'' TNumber, need ''consecutivePoints'' TNumber,
       need ''enabled'' TBoolean]"

definition dynatrace_configuration_contract :: ty where
  "dynatrace_configuration_contract = TObject
      [need ''id'' TString, need ''applicationId'' TString,
       need ''environmentBindingId'' TString, need ''connectionProfileId'' TString,
       may ''connectionName'' TString, may ''baseUrl'' TString,
       may ''credentialSecretRef'' TString, may ''effectiveCredential'' TString,
       need ''platforms'' (TArray (one_of [''HYDRA'', ''TIMS''])),
       need ''managementZones'' (TArray TString),
       need ''metricMappings'' dynatrace_metric_mapping_contract,
       need ''baselineWindowSeconds'' TNumber, need ''stabilizationSeconds'' TNumber,
       need ''postWindowSeconds'' TNumber, need ''enabled'' TBoolean,
       need ''revisionNumber'' TNumber,
       need ''lastTestStatus'' (one_of [''NOT_TESTED'', ''SUCCESS'', ''FAILED'']),
       may ''lastTestError'' TString, may ''lastTestAt'' TString,
       need ''resourceMappings'' (TArray dynatrace_resource_mapping_contract),
       need ''rules'' (TArray dynatrace_rule_contract),
       need ''serviceOverrides'' (TArray (TObject
          [need ''id'' TString, need ''serviceId'' TString, may ''serviceName'' TString,
           may ''credentialSecretRef'' TString, may ''effectiveCredential'' TString,
           need ''platforms'' (TArray (one_of [''HYDRA'', ''TIMS''])),
           need ''managementZones'' (TArray TString),
           need ''metricMappings'' dynatrace_metric_mapping_contract,
           need ''inheritResources'' TBoolean, need ''enabled'' TBoolean])),
       need ''createdAt'' TString, need ''updatedAt'' TString]"

definition dynatrace_entity_contract :: ty where
  "dynatrace_entity_contract = TObject
      [need ''id'' TString, need ''type'' TString, need ''name'' TString,
       need ''managementZones'' (TArray TString), need ''tags'' (TArray TString),
       may ''serviceId'' TString, may ''platform'' (one_of [''HYDRA'', ''TIMS''])]"

definition dynatrace_resource_preview_contract :: ty where
  "dynatrace_resource_preview_contract = TObject
      [need ''included'' (TArray dynatrace_entity_contract),
       need ''excluded'' (TArray (TRecord TJson)), need ''conflicts'' (TArray TString),
       need ''unmatchedRules'' (TArray TString), need ''compiledSelectors'' (TArray TString),
       need ''truncated'' TBoolean]"

definition dynatrace_run_contract :: ty where
  "dynatrace_run_contract = TObject
      [need ''id'' TString, need ''applicationId'' TString,
       need ''environmentBindingId'' TString, need ''applicationConfigId'' TString,
       may ''configRevisionId'' TString, may ''serviceId'' TString,
       may ''deploymentRunId'' TString,
       need ''status'' (one_of [''PASS'', ''WARNING'', ''FAIL'', ''NO_DATA'', ''PARTIAL_DATA'', ''ERROR'',
            ''SKIPPED'']),
       need ''decision'' (one_of [''PENDING'', ''ALLOW'', ''ALLOW_WITH_WARNINGS'', ''BLOCK'']),
       may ''platform'' TString, need ''timeFrom'' TString, need ''timeTo'' TString,
       need ''resourceCount'' TNumber, need ''coveredResourceCount'' TNumber,
       need ''coveragePercent'' TNumber,
       need ''summary'' (TRecord dynatrace_statistics_contract),
       need ''resources'' (TArray (TObject
          [need ''resourceId'' TString, may ''resourceName'' TString,
           may ''resourceType'' TString, need ''metric'' TString,
           may ''aggregation'' (one_of [''AVG'', ''MAX'']), may ''selector'' TString,
           may ''unit'' TString, need ''statistics'' dynatrace_statistics_contract,
           need ''series'' (TArray (TObject
              [need ''timestamp'' TString, may ''value'' TNumber]))])),
       need ''ruleResults'' (TArray dynatrace_rule_result_contract),
       need ''requestEvidence'' (TRecord TJson), may ''failureCategory'' TString,
       may ''failureReason'' TString, may ''correlationId'' TString, need ''createdAt'' TString,
       may ''completedAt'' TString]"

definition deployment_baseline_preview_contract :: ty where
  "deployment_baseline_preview_contract = TObject
      [need ''monitors'' (TArray (TObject
          [need ''monitorId'' TString, need ''monitorName'' TString, may ''revisionId'' TString,
           need ''baselineFrom'' TString, need ''baselineTo'' TString,
           need ''sampleCount'' TNumber, need ''minimumSamples'' TNumber,
           need ''compatible'' TBoolean, may ''reason'' TString])),
       need ''browserMonitors'' (TArray (TObject
          [need ''monitorId'' TString, need ''monitorName'' TString, may ''revisionId'' TString,
           need ''baselineFrom'' TString, need ''baselineTo'' TString,
           need ''sampleCount'' TNumber, need ''minimumSamples'' TNumber,
           need ''compatible'' TBoolean, may ''reason'' TString])),
       need ''totalAvailableSamples'' TNumber, need ''estimatedExecutions'' TNumber,
       need ''estimatedMaximumSeconds'' TNumber, need ''blockingDependencies'' (TArray TString)]"

definition agent_contract :: ty where
  "agent_contract = TObject
      [need ''id'' TString, need ''name'' TString, may ''groupId'' TString,
       need ''version'' TString,
       need ''status'' (one_of [''ACTIVE'', ''DRAINING'', ''REVOKED'']),
       need ''health'' (one_of [''HEALTHY'', ''OFFLINE'', ''DRAINING'', ''AT_CAPACITY'', ''REVOKED'']),
       need ''tags'' (TArray TString), need ''capabilities'' (TRecord TJson),
       need ''maxConcurrency'' TNumber, need ''activeRuns'' TNumber,
       may ''lastHeartbeatAt'' TString, may ''revokedAt'' TString, need ''createdAt'' TString,
       need ''updatedAt'' TString]"

definition script_problem_contract :: ty where
  "script_problem_contract = TObject
      [need ''severity'' (one_of [''error'', ''warning'']), need ''message'' TString,
       need ''line'' TNumber, need ''column'' TNumber, need ''code'' TString]"

definition script_log_contract :: ty where
  "script_log_contract = TObject
      [need ''level'' (one_of [''log'', ''info'', ''warn'', ''error'', ''debug'']),
       need ''message'' TString, need ''timestamp'' TString]"

definition script_test_contract :: ty where
  "script_test_contract = TObject
      [need ''name'' TString, need ''passed'' TBoolean, may ''skipped'' TBoolean,
       may ''error'' TString]"

definition script_change_contract :: ty where
  "script_change_contract = TObject
      [need ''scope'' TString, need ''key'' TString,
       need ''operation'' (one_of [''added'', ''updated'', ''removed'']), may ''before'' TJson,
       may ''after'' TJson, need ''state'' TString]"

definition script_result_contract :: ty where
  "script_result_contract = TObject
      [need ''status'' (one_of [''SUCCESS'', ''FAILED'']), need ''runtimeVersion'' TString,
       need ''durationMs'' TNumber, need ''logs'' (TArray script_log_contract),
       need ''tests'' (TArray script_test_contract),
       need ''variableChanges'' (TArray script_change_contract),
       need ''requestChanges'' (TArray script_change_contract),
       need ''auxiliaryRequests'' (TArray (TObject
          [may ''source'' TString, need ''method'' TString, need ''url'' TString,
           may ''status'' TNumber, need ''durationMs'' TNumber, may ''success'' TBoolean,
           may ''error'' TString])),
       may ''packageImports'' (TArray (TObject
          [need ''specifier'' TString, need ''registry'' TString, need ''version'' TString,
           need ''durationMs'' TNumber, need ''cached'' TBoolean])),
       need ''variables'' (TRecord TString), may ''service'' (TRecord TString),
       may ''application'' (TRecord TString), need ''environment'' (TRecord TString),
       need ''collection'' (TRecord TString), may ''globals'' (TRecord TString),
       may ''state'' (TRecord TJson), may ''request'' (TRecord TJson),
       may ''visualizer'' (TObject
          [need ''template'' TString, need ''data'' (TRecord TJson),
           may ''options'' (TRecord TJson)]),
       may ''execution'' (TObject
          [may ''requestSkipped'' TBoolean, may ''nextRequestSet'' TBoolean,
           may ''nextRequest'' TString]),
       need ''problems'' (TArray script_problem_contract), may ''errorCategory'' TString,
       may ''errorMessage'' TString, may ''errorLine'' TNumber, may ''errorColumn'' TNumber,
       may ''safeStack'' TString]"

definition attempt_run_contract :: ty where
  "attempt_run_contract = TObject
      [need ''id'' TString, need ''attemptNumber'' TNumber, need ''status'' run_status,
       may ''responseStatus'' TNumber, may ''failureCategory'' TString,
       may ''errorMessage'' TString, may ''requestSummary'' (TRecord TJson),
       may ''responseSummary'' (TRecord TJson), may ''timing'' (TRecord TJson),
       may ''tls'' (TRecord TJson), may ''proxy'' (TRecord TJson),
       may ''redirects'' (TArray (TRecord TJson)), may ''retryBackoffMs'' TNumber,
       need ''startedAt'' TString, need ''endedAt'' TString, need ''durationMs'' TNumber]"

definition step_run_contract :: ty where
  "step_run_contract = TObject
      [need ''id'' TString, need ''runId'' TString, need ''stepDefinitionId'' TString,
       need ''stepOrder'' TNumber, need ''stepName'' TString, need ''stepType'' TString,
       need ''status'' run_status, may ''requestSummary'' (TRecord TJson),
       may ''responseSummary'' (TRecord TJson), may ''timing'' (TRecord TJson),
       may ''tls'' (TRecord TJson), may ''proxy'' (TRecord TJson),
       need ''attemptCount'' TNumber, may ''attempts'' (TArray attempt_run_contract),
       need ''extractors'' (TArray (TObject
          [need ''variable'' TString, need ''source'' TString, may ''value'' TJson,
           need ''sensitive'' TBoolean, need ''success'' TBoolean, may ''error'' TString])),
       need ''assertions'' (TArray (TObject
          [need ''type'' TString, need ''expression'' TString, need ''expected'' TString,
           may ''observed'' TJson, need ''passed'' TBoolean, may ''error'' TString])),
       may ''outputs'' (TRecord TJson), may ''failureCategory'' TString,
       may ''errorMessage'' TString, need ''durationMs'' TNumber, may ''startedAt'' TString,
       may ''endedAt'' TString, may ''preRequestScript'' script_result_contract,
       may ''testScript'' script_result_contract]"

definition run_event_contract :: ty where
  "run_event_contract = TObject
      [need ''id'' TString, need ''sequence'' TNumber, need ''type'' TString,
       may ''status'' run_status, may ''stepRunId'' TString, may ''stepId'' TString,
       may ''attemptNumber'' TNumber, may ''category'' TString, need ''message'' TString,
       may ''details'' (TRecord TJson), need ''occurredAt'' TString, may ''durationMs'' TNumber]"

definition run_contract :: ty where
  "run_contract = TObject
      [need ''id'' TString, need ''monitorId'' TString, need ''revisionId'' TString,
       need ''status'' run_status, may ''failureCategory'' TString,
       may ''failureReason'' TString, may ''queueDelayMs'' TNumber,
       need ''warningCount'' TNumber, need ''durationMs'' TNumber,
       may ''apiResponseTimeMs'' TNumber, may ''preparationMs'' TNumber,
       may ''startedAt'' TString, may ''endedAt'' TString, need ''createdAt'' TString,
       need ''triggerType'' TString, may ''triggerSource'' TString, may ''agentId'' TString,
       may ''failedStepId'' TString, may ''executionContext'' (TRecord TJson),
       may ''alertImpact'' (TRecord TJson), may ''events'' (TArray run_event_contract),
       may ''steps'' (TArray step_run_contract), may ''setupScript'' script_result_contract]"

definition run_metric_bucket_counts_contract :: ty where
  "run_metric_bucket_counts_contract = TObject
      [need ''success'' TNumber, need ''failed'' TNumber, need ''timeout'' TNumber,
       may ''class1xx'' TNumber, need ''class2xx'' TNumber, need ''class3xx'' TNumber,
       need ''class4xx'' TNumber, need ''class5xx'' TNumber, need ''httpTimeout'' TNumber,
       need ''noResponse'' TNumber]"

definition run_metric_point_contract :: ty where
  "run_metric_point_contract = TObject
      [need ''runId'' TString, need ''status'' run_status, may ''failureCategory'' TString,
       need ''createdAt'' TString, may ''apiResponseTimeMs'' TNumber,
       need ''executionDurationMs'' TNumber, need ''preparationMs'' TNumber,
       need ''postProcessingMs'' TNumber, need ''networkTotalMs'' TNumber,
       need ''retryBackoffMs'' TNumber, need ''queueDelayMs'' TNumber,
       need ''retryCount'' TNumber, need ''warningCount'' TNumber, need ''spike'' TBoolean,
       may ''responseStatus'' TNumber, may ''bucketCounts'' run_metric_bucket_counts_contract]"

definition run_history_metrics_contract :: ty where
  "run_history_metrics_contract = TObject
      [need ''window'' (one_of [''24h'', ''7d'', ''30d'', ''90d'']),
       need ''windowStart'' TString, need ''windowEnd'' TString,
       need ''summary'' (TObject
          [need ''runCount'' TNumber, need ''measuredRunCount'' TNumber,
           need ''successRate'' TNumber, need ''errorRate'' TNumber,
           need ''timeoutRate'' TNumber, may ''averageResponseMs'' TNumber,
           may ''latestResponseMs'' TNumber, may ''latestChangePercent'' TNumber,
           may ''standardDeviationMs'' TNumber, need ''runsPerHour'' TNumber,
           need ''spikeCount'' TNumber, may ''averagePreparationMs'' TNumber,
           may ''averagePostProcessingMs'' TNumber, may ''averageExecutionMs'' TNumber,
           may ''averageQueueDelayMs'' TNumber]),
       need ''percentiles'' (TObject
          [may ''minMs'' TNumber, may ''p50Ms'' TNumber, may ''p75Ms'' TNumber,
           may ''p90Ms'' TNumber, may ''p95Ms'' TNumber, may ''p99Ms'' TNumber,
           may ''maxMs'' TNumber]),
       need ''statusDistribution'' (TRecord TNumber),
       need ''failureCategories'' (TRecord TNumber),
       may ''responseStatusDistribution'' (TRecord TNumber),
       need ''points'' (TArray run_metric_point_contract)]"

definition draft_monitor_preview_contract :: ty where
  "draft_monitor_preview_contract = TObject
      [need ''status'' run_status, need ''durationMs'' TNumber, may ''failureCategory'' TString,
       may ''failureReason'' TString, need ''steps'' (TArray step_run_contract),
       may ''setupScript'' script_result_contract]"

definition step_baseline_contract :: ty where
  "step_baseline_contract = TObject
      [need ''sampleCount'' TNumber, may ''p50Ms'' TNumber, may ''p95Ms'' TNumber,
       may ''changePercent'' TNumber,
       need ''classification'' (one_of [''INSUFFICIENT_HISTORY'', ''NORMAL'', ''REGRESSED'', ''IMPROVED'']),
       need ''mixedRevisions'' TBoolean]"

definition step_insight_contract :: ty where
  "step_insight_contract = TObject
      [need ''stepDefinitionId'' TString, need ''stepRunId'' TString, need ''rank'' TNumber,
       need ''durationMs'' TNumber, need ''durationShare'' TNumber,
       may ''apiResponseTimeMs'' TNumber, may ''apiResponseShare'' TNumber,
       may ''slowestPhase'' TString, may ''slowestPhaseMs'' TNumber,
       need ''baseline'' step_baseline_contract]"

definition failure_detail_contract :: ty where
  "failure_detail_contract = TObject
      [need ''phase'' TString, need ''category'' TString, need ''title'' TString,
       need ''message'' TString, may ''stepId'' TString, may ''stepName'' TString,
       may ''attemptNumber'' TNumber, may ''checkType'' TString, may ''expected'' TString,
       may ''observed'' TJson, need ''retryable'' TBoolean, need ''helpCode'' TString]"

definition run_diagnostics_contract :: ty where
  "run_diagnostics_contract = TObject
      [need ''run'' run_contract,
       need ''analysis'' (TObject
          [need ''stepTimeMs'' TNumber, need ''overheadMs'' TNumber,
           need ''apiResponseTimeMs'' TNumber, need ''networkTimeMs'' TNumber,
           need ''preparationTimeMs'' TNumber, need ''postProcessingMs'' TNumber,
           need ''retryCount'' TNumber, need ''retryTimeMs'' TNumber,
           may ''slowestStepId'' TString, may ''slowestStepName'' TString,
           may ''slowestStepMs'' TNumber, may ''slowestPhase'' TString,
           may ''slowestPhaseMs'' TNumber, need ''completedSteps'' TNumber,
           need ''failedSteps'' TNumber, need ''skippedSteps'' TNumber]),
       may ''primaryFailure'' failure_detail_contract,
       need ''steps'' (TArray step_insight_contract),
       need ''events'' (TArray run_event_contract)]"

definition elf_settings_contract :: ty where
  "elf_settings_contract = TObject
      [need ''baseUrl'' TString, may ''dashboardUrl'' TString,
       need ''defaultIndexPattern'' TString, need ''timeoutSeconds'' TNumber,
       need ''allowedIndexPatterns'' (TArray TString), may ''tlsProfileId'' TString,
       may ''proxyProfileId'' TString,
       need ''authMode'' (one_of [''NONE'', ''BASIC'', ''BEARER'']), may ''username'' TString,
       may ''credentialSecretRef'' TString, may ''credential'' TString,
       may ''hasCredential'' TBoolean, may ''updatedBy'' TString, may ''updatedAt'' TString]"

definition elf_service_contract :: ty where
  "elf_service_contract = TObject
      [need ''id'' TString, need ''applicationId'' TString, need ''name'' TString,
       may ''indexPattern'' TString, may ''timeField'' TString,
       need ''semanticMapping'' (TRecord TString), need ''createdAt'' TString,
       need ''updatedAt'' TString]"

definition elf_application_contract :: ty where
  "elf_application_contract = TObject
      [need ''id'' TString, may ''carId'' TString, need ''name'' TString, may ''owner'' TString,
       may ''environment'' TString, may ''defaultIndexPattern'' TString,
       need ''defaultTimeField'' TString, need ''maskingRules'' (TArray TString),
       need ''semanticMapping'' (TRecord TString), need ''alertEmails'' (TArray TString),
       need ''saharaEnabled'' TBoolean, may ''saharaAssignmentGroup'' TString,
       may ''saharaReporterGroup'' TString, may ''saharaEnvironmentAffected'' TString,
       may ''saharaEventGenerator'' TString, may ''saharaDefaultSeverity'' TString,
       need ''active'' TBoolean, need ''services'' (TArray elf_service_contract),
       need ''monitorIds'' (TArray TString), need ''createdAt'' TString,
       need ''updatedAt'' TString]"

definition elf_field_contract :: ty where
  "elf_field_contract = TObject
      [need ''path'' TString, need ''type'' TString, may ''role'' TString,
       need ''samples'' (TArray TJson), need ''usage'' TNumber]"

definition elf_run_contract :: ty where
  "elf_run_contract = TObject
      [need ''id'' TString, may ''queryId'' TString, may ''revisionId'' TString,
       need ''status'' (one_of [''SUCCESS'', ''FAILED'']),
       need ''decision'' (one_of [''PASS'', ''FAIL'', ''PENDING'']),
       need ''gateMode'' (one_of [''BLOCKING'', ''ADVISORY'']), may ''applicationId'' TString,
       may ''applicationName'' TString, may ''serviceId'' TString, may ''serviceName'' TString,
       need ''resolvedIndex'' TString, need ''timeFrom'' TString, need ''timeTo'' TString,
       need ''hitCount'' TNumber, need ''openSearchTookMs'' TNumber,
       need ''roundTripMs'' TNumber, need ''shardSummary'' (TRecord TJson),
       need ''aggregations'' (TRecord TJson), need ''rawResponse'' (TRecord TJson),
       need ''samples'' (TArray (TRecord TJson)),
       need ''sampleState'' (one_of [''CAPTURED'', ''EXPIRED'', ''NOT_CAPTURED'']),
       need ''truncation'' (TRecord TJson), need ''fields'' (TArray elf_field_contract),
       may ''failureCategory'' TString, may ''failureReason'' TString,
       need ''debug'' (TRecord TJson), need ''createdAt'' TString, may ''completedAt'' TString]"

definition elf_query_contract :: ty where
  "elf_query_contract = TObject
      [need ''id'' TString, need ''name'' TString, may ''description'' TString,
       need ''applicationId'' TString, need ''applicationName'' TString,
       may ''serviceId'' TString, may ''serviceName'' TString, may ''indexOverride'' TString,
       need ''active'' TBoolean, need ''currentRevisionId'' TString,
       need ''revisionNumber'' TNumber, need ''searchBody'' (TRecord TJson),
       need ''defaultWindowSeconds'' TNumber,
       need ''checkKind'' (one_of [''EXPRESSION'', ''HIT_COUNT'', ''AGGREGATION'']),
       need ''criteria'' (TRecord TJson),
       need ''gateMode'' (one_of [''BLOCKING'', ''ADVISORY'']),
       need ''discoveredSchema'' (TArray elf_field_contract),
       need ''semanticMapping'' (TRecord TString), may ''lastRun'' elf_run_contract,
       need ''createdAt'' TString, need ''updatedAt'' TString]"

definition elf_validation_contract :: ty where
  "elf_validation_contract = TObject
      [need ''valid'' TBoolean,
       need ''problems'' (TArray (TObject
          [need ''path'' TString, need ''code'' TString, need ''message'' TString])),
       may ''compiledBody'' (TRecord TJson), need ''policyNotes'' (TArray TString)]"

lemmas object_shapes = monitor_contract_def schedule_contract_def revision_contract_def run_contract_def
  alert_contract_def api_error_response_def api_success_def elf_application_contract_def

end
