(* ===== verification/Js_Sort.thy ===== *)
theory Js_Sort
  imports Prelude "HOL-Library.Multiset"
begin

text \<open>
  \<open>Array.prototype.sort\<close> with a comparator: the result of a stable sort is determined when the comparator is
  consistent, and insertion computes it.
\<close>

fun insert_by :: "('a \<Rightarrow> 'a \<Rightarrow> int) \<Rightarrow> 'a \<Rightarrow> 'a list \<Rightarrow> 'a list" where
  "insert_by cmp x [] = [x]"
| "insert_by cmp x (y # ys) = (if 0 < cmp x y then y # insert_by cmp x ys else x # y # ys)"

definition sort_by :: "('a \<Rightarrow> 'a \<Rightarrow> int) \<Rightarrow> 'a list \<Rightarrow> 'a list" where
  "sort_by cmp xs = foldr (insert_by cmp) xs []"

lemma mset_insert_by [simp]: "mset (insert_by cmp x xs) = add_mset x (mset xs)"
  by (induction xs) auto

lemma mset_sort_by [simp]: "mset (sort_by cmp xs) = mset xs"
  by (induction xs) (auto simp: sort_by_def)

lemma set_sort_by [simp]: "set (sort_by cmp xs) = set xs"
  by (metis mset_sort_by set_mset_mset)

lemma sorted_insert_by:
  assumes "transp (\<lambda>x y. cmp x y \<le> 0)" and "\<And>x y. 0 < cmp x y \<Longrightarrow> cmp y x \<le> 0"
  shows "sorted_wrt (\<lambda>x y. cmp x y \<le> 0) xs \<Longrightarrow> sorted_wrt (\<lambda>x y. cmp x y \<le> 0) (insert_by cmp x xs)"
proof (induction xs)
  case (Cons y ys)
  have "set (insert_by cmp x ys) = insert x (set ys)"
    by (metis mset_insert_by set_mset_add_mset_insert set_mset_mset)
  with Cons assms(2) [of x y] show ?case
    by (auto simp: not_less dest: transpD [OF assms(1)])
qed simp

lemma sorted_sort_by:
  assumes "transp (\<lambda>x y. cmp x y \<le> 0)" and "\<And>x y. 0 < cmp x y \<Longrightarrow> cmp y x \<le> 0"
  shows "sorted_wrt (\<lambda>x y. cmp x y \<le> 0) (sort_by cmp xs)"
  using sorted_insert_by [OF assms] by (induction xs) (auto simp: sort_by_def)

text \<open>Comparing by a difference of keys is sorting by the key, which is stable.\<close>

lemma insert_by_key: "insert_by (\<lambda>x y. f x - f y) = insort_key f"
proof (intro ext)
  show "insert_by (\<lambda>x y. f x - f y) x xs = insort_key f x xs" for x xs
    by (induction xs) auto
qed

lemma sort_by_key: "sort_by (\<lambda>x y. f x - f y) xs = sort_key f xs"
  by (simp add: sort_by_def sort_key_def insert_by_key)

end
