(* ===== verification/Api_Client.thy ===== *)
theory Api_Client
  imports Api_Contracts Js_Regex Js_Result Js_Sort
begin

text \<open>
  What the server functions of \<open>lib/api-client\<close> share. A server function is a computation that
  exchanges requests and replies with the Rhythm API: the API is a parameter, a function from the
  exchanges so far to the reply to the next request, so that it may answer differently over time.
  A computation returns a value or raises an exception, and in either case leaves the history of
  its exchanges, which is what the ordering properties speak of.
\<close>

section \<open>Requests, replies and computations\<close>

datatype http_verb = GET | POST | PUT | PATCH | DELETE

record http_request =
  hr_verb :: http_verb
  hr_url :: jsstr
  hr_headers :: "(jsstr \<times> jsstr) list"
  hr_body :: "jsstr option"
  hr_timeout :: nat

datatype reply =
    Unreachable \<comment> \<open>\<open>fetch\<close> rejects: no connection, or the timeout\<close>
  | Reply nat "jsval option" \<comment> \<open>a status, and the body read as JSON if it can be\<close>

type_synonym exchange = "http_request \<times> reply"
type_synonym server = "exchange list \<Rightarrow> http_request \<Rightarrow> reply"
type_synonym 'a api = "server \<Rightarrow> exchange list \<Rightarrow> (exn + 'a) \<times> exchange list"

definition retA :: "'a \<Rightarrow> 'a api" where
  "retA a = (\<lambda>s h. (Inr a, h))"

definition raiseA :: "exn \<Rightarrow> 'a api" where
  "raiseA e = (\<lambda>s h. (Inl e, h))"

definition bindA :: "'a api \<Rightarrow> ('a \<Rightarrow> 'b api) \<Rightarrow> 'b api" where
  "bindA m f = (\<lambda>s h. case m s h of (Inl e, h') \<Rightarrow> (Inl e, h') | (Inr a, h') \<Rightarrow> f a s h')"

definition catchA :: "'a api \<Rightarrow> 'a \<Rightarrow> 'a api" where \<comment> \<open>\<open>try { \<dots> } catch { return d }\<close>\<close>
  "catchA m d = (\<lambda>s h. case m s h of (Inl e, h') \<Rightarrow> (Inr d, h') | (Inr a, h') \<Rightarrow> (Inr a, h'))"

definition liftA :: "exn + 'a \<Rightarrow> 'a api" where
  "liftA m = (case m of Inl e \<Rightarrow> raiseA e | Inr a \<Rightarrow> retA a)"

definition fetchA :: "http_request \<Rightarrow> reply api" where
  "fetchA r = (\<lambda>s h.
     (case s h r of Unreachable \<Rightarrow> Inl NetworkError | p \<Rightarrow> Inr p, h @ [(r, s h r)]))"

definition bothA :: "http_request \<Rightarrow> http_request \<Rightarrow> (reply \<times> reply) api" where
  \<comment> \<open>\<open>Promise.all\<close> of two fetches: both are sent, and either may reject\<close>
  "bothA r q = (\<lambda>s h.
     let p = s h r; h' = h @ [(r, p)]; p' = s h' q; h'' = h' @ [(q, p')]
     in (if p = Unreachable \<or> p' = Unreachable then Inl NetworkError else Inr (p, p'), h''))"

fun mapA :: "('a \<Rightarrow> 'b api) \<Rightarrow> 'a list \<Rightarrow> 'b list api" where
  "mapA f [] = retA []"
| "mapA f (x # xs) = bindA (f x) (\<lambda>y. bindA (mapA f xs) (\<lambda>ys. retA (y # ys)))"

definition status_of :: "reply \<Rightarrow> nat" where
  "status_of p = (case p of Reply n _ \<Rightarrow> n | Unreachable \<Rightarrow> 0)"

definition is_ok :: "reply \<Rightarrow> bool" where \<comment> \<open>\<open>response.ok\<close>\<close>
  "is_ok p \<longleftrightarrow> 200 \<le> status_of p \<and> status_of p \<le> 299"

definition jsonA :: "reply \<Rightarrow> jsval api" where \<comment> \<open>\<open>await response.json()\<close>\<close>
  "jsonA p = (case p of Reply _ (Some v) \<Rightarrow> retA v | _ \<Rightarrow> raiseA SyntaxError)"

definition getA :: "jsval \<Rightarrow> string \<Rightarrow> jsval api" where \<comment> \<open>\<open>v.k\<close>\<close>
  "getA v k = (if nullish v then raiseA TypeError else retA (fld v k))"

definition encodeA :: "jsstr \<Rightarrow> jsstr api" where \<comment> \<open>\<open>encodeURIComponent\<close>\<close>
  "encodeA s = (case encode_uri s of Some e \<Rightarrow> retA e | None \<Rightarrow> raiseA URIError)"

definition errorA :: "jsstr \<Rightarrow> 'a api" where \<comment> \<open>\<open>throw new Error(m)\<close>\<close>
  "errorA m = raiseA (ErrorMsg m)"

section \<open>Idioms of the client\<close>

text \<open>
  The environment of the server functions: the variable \<open>RHYTHM_API_URL\<close>, the clock, and the parts
  of the platform that depend on its locale and time zone data.
\<close>

record client_env =
  ce_api_url :: "jsstr option"
  ce_now :: jsnum
  ce_date :: "jsval \<Rightarrow> jsnum" \<comment> \<open>\<open>new Date(v).getTime()\<close>\<close>
  ce_collate :: "jsstr \<Rightarrow> jsstr \<Rightarrow> int" \<comment> \<open>\<open>localeCompare\<close>\<close>

definition base_url :: "client_env \<Rightarrow> jsstr" where
  "base_url env = (case ce_api_url env of Some u \<Rightarrow> u | None \<Rightarrow> js ''http://localhost:8080'')"

definition loader_timeout :: nat where
  "loader_timeout = 20000"

definition accept_json :: "(jsstr \<times> jsstr) list" where
  "accept_json = [(js ''Accept'', js ''application/json'')]"

definition send_json :: "(jsstr \<times> jsstr) list" where
  "send_json = accept_json @ [(js ''Content-Type'', js ''application/json'')]"

definition api_get :: "client_env \<Rightarrow> jsstr \<Rightarrow> nat \<Rightarrow> reply api" where
  "api_get env path timeout =
     fetchA \<lparr>hr_verb = GET, hr_url = base_url env @ path, hr_headers = accept_json, hr_body = None,
             hr_timeout = timeout\<rparr>"

definition api_send :: "client_env \<Rightarrow> http_verb \<Rightarrow> jsstr \<Rightarrow> nat \<Rightarrow> reply api" where \<comment> \<open>no body\<close>
  "api_send env verb path timeout =
     fetchA \<lparr>hr_verb = verb, hr_url = base_url env @ path, hr_headers = accept_json, hr_body = None,
             hr_timeout = timeout\<rparr>"

definition api_json :: "client_env \<Rightarrow> http_verb \<Rightarrow> jsstr \<Rightarrow> jsval \<Rightarrow> nat \<Rightarrow> reply api" where
  "api_json env verb path v timeout =
     fetchA \<lparr>hr_verb = verb, hr_url = base_url env @ path, hr_headers = send_json,
             hr_body = Some (json_stringify 0 v), hr_timeout = timeout\<rparr>"

text \<open>\<open>(await response.json()).data\<close>, and the message of a failure with and without a default.\<close>

definition reply_data :: "reply \<Rightarrow> jsval api" where
  "reply_data p = bindA (jsonA p) (\<lambda>e. getA e ''data'')"

definition failure_text :: "reply \<Rightarrow> jsval api" where
  "failure_text p = bindA (jsonA p) (\<lambda>f. bindA (getA f ''error'') (\<lambda>e. getA e ''message''))"

definition failure_or :: "reply \<Rightarrow> string \<Rightarrow> jsval api" where
  "failure_or p d = bindA (failure_text p) (\<lambda>m. retA (or_else m (JStr (js d))))"

text \<open>\<open>{ ok: true, \<dots> }\<close> with its payload, and \<open>{ ok: false, message }\<close>.\<close>

datatype outcome = Done jsval | Refused jsval

definition refused :: "string \<Rightarrow> outcome" where
  "refused m = Refused (JStr (js m))"

text \<open>\<open>`${new URLSearchParams(\<dots>)}`\<close>\<close>

definition form_unit :: "nat option \<Rightarrow> jsstr" where
  "form_unit p =
     (let q = (case p of Some c \<Rightarrow> c | None \<Rightarrow> 65533) in
      if q = 32 then js ''+''
      else if is_alnum q \<or> q \<in> set (js ''*-._'') then [q]
      else concat (map percent_byte (utf8 q)))"

definition form_encode :: "jsstr \<Rightarrow> jsstr" where
  "form_encode s = concat (map form_unit (code_points s))"

definition query_string :: "(jsstr \<times> jsstr) list \<Rightarrow> jsstr" where
  "query_string ps = join (js ''&'') (map (\<lambda>(k, v). form_encode k @ js ''='' @ form_encode v) ps)"

definition set_param :: "string \<Rightarrow> jsstr option \<Rightarrow> (jsstr \<times> jsstr) list" where
  \<comment> \<open>\<open>if (v) parameters.set(k, v)\<close>\<close>
  "set_param k v = (case v of Some s \<Rightarrow> if s = [] then [] else [(js k, s)] | None \<Rightarrow> [])"

end
