(* ===== verification/Monitors_Client.thy ===== *)
theory Monitors_Client
  imports Api_Client
begin

text \<open>
  The server functions of \<open>lib/api-client/monitors.ts\<close>: listing, creating, running, editing and
  scheduling monitors, their alerts, revisions and configuration profiles. The validated input of a
  function is its arguments.
\<close>

section \<open>Summaries\<close>

definition monitor_status :: ty where
  "monitor_status = one_of [''healthy'', ''failing'', ''paused'', ''unknown'', ''warning'']"

definition monitor_summary :: ty where
  "monitor_summary = TObject
     [need ''id'' TString, need ''name'' TString, need ''slug'' TString,
      need ''description'' TString, need ''status'' monitor_status, need ''enabled'' TBoolean,
      need ''applicationId'' (TUnion [TString, TNull]), need ''application'' TString,
      need ''cadence'' TString, need ''tags'' (TArray TString), need ''owner'' TString,
      need ''successRate'' (TUnion [TNumber, TNull]), need ''latencyMs'' (TUnion [TNumber, TNull]),
      need ''lastRun'' TString, need ''stepCount'' TNumber,
      need ''state'' (one_of [''DRAFT'', ''PUBLISHED'', ''ENABLED'', ''DISABLED'', ''ARCHIVED''])]"

definition health_to_status :: "jsval \<Rightarrow> jsstr" where
  "health_to_status health =
     (if health = JStr (js ''HEALTHY'') then js ''healthy''
      else if health = JStr (js ''FAILING'') then js ''failing''
      else if health = JStr (js ''WARNING'') then js ''warning''
      else if health = JStr (js ''PAUSED'') then js ''paused''
      else js ''unknown'')"

text \<open>The three passes over a cadence: \<open>(\d+h)0m0s\b\<close>, \<open>(\d+h)0m\b\<close> and \<open>(\d+m)0s\b\<close>, keeping the group.\<close>

definition cadence_re :: "string \<Rightarrow> string \<Rightarrow> re" where
  "cadence_re unit tail = seq_re [Grp 1 (Seq (plus_re digit_re) (lit_re (js unit))), lit_re (js tail), WordB]"

definition keep_group :: "re \<Rightarrow> jsstr \<Rightarrow> jsstr" where
  "keep_group r s = sub_all r (\<lambda>_ m. case capture 1 m of Some c \<Rightarrow> c | None \<Rightarrow> []) s"

definition format_cadence_label :: "jsstr \<Rightarrow> jsstr" where
  "format_cadence_label s =
     keep_group (cadence_re ''m'' ''0s'')
       (keep_group (cadence_re ''h'' ''0m'') (keep_group (cadence_re ''h'' ''0m0s'') s))"

definition relative_time :: "client_env \<Rightarrow> jsval \<Rightarrow> jsstr" where
  "relative_time env v =
     (let elapsed = num_max (nnum 0) (num_round (num_div_nat (num_sub (ce_now env) (ce_date env v)) 1000)) in
      if num_less elapsed (nnum 60) then num_to_str elapsed @ js '' sec ago''
      else if num_less elapsed (nnum 3600) then num_to_str (num_floor (num_div_nat elapsed 60)) @ js '' min ago''
      else if num_less elapsed (nnum 86400) then num_to_str (num_floor (num_div_nat elapsed 3600)) @ js '' hr ago''
      else num_to_str (num_floor (num_div_nat elapsed 86400)) @ js '' days ago'')"

record linked_application =
  la_id :: jsval
  la_name :: jsval

definition to_monitor_summary :: "client_env \<Rightarrow> jsval \<Rightarrow> linked_application option \<Rightarrow> exn + jsval" where
  "to_monitor_summary env monitor application =
     (if nullish monitor then Inl TypeError
      else case coalesce (fld monitor ''scheduleSummary'') (JStr (js ''Manual only'')) of
        JStr cadence \<Rightarrow>
          Inr (JObj
            [(js ''id'', fld monitor ''id''), (js ''name'', fld monitor ''name''),
             (js ''slug'', fld monitor ''slug''),
             (js ''description'', coalesce (fld monitor ''description'') (JStr (js ''No description provided''))),
             (js ''status'', JStr (health_to_status (fld monitor ''health''))),
             (js ''enabled'', fld monitor ''enabled''),
             (js ''applicationId'', case application of Some a \<Rightarrow> coalesce (la_id a) JNull | None \<Rightarrow> JNull),
             (js ''application'', case application of
                 Some a \<Rightarrow> or_else (la_name a) (JStr (js ''Not assigned''))
               | None \<Rightarrow> JStr (js ''Not assigned'')),
             (js ''cadence'', JStr (format_cadence_label cadence)),
             (js ''tags'', if is_array (fld monitor ''tags'') then fld monitor ''tags'' else JArr []),
             (js ''owner'', coalesce (fld monitor ''ownerId'') (JStr (js ''Unassigned''))),
             (js ''successRate'', coalesce (fld monitor ''successRate24h'') JNull),
             (js ''latencyMs'', coalesce (fld monitor ''lastLatencyMs'') JNull),
             (js ''lastRun'', JStr (if truthy (fld monitor ''lastRunAt'')
                               then relative_time env (fld monitor ''lastRunAt'') else js ''Not run'')),
             (js ''stepCount'', fld monitor ''stepCount''), (js ''state'', fld monitor ''state'')])
      | _ \<Rightarrow> Inl TypeError)"

section \<open>Lists\<close>

text \<open>
  The map from monitors to applications, as the list of its insertions. Keys are compared as
  \<open>Map\<close> does: an object from one reply is never a key from another.
\<close>

record application_index =
  ai_applications :: "linked_application list"
  ai_by_monitor :: "(jsval \<times> linked_application) list"

definition add_application :: "(jsval \<Rightarrow> exn + jsval list) \<Rightarrow> jsval \<Rightarrow> application_index \<Rightarrow> application_index api" where
  "add_application monitors_of application ix =
     bindA (getA application ''id'') (\<lambda>i.
     let a = \<lparr>la_id = i, la_name = fld application ''name''\<rparr> in
     bindA (liftA (monitors_of (fld application ''monitorIds''))) (\<lambda>ms.
     retA \<lparr>ai_applications = ai_applications ix @ [a],
           ai_by_monitor = ai_by_monitor ix @ map (\<lambda>m. (m, a)) ms\<rparr>))"

fun add_applications :: "(jsval \<Rightarrow> exn + jsval list) \<Rightarrow> jsval list \<Rightarrow> application_index \<Rightarrow> application_index api" where
  "add_applications monitors_of [] ix = retA ix"
| "add_applications monitors_of (a # as) ix =
     bindA (add_application monitors_of a ix) (add_applications monitors_of as)"

definition no_applications :: application_index where
  "no_applications = \<lparr>ai_applications = [], ai_by_monitor = []\<rparr>"

definition application_of :: "application_index \<Rightarrow> jsval \<Rightarrow> linked_application option" where
  "application_of ix monitor_id =
     (if is_object monitor_id then None else map_of (rev (ai_by_monitor ix)) monitor_id)"

text \<open>Array.isArray(v) ? v : [], and \<open>v ?? []\<close> under \<open>for \<dots> of\<close>.\<close>

definition array_or_none :: "jsval \<Rightarrow> exn + jsval list" where
  "array_or_none v = (case v of JArr xs \<Rightarrow> Inr xs | _ \<Rightarrow> Inr [])"

definition iterate_or_none :: "jsval \<Rightarrow> exn + jsval list" where
  "iterate_or_none v = iterate (coalesce v (JArr []))"

text \<open>
  Sorting by name calls a method of each name as soon as there are two applications; a name that is
  not a string is left out of the model.
\<close>

definition sort_applications :: "client_env \<Rightarrow> linked_application list \<Rightarrow> linked_application list api" where
  "sort_applications env as =
     (if length as \<le> 1 then retA as
      else if list_all (\<lambda>a. is_string (la_name a)) as
      then retA (sort_by (\<lambda>l r. case (la_name l, la_name r) of
             (JStr x, JStr y) \<Rightarrow> ce_collate env x y | _ \<Rightarrow> 0) as)
      else raiseA IllTyped)"

record monitor_list =
  ml_monitors :: "jsval list"
  ml_applications :: "linked_application list"

definition get_request :: "client_env \<Rightarrow> jsstr \<Rightarrow> http_request" where
  "get_request env path =
     \<lparr>hr_verb = GET, hr_url = base_url env @ path, hr_headers = accept_json, hr_body = None,
      hr_timeout = loader_timeout\<rparr>"

definition api_status_error :: "reply \<Rightarrow> 'a api" where
  "api_status_error p = errorA (js ''Rhythm API returned '' @ dec (status_of p))"

definition summarize_monitors :: "client_env \<Rightarrow> application_index \<Rightarrow> jsval list \<Rightarrow> jsval list api" where
  "summarize_monitors env ix monitors =
     mapA (\<lambda>m. bindA (getA m ''id'') (\<lambda>i. liftA (to_monitor_summary env m (application_of ix i)))) monitors"

definition list_monitors :: "client_env \<Rightarrow> monitor_list api" where
  "list_monitors env =
     bindA (bothA (get_request env (js ''/api/v1/monitors'')) (get_request env (js ''/api/v1/applications''))) (\<lambda>(mr, ar).
     if \<not> is_ok mr then api_status_error mr
     else
     bindA (reply_data mr) (\<lambda>data.
     case data of
       JArr monitors \<Rightarrow>
         bindA (if is_ok ar
                then bindA (reply_data ar) (\<lambda>v. case v of
                       JArr as \<Rightarrow> add_applications array_or_none as no_applications
                     | _ \<Rightarrow> retA no_applications)
                else retA no_applications) (\<lambda>ix.
         bindA (summarize_monitors env ix monitors) (\<lambda>summaries.
         bindA (sort_applications env (ai_applications ix)) (\<lambda>as.
         retA \<lparr>ml_monitors = summaries, ml_applications = as\<rparr>)))
     | _ \<Rightarrow> errorA (js ''Rhythm API returned an invalid monitor list'')))"

record page_input =
  pi_query :: "jsstr option"
  pi_status :: "jsstr option"
  pi_application :: "jsstr option"
  pi_cursor :: "jsstr option"
  pi_limit :: nat

record monitor_page = monitor_list +
  mp_total :: jsval
  mp_next :: jsval

text \<open>\<open>envelope.meta.page?.total ?? envelope.data.length\<close> and \<open>envelope.meta.page?.nextCursor\<close>\<close>

definition page_of :: "jsval \<Rightarrow> jsval \<Rightarrow> (jsval \<times> jsval) api" where
  "page_of envelope data =
     bindA (getA envelope ''meta'') (\<lambda>meta.
     bindA (getA meta ''page'') (\<lambda>page.
     bindA (if nullish (fld page ''total'') then getA data ''length'' else retA (fld page ''total'')) (\<lambda>total.
     retA (total, fld page ''nextCursor''))))"

definition list_monitor_page :: "client_env \<Rightarrow> page_input \<Rightarrow> monitor_page api" where
  "list_monitor_page env inp =
     (let params = [(js ''limit'', dec (pi_limit inp))] @ set_param ''query'' (pi_query inp)
             @ set_param ''health'' (pi_status inp) @ set_param ''applicationId'' (pi_application inp)
             @ set_param ''cursor'' (pi_cursor inp)
      in
     bindA (bothA (get_request env (js ''/api/v1/monitors?'' @ query_string params))
                  (get_request env (js ''/api/v1/applications''))) (\<lambda>(mr, ar).
     if \<not> is_ok mr then api_status_error mr
     else
     bindA (jsonA mr) (\<lambda>envelope.
     bindA (getA envelope ''data'') (\<lambda>data.
     case data of
       JArr monitors \<Rightarrow>
         bindA (if is_ok ar
                then bindA (reply_data ar) (\<lambda>v. bindA (liftA (iterate_or_none v)) (\<lambda>as.
                       add_applications iterate_or_none as no_applications))
                else retA no_applications) (\<lambda>ix.
         bindA (summarize_monitors env ix monitors) (\<lambda>summaries.
         bindA (sort_applications env (ai_applications ix)) (\<lambda>as.
         bindA (page_of envelope data) (\<lambda>(total, next).
         retA \<lparr>ml_monitors = summaries, ml_applications = as, mp_total = total, mp_next = next\<rparr>))))
     | _ \<Rightarrow> errorA (js ''Rhythm API returned an invalid monitor page'')))))"

section \<open>One monitor\<close>

text \<open>\<open>(item.monitorIds ?? []).includes(id)\<close>, for an array and for a string.\<close>

definition includes_id :: "jsval \<Rightarrow> jsval \<Rightarrow> exn + bool" where
  "includes_id v i =
     (case coalesce v (JArr []) of
        JArr xs \<Rightarrow> Inr (\<not> is_object i \<and> i \<in> set xs)
      | JStr s \<Rightarrow> map_sum id (\<lambda>t. contains_str t s) (to_string i)
      | _ \<Rightarrow> Inl TypeError)"

fun find_linked :: "jsval \<Rightarrow> jsval list \<Rightarrow> linked_application option api" where
  "find_linked monitor [] = retA None"
| "find_linked monitor (a # as) =
     bindA (getA a ''monitorIds'') (\<lambda>ms.
     bindA (getA monitor ''id'') (\<lambda>i.
     bindA (liftA (includes_id ms i)) (\<lambda>hit.
     if hit then retA (Some \<lparr>la_id = fld a ''id'', la_name = fld a ''name''\<rparr>) else find_linked monitor as)))"

definition get_monitor_summary :: "client_env \<Rightarrow> jsstr \<Rightarrow> jsval api" where
  "get_monitor_summary env monitor_id =
     bindA (encodeA monitor_id) (\<lambda>m.
     bindA (bothA (get_request env (js ''/api/v1/monitors/'' @ m)) (get_request env (js ''/api/v1/applications''))) (\<lambda>(mr, ar).
     if \<not> is_ok mr then api_status_error mr
     else
     bindA (reply_data mr) (\<lambda>monitor.
     bindA (if is_ok ar
            then bindA (reply_data ar) (\<lambda>v. case v of JArr as \<Rightarrow> find_linked monitor as | _ \<Rightarrow> raiseA TypeError)
            else retA None) (\<lambda>application.
     liftA (to_monitor_summary env monitor application)))))"

definition opt_string :: "jsstr option \<Rightarrow> jsval" where
  "opt_string v = (case v of Some s \<Rightarrow> JStr s | None \<Rightarrow> JUndef)"

definition preview_monitor_draft :: "client_env \<Rightarrow> jsval \<Rightarrow> jsstr \<Rightarrow> jsstr option \<Rightarrow> outcome api" where
  "preview_monitor_draft env draft preview_id environment_id =
     catchA
       (bindA (fetchA \<lparr>hr_verb = POST, hr_url = base_url env @ js ''/api/v1/monitors/preview'',
                 hr_headers = send_json @ [(js ''X-Rhythm-Preview-ID'', preview_id)],
                 hr_body = Some (json_stringify 0 (JObj [(js ''definition'', draft),
                              (js ''environmentId'', opt_string environment_id)])),
                 hr_timeout = 65000\<rparr>) (\<lambda>p.
        if \<not> is_ok p then bindA (failure_or p ''Draft preview failed.'') (\<lambda>m. retA (Refused m))
        else bindA (reply_data p) (\<lambda>v. retA (Done v))))
       (refused ''Draft preview could not reach the Rhythm API.'')"

definition cancel_monitor_draft_preview :: "client_env \<Rightarrow> jsstr \<Rightarrow> outcome api" where
  "cancel_monitor_draft_preview env preview_id =
     catchA
       (bindA (encodeA preview_id) (\<lambda>i.
        bindA (api_send env POST (js ''/api/v1/monitors/preview/'' @ i @ js ''/cancel'') loader_timeout) (\<lambda>p.
        if \<not> is_ok p then retA (Refused JUndef)
        else bindA (reply_data p) (\<lambda>d. bindA (getA d ''cancelled'') (\<lambda>v. retA (Done v))))))
       (Refused JUndef)"

section \<open>Creating a monitor\<close>

text \<open>The body of a schedule write, from the schedule of the form or one the server returned.\<close>

definition schedule_write_body :: "jsval \<Rightarrow> jsval api" where
  "schedule_write_body schedule =
     bindA (getA schedule ''type'') (\<lambda>ty.
     case fld schedule ''timezone'' of
       JStr zone \<Rightarrow>
         retA (JObj
           ([(js ''type'', ty)]
            @ (if truthy (fld schedule ''expression'') then [(js ''expression'', fld schedule ''expression'')] else [])
            @ (if ty = JStr (js ''INTERVAL'') then [(js ''intervalSeconds'', fld schedule ''intervalSeconds'')] else [])
            @ [(js ''timezone'', JStr (if trim zone \<noteq> [] then trim zone else js ''UTC'')),
               (js ''jitterSeconds'', fld schedule ''jitterSeconds''),
               (js ''concurrencyPolicy'', fld schedule ''concurrencyPolicy''),
               (js ''missedRunPolicy'', fld schedule ''missedRunPolicy'')]))
     | _ \<Rightarrow> raiseA TypeError)"

definition monitor_path :: "jsval \<Rightarrow> jsstr \<Rightarrow> jsstr api" where
  "monitor_path monitor_id suffix =
     bindA (liftA (to_string monitor_id)) (\<lambda>s. bindA (encodeA s) (\<lambda>m.
     retA (js ''/api/v1/monitors/'' @ m @ suffix)))"

definition put_monitor_schedule :: "client_env \<Rightarrow> jsval \<Rightarrow> jsval \<Rightarrow> outcome api" where
  "put_monitor_schedule env monitor_id schedule =
     bindA (monitor_path monitor_id (js ''/schedule'')) (\<lambda>path.
     bindA (schedule_write_body schedule) (\<lambda>body.
     bindA (api_json env PUT path body 8000) (\<lambda>p.
     if \<not> is_ok p
     then bindA (failure_or p ''The monitor was created, but its schedule could not be saved.'') (\<lambda>m. retA (Refused m))
     else bindA (reply_data p) (\<lambda>v. retA (Done v)))))"

definition schedule_is_running :: "client_env \<Rightarrow> jsval \<Rightarrow> bool api" where
  "schedule_is_running env schedule =
     bindA (getA schedule ''type'') (\<lambda>ty.
     if ty = JStr (js ''MANUAL'') then retA True
     else if \<not> truthy (fld schedule ''active'') \<or> \<not> truthy (fld schedule ''nextRunAt'') then retA False
     else bindA (liftA (to_string (fld schedule ''nextRunAt''))) (\<lambda>s.
       retA (case ce_date env (JStr s) of Fin _ \<Rightarrow> True | _ \<Rightarrow> False)))"

definition get_created_monitor :: "client_env \<Rightarrow> jsval \<Rightarrow> jsval api" where
  "get_created_monitor env monitor_id =
     bindA (monitor_path monitor_id []) (\<lambda>path.
     bindA (api_get env path loader_timeout) (\<lambda>p.
     if \<not> is_ok p then retA JNull else reply_data p))"

definition get_created_monitor_schedule :: "client_env \<Rightarrow> jsval \<Rightarrow> jsval api" where
  "get_created_monitor_schedule env monitor_id =
     bindA (monitor_path monitor_id (js ''/schedule'')) (\<lambda>path.
     bindA (api_get env path loader_timeout) (\<lambda>p.
     if status_of p = 404 then retA JNull
     else if \<not> is_ok p then retA JNull else reply_data p))"

text \<open>\<open>{ ok: true, monitor, schedule }\<close> or \<open>{ ok: false, message }\<close>.\<close>

datatype enable_result = EnabledMonitor jsval jsval | NotEnabled jsval

definition post_enable :: "client_env \<Rightarrow> jsval \<Rightarrow> reply api" where
  "post_enable env monitor_id =
     bindA (monitor_path monitor_id (js ''/enable'')) (\<lambda>path. api_send env POST path 8000)"

definition refreshed_monitor :: "client_env \<Rightarrow> jsval \<Rightarrow> reply \<Rightarrow> jsval api" where
  "refreshed_monitor env monitor_id p =
     bindA (reply_data p) (\<lambda>monitor.
     bindA (get_created_monitor env monitor_id) (\<lambda>refreshed.
     retA (if truthy refreshed then refreshed else monitor)))"

definition stalled_schedule :: "client_env \<Rightarrow> jsval \<Rightarrow> jsval \<Rightarrow> bool api" where
  \<comment> \<open>\<open>monitor.enabled && schedule && !scheduleIsRunning(schedule)\<close>\<close>
  "stalled_schedule env monitor schedule =
     bindA (getA monitor ''enabled'') (\<lambda>enabled.
     if truthy enabled \<and> truthy schedule then bindA (schedule_is_running env schedule) (\<lambda>r. retA (\<not> r))
     else retA False)"

definition verify_schedule :: "client_env \<Rightarrow> jsval \<Rightarrow> jsval \<Rightarrow> enable_result api" where
  "verify_schedule env monitor_id monitor =
     bindA (get_created_monitor_schedule env monitor_id) (\<lambda>verified. retA (EnabledMonitor monitor verified))"

definition retry_schedule :: "client_env \<Rightarrow> jsval \<Rightarrow> jsval \<Rightarrow> jsval \<Rightarrow> enable_result api" where
  \<comment> \<open>save the schedule again and, if it still does not run, enable again\<close>
  "retry_schedule env monitor_id monitor schedule =
     bindA (put_monitor_schedule env monitor_id
              (JObj (map (\<lambda>k. (js k, fld schedule k))
                 [''type'', ''expression'', ''intervalSeconds'', ''timezone'', ''jitterSeconds'',
                  ''concurrencyPolicy'', ''missedRunPolicy'']))) (\<lambda>retried.
     bindA (case retried of Done v \<Rightarrow> schedule_is_running env v | Refused _ \<Rightarrow> retA False) (\<lambda>running.
     if running then retA (EnabledMonitor monitor (case retried of Done v \<Rightarrow> v | Refused _ \<Rightarrow> JUndef))
     else
       bindA (post_enable env monitor_id) (\<lambda>again.
       bindA (if is_ok again then refreshed_monitor env monitor_id again else retA monitor) (\<lambda>monitor'.
       verify_schedule env monitor_id monitor'))))"

definition settle_enabled :: "client_env \<Rightarrow> jsval \<Rightarrow> reply \<Rightarrow> enable_result api" where
  \<comment> \<open>what follows a successful enable\<close>
  "settle_enabled env monitor_id p =
     bindA (refreshed_monitor env monitor_id p) (\<lambda>monitor.
     bindA (get_created_monitor_schedule env monitor_id) (\<lambda>schedule.
     bindA (stalled_schedule env monitor schedule) (\<lambda>stalled.
     if stalled then retry_schedule env monitor_id monitor schedule
     else verify_schedule env monitor_id monitor)))"

definition enable_created_monitor :: "client_env \<Rightarrow> jsval \<Rightarrow> enable_result api" where
  "enable_created_monitor env monitor_id =
     bindA (post_enable env monitor_id) (\<lambda>p.
     if \<not> is_ok p
     then bindA (failure_or p ''The monitor was published, but could not be enabled.'') (\<lambda>m. retA (NotEnabled m))
     else settle_enabled env monitor_id p)"

record create_input =
  ci_creation_id :: "jsstr option"
  ci_enabled :: bool
  ci_schedule :: jsval
  ci_monitor :: "(jsstr \<times> jsval) list" \<comment> \<open>the other fields of the form\<close>

text \<open>\<open>{ ok: true, monitor, schedule }\<close>, or \<open>{ ok: false, \<dots> }\<close> with the fields that are present.\<close>

datatype create_result =
    Created jsval jsval
  | NotCreated jsval "(jsstr \<times> jsval) list option" "jsval option" \<comment> \<open>message, field errors, monitor\<close>

definition field_errors :: "jsval \<Rightarrow> (jsstr \<times> jsval) list api" where
  "field_errors failure =
     bindA (getA failure ''error'') (\<lambda>e.
     bindA (getA e ''details'') (\<lambda>details.
     case coalesce (fld details ''fields'') (JArr []) of
       JArr fs \<Rightarrow>
         bindA (mapA (\<lambda>f. bindA (getA f ''path'') (\<lambda>p. retA (p, fld f ''message''))) fs) (\<lambda>pairs.
         bindA (mapA (\<lambda>(p, m). bindA (liftA (to_string p)) (\<lambda>k. retA (k, m))) pairs) (\<lambda>es.
         retA (from_entries es)))
     | _ \<Rightarrow> raiseA TypeError))"

definition publish_created :: "client_env \<Rightarrow> jsval \<Rightarrow> reply api" where
  "publish_created env monitor_id =
     bindA (monitor_path monitor_id (js ''/publish'')) (\<lambda>path.
     api_json env POST path (JObj [(js ''changeSummary'', JStr (js ''Published during monitor creation''))]) 8000)"

definition accept_enabled :: "client_env \<Rightarrow> create_input \<Rightarrow> jsval \<Rightarrow> jsval \<Rightarrow> enable_result \<Rightarrow> create_result api" where
  \<comment> \<open>the checks on the result of enabling\<close>
  "accept_enabled env inp monitor_id configured result =
     (case result of
        NotEnabled m \<Rightarrow> retA (NotCreated m None (Some monitor_id))
      | EnabledMonitor monitor schedule \<Rightarrow>
          bindA (getA monitor ''enabled'') (\<lambda>on.
          if \<not> truthy on
          then retA (NotCreated (JStr (js ''The monitor was published, but could not be enabled.'')) None
                       (Some (fld monitor ''id'')))
          else
          bindA (getA (ci_schedule inp) ''type'') (\<lambda>ty.
          bindA (if ty \<noteq> JStr (js ''MANUAL'') \<and> truthy schedule
                 then bindA (schedule_is_running env schedule) (\<lambda>r. retA (\<not> r)) else retA False) (\<lambda>stalled.
          if stalled
          then retA (NotCreated (JStr (js ''The monitor was published, but the schedule did not start. Open it and save the schedule again.''))
                       None (Some (fld monitor ''id'')))
          else retA (Created monitor (coalesce schedule configured))))))"

definition start_created :: "client_env \<Rightarrow> create_input \<Rightarrow> jsval \<Rightarrow> jsval \<Rightarrow> create_result api" where
  \<comment> \<open>the block under \<open>if (enabled)\<close>\<close>
  "start_created env inp monitor_id configured =
     bindA (publish_created env monitor_id) (\<lambda>p.
     if \<not> is_ok p
     then bindA (failure_or p ''The monitor was saved as a draft, but could not be published.'') (\<lambda>m.
          retA (NotCreated m None (Some monitor_id)))
     else bindA (enable_created_monitor env monitor_id) (accept_enabled env inp monitor_id configured))"

definition schedule_created :: "client_env \<Rightarrow> create_input \<Rightarrow> jsval \<Rightarrow> create_result api" where
  \<comment> \<open>what follows the creation: the schedule first\<close>
  "schedule_created env inp monitor =
     bindA (getA monitor ''id'') (\<lambda>monitor_id.
     bindA (put_monitor_schedule env monitor_id (ci_schedule inp)) (\<lambda>saved.
     case saved of
       Refused m \<Rightarrow> retA (NotCreated m None (Some monitor_id))
     | Done configured \<Rightarrow>
         if ci_enabled inp then start_created env inp monitor_id configured
         else retA (Created monitor configured)))"

definition rejected_creation :: "reply \<Rightarrow> create_result api" where
  "rejected_creation p =
     bindA (jsonA p) (\<lambda>failure.
     bindA (field_errors failure) (\<lambda>errors.
     retA (NotCreated (or_else (fld (fld failure ''error'') ''message'') (JStr (js ''Unable to create the monitor.'')))
             (Some errors) None)))"

definition post_monitor :: "client_env \<Rightarrow> create_input \<Rightarrow> http_request" where
  "post_monitor env inp =
     \<lparr>hr_verb = POST, hr_url = base_url env @ js ''/api/v1/monitors'',
      hr_headers = send_json @ (case ci_creation_id inp of
                                  Some i \<Rightarrow> if i \<noteq> [] then [(js ''Idempotency-Key'', i)] else []
                                | None \<Rightarrow> []),
      hr_body = Some (json_stringify 0 (JObj (ci_monitor inp))), hr_timeout = loader_timeout\<rparr>"

definition create_monitor :: "client_env \<Rightarrow> create_input \<Rightarrow> create_result api" where
  "create_monitor env inp =
     catchA
       (bindA (fetchA (post_monitor env inp)) (\<lambda>p.
        if \<not> is_ok p then rejected_creation p
        else bindA (reply_data p) (schedule_created env inp)))
       (NotCreated (JStr (js ''Rhythm API is unavailable. Check the API connection and try again.'')) None None)"

section \<open>Runs and actions\<close>

text \<open>
  The shape most functions share: send, return the message of a refusal, or a payload of the reply;
  whatever is thrown on the way is answered with a fixed message.
\<close>

definition permanently_delete_monitors :: "client_env \<Rightarrow> jsstr list \<Rightarrow> outcome api" where
  "permanently_delete_monitors env ids =
     catchA
       (bindA (api_json env POST (js ''/api/v1/monitors/bulk-delete'')
                 (JObj [(js ''monitorIds'', JArr (map JStr ids))]) 15000) (\<lambda>p.
        if \<not> is_ok p
        then bindA (failure_or p ''Unable to permanently delete the selected monitors.'') (\<lambda>m. retA (Refused m))
        else bindA (reply_data p) (\<lambda>d. bindA (getA d ''deletedCount'') (\<lambda>n. retA (Done n)))))
       (refused ''The delete operation could not reach the Rhythm API.'')"

definition run_monitor :: "client_env \<Rightarrow> jsstr \<Rightarrow> jsstr \<Rightarrow> outcome api" where
  "run_monitor env monitor_id revision =
     catchA
       (bindA (encodeA monitor_id) (\<lambda>m.
        bindA (api_send env POST (js ''/api/v1/monitors/'' @ m @ js ''/runs?revision='' @ revision) 35000) (\<lambda>p.
        if \<not> is_ok p then bindA (failure_or p ''Unable to run the monitor.'') (\<lambda>m. retA (Refused m))
        else bindA (reply_data p) (\<lambda>d. bindA (getA d ''run'') (\<lambda>r. retA (Done r))))))
       (refused ''The run could not reach the Rhythm API.'')"

datatype monitor_action = Publish | Enable | Disable | Archive | Restore | Clone

fun action_name :: "monitor_action \<Rightarrow> jsstr" where
  "action_name Publish = js ''publish''"
| "action_name Enable = js ''enable''"
| "action_name Disable = js ''disable''"
| "action_name Archive = js ''archive''"
| "action_name Restore = js ''restore''"
| "action_name Clone = js ''clone''"

definition action_payload :: "monitor_action \<Rightarrow> jsstr option \<Rightarrow> jsstr option \<Rightarrow> jsval option" where
  "action_payload action name slug =
     (case action of
        Clone \<Rightarrow> Some (JObj [(js ''name'', opt_string name), (js ''slug'', opt_string slug)])
      | Publish \<Rightarrow> Some (JObj [(js ''changeSummary'', JStr (js ''Published from the monitor workspace''))])
      | _ \<Rightarrow> None)"

definition mutate_monitor ::
  "client_env \<Rightarrow> jsstr \<Rightarrow> monitor_action \<Rightarrow> jsstr option \<Rightarrow> jsstr option \<Rightarrow> outcome api" where
  "mutate_monitor env monitor_id action name slug =
     catchA
       (bindA (encodeA monitor_id) (\<lambda>m.
        let path = js ''/api/v1/monitors/'' @ m @ js ''/'' @ action_name action in
        bindA (case action_payload action name slug of
                 Some v \<Rightarrow> api_json env POST path v 8000
               | None \<Rightarrow> api_send env POST path 8000) (\<lambda>p.
        if \<not> is_ok p
        then bindA (failure_text p) (\<lambda>m.
          retA (Refused (or_else m (JStr (js ''Unable to '' @ action_name action @ js '' monitor.'')))))
        else
        bindA (reply_data p) (\<lambda>d.
        case d of
          JObj ps \<Rightarrow>
            retA (Done (if js ''monitor'' \<in> set (map fst ps) then fld d ''monitor'' else d))
        | JArr _ \<Rightarrow> retA (Done d)
        | _ \<Rightarrow> raiseA TypeError))))
       (refused ''The monitor action could not reach the Rhythm API.'')"

record runs_input =
  ri_limit :: nat
  ri_cursor :: "jsstr option"
  ri_since :: "jsstr option"
  ri_status :: "jsstr option"
  ri_trigger :: "jsstr option"
  ri_query :: "jsstr option"

record runs_page =
  rp_runs :: jsval
  rp_total :: jsval
  rp_next :: jsval

definition list_monitor_runs :: "client_env \<Rightarrow> jsstr \<Rightarrow> runs_input \<Rightarrow> runs_page api" where
  "list_monitor_runs env monitor_id inp =
     (let params = [(js ''limit'', dec (ri_limit inp))] @ set_param ''cursor'' (ri_cursor inp)
             @ set_param ''since'' (ri_since inp) @ set_param ''status'' (ri_status inp)
             @ set_param ''triggerType'' (ri_trigger inp) @ set_param ''query'' (ri_query inp)
      in
     bindA (encodeA monitor_id) (\<lambda>m.
     bindA (api_get env (js ''/api/v1/monitors/'' @ m @ js ''/runs?'' @ query_string params) loader_timeout) (\<lambda>p.
     if \<not> is_ok p then errorA (js ''Unable to load run history ('' @ dec (status_of p) @ js '')'')
     else
     bindA (jsonA p) (\<lambda>envelope.
     bindA (getA envelope ''data'') (\<lambda>data.
     bindA (page_of envelope data) (\<lambda>(total, next).
     retA \<lparr>rp_runs = data, rp_total = total, rp_next = next\<rparr>))))))"

definition loaded_or :: "reply \<Rightarrow> string \<Rightarrow> jsval api" where
  \<comment> \<open>the data of the reply, or an error that quotes the status\<close>
  "loaded_or p message =
     (if \<not> is_ok p then errorA (js message @ js '' ('' @ dec (status_of p) @ js '')'') else reply_data p)"

definition get_monitor_metrics :: "client_env \<Rightarrow> jsstr \<Rightarrow> jsstr \<Rightarrow> jsval api" where
  "get_monitor_metrics env monitor_id window =
     bindA (encodeA monitor_id) (\<lambda>m.
     bindA (api_get env (js ''/api/v1/monitors/'' @ m @ js ''/metrics?window='' @ window @ js ''&maxPoints=400'')
              loader_timeout) (\<lambda>p. loaded_or p ''Unable to load run metrics''))"

definition empty_summary :: jsval where
  "empty_summary = JObj (map (\<lambda>k. (js k, JNum (nnum 0)))
     [''runCount'', ''measuredRunCount'', ''successRate'', ''errorRate'', ''timeoutRate'', ''spikeCount'', ''runsPerHour''])"

definition get_monitor_metrics_summary :: "client_env \<Rightarrow> jsstr \<Rightarrow> jsstr \<Rightarrow> jsval api" where
  "get_monitor_metrics_summary env monitor_id window =
     bindA (encodeA monitor_id) (\<lambda>m.
     bindA (api_get env (js ''/api/v1/monitors/'' @ m @ js ''/metrics/summary?window='' @ window) loader_timeout) (\<lambda>p.
     bindA (loaded_or p ''Unable to load run metric summary'') (\<lambda>metrics.
     retA (JObj (fold (\<lambda>(k, d). obj_set (js k) (coalesce (fld metrics k) d))
       [(''points'', JArr []), (''percentiles'', JObj []), (''statusDistribution'', JObj []),
        (''failureCategories'', JObj []), (''summary'', empty_summary)] (spread metrics))))))"

definition get_monitor_metric_series :: "client_env \<Rightarrow> jsstr \<Rightarrow> jsstr \<Rightarrow> nat \<Rightarrow> jsval api" where
  "get_monitor_metric_series env monitor_id window max_points =
     bindA (encodeA monitor_id) (\<lambda>m.
     bindA (api_get env (js ''/api/v1/monitors/'' @ m @ js ''/metrics/series?window='' @ window
              @ js ''&maxPoints='' @ dec max_points) 8000) (\<lambda>p.
     bindA (loaded_or p ''Unable to load run metric series'') (\<lambda>d.
     retA (coalesce (fld d ''points'') (JArr [])))))"

definition get_run :: "client_env \<Rightarrow> jsstr \<Rightarrow> jsval api" where
  "get_run env run_id =
     bindA (encodeA run_id) (\<lambda>r.
     bindA (api_get env (js ''/api/v1/runs/'' @ r) loader_timeout) (\<lambda>p.
     loaded_or p ''Unable to load run diagnostics''))"

definition get_run_diagnostics :: "client_env \<Rightarrow> jsstr \<Rightarrow> jsval api" where
  "get_run_diagnostics env run_id =
     bindA (encodeA run_id) (\<lambda>r.
     bindA (api_get env (js ''/api/v1/runs/'' @ r @ js ''/diagnostics'') loader_timeout) (\<lambda>p.
     loaded_or p ''Unable to load run diagnostics''))"

definition validate_pre_request_script :: "client_env \<Rightarrow> jsstr \<Rightarrow> jsval api" where
  "validate_pre_request_script env code =
     bindA (api_json env POST (js ''/api/v1/scripts/validate'') (JObj [(js ''code'', JStr code)]) loader_timeout) (\<lambda>p.
     loaded_or p ''Unable to validate script'')"

record script_preview_input =
  sp_scope :: jsstr
  sp_step :: "jsstr option"
  sp_code :: jsstr
  sp_packages :: jsval
  sp_variables :: jsval
  sp_request :: jsval
  sp_response :: jsval

definition preview_pre_request_script :: "client_env \<Rightarrow> jsstr \<Rightarrow> jsstr \<Rightarrow> script_preview_input \<Rightarrow> jsval api" where
  "preview_pre_request_script env monitor_id revision_id inp =
     bindA (encodeA monitor_id) (\<lambda>m.
     bindA (encodeA revision_id) (\<lambda>r.
     bindA (api_json env POST (js ''/api/v1/monitors/'' @ m @ js ''/revisions/'' @ r @ js ''/scripts/preview'')
              (JObj [(js ''scope'', JStr (sp_scope inp)), (js ''stepId'', opt_string (sp_step inp)),
                     (js ''code'', JStr (sp_code inp)), (js ''packages'', sp_packages inp),
                     (js ''variables'', sp_variables inp), (js ''request'', sp_request inp),
                     (js ''response'', sp_response inp)]) loader_timeout) (\<lambda>p.
     if \<not> is_ok p
     then bindA (failure_or p ''Unable to preview script.'') (\<lambda>v. bindA (liftA (to_string v)) errorA)
     else reply_data p)))"

text \<open>\<open>{ ok: true }\<close> is \<open>Done\<close> with nothing in it.\<close>

definition cancel_run :: "client_env \<Rightarrow> jsstr \<Rightarrow> outcome api" where
  "cancel_run env run_id =
     bindA (encodeA run_id) (\<lambda>r.
     bindA (api_send env POST (js ''/api/v1/runs/'' @ r @ js ''/cancel'') loader_timeout) (\<lambda>p.
     if is_ok p then retA (Done JUndef)
     else bindA (failure_or p ''Unable to cancel the run.'') (\<lambda>m. retA (Refused m))))"

definition loaded :: "reply \<Rightarrow> string \<Rightarrow> jsval api" where
  "loaded p message = (if \<not> is_ok p then errorA (js message) else reply_data p)"

definition list_recent_runs :: "client_env \<Rightarrow> jsval api" where
  "list_recent_runs env =
     bindA (api_get env (js ''/api/v1/runs'') loader_timeout) (\<lambda>p. loaded p ''Unable to load recent runs'')"

section \<open>Drafts, schedules and revisions\<close>

definition get_monitor_draft :: "client_env \<Rightarrow> jsstr \<Rightarrow> (jsval \<times> jsval) api" where \<comment> \<open>monitor and revision\<close>
  "get_monitor_draft env monitor_id =
     bindA (encodeA monitor_id) (\<lambda>m.
     bindA (api_get env (js ''/api/v1/monitors/'' @ m) loader_timeout) (\<lambda>p.
     bindA (loaded p ''Unable to load monitor'') (\<lambda>monitor.
     bindA (getA monitor ''currentDraftRevisionId'') (\<lambda>rev.
     if \<not> truthy rev then errorA (js ''Monitor has no draft revision'')
     else
     bindA (liftA (to_string rev)) (\<lambda>s.
     bindA (encodeA s) (\<lambda>r.
     bindA (api_get env (js ''/api/v1/monitors/'' @ m @ js ''/revisions/'' @ r) loader_timeout) (\<lambda>q.
     bindA (loaded q ''Unable to load monitor draft'') (\<lambda>revision.
     retA (monitor, revision)))))))))"

definition save_monitor_draft :: "client_env \<Rightarrow> jsstr \<Rightarrow> jsval \<Rightarrow> outcome api" where
  "save_monitor_draft env monitor_id draft =
     catchA
       (bindA (encodeA monitor_id) (\<lambda>m.
        bindA (api_json env PUT (js ''/api/v1/monitors/'' @ m @ js ''/draft'') (JObj [(js ''definition'', draft)]) 8000) (\<lambda>p.
        if \<not> is_ok p then bindA (failure_or p ''Unable to save draft.'') (\<lambda>v. retA (Refused v))
        else bindA (reply_data p) (\<lambda>d. bindA (getA d ''revision'') (\<lambda>r. retA (Done r))))))
       (refused ''The draft could not reach the Rhythm API.'')"

definition save_monitor_environment :: "client_env \<Rightarrow> jsstr \<Rightarrow> jsstr \<Rightarrow> jsstr \<Rightarrow> outcome api" where
  "save_monitor_environment env monitor_id environment_id updated_at =
     catchA
       (bindA (encodeA monitor_id) (\<lambda>m.
        bindA (fetchA \<lparr>hr_verb = PATCH, hr_url = base_url env @ js ''/api/v1/monitors/'' @ m,
                 hr_headers = send_json @ [(js ''If-Match'', js ''W/'' @ [34] @ updated_at @ [34])],
                 hr_body = Some (json_stringify 0 (JObj [(js ''environmentId'', JStr environment_id)])),
                 hr_timeout = 8000\<rparr>) (\<lambda>p.
        if \<not> is_ok p
        then bindA (failure_or p ''Unable to update the monitor environment.'') (\<lambda>v. retA (Refused v))
        else bindA (reply_data p) (\<lambda>d. retA (Done d)))))
       (refused ''The environment update could not reach the Rhythm API.'')"

definition get_monitor_schedule :: "client_env \<Rightarrow> jsstr \<Rightarrow> jsval api" where
  "get_monitor_schedule env monitor_id =
     bindA (encodeA monitor_id) (\<lambda>m.
     bindA (api_get env (js ''/api/v1/monitors/'' @ m @ js ''/schedule'') loader_timeout) (\<lambda>p.
     if status_of p = 404 then retA JNull else loaded p ''Unable to load monitor schedule''))"

definition save_monitor_schedule :: "client_env \<Rightarrow> jsstr \<Rightarrow> jsval \<Rightarrow> outcome api" where
  "save_monitor_schedule env monitor_id schedule =
     catchA
       (bindA (encodeA monitor_id) (\<lambda>m.
        bindA (api_json env PUT (js ''/api/v1/monitors/'' @ m @ js ''/schedule'') schedule 8000) (\<lambda>p.
        if \<not> is_ok p then bindA (failure_or p ''Unable to save schedule.'') (\<lambda>v. retA (Refused v))
        else bindA (reply_data p) (\<lambda>d. retA (Done d)))))
       (refused ''The schedule could not reach the Rhythm API.'')"

definition list_monitor_revisions :: "client_env \<Rightarrow> jsstr \<Rightarrow> jsval api" where
  "list_monitor_revisions env monitor_id =
     bindA (encodeA monitor_id) (\<lambda>m.
     bindA (api_get env (js ''/api/v1/monitors/'' @ m @ js ''/revisions'') loader_timeout) (\<lambda>p.
     loaded p ''Unable to load revisions''))"

definition restore_monitor_revision :: "client_env \<Rightarrow> jsstr \<Rightarrow> jsstr \<Rightarrow> (bool \<times> jsval) api" where
  \<comment> \<open>the fields \<open>ok\<close> and \<open>message\<close>\<close>
  "restore_monitor_revision env monitor_id revision_id =
     bindA (encodeA monitor_id) (\<lambda>m.
     bindA (encodeA revision_id) (\<lambda>r.
     bindA (api_send env POST (js ''/api/v1/monitors/'' @ m @ js ''/revisions/'' @ r @ js ''/restore'') loader_timeout) (\<lambda>p.
     if \<not> is_ok p then bindA (failure_text p) (\<lambda>v. retA (False, v))
     else retA (True, JStr (js ''Revision restored into the current draft.'')))))"

section \<open>Alerts and audit\<close>

definition list_alerts :: "client_env \<Rightarrow> jsstr \<Rightarrow> jsval api" where
  "list_alerts env state =
     bindA (api_get env (js ''/api/v1/alerts?state='' @ state) loader_timeout) (\<lambda>p.
     loaded p ''Unable to load alerts'')"

datatype alert_action = Acknowledge | Resolve

fun alert_action_name :: "alert_action \<Rightarrow> jsstr" where
  "alert_action_name Acknowledge = js ''acknowledge''"
| "alert_action_name Resolve = js ''resolve''"

definition mutate_alert :: "client_env \<Rightarrow> jsstr \<Rightarrow> alert_action \<Rightarrow> outcome api" where
  "mutate_alert env alert_id action =
     catchA
       (bindA (encodeA alert_id) (\<lambda>a.
        bindA (api_send env POST (js ''/api/v1/alerts/'' @ a @ js ''/'' @ alert_action_name action) loader_timeout) (\<lambda>p.
        if \<not> is_ok p then bindA (failure_text p) (\<lambda>v. retA (Refused v))
        else bindA (reply_data p) (\<lambda>d. retA (Done d)))))
       (refused ''The alert action could not reach the Rhythm API.'')"

definition list_audit_events :: "client_env \<Rightarrow> jsval api" where
  "list_audit_events env =
     bindA (api_get env (js ''/api/v1/audit-events'') loader_timeout) (\<lambda>p. loaded p ''Unable to load audit history'')"

section \<open>Configuration profiles\<close>

datatype profile_kind =
    Environments | Secrets | Certificates | Proxies | Auth | Notifications | Telemetry | Ai

fun kind_name :: "profile_kind \<Rightarrow> jsstr" where
  "kind_name Environments = js ''environments''"
| "kind_name Secrets = js ''secrets''"
| "kind_name Certificates = js ''certificates''"
| "kind_name Proxies = js ''proxies''"
| "kind_name Auth = js ''auth''"
| "kind_name Notifications = js ''notifications''"
| "kind_name Telemetry = js ''telemetry''"
| "kind_name Ai = js ''ai''"

definition list_configuration_profiles :: "client_env \<Rightarrow> profile_kind \<Rightarrow> jsval api" where
  "list_configuration_profiles env kind =
     bindA (api_get env (js ''/api/v1/config/'' @ kind_name kind) loader_timeout) (\<lambda>p.
     loaded p ''Unable to load configuration profiles'')"

definition profile_payload :: "profile_kind \<Rightarrow> jsstr \<Rightarrow> jsstr \<Rightarrow> jsstr option \<Rightarrow> jsval \<Rightarrow> jsval" where
  "profile_payload kind name description profile_type config =
     JObj ([(js ''name'', JStr name), (js ''description'', JStr description), (js ''config'', config)]
       @ (if kind = Secrets then []
          else [(js ''profileType'', JStr (case profile_type of Some t \<Rightarrow> t | None \<Rightarrow> []))]))"

definition create_configuration_profile ::
  "client_env \<Rightarrow> profile_kind \<Rightarrow> jsstr \<Rightarrow> jsstr \<Rightarrow> jsstr option \<Rightarrow> jsval \<Rightarrow> outcome api" where
  "create_configuration_profile env kind name description profile_type config =
     catchA
       (bindA (api_json env POST (js ''/api/v1/config/'' @ kind_name kind)
                 (profile_payload kind name description profile_type config) loader_timeout) (\<lambda>p.
        if \<not> is_ok p then bindA (failure_text p) (\<lambda>v. retA (Refused v))
        else bindA (reply_data p) (\<lambda>d. retA (Done d))))
       (refused ''The configuration profile could not reach the Rhythm API.'')"

record profile_input =
  pf_name :: jsstr
  pf_description :: jsstr
  pf_type :: jsstr
  pf_config :: jsval
  pf_active :: bool

definition save_configuration_profile ::
  "client_env \<Rightarrow> profile_kind \<Rightarrow> jsstr \<Rightarrow> profile_input \<Rightarrow> outcome api" where
  "save_configuration_profile env kind profile_id inp =
     catchA
       (bindA (encodeA profile_id) (\<lambda>i.
        bindA (api_json env PUT (js ''/api/v1/config/'' @ kind_name kind @ js ''/'' @ i)
                 (JObj [(js ''name'', JStr (pf_name inp)), (js ''description'', JStr (pf_description inp)),
                    (js ''profileType'', JStr (pf_type inp)), (js ''config'', pf_config inp),
                    (js ''active'', JBool (pf_active inp))]) 8000) (\<lambda>p.
        if \<not> is_ok p then bindA (failure_text p) (\<lambda>v. retA (Refused v))
        else bindA (reply_data p) (\<lambda>d. retA (Done d)))))
       (refused ''The configuration profile could not be saved.'')"

definition delete_configuration_profile :: "client_env \<Rightarrow> profile_kind \<Rightarrow> jsstr \<Rightarrow> outcome api" where
  "delete_configuration_profile env kind profile_id =
     catchA
       (bindA (encodeA profile_id) (\<lambda>i.
        bindA (api_send env DELETE (js ''/api/v1/config/'' @ kind_name kind @ js ''/'' @ i) 8000) (\<lambda>p.
        if \<not> is_ok p \<and> status_of p \<noteq> 204 then bindA (failure_text p) (\<lambda>v. retA (Refused v))
        else retA (Done JUndef))))
       (refused ''The configuration profile could not be deleted.'')"

definition send_notification_test_email :: "client_env \<Rightarrow> jsstr \<Rightarrow> jsstr \<Rightarrow> outcome api" where
  "send_notification_test_email env profile_id recipient =
     catchA
       (bindA (encodeA profile_id) (\<lambda>i.
        bindA (api_json env POST (js ''/api/v1/config/notifications/'' @ i @ js ''/test-email'')
                 (JObj [(js ''to'', JStr recipient)]) 15000) (\<lambda>p.
        if \<not> is_ok p then bindA (failure_text p) (\<lambda>v. retA (Refused v))
        else retA (Done JUndef))))
       (refused ''Unable to reach the Rhythm API for the SMTP test.'')"

end
