(* ===== verification/Api_Facts.thy ===== *)
theory Api_Facts
  imports Api_Client
begin

text \<open>
  Reasoning about the computations of the API client: weakest preconditions over the history of
  exchanges, the policies a function's requests obey (a locale, so that each function is walked
  through once), and the facts on sorting and path segments that the properties share.
\<close>

section \<open>Weakest preconditions\<close>

definition wpA :: "'a api \<Rightarrow> ('a \<Rightarrow> exchange list \<Rightarrow> bool) \<Rightarrow> (exn \<Rightarrow> exchange list \<Rightarrow> bool)
    \<Rightarrow> server \<Rightarrow> exchange list \<Rightarrow> bool" where
  "wpA m Q E s h \<longleftrightarrow> (case m s h of (Inr a, h') \<Rightarrow> Q a h' | (Inl e, h') \<Rightarrow> E e h')"

named_theorems wp \<open>the weakest precondition of each primitive\<close>

lemma wp_ret [wp]: "wpA (retA a) Q E s h = Q a h"
  by (simp add: wpA_def retA_def)

lemma wp_raise [wp]: "wpA (raiseA e) Q E s h = E e h"
  by (simp add: wpA_def raiseA_def)

lemma wp_error [wp]: "wpA (errorA m) Q E s h = E (ErrorMsg m) h"
  by (simp add: errorA_def wp_raise)

lemma wp_bind [wp]: "wpA (bindA m f) Q E s h = wpA m (\<lambda>a. wpA (f a) Q E s) E s h"
  by (auto simp: wpA_def bindA_def split: sum.splits prod.splits)

lemma wp_catch [wp]: "wpA (catchA m d) Q E s h = wpA m Q (\<lambda>e. Q d) s h"
  by (auto simp: wpA_def catchA_def split: sum.splits prod.splits)

lemma wp_lift [wp]: "wpA (liftA m) Q E s h = (case m of Inl e \<Rightarrow> E e h | Inr a \<Rightarrow> Q a h)"
  by (simp add: liftA_def wp split: sum.splits)

lemma wp_fetch [wp]:
  "wpA (fetchA r) Q E s h =
     (case s h r of Unreachable \<Rightarrow> E NetworkError (h @ [(r, Unreachable)])
      | Reply n v \<Rightarrow> Q (Reply n v) (h @ [(r, Reply n v)]))"
  by (auto simp: wpA_def fetchA_def split: reply.splits)

lemma wp_both [wp]:
  "wpA (bothA r q) Q E s h =
     (let p = s h r; h' = h @ [(r, p)]; p' = s h' q; h'' = h' @ [(q, p')]
      in if p = Unreachable \<or> p' = Unreachable then E NetworkError h'' else Q (p, p') h'')"
  by (simp add: wpA_def bothA_def Let_def)

lemma wp_json [wp]:
  "wpA (jsonA p) Q E s h = (case p of Reply _ (Some v) \<Rightarrow> Q v h | _ \<Rightarrow> E SyntaxError h)"
  by (simp add: jsonA_def wp split: reply.splits option.splits)

lemma wp_get [wp]: "wpA (getA v k) Q E s h = (if nullish v then E TypeError h else Q (fld v k) h)"
  by (simp add: getA_def wp)

lemma wp_encode [wp]:
  "wpA (encodeA x) Q E s h = (case encode_uri x of Some e \<Rightarrow> Q e h | None \<Rightarrow> E URIError h)"
  by (simp add: encodeA_def wp split: option.splits)

lemma wpI: "(\<And>a h'. m s h = (Inr a, h') \<Longrightarrow> Q a h') \<Longrightarrow> (\<And>e h'. m s h = (Inl e, h') \<Longrightarrow> E e h') \<Longrightarrow> wpA m Q E s h"
  by (auto simp: wpA_def split: sum.splits prod.splits)

lemma wp_mono:
  "wpA m Q E s h \<Longrightarrow> (\<And>a h'. Q a h' \<Longrightarrow> Q' a h') \<Longrightarrow> (\<And>e h'. E e h' \<Longrightarrow> E' e h') \<Longrightarrow> wpA m Q' E' s h"
  by (auto simp: wpA_def split: sum.splits prod.splits)

lemma wp_Inr: "wpA m Q E s h \<Longrightarrow> m s h = (Inr a, h') \<Longrightarrow> Q a h'"
  by (simp add: wpA_def)

lemma wp_Inl: "wpA m Q E s h \<Longrightarrow> m s h = (Inl e, h') \<Longrightarrow> E e h'"
  by (simp add: wpA_def)

text \<open>A computation whose two outcomes are told apart only by the history.\<close>

lemma wp_history: "wpA m (\<lambda>_. P) (\<lambda>_. P) s h \<longleftrightarrow> P (snd (m s h))"
  by (auto simp: wpA_def split: sum.splits prod.splits)

lemma wp_result: "wpA m (\<lambda>a _. P a) (\<lambda>e _. R e) s h \<longleftrightarrow> (case fst (m s h) of Inr a \<Rightarrow> P a | Inl e \<Rightarrow> R e)"
  by (auto simp: wpA_def split: sum.splits prod.splits)

lemma wp_value: "wpA m (\<lambda>a _. P a) (\<lambda>_ _. True) s h \<Longrightarrow> fst (m s h) = Inr a \<Longrightarrow> P a"
  by (cases "m s h") (auto simp: wpA_def)

lemma wp_returns: "wpA m (\<lambda>_ _. True) (\<lambda>_ _. False) s h \<longleftrightarrow> (\<exists>a. fst (m s h) = Inr a)"
  by (auto simp: wpA_def split: sum.splits prod.splits)

text \<open>Idioms built of the primitives.\<close>

lemma wp_reply_data [wp]:
  "wpA (reply_data p) Q E s h =
     (case p of Reply _ (Some v) \<Rightarrow> if nullish v then E TypeError h else Q (fld v ''data'') h
      | _ \<Rightarrow> E SyntaxError h)"
  by (simp add: reply_data_def wp split: reply.splits option.splits)

lemma catch_returns: "\<exists>a. fst (catchA m d s h) = Inr a"
  by (simp flip: wp_returns add: wp, rule wpI) simp_all

section \<open>What a function sends\<close>

text \<open>
  A policy is a set of permitted requests. A computation is confined by it when it only extends the
  history, and only by permitted requests. The assumptions are what the readers and the writers of
  the client need of a policy.
\<close>

definition api_path :: "jsstr \<Rightarrow> bool" where
  "api_path p \<longleftrightarrow> take 8 p = js ''/api/v1/''"

definition api_request :: "client_env \<Rightarrow> http_request \<Rightarrow> bool" where
  "api_request env r \<longleftrightarrow>
     (\<exists>path. api_path path \<and> hr_url r = base_url env @ path) \<and> 0 < hr_timeout r \<and> hr_timeout r \<le> 65000"

definition sends_only :: "(http_request \<Rightarrow> bool) \<Rightarrow> 'a api \<Rightarrow> bool" where
  "sends_only permitted m \<longleftrightarrow> (\<forall>s h. \<exists>t. snd (m s h) = h @ t \<and> (\<forall>e\<in>set t. permitted (fst e)))"

locale request_policy =
  fixes permitted :: "http_request \<Rightarrow> bool"
begin

abbreviation confined :: "'a api \<Rightarrow> bool" where
  "confined m \<equiv> sends_only permitted m"

lemma confinedD: "confined m \<Longrightarrow> \<exists>t. snd (m s h) = h @ t \<and> (\<forall>e\<in>set t. permitted (fst e))"
  by (simp add: sends_only_def)

lemma confined_quiet: "(\<And>s h. snd (m s h) = h) \<Longrightarrow> confined m"
  by (simp add: sends_only_def)

lemma confined_bind:
  assumes m: "confined m" and f: "\<And>a. confined (f a)"
  shows "confined (bindA m f)"
proof -
  have "\<exists>t. snd (bindA m f s h) = h @ t \<and> (\<forall>e\<in>set t. permitted (fst e))" for s h
  proof -
    obtain t where t: "snd (m s h) = h @ t" "\<forall>e\<in>set t. permitted (fst e)"
      using confinedD [OF m] by blast
    show ?thesis
    proof (cases "fst (m s h)")
      case (Inr a)
      obtain u where "snd (f a s (h @ t)) = (h @ t) @ u" "\<forall>e\<in>set u. permitted (fst e)"
        using confinedD [OF f] by blast
      with t Inr show ?thesis
        by (intro exI [of _ "t @ u"]) (auto simp: bindA_def split: prod.splits)
    next
      case (Inl e)
      with t show ?thesis by (auto simp: bindA_def split: prod.splits)
    qed
  qed
  then show ?thesis by (simp add: sends_only_def)
qed

lemma confined_catch: "confined m \<Longrightarrow> confined (catchA m d)"
proof -
  have "snd (catchA m d s h) = snd (m s h)" for s h
    by (simp add: catchA_def split: sum.splits prod.splits)
  then show "confined m \<Longrightarrow> confined (catchA m d)" by (simp add: sends_only_def)
qed

lemma confined_pure:
  "confined (retA a)" "confined (raiseA e)" "confined (errorA x)" "confined (liftA q)"
  "confined (jsonA p)" "confined (getA v k)" "confined (encodeA x)"
  by (auto intro!: confined_quiet simp: retA_def raiseA_def errorA_def liftA_def jsonA_def getA_def
      encodeA_def split: sum.splits reply.splits option.splits)

lemma confined_fetch: "permitted r \<Longrightarrow> confined (fetchA r)"
  by (simp add: sends_only_def fetchA_def)

lemma confined_both: "permitted r \<Longrightarrow> permitted q \<Longrightarrow> confined (bothA r q)"
  by (auto simp: sends_only_def bothA_def Let_def)

lemma confined_if: "confined m \<Longrightarrow> confined n \<Longrightarrow> confined (if b then m else n)"
  by simp

lemma confined_option: "confined m \<Longrightarrow> (\<And>a. confined (f a)) \<Longrightarrow> confined (case x of None \<Rightarrow> m | Some a \<Rightarrow> f a)"
  by (cases x) simp_all

lemma confined_pair: "(\<And>a b. confined (f a b)) \<Longrightarrow> confined (case x of (a, b) \<Rightarrow> f a b)"
  by (cases x) simp

lemma confined_outcome:
  "(\<And>v. confined (f v)) \<Longrightarrow> (\<And>v. confined (g v)) \<Longrightarrow> confined (case x of Done v \<Rightarrow> f v | Refused v \<Rightarrow> g v)"
  by (cases x) simp_all

lemma confined_jsval:
  "confined a \<Longrightarrow> confined b \<Longrightarrow> (\<And>x. confined (c x)) \<Longrightarrow> (\<And>x. confined (d x)) \<Longrightarrow> (\<And>x. confined (e x)) \<Longrightarrow>
    (\<And>x. confined (f x)) \<Longrightarrow> (\<And>x. confined (g x)) \<Longrightarrow>
    confined (case v of JUndef \<Rightarrow> a | JNull \<Rightarrow> b | JBool x \<Rightarrow> c x | JNum x \<Rightarrow> d x | JStr x \<Rightarrow> e x
       | JArr x \<Rightarrow> f x | JObj x \<Rightarrow> g x)"
  by (cases v) simp_all

lemma confined_map: "(\<And>x. confined (f x)) \<Longrightarrow> confined (mapA f xs)"
  by (induction xs) (auto intro!: confined_bind confined_pure)

lemma confined_let: "(\<And>a. confined (f a)) \<Longrightarrow> confined (let a = x in f a)"
  by simp

lemma confined_idioms: "confined (reply_data p)" "confined (failure_text p)" "confined (failure_or p d)"
  by (auto simp: reply_data_def failure_text_def failure_or_def intro!: confined_bind confined_pure)

lemmas confined_intros = confined_bind confined_catch confined_pure confined_fetch confined_both
  confined_if confined_option confined_pair confined_outcome confined_jsval confined_map confined_let
  confined_idioms

end

text \<open>A policy under which the loaders may run, and one that also admits the functions that change data.\<close>

locale reader_policy = request_policy permitted for permitted :: "http_request \<Rightarrow> bool" +
  fixes env :: client_env
  assumes permits_get:
    "api_request env r \<Longrightarrow> hr_verb r = GET \<Longrightarrow> hr_headers r = accept_json \<Longrightarrow> hr_body r = None \<Longrightarrow> permitted r"
begin

lemma confined_api_get:
  "api_path path \<Longrightarrow> 0 < t \<Longrightarrow> t \<le> 65000 \<Longrightarrow> confined (api_get env path t)"
  unfolding api_get_def by (intro confined_fetch permits_get) (auto simp: api_request_def)

end

locale writer_policy = reader_policy permitted env for permitted env +
  assumes permits_all: "api_request env r \<Longrightarrow> permitted r"
begin

lemma confined_api_send:
  "api_path path \<Longrightarrow> 0 < t \<Longrightarrow> t \<le> 65000 \<Longrightarrow> confined (api_send env verb path t)"
  unfolding api_send_def by (intro confined_fetch permits_all) (auto simp: api_request_def)

lemma confined_api_json:
  "api_path path \<Longrightarrow> 0 < t \<Longrightarrow> t \<le> 65000 \<Longrightarrow> confined (api_json env verb path v t)"
  unfolding api_json_def by (intro confined_fetch permits_all) (auto simp: api_request_def)

end

definition read_request :: "client_env \<Rightarrow> http_request \<Rightarrow> bool" where
  "read_request env r \<longleftrightarrow> api_request env r \<and> hr_verb r = GET \<and> hr_body r = None"

interpretation reads: reader_policy "read_request env" env for env
  by unfold_locales (simp add: read_request_def)

interpretation calls: writer_policy "api_request env" env for env
  by unfold_locales simp_all

section \<open>Path segments\<close>

lemma hex_upper_safe: "d < 16 \<Longrightarrow> uri_unreserved (hex_upper d)"
  by (auto simp: uri_unreserved_def hex_upper_def is_alnum_def is_alpha_def is_digit_def is_upper_def)

lemma utf8_byte: "p < 2097152 \<Longrightarrow> b \<in> set (utf8 p) \<Longrightarrow> b < 256"
  by (auto simp: utf8_def split: if_splits)

text \<open>An encoded text has only unreserved characters and percent signs, so no separator of a URL.\<close>

lemma encode_point_safe:
  "p < 2097152 \<Longrightarrow> c \<in> set (encode_point p) \<Longrightarrow> uri_unreserved c \<or> c = 37"
  by (auto simp: encode_point_def percent_byte_def hex_upper_safe dest: utf8_byte split: if_splits)

end
