(* ===== verification/Monitors_Facts.thy ===== *)
theory Monitors_Facts
  imports Monitors_Client Api_Facts
begin

text \<open>
  What the monitor functions send, whatever the server answers: every loader only reads, every
  request goes to the API under a bounded timeout, and the functions that change data never reject.
\<close>

section \<open>Requests\<close>

context request_policy begin

lemma confined_enable_result:
  "(\<And>v w. confined (f v w)) \<Longrightarrow> (\<And>v. confined (g v)) \<Longrightarrow>
    confined (case x of EnabledMonitor v w \<Rightarrow> f v w | NotEnabled v \<Rightarrow> g v)"
  by (cases x) simp_all

lemma confined_schedules:
  "confined (schedule_write_body v)" "confined (schedule_is_running env' v)" "confined (field_errors v)"
  unfolding schedule_write_body_def schedule_is_running_def field_errors_def
  by (intro confined_intros)+

end

context reader_policy begin

lemma permits_get_request: "api_path path \<Longrightarrow> permitted (get_request env path)"
  by (rule permits_get) (auto simp: api_request_def get_request_def loader_timeout_def)

lemma confined_load:
  "confined (api_status_error p)" "confined (loaded p x)" "confined (loaded_or p x)" "confined (page_of e d)"
  by (auto simp: api_status_error_def loaded_def loaded_or_def page_of_def intro!: confined_intros)

lemma confined_add_applications: "confined (add_applications f as ix)"
  by (induction as arbitrary: ix) (auto simp: add_application_def intro!: confined_intros)

lemma confined_find_linked: "confined (find_linked m as)"
  by (induction as) (auto intro!: confined_intros)

lemma confined_summaries: "confined (summarize_monitors env' ix ms)" "confined (sort_applications env' as)"
  by (auto simp: summarize_monitors_def sort_applications_def intro!: confined_intros)

lemmas reader_intros = confined_intros confined_load confined_add_applications confined_find_linked
  confined_summaries confined_api_get permits_get_request

lemma confined_list_monitors: "confined (list_monitors env)"
  unfolding list_monitors_def
  by (intro reader_intros) (simp_all add: api_path_def js_def)

lemma confined_list_monitor_page: "confined (list_monitor_page env i)"
  unfolding list_monitor_page_def
  by (intro reader_intros) (simp_all add: api_path_def js_def)

lemma confined_get_monitor_summary: "confined (get_monitor_summary env i)"
  unfolding get_monitor_summary_def
  by (intro reader_intros) (simp_all add: api_path_def js_def)

lemma confined_list_monitor_runs: "confined (list_monitor_runs env i j)"
  unfolding list_monitor_runs_def
  by (intro reader_intros) (simp_all add: api_path_def js_def loader_timeout_def)

lemma confined_metrics:
  "confined (get_monitor_metrics env i w)" "confined (get_monitor_metrics_summary env i w)"
  "confined (get_monitor_metric_series env i w n)"
  unfolding get_monitor_metrics_def get_monitor_metrics_summary_def get_monitor_metric_series_def
  by (intro reader_intros, simp_all add: api_path_def js_def loader_timeout_def)+

lemma confined_runs:
  "confined (get_run env i)" "confined (get_run_diagnostics env i)" "confined (list_recent_runs env)"
  unfolding get_run_def get_run_diagnostics_def list_recent_runs_def
  by (intro reader_intros, simp_all add: api_path_def js_def loader_timeout_def)+

lemma confined_drafts:
  "confined (get_monitor_draft env i)" "confined (get_monitor_schedule env i)"
  "confined (list_monitor_revisions env i)"
  unfolding get_monitor_draft_def get_monitor_schedule_def list_monitor_revisions_def
  by (intro reader_intros, simp_all add: api_path_def js_def loader_timeout_def)+

lemma confined_lists:
  "confined (list_alerts env st)" "confined (list_audit_events env)"
  "confined (list_configuration_profiles env k)"
  unfolding list_alerts_def list_audit_events_def list_configuration_profiles_def
  by (intro reader_intros, simp_all add: api_path_def js_def loader_timeout_def)+

end

context writer_policy begin

lemma confined_post:
  "api_path path \<Longrightarrow> 0 < t \<Longrightarrow> t \<le> 65000 \<Longrightarrow>
    confined (fetchA \<lparr>hr_verb = v, hr_url = base_url env @ path, hr_headers = hs, hr_body = b, hr_timeout = t\<rparr>)"
  by (intro confined_fetch permits_all) (auto simp: api_request_def)

lemmas writer_intros = reader_intros confined_api_send confined_api_json confined_post

lemma confined_previews:
  "confined (preview_monitor_draft env d i e)" "confined (cancel_monitor_draft_preview env i)"
  "confined (validate_pre_request_script env c)" "confined (preview_pre_request_script env i r j)"
  unfolding preview_monitor_draft_def cancel_monitor_draft_preview_def validate_pre_request_script_def
    preview_pre_request_script_def
  by (intro writer_intros, simp_all add: api_path_def js_def loader_timeout_def)+

lemma confined_actions:
  "confined (permanently_delete_monitors env is)" "confined (run_monitor env i r)"
  "confined (cancel_run env i)" "confined (mutate_alert env i a)"
  "confined (restore_monitor_revision env i r)"
  unfolding permanently_delete_monitors_def run_monitor_def cancel_run_def
    mutate_alert_def restore_monitor_revision_def
  by (intro writer_intros, simp_all add: api_path_def js_def loader_timeout_def)+

lemma confined_mutate_monitor: "confined (mutate_monitor env i a n l)"
  unfolding mutate_monitor_def Let_def
  by (intro writer_intros) (simp_all add: api_path_def js_def)

lemma confined_saves:
  "confined (save_monitor_draft env i d)" "confined (save_monitor_environment env i e u)"
  "confined (save_monitor_schedule env i sch)"
  unfolding save_monitor_draft_def save_monitor_environment_def save_monitor_schedule_def
  by (intro writer_intros, simp_all add: api_path_def js_def)+

lemma confined_profiles:
  "confined (create_configuration_profile env k n d p c)" "confined (save_configuration_profile env k i j)"
  "confined (delete_configuration_profile env k i)" "confined (send_notification_test_email env i r)"
  unfolding create_configuration_profile_def save_configuration_profile_def
    delete_configuration_profile_def send_notification_test_email_def
  by (intro writer_intros, simp_all add: api_path_def js_def loader_timeout_def)+

lemma confined_monitor_path: "confined (monitor_path i suffix)"
  unfolding monitor_path_def by (intro confined_intros)

lemma confined_bind_path:
  assumes "\<And>path. api_path path \<Longrightarrow> confined (f path)"
  shows "confined (bindA (monitor_path i suffix) f)"
proof -
  have "snd (bindA (monitor_path i suffix) f s h) =
      (case fst (monitor_path i suffix s h) of Inl _ \<Rightarrow> h | Inr path \<Rightarrow> snd (f path s h))" for s h
    by (auto simp: monitor_path_def bindA_def liftA_def retA_def raiseA_def encodeA_def
        split: sum.splits option.splits)
  moreover have "api_path path" if "fst (monitor_path i suffix s h) = Inr path" for path s h
    using that
    by (auto simp: monitor_path_def bindA_def liftA_def retA_def raiseA_def encodeA_def api_path_def js_def
        split: sum.splits option.splits)
  ultimately show ?thesis
    using confinedD [OF assms] by (fastforce simp: sends_only_def split: sum.splits)
qed

lemma confined_created:
  "confined (put_monitor_schedule env i v)" "confined (get_created_monitor env i)"
  "confined (get_created_monitor_schedule env i)" "confined (post_enable env i)"
  "confined (publish_created env i)"
  unfolding put_monitor_schedule_def get_created_monitor_def get_created_monitor_schedule_def
    post_enable_def publish_created_def
  by (intro writer_intros confined_bind_path confined_schedules, simp_all add: loader_timeout_def)+

lemmas create_intros = writer_intros confined_schedules confined_created

lemma confined_refreshed: "confined (refreshed_monitor env i p)"
  unfolding refreshed_monitor_def by (intro create_intros)

lemma confined_enabling:
  "confined (stalled_schedule env' v w)" "confined (verify_schedule env i v)"
  "confined (accept_enabled env' inp i c r)" "confined (rejected_creation p)"
  unfolding stalled_schedule_def verify_schedule_def accept_enabled_def rejected_creation_def
  by (intro create_intros confined_enable_result)+

lemma confined_enable:
  "confined (retry_schedule env i v w)" "confined (settle_enabled env i p)"
  "confined (enable_created_monitor env i)"
  unfolding retry_schedule_def settle_enabled_def enable_created_monitor_def
  by (intro create_intros confined_refreshed confined_enabling)+

lemma confined_start: "confined (start_created env inp i c)" "confined (schedule_created env inp v)"
  unfolding start_created_def schedule_created_def
  by (intro create_intros confined_enable confined_enabling)+

lemma confined_create: "confined (create_monitor env inp)"
  unfolding create_monitor_def post_monitor_def
  by (intro create_intros confined_start confined_enabling) (simp_all add: api_path_def js_def loader_timeout_def)

end

end
