(* ===== verification/Monitors_Create.thy ===== *)
theory Monitors_Create
  imports Monitors_Facts
begin

text \<open>
  The protocol of \<open>createMonitor\<close>: which request follows which, as a state machine, and the
  proof that the history of every run of the function is a path through it, whatever the server
  answers and wherever a reply fails.
\<close>

section \<open>The protocol\<close>

definition monitor_url :: "client_env \<Rightarrow> jsstr \<Rightarrow> string \<Rightarrow> jsstr" where
  "monitor_url env m suffix = base_url env @ js ''/api/v1/monitors/'' @ m @ js suffix"

definition create_request :: "client_env \<Rightarrow> create_input \<Rightarrow> http_request \<Rightarrow> bool" where
  "create_request env inp r \<longleftrightarrow>
     hr_verb r = POST \<and> hr_url r = base_url env @ js ''/api/v1/monitors''
     \<and> hr_body r = Some (json_stringify 0 (JObj (ci_monitor inp)))"

definition call :: "client_env \<Rightarrow> http_verb \<Rightarrow> jsstr \<Rightarrow> string \<Rightarrow> http_request \<Rightarrow> bool" where
  "call env verb m suffix r \<longleftrightarrow> hr_verb r = verb \<and> hr_url r = monitor_url env m suffix"

text \<open>The path segment of an identifier, and of the identifier in a reply.\<close>

definition segment :: "jsval \<Rightarrow> jsstr option" where
  "segment i = (case to_string i of Inr s \<Rightarrow> encode_uri s | Inl _ \<Rightarrow> None)"

definition reply_segment :: "reply \<Rightarrow> jsstr option" where
  "reply_segment p = (case p of Reply _ (Some v) \<Rightarrow> segment (fld (fld v ''data'') ''id'') | _ \<Rightarrow> None)"

datatype phase =
    Fresh
  | Posted jsstr \<comment> \<open>the monitor exists, under this segment\<close>
  | Scheduled jsstr
  | Published jsstr
  | Enabled jsstr
  | Halted \<comment> \<open>a request failed or its reply could not be used\<close>

fun wanted :: "client_env \<Rightarrow> create_input \<Rightarrow> phase \<Rightarrow> http_request \<Rightarrow> bool" where
  "wanted env inp Fresh r = create_request env inp r"
| "wanted env inp (Posted m) r = call env PUT m ''/schedule'' r"
| "wanted env inp (Scheduled m) r = (ci_enabled inp \<and> call env POST m ''/publish'' r)"
| "wanted env inp (Published m) r = call env POST m ''/enable'' r"
| "wanted env inp (Enabled m) r =
     (call env GET m '''' r \<or> call env GET m ''/schedule'' r \<or> call env PUT m ''/schedule'' r
      \<or> call env POST m ''/enable'' r)"
| "wanted env inp Halted r = False"

inductive create_step :: "client_env \<Rightarrow> create_input \<Rightarrow> phase \<Rightarrow> exchange \<Rightarrow> phase \<Rightarrow> bool"
  for env inp where
  post: "wanted env inp Fresh r \<Longrightarrow> is_ok p \<Longrightarrow> reply_segment p = Some m \<Longrightarrow>
      create_step env inp Fresh (r, p) (Posted m)"
| put: "wanted env inp (Posted m) r \<Longrightarrow> is_ok p \<Longrightarrow> create_step env inp (Posted m) (r, p) (Scheduled m)"
| publish: "wanted env inp (Scheduled m) r \<Longrightarrow> is_ok p \<Longrightarrow> create_step env inp (Scheduled m) (r, p) (Published m)"
| enable: "wanted env inp (Published m) r \<Longrightarrow> is_ok p \<Longrightarrow> create_step env inp (Published m) (r, p) (Enabled m)"
| check: "wanted env inp (Enabled m) r \<Longrightarrow> create_step env inp (Enabled m) (r, p) (Enabled m)"
| halt: "wanted env inp ph r \<Longrightarrow> create_step env inp ph (r, p) Halted"

inductive create_path :: "client_env \<Rightarrow> create_input \<Rightarrow> exchange list \<Rightarrow> phase \<Rightarrow> bool"
  for env inp where
  begin_path: "create_path env inp [] Fresh"
| step_path: "create_path env inp h ph \<Longrightarrow> create_step env inp ph x ph' \<Longrightarrow> create_path env inp (h @ [x]) ph'"

inductive_simps create_step_halted: "create_step env inp Halted x ph"
inductive_cases create_stepE: "create_step env inp ph (r, p) ph'"

lemma path_post:
  "create_path env inp h Fresh \<Longrightarrow> create_request env inp r \<Longrightarrow> is_ok p \<Longrightarrow> reply_segment p = Some m \<Longrightarrow>
    create_path env inp (h @ [(r, p)]) (Posted m)"
  by (erule step_path) (simp add: create_step.post)

lemma path_put:
  "create_path env inp h (Posted m) \<Longrightarrow> call env PUT m ''/schedule'' r \<Longrightarrow> is_ok p \<Longrightarrow>
    create_path env inp (h @ [(r, p)]) (Scheduled m)"
  by (erule step_path) (simp add: create_step.put)

lemma path_publish:
  "create_path env inp h (Scheduled m) \<Longrightarrow> ci_enabled inp \<Longrightarrow> call env POST m ''/publish'' r \<Longrightarrow> is_ok p \<Longrightarrow>
    create_path env inp (h @ [(r, p)]) (Published m)"
  by (erule step_path) (simp add: create_step.publish)

lemma path_enable:
  "create_path env inp h (Published m) \<Longrightarrow> call env POST m ''/enable'' r \<Longrightarrow> is_ok p \<Longrightarrow>
    create_path env inp (h @ [(r, p)]) (Enabled m)"
  by (erule step_path) (simp add: create_step.enable)

lemma path_halt: "create_path env inp h ph \<Longrightarrow> wanted env inp ph r \<Longrightarrow> create_path env inp (h @ [(r, p)]) Halted"
  by (erule step_path) (rule create_step.halt)

section \<open>What a path shows\<close>

text \<open>The exchanges behind a phase: each phase is reached only through successful ones.\<close>

definition happened :: "client_env \<Rightarrow> http_verb \<Rightarrow> jsstr \<Rightarrow> string \<Rightarrow> exchange list \<Rightarrow> bool" where
  "happened env verb m suffix h \<longleftrightarrow> (\<exists>(r, p)\<in>set h. call env verb m suffix r \<and> is_ok p)"

lemma happened_append: "happened env verb m suffix h \<Longrightarrow> happened env verb m suffix (h @ t)"
  by (auto simp: happened_def)

lemma happened_snoc: "call env verb m suffix r \<Longrightarrow> is_ok p \<Longrightarrow> happened env verb m suffix (h @ [(r, p)])"
  by (auto simp: happened_def)

fun achieved :: "client_env \<Rightarrow> create_input \<Rightarrow> exchange list \<Rightarrow> phase \<Rightarrow> bool" where
  "achieved env inp h (Scheduled m) = happened env PUT m ''/schedule'' h"
| "achieved env inp h (Published m) =
     (ci_enabled inp \<and> happened env PUT m ''/schedule'' h \<and> happened env POST m ''/publish'' h)"
| "achieved env inp h (Enabled m) =
     (ci_enabled inp \<and> happened env PUT m ''/schedule'' h \<and> happened env POST m ''/publish'' h)"
| "achieved env inp h ph = True"

lemma path_achieved: "create_path env inp h ph \<Longrightarrow> achieved env inp h ph"
proof (induction rule: create_path.induct)
  case (step_path h ph x ph')
  from step_path.hyps(2) step_path.IH show ?case
    by (cases rule: create_step.cases) (auto intro: happened_append happened_snoc)
qed simp

lemma path_prefix:
  "create_path env inp h ph \<Longrightarrow> h = pre @ x # post \<Longrightarrow>
    \<exists>before after. create_path env inp pre before \<and> create_step env inp before x after"
proof (induction arbitrary: post rule: create_path.induct)
  case (step_path h ph y ph')
  show ?case
  proof (cases post rule: rev_cases)
    case Nil
    with step_path.prems have "pre = h" "x = y" by simp_all
    with step_path.hyps show ?thesis by blast
  next
    case (snoc post' z)
    with step_path.prems have "h = pre @ x # post'" by simp
    from step_path.IH [OF this] show ?thesis .
  qed
qed simp

lemma call_same:
  "call env verb m suffix r \<Longrightarrow> call env verb' m' suffix r \<Longrightarrow> verb = verb' \<and> m = m'"
  by (auto simp: call_def monitor_url_def)

lemma call_last: "call env verb m suffix r \<Longrightarrow> suffix \<noteq> [] \<Longrightarrow> last (hr_url r) = of_char (last suffix)"
  by (simp add: call_def monitor_url_def js_def last_map)

lemma call_publish_enable: "call env verb m ''/enable'' r \<Longrightarrow> \<not> call env verb' m' ''/publish'' r"
  using call_last [of env verb m "''/enable''" r] call_last [of env verb' m' "''/publish''" r] by auto

lemma call_create: "create_request env inp r \<Longrightarrow> \<not> call env verb m suffix r"
  by (auto simp: create_request_def call_def monitor_url_def js_def)

lemma call_verb: "call env verb m suffix r \<Longrightarrow> call env verb' m' suffix' r \<Longrightarrow> verb = verb'"
  by (simp add: call_def)

lemma step_wanted: "create_step env inp ph (r, p) ph' \<Longrightarrow> wanted env inp ph r"
  by (erule create_stepE) auto

lemma path_wanted:
  assumes "create_path env inp h ph" "h = pre @ (r, p) # post"
  obtains before where "wanted env inp before r" "achieved env inp pre before"
  using path_prefix [OF assms] path_achieved step_wanted by blast

lemma path_enable_after:
  assumes "create_path env inp h ph" "h = pre @ (r, p) # post" and enable: "call env POST m ''/enable'' r"
  shows "ci_enabled inp \<and> happened env PUT m ''/schedule'' pre \<and> happened env POST m ''/publish'' pre"
proof -
  obtain before where w: "wanted env inp before r" and ach: "achieved env inp pre before"
    using path_wanted [OF assms(1,2)] .
  then show ?thesis
  proof (cases before)
    case Fresh
    with w enable call_create show ?thesis by simp
  next
    case (Posted m')
    with w call_verb [OF enable] show ?thesis by auto
  next
    case (Scheduled m')
    with w call_publish_enable [OF enable] show ?thesis by auto
  next
    case (Published m')
    with w have "m' = m" using call_same [OF enable] by auto
    with Published ach show ?thesis by simp
  next
    case (Enabled m')
    with w enable have "call env POST m' ''/enable'' r" by (auto simp: call_def)
    then have "m' = m" using call_same [OF enable] by auto
    with Enabled ach show ?thesis by simp
  qed simp
qed

lemma path_publish_after:
  assumes "create_path env inp h ph" "h = pre @ (r, p) # post" and publish: "call env POST m ''/publish'' r"
  shows "ci_enabled inp \<and> happened env PUT m ''/schedule'' pre"
proof -
  obtain before where w: "wanted env inp before r" and ach: "achieved env inp pre before"
    using path_wanted [OF assms(1,2)] .
  then show ?thesis
  proof (cases before)
    case Fresh
    with w publish call_create show ?thesis by simp
  next
    case (Posted m')
    with w call_verb [OF publish] show ?thesis by auto
  next
    case (Scheduled m')
    with w have "m' = m" using call_same [OF publish] by auto
    with Scheduled w ach show ?thesis by simp
  next
    case (Published m')
    with w publish call_publish_enable show ?thesis by auto
  next
    case (Enabled m')
    with w publish have "call env POST m' ''/enable'' r" by (auto simp: call_def)
    with publish call_publish_enable show ?thesis by blast
  qed simp
qed

section \<open>The function follows the protocol\<close>

lemma wp_monitor_path [wp]:
  "wpA (monitor_path i suffix) Q E s h =
     (case to_string i of
        Inl e \<Rightarrow> E e h
      | Inr t \<Rightarrow> (case encode_uri t of
          Some m \<Rightarrow> Q (js ''/api/v1/monitors/'' @ m @ suffix) h | None \<Rightarrow> E URIError h))"
  by (simp add: monitor_path_def wp split: sum.splits option.splits)

lemma segmentE:
  assumes "segment i = Some m"
  obtains t where "to_string i = Inr t" "encode_uri t = Some m"
  using assms by (auto simp: segment_def split: sum.splits)

lemma wp_path:
  assumes "segment i = Some m"
  shows "wpA (bindA (monitor_path i suffix) f) Q E s h = wpA (f (js ''/api/v1/monitors/'' @ m @ suffix)) Q E s h"
  using assms by (auto elim!: segmentE simp: wp)

lemma is_ok_Unreachable [simp]: "\<not> is_ok Unreachable"
  by (simp add: is_ok_def status_of_def)

lemma wp_api_json:
  "wpA (api_json env verb path v t) Q E s h \<longleftrightarrow>
     (let r = \<lparr>hr_verb = verb, hr_url = base_url env @ path, hr_headers = send_json,
               hr_body = Some (json_stringify 0 v), hr_timeout = t\<rparr>; p = s h r
      in if p = Unreachable then E NetworkError (h @ [(r, p)]) else Q p (h @ [(r, p)]))"
  by (simp add: api_json_def wp Let_def split: reply.splits)

lemma wp_api_send:
  "wpA (api_send env verb path t) Q E s h \<longleftrightarrow>
     (let r = \<lparr>hr_verb = verb, hr_url = base_url env @ path, hr_headers = accept_json,
               hr_body = None, hr_timeout = t\<rparr>; p = s h r
      in if p = Unreachable then E NetworkError (h @ [(r, p)]) else Q p (h @ [(r, p)]))"
  by (simp add: api_send_def wp Let_def split: reply.splits)

text \<open>Computations that send nothing keep any condition on the history.\<close>

definition silent :: "'a api \<Rightarrow> bool" where
  "silent m \<longleftrightarrow> (\<forall>s h. snd (m s h) = h)"

lemma wp_silent: "silent m \<Longrightarrow> P h \<Longrightarrow> wpA m (\<lambda>_. P) (\<lambda>_. P) s h"
  by (simp add: wp_history silent_def)

lemma silent_iff: "silent m \<longleftrightarrow> sends_only (\<lambda>_. False) m"
proof -
  have "(\<forall>e\<in>set t. False) \<longleftrightarrow> t = []" for t :: "exchange list"
    by (cases t) auto
  then show ?thesis by (simp add: silent_def sends_only_def)
qed

interpretation quiet: request_policy "\<lambda>_. False" .

lemma silent_failure_or: "silent (failure_or p d)" "silent (reply_data p)" "silent (failure_text p)"
  by (simp_all add: silent_iff quiet.confined_idioms)

lemma silent_schedules:
  "silent (schedule_write_body v)" "silent (schedule_is_running env v)" "silent (field_errors v)"
  by (simp_all add: silent_iff quiet.confined_schedules)

lemma wp_silentI:
  "silent m \<Longrightarrow> (\<And>a. Q a h) \<Longrightarrow> (\<And>e. E e h) \<Longrightarrow> wpA m Q E s h"
  by (auto simp: wpA_def silent_def split: sum.splits prod.splits)
    (metis snd_conv)+

text \<open>What \<open>scheduleIsRunning\<close> accepts.\<close>

definition schedule_runs :: "client_env \<Rightarrow> jsval \<Rightarrow> bool" where
  "schedule_runs env v \<longleftrightarrow>
     fld v ''type'' = JStr (js ''MANUAL'')
     \<or> truthy (fld v ''active'') \<and> truthy (fld v ''nextRunAt'')
       \<and> (\<exists>t x. to_string (fld v ''nextRunAt'') = Inr t \<and> ce_date env (JStr t) = Fin x)"

lemma wp_schedule_is_running:
  "wpA (schedule_is_running env v) Q E s h \<longleftrightarrow>
     (if nullish v then E TypeError h
      else case (if fld v ''type'' = JStr (js ''MANUAL'') \<or> \<not> truthy (fld v ''active'')
                    \<or> \<not> truthy (fld v ''nextRunAt'') then Inr [] else to_string (fld v ''nextRunAt'')) of
        Inl e \<Rightarrow> E e h | Inr _ \<Rightarrow> Q (schedule_runs env v) h)"
  by (auto simp: schedule_is_running_def schedule_runs_def wp split: sum.splits jsnum.splits if_splits)

text \<open>Once the segment of the identifier is known, the paths of the later requests are.\<close>

lemma monitor_path_known:
  "segment i = Some m \<Longrightarrow> bindA (monitor_path i suffix) f = f (js ''/api/v1/monitors/'' @ m @ suffix)"
  by (auto elim!: segmentE simp: monitor_path_def bindA_def liftA_def retA_def encodeA_def fun_eq_iff)

lemma call_monitor:
  "hr_verb r = verb \<Longrightarrow> hr_url r = base_url env @ js ''/api/v1/monitors/'' @ m @ js suffix \<Longrightarrow>
    call env verb m suffix r"
  by (simp add: call_def monitor_url_def)

interpretation checks: request_policy "wanted env inp (Enabled m)" for env inp m .

lemma path_checks:
  "create_path env inp h (Enabled m) \<Longrightarrow> \<forall>e\<in>set t. wanted env inp (Enabled m) (fst e) \<Longrightarrow>
    create_path env inp (h @ t) (Enabled m)"
proof (induction t rule: rev_induct)
  case (snoc e t)
  then have "create_path env inp (h @ t) (Enabled m)" by simp
  moreover have "create_step env inp (Enabled m) (fst e, snd e) (Enabled m)"
    using snoc.prems by (intro create_step.check) simp
  ultimately show ?case using step_path by fastforce
qed simp

lemma wp_checks:
  assumes "sends_only (wanted env inp (Enabled m)) c" "create_path env inp h (Enabled m)"
  shows "wpA c (\<lambda>_ h'. create_path env inp h' (Enabled m)) (\<lambda>_ h'. create_path env inp h' (Enabled m)) s h"
proof -
  obtain t where "snd (c s h) = h @ t" "\<forall>e\<in>set t. wanted env inp (Enabled m) (fst e)"
    using checks.confinedD [OF assms(1)] by blast
  with path_checks [OF assms(2)] show ?thesis by (simp add: wp_history)
qed

lemma checks_confined:
  assumes "segment i = Some m"
  shows "sends_only (wanted env inp (Enabled m)) (put_monitor_schedule env i v)"
    and "sends_only (wanted env inp (Enabled m)) (get_created_monitor env i)"
    and "sends_only (wanted env inp (Enabled m)) (get_created_monitor_schedule env i)"
    and "sends_only (wanted env inp (Enabled m)) (post_enable env i)"
  unfolding put_monitor_schedule_def get_created_monitor_def get_created_monitor_schedule_def post_enable_def
    monitor_path_known [OF assms] api_get_def api_send_def api_json_def
  by (intro checks.confined_intros checks.confined_schedules; simp add: call_def monitor_url_def)+

lemma checks_settle:
  assumes "segment i = Some m"
  shows "sends_only (wanted env inp (Enabled m)) (settle_enabled env i p)"
  unfolding settle_enabled_def refreshed_monitor_def stalled_schedule_def retry_schedule_def verify_schedule_def
  by (intro checks.confined_intros checks.confined_schedules checks_confined [OF assms])

text \<open>A request to a known monitor, and what the path may do with its reply.\<close>

abbreviation some_path :: "client_env \<Rightarrow> create_input \<Rightarrow> exchange list \<Rightarrow> bool" where
  "some_path env inp h \<equiv> (\<exists>ph. create_path env inp h ph)"

lemma wp_request_known:
  assumes path: "create_path env inp h ph" and "wanted env inp ph r"
    and "\<And>p. \<not> is_ok p \<Longrightarrow> p \<noteq> Unreachable \<Longrightarrow> create_path env inp (h @ [(r, p)]) Halted \<Longrightarrow> Q p (h @ [(r, p)])"
    and "\<And>p. is_ok p \<Longrightarrow> Q p (h @ [(r, p)])"
    and "\<And>e p. create_path env inp (h @ [(r, p)]) Halted \<Longrightarrow> E e (h @ [(r, p)])"
  shows "wpA (fetchA r) Q E s h"
  using assms(3-5) path_halt [OF path assms(2)]
  by (cases "s h r") (auto simp: wp_fetch)

lemma wp_send_known:
  assumes "segment i = Some m" and "create_path env inp h ph"
    and "\<And>r. call env verb m suffix r \<Longrightarrow> wanted env inp ph r"
    and "\<And>r p. call env verb m suffix r \<Longrightarrow> \<not> is_ok p \<Longrightarrow> p \<noteq> Unreachable \<Longrightarrow> create_path env inp (h @ [(r, p)]) Halted \<Longrightarrow> Q p (h @ [(r, p)])"
    and "\<And>r p. call env verb m suffix r \<Longrightarrow> is_ok p \<Longrightarrow> Q p (h @ [(r, p)])"
    and "\<And>e r p. create_path env inp (h @ [(r, p)]) Halted \<Longrightarrow> E e (h @ [(r, p)])"
  shows "wpA (bindA (monitor_path i (js suffix)) (\<lambda>path. api_send env verb path t)) Q E s h"
    and "wpA (bindA (monitor_path i (js suffix)) (\<lambda>path. api_json env verb path v t)) Q E s h"
  unfolding monitor_path_known [OF assms(1)] api_send_def api_json_def
  by (rule wp_request_known [OF assms(2)], rule assms(3), simp add: call_monitor,
      rule assms(4), simp_all add: call_monitor, rule assms(5), simp_all add: call_monitor assms(6))+

definition enable_post :: "client_env \<Rightarrow> create_input \<Rightarrow> jsstr \<Rightarrow> enable_result \<Rightarrow> exchange list \<Rightarrow> bool" where
  "enable_post env inp m r h \<longleftrightarrow>
     create_path env inp h (Enabled m) \<or> (\<exists>v. r = NotEnabled v) \<and> some_path env inp h"

lemma wp_refusal:
  "some_path env inp h \<Longrightarrow> (\<And>v. P (f v) h) \<Longrightarrow>
    wpA (bindA (failure_or p d) (\<lambda>v. retA (f v))) P (\<lambda>_. some_path env inp) s h"
  by (simp add: wp_bind) (rule wp_silentI [OF silent_failure_or(1)], simp_all add: wp_ret)

lemma enable_spec:
  assumes i: "segment i = Some m" and path: "create_path env inp h (Published m)"
  shows "wpA (enable_created_monitor env i) (enable_post env inp m) (\<lambda>_. some_path env inp) s h"
  unfolding enable_created_monitor_def post_enable_def
proof (subst wp_bind, rule wp_send_known(1) [where suffix = "''/enable''", OF i path])
  fix r p
  assume "is_ok p" and r: "call env POST m ''/enable'' r"
  from path_enable [OF path r this(1)] have "create_path env inp (h @ [(r, p)]) (Enabled m)" .
  from wp_checks [OF checks_settle [OF i] this] \<open>is_ok p\<close>
  show "wpA (if \<not> is_ok p then bindA (failure_or p ''The monitor was published, but could not be enabled.'')
            (\<lambda>m. retA (NotEnabled m)) else settle_enabled env i p)
      (enable_post env inp m) (\<lambda>_. some_path env inp) s (h @ [(r, p)])"
    by simp (rule wp_mono, assumption, auto simp: enable_post_def)
qed (auto simp: enable_post_def intro!: wp_refusal)

definition create_post :: "client_env \<Rightarrow> create_input \<Rightarrow> create_result \<Rightarrow> exchange list \<Rightarrow> bool" where
  "create_post env inp r h \<longleftrightarrow>
     some_path env inp h \<and>
     (case r of
        Created monitor schedule \<Rightarrow>
          if ci_enabled inp then truthy (fld monitor ''enabled'') \<and> (\<exists>m. create_path env inp h (Enabled m))
          else \<exists>m. create_path env inp h (Scheduled m)
      | NotCreated _ _ _ \<Rightarrow> True)"

lemma create_post_refused [simp]: "create_post env inp (NotCreated v es i) h \<longleftrightarrow> some_path env inp h"
  by (simp add: create_post_def)

lemma accept_spec:
  assumes "enable_post env inp m r h" and "ci_enabled inp"
  shows "wpA (accept_enabled env inp i c r) (create_post env inp) (\<lambda>_. some_path env inp) s h"
  using assms
  by (cases r)
    (auto simp: accept_enabled_def enable_post_def create_post_def wp wp_schedule_is_running split: sum.splits)

lemma start_spec:
  assumes i: "segment i = Some m" and path: "create_path env inp h (Scheduled m)" and on: "ci_enabled inp"
  shows "wpA (start_created env inp i c) (create_post env inp) (\<lambda>_. some_path env inp) s h"
  unfolding start_created_def publish_created_def
proof (subst wp_bind, rule wp_send_known(2) [where suffix = "''/publish''", OF i path])
  fix r p
  assume "is_ok p" and r: "call env POST m ''/publish'' r"
  from path_publish [OF path on r this(1)] have "create_path env inp (h @ [(r, p)]) (Published m)" .
  from enable_spec [OF i this] \<open>is_ok p\<close>
  show "wpA (if \<not> is_ok p
        then bindA (failure_or p ''The monitor was saved as a draft, but could not be published.'')
               (\<lambda>m. retA (NotCreated m None (Some i)))
        else bindA (enable_created_monitor env i) (accept_enabled env inp i c))
      (create_post env inp) (\<lambda>_. some_path env inp) s (h @ [(r, p)])"
    by (simp add: wp_bind) (rule wp_mono, assumption, simp_all add: accept_spec [OF _ on])
qed (auto simp: on intro!: wp_refusal)

lemma put_spec:
  assumes i: "segment i = Some m" and path: "create_path env inp h (Posted m)"
  shows "wpA (put_monitor_schedule env i v)
      (\<lambda>r h'. case r of Done _ \<Rightarrow> create_path env inp h' (Scheduled m) | Refused _ \<Rightarrow> some_path env inp h')
      (\<lambda>_. some_path env inp) s h"
proof -
  have "wpA (bindA (monitor_path i (js ''/schedule'')) (\<lambda>path. api_json env PUT path body 8000))
     (\<lambda>p h'. if is_ok p then create_path env inp h' (Scheduled m) else some_path env inp h')
     (\<lambda>_. some_path env inp) s h" for body
    by (rule wp_send_known(2) [OF i path]) (auto intro: path_put [OF path])
  then have sent: "wpA (api_json env PUT (js ''/api/v1/monitors/'' @ m @ js ''/schedule'') body 8000)
     (\<lambda>p h'. if is_ok p then create_path env inp h' (Scheduled m) else some_path env inp h')
     (\<lambda>_. some_path env inp) s h" for body
    by (simp add: monitor_path_known [OF i])
  show ?thesis
    unfolding put_monitor_schedule_def monitor_path_known [OF i] wp_bind [of "schedule_write_body v"]
  proof (rule wp_silentI [OF silent_schedules(1)], subst wp_bind, rule wp_mono [OF sent])
    fix p h'
    assume "if is_ok p then create_path env inp h' (Scheduled m) else some_path env inp h'"
    then show "wpA (if \<not> is_ok p
          then bindA (failure_or p ''The monitor was created, but its schedule could not be saved.'') (\<lambda>m. retA (Refused m))
          else bindA (reply_data p) (\<lambda>v. retA (Done v)))
        (\<lambda>r h'. case r of Done _ \<Rightarrow> create_path env inp h' (Scheduled m) | Refused _ \<Rightarrow> some_path env inp h')
        (\<lambda>_. some_path env inp) s h'"
      by (cases "is_ok p")
        (auto simp: wp_bind [of "reply_data p"] wp_ret intro!: wp_refusal wp_silentI [OF silent_failure_or(2)])
  qed (use path in auto)
qed

lemma put_unknown:
  assumes "segment i = None" and "some_path env inp h"
  shows "wpA (bindA (put_monitor_schedule env i v) f) Q (\<lambda>_. some_path env inp) s h"
  using assms by (auto simp: put_monitor_schedule_def wp segment_def split: sum.splits)

lemma schedule_spec:
  assumes "segment (fld monitor ''id'') = Some m" and path: "create_path env inp h (Posted m)"
  shows "wpA (schedule_created env inp monitor) (create_post env inp) (\<lambda>_. some_path env inp) s h"
  unfolding schedule_created_def
  using path start_spec [OF assms(1)]
  by (auto simp: wp_bind wp_get wp_ret create_post_def
      intro!: wp_mono [OF put_spec [OF assms]] split: outcome.splits)

lemma schedule_unknown:
  assumes "segment (fld monitor ''id'') = None" and "some_path env inp h"
  shows "wpA (schedule_created env inp monitor) Q (\<lambda>_. some_path env inp) s h"
  using assms(2) by (auto simp: schedule_created_def wp_bind [of "getA _ _"] wp_get intro!: put_unknown [OF assms(1)])

lemma create_spec:
  "wpA (create_monitor env inp) (create_post env inp) (\<lambda>_ _. False) s []"
proof -
  let ?r = "post_monitor env inp"
  have path: "create_path env inp [] Fresh" by (rule begin_path)
  have wanted: "wanted env inp Fresh ?r" by (simp add: create_request_def post_monitor_def)
  have halted: "some_path env inp [(?r, p)]" for p
    using path_halt [OF path wanted, of p] by auto
  have "wpA (bindA (fetchA ?r) (\<lambda>p. if \<not> is_ok p then rejected_creation p
        else bindA (reply_data p) (schedule_created env inp)))
      (create_post env inp) (\<lambda>_. some_path env inp) s []"
  proof (subst wp_bind, rule wp_request_known [OF path wanted])
    fix p assume "\<not> is_ok p"
    then show "wpA (if \<not> is_ok p then rejected_creation p else bindA (reply_data p) (schedule_created env inp))
        (create_post env inp) (\<lambda>_. some_path env inp) s ([] @ [(?r, p)])"
      using halted
      by (auto simp: rejected_creation_def wp intro!: wp_silentI [OF silent_schedules(3)]
          split: reply.splits option.splits)
  next
    fix p assume ok: "is_ok p"
    have "wpA (schedule_created env inp (fld v ''data'')) (create_post env inp) (\<lambda>_. some_path env inp) s [(?r, p)]"
      if p: "p = Reply n (Some v)" for n v
    proof (cases "segment (fld (fld v ''data'') ''id'')")
      case (Some m)
      with path_post [OF path wanted [simplified] ok] p
      show ?thesis by (intro schedule_spec) (auto simp: reply_segment_def)
    qed (simp add: schedule_unknown halted)
    with ok halted
    show "wpA (if \<not> is_ok p then rejected_creation p else bindA (reply_data p) (schedule_created env inp))
        (create_post env inp) (\<lambda>_. some_path env inp) s ([] @ [(?r, p)])"
      by (auto simp: wp split: reply.splits option.splits)
  qed (use halted in auto)
  then show ?thesis
    unfolding create_monitor_def wp_catch by (rule wp_mono) auto
qed

section \<open>Properties\<close>

text \<open>A server that stores one monitor with a manual schedule and answers every request with it.\<close>

definition sample_env :: client_env where
  "sample_env = \<lparr>ce_api_url = None, ce_now = Fin 0, ce_date = (\<lambda>_. Fin 0), ce_collate = (\<lambda>_ _. 0)\<rparr>"

definition sample_server :: server where
  "sample_server h r = Reply 200 (Some (JObj [(js ''data'',
     JObj [(js ''id'', JStr (js ''m/1'')), (js ''enabled'', JBool True), (js ''type'', JStr (js ''MANUAL''))])]))"

definition sample_input :: create_input where
  "sample_input = \<lparr>ci_creation_id = None, ci_enabled = True,
     ci_schedule = JObj [(js ''type'', JStr (js ''MANUAL'')), (js ''timezone'', JStr (js '' ''))],
     ci_monitor = [(js ''name'', JStr (js ''Checkout''))]\<rparr>"

definition sample_history :: "exchange list" where
  "sample_history = snd (create_monitor sample_env sample_input sample_server [])"

lemma create_history_path: "some_path env inp (snd (create_monitor env inp s []))"
proof -
  have "wpA (create_monitor env inp) (\<lambda>_. some_path env inp) (\<lambda>_. some_path env inp) s []"
    by (rule wp_mono [OF create_spec]) (simp_all add: create_post_def)
  then show ?thesis by (simp only: wp_history)
qed

lemma catch_history: "snd (catchA m d s h) = snd (m s h)"
  by (simp add: catchA_def split: sum.splits prod.splits)

lemma fetch_first:
  assumes "\<And>p. sends_only P (f p)"
  shows "\<exists>t. snd (bindA (fetchA r) f s h) = h @ (r, s h r) # t"
proof (cases "s h r")
  case (Reply n v)
  obtain t where "snd (f (Reply n v) s (h @ [(r, Reply n v)])) = (h @ [(r, Reply n v)]) @ t"
    using assms [of "Reply n v"] unfolding sends_only_def by blast
  with Reply show ?thesis by (simp add: bindA_def fetchA_def)
qed (simp add: bindA_def fetchA_def)

lemma create_sends: "\<exists>t. snd (create_monitor env inp s []) = (post_monitor env inp, s [] (post_monitor env inp)) # t"
proof -
  have "sends_only (api_request env) (if \<not> is_ok p then rejected_creation p
      else bindA (reply_data p) (schedule_created env inp))" for p
    by (intro calls.confined_intros calls.confined_enabling calls.confined_start)
  from fetch_first [OF this, where r = "post_monitor env inp" and s = s and h = "[]"]
  show ?thesis by (simp add: create_monitor_def catch_history)
qed

lemma path_Fresh: "create_path env inp h ph \<Longrightarrow> ph = Fresh \<longleftrightarrow> h = []"
  by (induction rule: create_path.induct) (auto elim: create_step.cases)

lemma wanted_create: "wanted env inp ph r \<Longrightarrow> create_request env inp r \<longleftrightarrow> ph = Fresh"
  using call_create by (cases ph) auto

lemma path_creates:
  "create_path env inp h ph \<Longrightarrow> length (filter (\<lambda>e. create_request env inp (fst e)) h) = (if h = [] then 0 else 1)"
proof (induction rule: create_path.induct)
  case (step_path h ph x ph')
  obtain r p where x: "x = (r, p)" by (cases x)
  with step_path.hyps(2) have "wanted env inp ph r" by (auto dest: step_wanted)
  with step_path path_Fresh [OF step_path.hyps(1)] show ?case by (auto simp: x wanted_create)
qed simp

text \<open>C10: Whatever the server answers, the exchanges of createMonitor are a path of the protocol: create the monitor, save its schedule, and only then, if it is to be enabled, publish and enable it; the checks that follow touch nothing but that monitor and its schedule.\<close>

theorem create_monitor_refines:
  "\<exists>ph. create_path env inp (snd (create_monitor env inp s [])) ph"
  by (rule create_history_path)

text \<open>C11: The schedule is saved before the monitor is published, and the monitor is published before it is enabled, each under the same identifier and each with success; neither is attempted for a monitor that is not to be enabled.\<close>

theorem create_monitor_order:
  assumes "snd (create_monitor env inp s []) = pre @ (r, p) # post"
    and "call env POST m ''/enable'' r \<or> call env POST m ''/publish'' r"
  shows "ci_enabled inp \<and> happened env PUT m ''/schedule'' pre
    \<and> (call env POST m ''/enable'' r \<longrightarrow> happened env POST m ''/publish'' pre)"
proof -
  obtain ph where path: "create_path env inp (snd (create_monitor env inp s [])) ph"
    using create_history_path by blast
  from assms(2) show ?thesis
    using path_enable_after [OF path assms(1)] path_publish_after [OF path assms(1)] call_publish_enable by blast
qed

lemma create_monitor_order_witness:
  "happened sample_env PUT (js ''m%2F1'') ''/schedule'' (take 3 sample_history)
    \<and> happened sample_env POST (js ''m%2F1'') ''/publish'' (take 3 sample_history)"
proof -
  have "length sample_history = 7" by code_simp
  then have "snd (create_monitor sample_env sample_input sample_server []) =
      take 3 sample_history @ (fst (sample_history ! 3), snd (sample_history ! 3)) # drop 4 sample_history"
    using id_take_nth_drop [of 3 sample_history] by (simp add: sample_history_def numeral_eq_Suc)
  moreover have "call sample_env POST (js ''m%2F1'') ''/enable'' (fst (sample_history ! 3))" by code_simp
  ultimately show ?thesis using create_monitor_order by blast
qed

text \<open>Creation never raises, and posts the monitor exactly once.\<close>

theorem create_monitor_once:
  "(\<exists>r. fst (create_monitor env inp s []) = Inr r)
    \<and> length (filter (\<lambda>e. create_request env inp (fst e)) (snd (create_monitor env inp s []))) = 1"
proof -
  obtain ph where path: "create_path env inp (snd (create_monitor env inp s [])) ph"
    using create_history_path by blast
  have "snd (create_monitor env inp s []) \<noteq> []"
    using create_sends by (metis list.distinct(1))
  with path_creates [OF path] catch_returns show ?thesis
    unfolding create_monitor_def by simp
qed

text \<open>A history whose last exchange asked for the schedule and did not get one.\<close>

definition schedule_unread :: "client_env \<Rightarrow> jsstr \<Rightarrow> exchange list \<Rightarrow> bool" where
  "schedule_unread env m h \<longleftrightarrow>
     (\<exists>h' r p. h = h' @ [(r, p)] \<and> call env GET m ''/schedule'' r
        \<and> (\<forall>n v. p = Reply n (Some v) \<longrightarrow> is_ok p \<longrightarrow> \<not> truthy (fld v ''data'')))"

definition settled :: "client_env \<Rightarrow> jsstr \<Rightarrow> enable_result \<Rightarrow> exchange list \<Rightarrow> bool" where
  "settled env m r h \<longleftrightarrow>
     (case r of EnabledMonitor _ v \<Rightarrow> truthy v \<or> schedule_unread env m h | NotEnabled _ \<Rightarrow> True)"

text \<open>What holds of every value a computation returns, wherever it starts.\<close>

definition yields :: "('a \<Rightarrow> exchange list \<Rightarrow> bool) \<Rightarrow> 'a api \<Rightarrow> bool" where
  "yields Q m \<longleftrightarrow> (\<forall>s h. wpA m Q (\<lambda>_ _. True) s h)"

lemma yields_bind: "(\<And>a. yields Q (f a)) \<Longrightarrow> yields Q (bindA m f)"
  by (auto simp: yields_def wp_bind intro: wpI)

lemma yields_bind_spec:
  assumes "yields P m" and "\<And>a s h. P a h \<Longrightarrow> wpA (f a) Q (\<lambda>_ _. True) s h"
  shows "yields Q (bindA m f)"
  unfolding yields_def wp_bind
  by (intro allI wp_mono [OF assms(1) [unfolded yields_def, rule_format] assms(2)]) simp_all

lemma yields_ret: "(\<And>h. Q a h) \<Longrightarrow> yields Q (retA a)"
  by (simp add: yields_def wp_ret)

lemma yields_raise: "yields Q (raiseA e)" "yields Q (errorA x)"
  by (simp_all add: yields_def wp)

lemma yields_if: "(b \<Longrightarrow> yields Q m) \<Longrightarrow> (\<not> b \<Longrightarrow> yields Q n) \<Longrightarrow> yields Q (if b then m else n)"
  by simp

lemma yields_outcome:
  "(\<And>v. x = Done v \<Longrightarrow> yields Q (f v)) \<Longrightarrow> (\<And>v. x = Refused v \<Longrightarrow> yields Q (g v)) \<Longrightarrow>
    yields Q (case x of Done v \<Rightarrow> f v | Refused v \<Rightarrow> g v)"
  by (cases x) simp_all

lemma yields_catch: "yields Q m \<Longrightarrow> (\<And>h. Q d h) \<Longrightarrow> yields Q (catchA m d)"
  unfolding yields_def wp_catch by (intro allI, rule wp_mono [of m Q "\<lambda>_ _. True"]) simp_all

lemmas yields_intros = yields_ret yields_raise yields_if yields_outcome yields_catch yields_bind

lemma schedule_runs_truthy: "schedule_runs env v \<Longrightarrow> truthy v"
  by (cases v) (auto simp: schedule_runs_def fld_def fld_str_def)

lemma verify_settled:
  assumes "segment i = Some m"
  shows "yields (settled env m) (verify_schedule env i mon)"
  unfolding yields_def
proof (intro allI)
  fix s h
  let ?r = "\<lparr>hr_verb = GET, hr_url = base_url env @ js ''/api/v1/monitors/'' @ m @ js ''/schedule'',
      hr_headers = accept_json, hr_body = None, hr_timeout = loader_timeout\<rparr>"
  have "call env GET m ''/schedule'' ?r" by (simp add: call_monitor)
  then show "wpA (verify_schedule env i mon) (settled env m) (\<lambda>_ _. True) s h"
    unfolding verify_schedule_def get_created_monitor_schedule_def
      monitor_path_known [OF assms] api_get_def
    by (cases "s h ?r") (auto simp: wp settled_def schedule_unread_def is_ok_def split: option.splits)
qed

lemma settle_settled:
  assumes "segment i = Some m"
  shows "yields (settled env m) (settle_enabled env i p)"
proof -
  have running: "yields (\<lambda>r _. r \<longrightarrow> schedule_runs env v) (schedule_is_running env v)" for v
    by (auto simp: yields_def wp_schedule_is_running split: sum.splits)
  have "wpA (if running then retA (EnabledMonitor mon (case retried of Done v \<Rightarrow> v | Refused _ \<Rightarrow> JUndef))
      else bindA (post_enable env i) (\<lambda>again. bindA (if is_ok again then refreshed_monitor env i again else retA mon)
        (verify_schedule env i))) (settled env m) (\<lambda>_ _. True) s h"
    if "running \<longrightarrow> (case retried of Done v \<Rightarrow> schedule_runs env v | Refused _ \<Rightarrow> False)" for running retried mon s h
  proof (cases running)
    case True
    with that show ?thesis
      by (auto simp: wp_ret settled_def schedule_runs_truthy split: outcome.splits)
  next
    case False
    have "yields (settled env m) (bindA (post_enable env i) (\<lambda>again.
        bindA (if is_ok again then refreshed_monitor env i again else retA mon) (verify_schedule env i)))"
      by (intro yields_bind verify_settled assms)
    with False show ?thesis by (simp add: yields_def)
  qed
  moreover have "yields (\<lambda>r _. r \<longrightarrow> (case retried of Done v \<Rightarrow> schedule_runs env v | Refused _ \<Rightarrow> False))
      (case retried of Done v \<Rightarrow> schedule_is_running env v | Refused _ \<Rightarrow> retA False)" for retried
    using running by (cases retried) (simp_all add: yields_ret)
  ultimately have "yields (settled env m) (retry_schedule env i mon v)" for mon v
    unfolding retry_schedule_def by (intro yields_bind yields_bind_spec [of "\<lambda>r _. _ r"])
  then show ?thesis
    unfolding settle_enabled_def
    by (intro yields_bind yields_if verify_settled assms)
qed

lemma enable_settled:
  "segment i = Some m \<Longrightarrow> yields (settled env m) (enable_created_monitor env i)"
  unfolding enable_created_monitor_def
  by (intro yields_bind yields_if yields_ret settle_settled) (simp_all add: settled_def)

definition verified :: "client_env \<Rightarrow> create_input \<Rightarrow> create_result \<Rightarrow> exchange list \<Rightarrow> bool" where
  "verified env inp r h \<longleftrightarrow>
     (case r of
        Created _ v \<Rightarrow> \<not> ci_enabled inp \<or> fld (ci_schedule inp) ''type'' = JStr (js ''MANUAL'')
          \<or> schedule_runs env v \<or> (\<exists>m. schedule_unread env m h)
      | NotCreated _ _ _ \<Rightarrow> True)"

lemma verified_refused [simp]: "verified env inp (NotCreated x y z) h"
  by (simp add: verified_def)

lemma accept_verified:
  "settled env m r h \<Longrightarrow> wpA (accept_enabled env inp i c r) (verified env inp) (\<lambda>_ _. True) s h"
  by (cases r)
    (auto simp: accept_enabled_def settled_def verified_def wp wp_schedule_is_running coalesce_def
      nullish_def split: sum.splits)

lemma start_verified:
  assumes "segment i = Some m"
  shows "yields (verified env inp) (start_created env inp i c)"
  unfolding start_created_def
  by (intro yields_bind yields_if yields_ret verified_refused
      yields_bind_spec [OF enable_settled [OF assms] accept_verified])

lemma schedule_verified: "yields (verified env inp) (schedule_created env inp monitor)"
proof (cases "segment (fld monitor ''id'')")
  case None
  then show ?thesis
    by (auto simp: yields_def schedule_created_def put_monitor_schedule_def wp segment_def split: sum.splits)
next
  case (Some m)
  have "yields (verified env inp) (bindA (put_monitor_schedule env (fld monitor ''id'') (ci_schedule inp)) (\<lambda>saved.
      case saved of
        Refused v \<Rightarrow> retA (NotCreated v None (Some (fld monitor ''id'')))
      | Done configured \<Rightarrow>
          if ci_enabled inp then start_created env inp (fld monitor ''id'') configured
          else retA (Created monitor configured)))"
    by (intro yields_bind yields_outcome yields_if yields_ret start_verified [OF Some])
      (simp_all add: verified_def)
  then show ?thesis
    by (simp add: yields_def schedule_created_def wp_bind [of "getA _ _"] wp_get)
qed

lemma create_verified: "yields (verified env inp) (create_monitor env inp)"
  unfolding create_monitor_def rejected_creation_def
  by (intro yields_intros verified_refused schedule_verified)

text \<open>A monitor reported as created and enabled with a timed schedule has a running schedule, unless the last exchange of the function asked the server for the schedule and got none.\<close>

theorem create_monitor_runs:
  assumes "create_monitor env inp s h = (Inr (Created monitor schedule), h')"
    and "ci_enabled inp" and "fld (ci_schedule inp) ''type'' \<noteq> JStr (js ''MANUAL'')"
  shows "schedule_runs env schedule \<or> (\<exists>m. schedule_unread env m h')"
proof -
  have "verified env inp (Created monitor schedule) h'"
    using create_verified assms(1) unfolding yields_def by (blast dest: wp_Inr)
  with assms(2,3) show ?thesis by (simp add: verified_def)
qed

definition timed_input :: create_input where
  "timed_input = sample_input\<lparr>ci_schedule := JObj [(js ''type'', JStr (js ''INTERVAL'')), (js ''timezone'', JStr [])]\<rparr>"

lemma create_monitor_runs_witness:
  "let r = create_monitor sample_env timed_input sample_server [] in
    case fst r of
      Inr (Created _ v) \<Rightarrow> schedule_runs sample_env v \<or> (\<exists>m. schedule_unread sample_env m (snd r))
    | _ \<Rightarrow> False"
proof -
  obtain m v h where r: "create_monitor sample_env timed_input sample_server [] = (Inr (Created m v), h)"
  proof -
    have "case fst (create_monitor sample_env timed_input sample_server []) of Inr (Created _ _) \<Rightarrow> True | _ \<Rightarrow> False"
      by code_simp
    then show thesis
      using that by (cases "create_monitor sample_env timed_input sample_server []")
        (auto split: sum.splits create_result.splits)
  qed
  have "ci_enabled timed_input" "fld (ci_schedule timed_input) ''type'' \<noteq> JStr (js ''MANUAL'')"
    by code_simp+
  from create_monitor_runs [OF r this] show ?thesis by (simp add: r)
qed

text \<open>A monitor reported as created went through the whole protocol: its schedule was saved and, if it was to be enabled, it was published and the monitor returned says it is enabled.\<close>

theorem create_monitor_complete:
  assumes "create_monitor env inp s [] = (Inr (Created monitor schedule), h)"
  shows "\<exists>m. happened env PUT m ''/schedule'' h
    \<and> (ci_enabled inp \<longrightarrow> happened env POST m ''/publish'' h \<and> truthy (fld monitor ''enabled''))"
proof -
  from wp_Inr [OF create_spec assms] have post: "create_post env inp (Created monitor schedule) h" .
  then obtain m where "create_path env inp h (if ci_enabled inp then Enabled m else Scheduled m)"
    by (auto simp: create_post_def split: if_splits)
  from path_achieved [OF this] post show ?thesis
    by (intro exI [of _ m]) (auto simp: create_post_def split: if_splits)
qed

lemma create_monitor_complete_witness:
  "\<exists>m. happened sample_env PUT m ''/schedule'' sample_history \<and> happened sample_env POST m ''/publish'' sample_history"
proof -
  obtain m v where "create_monitor sample_env sample_input sample_server [] = (Inr (Created m v), sample_history)"
  proof -
    have "case fst (create_monitor sample_env sample_input sample_server []) of Inr (Created _ _) \<Rightarrow> True | _ \<Rightarrow> False"
      by code_simp
    then show thesis
      using that by (cases "create_monitor sample_env sample_input sample_server []")
        (auto simp: sample_history_def split: sum.splits create_result.splits)
  qed
  from create_monitor_complete [OF this] show ?thesis by (auto simp: sample_input_def)
qed

end
