(* ===== verification/Monitors_Typed.thy ===== *)
theory Monitors_Typed
  imports Monitors_Client Api_Facts
begin

text \<open>
  Type safety of the monitor lists: when the server's replies have the shapes that
  \<open>contracts.ts\<close> declares, the lists are built without an exception and their elements have the
  shape \<open>MonitorSummary\<close>.
\<close>


lemma conforms_fields_zip:
  assumes "list_all2 (\<lambda>f p. fst f = fst p \<and> conforms (snd (snd f)) (snd p)) fs ps" and "distinct (map fst ps)"
  shows "conforms (TObject fs) (JObj ps)"
proof -
  have "(optional \<and> fld_str (JObj ps) k = JUndef) \<or> conforms t (fld_str (JObj ps) k)"
    if f: "(k, optional, t) \<in> set fs" for k optional t
  proof -
    obtain n where n: "n < length fs" "fs ! n = (k, optional, t)"
      using f by (auto simp: in_set_conv_nth)
    with assms(1) have "n < length ps" "fst (ps ! n) = k" "conforms t (snd (ps ! n))"
      by (auto simp: list_all2_conv_all_nth)
    then have "(k, snd (ps ! n)) \<in> set ps" by (metis nth_mem prod.collapse)
    then have "map_of ps k = Some (snd (ps ! n))" using assms(2) by simp
    with \<open>conforms t (snd (ps ! n))\<close> show ?thesis by (simp add: fld_str_def)
  qed
  then show ?thesis by (auto simp: conforms_fields_iff)
qed

lemma fld_literal [simp]: "fld_str (JObj ps) k = (case map_of ps k of Some w \<Rightarrow> w | None \<Rightarrow> JUndef)"
  by (simp add: fld_str_def)

definition string_application :: "linked_application \<Rightarrow> bool" where
  "string_application a \<longleftrightarrow> is_string (la_id a) \<and> is_string (la_name a)"

lemma is_stringE: "is_string v \<Longrightarrow> (\<And>x. v = JStr x \<Longrightarrow> P) \<Longrightarrow> P"
  by (cases v) auto

lemma health_status: "\<exists>l\<in>set [''healthy'', ''failing'', ''paused'', ''unknown'', ''warning'']. health_to_status h = js l"
  by (simp add: health_to_status_def)

lemma monitor_fields:
  assumes "conforms monitor_contract m"
  shows "\<exists>ps. m = JObj ps"
    and "conforms TString (fld m ''id'')" "conforms TString (fld m ''name'')" "conforms TString (fld m ''slug'')"
    and "fld m ''description'' = JUndef \<or> conforms TString (fld m ''description'')"
    and "fld m ''ownerId'' = JUndef \<or> conforms TString (fld m ''ownerId'')"
    and "conforms (TArray TString) (fld m ''tags'')" and "conforms TBoolean (fld m ''enabled'')"
    and "conforms TNumber (fld m ''stepCount'')" and "conforms monitor_state (fld m ''state'')"
    and "fld m ''scheduleSummary'' = JUndef \<or> conforms TString (fld m ''scheduleSummary'')"
    and "fld m ''successRate24h'' = JUndef \<or> conforms TNumber (fld m ''successRate24h'')"
    and "fld m ''lastLatencyMs'' = JUndef \<or> conforms TNumber (fld m ''lastLatencyMs'')"
  by ((rule conforms_object [OF assms [unfolded monitor_contract_def]])
      | (rule conforms_need [OF assms [unfolded monitor_contract_def]], simp)
      | (rule conforms_may [OF assms [unfolded monitor_contract_def]], simp))+

lemma coalesce_conforms:
  "v = JUndef \<or> conforms t v \<Longrightarrow> conforms t d \<Longrightarrow> t \<noteq> TNull \<Longrightarrow> conforms t (coalesce v d)"
  by (auto simp: coalesce_def)

lemma to_monitor_summary_typed:
  assumes m: "conforms monitor_contract m" and a: "\<forall>x. a = Some x \<longrightarrow> string_application x"
  shows "\<exists>w. to_monitor_summary env m a = Inr w \<and> conforms monitor_summary w \<and> fld w ''id'' = fld m ''id''"
proof -
  note f = monitor_fields [OF m]
  obtain cadence where cad: "coalesce (fld m ''scheduleSummary'') (JStr (js ''Manual only'')) = JStr cadence"
    using f(11) by (cases "fld m ''scheduleSummary''") (auto simp: coalesce_def)
  have "\<not> nullish m" using f(1) by auto
  have tags: "is_array (fld m ''tags'')" using f(7) by (cases "fld m ''tags''") auto
  have app: "\<exists>i n. (case a of Some x \<Rightarrow> coalesce (la_id x) JNull | None \<Rightarrow> JNull) = i \<and> (is_string i \<or> i = JNull)
     \<and> (case a of Some x \<Rightarrow> or_else (la_name x) (JStr (js ''Not assigned'')) | None \<Rightarrow> JStr (js ''Not assigned'')) = n \<and> is_string n"
    using a by (cases a) (auto simp: string_application_def or_else_def elim!: is_stringE)
  have opt: "is_string (coalesce (fld m k) (JStr d))" if "fld m k = JUndef \<or> conforms TString (fld m k)" for k d
    using that by (auto simp: coalesce_def)
  have num: "conforms (TUnion [TNumber, TNull]) (coalesce (fld m k) JNull)"
    if "fld m k = JUndef \<or> conforms TNumber (fld m k)" for k
    using that by (auto simp: coalesce_def)
  obtain w where w: "to_monitor_summary env m a = Inr (JObj w)" "w = 
      [(js ''id'', fld m ''id''), (js ''name'', fld m ''name''), (js ''slug'', fld m ''slug''),
       (js ''description'', coalesce (fld m ''description'') (JStr (js ''No description provided''))),
       (js ''status'', JStr (health_to_status (fld m ''health''))), (js ''enabled'', fld m ''enabled''),
       (js ''applicationId'', case a of Some x \<Rightarrow> coalesce (la_id x) JNull | None \<Rightarrow> JNull),
       (js ''application'', case a of Some x \<Rightarrow> or_else (la_name x) (JStr (js ''Not assigned''))
          | None \<Rightarrow> JStr (js ''Not assigned'')),
       (js ''cadence'', JStr (format_cadence_label cadence)), (js ''tags'', fld m ''tags''),
       (js ''owner'', coalesce (fld m ''ownerId'') (JStr (js ''Unassigned''))),
       (js ''successRate'', coalesce (fld m ''successRate24h'') JNull),
       (js ''latencyMs'', coalesce (fld m ''lastLatencyMs'') JNull),
       (js ''lastRun'', JStr (if truthy (fld m ''lastRunAt'') then relative_time env (fld m ''lastRunAt'') else js ''Not run'')),
       (js ''stepCount'', fld m ''stepCount''), (js ''state'', fld m ''state'')]"
    using \<open>\<not> nullish m\<close> tags by (simp add: to_monitor_summary_def cad)
  have "conforms monitor_summary (JObj w)"
    unfolding monitor_summary_def w(2)
  proof (rule conforms_fields_zip)
  qed (use f(2-4,7-9) f(10) [unfolded monitor_state_def] opt [OF f(5)] opt [OF f(6)] num [OF f(12)] num [OF f(13)] app
        health_status [of "fld m ''health''"] in \<open>auto simp: need_def monitor_status_def\<close>)
  with w show ?thesis by (intro exI [of _ "JObj w"]) simp
qed
section \<open>Applications and lists\<close>

definition linked :: "jsval \<Rightarrow> linked_application" where
  "linked a = \<lparr>la_id = fld a ''id'', la_name = fld a ''name''\<rparr>"

definition monitor_ids :: "jsval \<Rightarrow> jsval list" where
  "monitor_ids a = (case fld a ''monitorIds'' of JArr ms \<Rightarrow> ms | _ \<Rightarrow> [])"

definition index_of :: "jsval list \<Rightarrow> application_index \<Rightarrow> application_index" where
  "index_of as ix =
     \<lparr>ai_applications = ai_applications ix @ map linked as,
      ai_by_monitor = ai_by_monitor ix @ concat (map (\<lambda>a. map (\<lambda>m. (m, linked a)) (monitor_ids a)) as)\<rparr>"

lemma bind_retA [simp]: "bindA (retA a) f = f a"
  by (simp add: bindA_def retA_def fun_eq_iff)

lemma get_defined: "\<not> nullish v \<Longrightarrow> getA v k = retA (fld v k)"
  by (simp add: getA_def)

lemma add_applications_spec:
  "\<forall>a\<in>set as. \<not> nullish a \<Longrightarrow> add_applications array_or_none as ix = retA (index_of as ix)"
proof (induction as arbitrary: ix)
  case (Cons a as)
  have "add_application array_or_none a ix = retA (index_of [a] ix)"
    using Cons.prems
    by (simp add: add_application_def get_defined liftA_def array_or_none_def index_of_def linked_def
        monitor_ids_def Let_def split: jsval.split)
  with Cons show ?case by (simp add: index_of_def)
next
  case Nil
  show ?case by (cases ix) (simp add: index_of_def)
qed

text \<open>The application of a monitor is the last one that lists it.\<close>

lemma map_of_listed:
  "map_of (rev (concat (map (\<lambda>a. map (\<lambda>m. (m, linked a)) (monitor_ids a)) as))) i
    = map_option linked (find (\<lambda>a. i \<in> set (monitor_ids a)) (rev as))"
proof (induction as rule: rev_induct)
  case (snoc a as)
  have "map_of (rev (map (\<lambda>m. (m, linked a)) ms)) i = (if i \<in> set ms then Some (linked a) else None)" for ms
    by (induction ms) (auto simp: map_add_def split: option.splits)
  with snoc show ?case by (auto simp: map_add_def split: option.splits)
qed simp

lemma application_of_spec:
  "is_string i \<Longrightarrow> application_of (index_of as no_applications) i
    = map_option linked (find (\<lambda>a. i \<in> set (monitor_ids a)) (rev as))"
  by (auto simp: application_of_def index_of_def no_applications_def map_of_listed is_object_def elim: is_stringE)

lemma mapA_retA: "(\<And>x. x \<in> set xs \<Longrightarrow> f x = retA (g x)) \<Longrightarrow> mapA f xs = retA (map g xs)"
  by (induction xs) simp_all

definition summary_of :: "client_env \<Rightarrow> jsval list \<Rightarrow> jsval \<Rightarrow> jsval" where
  "summary_of env as m =
     (case to_monitor_summary env m (map_option linked (find (\<lambda>a. fld m ''id'' \<in> set (monitor_ids a)) (rev as))) of
        Inr w \<Rightarrow> w | Inl _ \<Rightarrow> JUndef)"

lemma application_strings:
  assumes "conforms elf_application_contract a"
  shows "string_application (linked a)" "\<not> nullish a"
proof -
  note c = assms [unfolded elf_application_contract_def]
  have "conforms TString (fld a ''id'')" by (rule conforms_need [OF c]) simp
  moreover have "conforms TString (fld a ''name'')" by (rule conforms_need [OF c]) simp
  ultimately show "string_application (linked a)" by (simp add: string_application_def linked_def)
  show "\<not> nullish a" by (rule conforms_not_nullish [OF c])
qed

lemma found_application:
  assumes "\<forall>a\<in>set as. conforms elf_application_contract a"
    and "map_option linked (find P (rev as)) = Some x"
  shows "string_application x"
proof -
  obtain a where "find P (rev as) = Some a" "x = linked a" using assms(2) by auto
  then have "a \<in> set as" by (metis find_Some_iff length_rev nth_mem set_rev)
  with assms(1) application_strings \<open>x = linked a\<close> show ?thesis by blast
qed

lemma summarize_spec:
  assumes "\<forall>m\<in>set ms. conforms monitor_contract m" and as: "\<forall>a\<in>set as. conforms elf_application_contract a"
  shows "summarize_monitors env (index_of as no_applications) ms = retA (map (summary_of env as) ms)"
    and "list_all (conforms monitor_summary) (map (summary_of env as) ms)"
    and "map (\<lambda>w. fld w ''id'') (map (summary_of env as) ms) = map (\<lambda>m. fld m ''id'') ms"
proof -
  have one: "\<exists>w. to_monitor_summary env m (map_option linked (find (\<lambda>a. fld m ''id'' \<in> set (monitor_ids a)) (rev as))) = Inr w
      \<and> conforms monitor_summary w \<and> fld w ''id'' = fld m ''id''" if "m \<in> set ms" for m
    using assms(1) that found_application [OF as] by (intro to_monitor_summary_typed) auto
  show "summarize_monitors env (index_of as no_applications) ms = retA (map (summary_of env as) ms)"
    unfolding summarize_monitors_def
  proof (rule mapA_retA)
    fix m assume m: "m \<in> set ms"
    with assms(1) have "is_string (fld m ''id'')" "\<not> nullish m"
      using monitor_fields(1,2) by fastforce+
    with one [OF m] show "bindA (getA m ''id'') (\<lambda>i. liftA (to_monitor_summary env m
        (application_of (index_of as no_applications) i))) = retA (summary_of env as m)"
      by (auto simp: get_defined application_of_spec summary_of_def liftA_def)
  qed
  show "list_all (conforms monitor_summary) (map (summary_of env as) ms)"
    using one by (force simp: list_all_iff summary_of_def)
  show "map (\<lambda>w. fld w ''id'') (map (summary_of env as) ms) = map (\<lambda>m. fld m ''id'') ms"
    using one by (force simp: summary_of_def)
qed

lemma sort_applications_spec:
  assumes "\<forall>a\<in>set as. conforms elf_application_contract a"
  shows "\<exists>bs. sort_applications env (map linked as) = retA bs \<and> mset bs = mset (map linked as)"
proof -
  have "list_all (\<lambda>a. is_string (la_name a)) (map linked as)"
    using assms application_strings(1) by (auto simp: list_all_iff string_application_def)
  then show ?thesis by (auto simp: sort_applications_def)
qed

text \<open>A server that answers a request with data of the declared shape.\<close>

definition serves :: "server \<Rightarrow> exchange list \<Rightarrow> http_request \<Rightarrow> ty \<Rightarrow> jsval \<Rightarrow> bool" where
  "serves s h r t d \<longleftrightarrow>
     (\<exists>n v. s h r = Reply n (Some v) \<and> 200 \<le> n \<and> n \<le> 299 \<and> conforms (api_success t) v \<and> d = fld v ''data'')"

abbreviation monitors_request :: "client_env \<Rightarrow> http_request" where
  "monitors_request env \<equiv> get_request env (js ''/api/v1/monitors'')"

abbreviation applications_request :: "client_env \<Rightarrow> http_request" where
  "applications_request env \<equiv> get_request env (js ''/api/v1/applications'')"

lemma servesE:
  assumes "serves s h r (TArray t) d"
  obtains n v xs where "s h r = Reply n (Some v)" "is_ok (Reply n (Some v))" "fld v ''data'' = JArr xs"
    "d = JArr xs" "\<not> nullish v" "\<forall>x\<in>set xs. conforms t x"
proof -
  obtain n v where v: "s h r = Reply n (Some v)" "200 \<le> n" "n \<le> 299" "conforms (api_success (TArray t)) v"
      "d = fld v ''data''"
    using assms by (auto simp: serves_def)
  note c = v(4) [unfolded api_success_def]
  have "conforms (TArray t) (fld v ''data'')" by (rule conforms_need [OF c]) simp
  from conforms_array [OF this] v conforms_not_nullish [OF c] that show thesis
    by (auto simp: is_ok_def status_of_def)
qed

text \<open>C12: When the server answers with monitors and applications of the declared types, the list is built without an exception: one summary of the declared type for each monitor, in the server's order and under its identifier, computed with the last application that lists it, and a rearrangement of the server's applications.\<close>

theorem list_monitors_typed:
  assumes "serves s h (monitors_request env) (TArray monitor_contract) (JArr ms)"
    and "serves s (h @ [(monitors_request env, s h (monitors_request env))]) (applications_request env)
      (TArray elf_application_contract) (JArr as)"
  shows "\<exists>bs. fst (list_monitors env s h) = Inr \<lparr>ml_monitors = map (summary_of env as) ms, ml_applications = bs\<rparr>
    \<and> list_all (conforms monitor_summary) (map (summary_of env as) ms)
    \<and> map (\<lambda>w. fld w ''id'') (map (summary_of env as) ms) = map (\<lambda>m. fld m ''id'') ms
    \<and> mset bs = mset (map linked as)"
proof -
  obtain n v where m: "s h (monitors_request env) = Reply n (Some v)" "is_ok (Reply n (Some v))" "fld v ''data'' = JArr ms"
      "\<not> nullish v" "\<forall>x\<in>set ms. conforms monitor_contract x"
    using assms(1) by (auto elim: servesE)
  obtain n' v' where a: "s (h @ [(monitors_request env, s h (monitors_request env))]) (applications_request env) = Reply n' (Some v')" "is_ok (Reply n' (Some v'))"
      "fld v' ''data'' = JArr as" "\<not> nullish v'" and as: "\<forall>x\<in>set as. conforms elf_application_contract x"
    using assms(2) by (auto elim: servesE)
  obtain bs where bs: "sort_applications env (map linked as) = retA bs" "mset bs = mset (map linked as)"
    using sort_applications_spec [OF as] by blast
  have "\<forall>x\<in>set as. \<not> nullish x" using as application_strings(2) by blast
  from add_applications_spec [OF this]
  have "wpA (list_monitors env) (\<lambda>x _. x = \<lparr>ml_monitors = map (summary_of env as) ms, ml_applications = bs\<rparr>)
      (\<lambda>_ _. False) s h"
    using m(1-4) a bs(1) summarize_spec(1) [OF m(5) as]
    unfolding list_monitors_def
    by (simp add: wp wp_both Let_def index_of_def no_applications_def)
  then show ?thesis
    using summarize_spec(2,3) [OF m(5) as] bs(2) by (auto simp: wpA_def split: prod.splits sum.splits)
qed

text \<open>A server with one monitor and one application that lists it.\<close>

definition client_sample :: client_env where
  "client_sample = \<lparr>ce_api_url = None, ce_now = Fin 0, ce_date = (\<lambda>_. NaN), ce_collate = (\<lambda>_ _. 0)\<rparr>"

definition monitor_sample :: jsval where
  "monitor_sample = JObj
     ([(js ''tags'', JArr []), (js ''enabled'', JBool True), (js ''stepCount'', JNum (nnum 1)),
       (js ''state'', JStr (js ''ENABLED'')), (js ''health'', JStr (js ''HEALTHY''))]
      @ map (\<lambda>k. (js k, JStr (js ''m1''))) [''id'', ''name'', ''slug'', ''updatedAt''])"

definition application_sample :: jsval where
  "application_sample = JObj
     ([(js ''monitorIds'', JArr [JStr (js ''m1'')]), (js ''saharaEnabled'', JBool False), (js ''active'', JBool True),
       (js ''semanticMapping'', JObj [])]
      @ map (\<lambda>k. (js k, JArr [])) [''maskingRules'', ''alertEmails'', ''services'']
      @ map (\<lambda>k. (js k, JStr (js ''a1''))) [''id'', ''name'', ''defaultTimeField'', ''createdAt'', ''updatedAt''])"

definition reply_sample :: "jsval \<Rightarrow> jsval" where
  "reply_sample v = JObj [(js ''data'', JArr [v]), (js ''meta'', JObj [(js ''requestId'', JStr (js ''r1''))])]"

definition typed_server :: server where
  "typed_server h r = Reply 200 (Some (reply_sample (if h = [] then monitor_sample else application_sample)))"

lemma samples_typed:
  "conforms (api_success (TArray monitor_contract)) (reply_sample monitor_sample)"
  "conforms (api_success (TArray elf_application_contract)) (reply_sample application_sample)"
  by code_simp+

lemma list_monitors_typed_witness:
  "\<exists>ml. fst (list_monitors client_sample typed_server []) = Inr ml \<and> length (ml_monitors ml) = 1
    \<and> list_all (conforms monitor_summary) (ml_monitors ml)"
proof -
  have "serves typed_server [] (monitors_request client_sample) (TArray monitor_contract) (JArr [monitor_sample])"
    unfolding serves_def
    by (intro exI [of _ 200] exI [of _ "reply_sample monitor_sample"])
      (simp add: samples_typed typed_server_def, simp add: reply_sample_def)
  moreover have "serves typed_server ([] @ [(r, p)]) (applications_request client_sample)
      (TArray elf_application_contract) (JArr [application_sample])" for r p
    unfolding serves_def
    by (intro exI [of _ 200] exI [of _ "reply_sample application_sample"])
      (simp add: samples_typed typed_server_def, simp add: reply_sample_def)
  ultimately obtain bs where "fst (list_monitors client_sample typed_server []) =
      Inr \<lparr>ml_monitors = map (summary_of client_sample [application_sample]) [monitor_sample], ml_applications = bs\<rparr>
    \<and> list_all (conforms monitor_summary) (map (summary_of client_sample [application_sample]) [monitor_sample])"
    using list_monitors_typed [of typed_server "[]" client_sample] by blast
  then show ?thesis by simp
qed

end
