(* ===== verification/Monitors_Properties.thy ===== *)
theory Monitors_Properties
  imports Monitors_Create Monitors_Typed
begin

text \<open>
  The properties of the remaining server functions of \<open>lib/api-client/monitors.ts\<close>: what they
  send, that those which change data answer instead of raising, and that an identifier stays within
  its path segment.
\<close>

section \<open>Requests and failures\<close>

text \<open>C13: The loaders only read: whatever the server answers, they send GET requests without a body, to the API, under a timeout of at most 65 seconds.\<close>

theorem loaders_only_read:
  "sends_only (read_request env) (list_monitors env)
    \<and> sends_only (read_request env) (list_monitor_page env page)
    \<and> sends_only (read_request env) (get_monitor_summary env i)
    \<and> sends_only (read_request env) (list_monitor_runs env i runs)
    \<and> sends_only (read_request env) (get_monitor_metrics env i window)
    \<and> sends_only (read_request env) (get_monitor_metrics_summary env i window)
    \<and> sends_only (read_request env) (get_monitor_metric_series env i window n)
    \<and> sends_only (read_request env) (get_run env i)
    \<and> sends_only (read_request env) (get_run_diagnostics env i)
    \<and> sends_only (read_request env) (list_recent_runs env)
    \<and> sends_only (read_request env) (get_monitor_draft env i)
    \<and> sends_only (read_request env) (get_monitor_schedule env i)
    \<and> sends_only (read_request env) (list_monitor_revisions env i)
    \<and> sends_only (read_request env) (list_alerts env state)
    \<and> sends_only (read_request env) (list_audit_events env)
    \<and> sends_only (read_request env) (list_configuration_profiles env kind)"
  by (intro conjI reads.confined_list_monitors reads.confined_list_monitor_page
      reads.confined_get_monitor_summary reads.confined_list_monitor_runs reads.confined_metrics
      reads.confined_runs reads.confined_drafts reads.confined_lists)

text \<open>The functions that change data send every request to the API, under a timeout between 1 millisecond and 65 seconds.\<close>

theorem changes_call_api:
  "sends_only (api_request env) (create_monitor env inp)
    \<and> sends_only (api_request env) (preview_monitor_draft env d i e)
    \<and> sends_only (api_request env) (cancel_monitor_draft_preview env i)
    \<and> sends_only (api_request env) (permanently_delete_monitors env is)
    \<and> sends_only (api_request env) (run_monitor env i revision)
    \<and> sends_only (api_request env) (mutate_monitor env i action name slug)
    \<and> sends_only (api_request env) (cancel_run env i)
    \<and> sends_only (api_request env) (save_monitor_draft env i d)
    \<and> sends_only (api_request env) (save_monitor_environment env i j updated)
    \<and> sends_only (api_request env) (save_monitor_schedule env i d)
    \<and> sends_only (api_request env) (restore_monitor_revision env i j)
    \<and> sends_only (api_request env) (mutate_alert env i alert)
    \<and> sends_only (api_request env) (create_configuration_profile env kind label description ty d)
    \<and> sends_only (api_request env) (save_configuration_profile env kind i profile)
    \<and> sends_only (api_request env) (delete_configuration_profile env kind i)
    \<and> sends_only (api_request env) (send_notification_test_email env i recipient)"
  by (intro conjI calls.confined_create calls.confined_previews calls.confined_actions
      calls.confined_mutate_monitor calls.confined_saves calls.confined_profiles)

definition answers :: "'a api \<Rightarrow> bool" where
  "answers m \<longleftrightarrow> (\<forall>s h. \<exists>a. fst (m s h) = Inr a)"

lemma answers_catch: "answers (catchA m d)"
  by (simp add: answers_def catch_returns)

text \<open>At most a number of requests.\<close>

definition at_most :: "nat \<Rightarrow> 'a api \<Rightarrow> bool" where
  "at_most n m \<longleftrightarrow> (\<forall>s h. length (snd (m s h)) \<le> length h + n)"

lemma at_most_silent: "sends_only (\<lambda>_. False) m \<Longrightarrow> at_most 0 m"
  using silent_iff [of m] by (simp add: at_most_def silent_def)

lemma at_most_fetch: "at_most 1 (fetchA r)"
  by (simp add: at_most_def fetchA_def)

lemma at_most_bind:
  assumes "at_most a m" and "\<And>x. at_most b (f x)"
  shows "at_most (a + b) (bindA m f)"
  unfolding at_most_def
proof (intro allI)
  fix s h
  have m: "length (snd (m s h)) \<le> length h + a" using assms(1) by (simp add: at_most_def)
  have f: "length (snd (f x s (snd (m s h)))) \<le> length (snd (m s h)) + b" for x
    using assms(2) by (simp add: at_most_def)
  show "length (snd (bindA m f s h)) \<le> length h + (a + b)"
  proof (cases "m s h")
    case (Pair r h')
    with m f [of "projr r"] show ?thesis by (cases r) (simp_all add: bindA_def)
  qed
qed

lemma at_most_catch: "at_most n m \<Longrightarrow> at_most n (catchA m d)"
  by (simp add: at_most_def catch_history)

lemma at_most_weaken: "at_most a m \<Longrightarrow> a \<le> b \<Longrightarrow> at_most b m"
  unfolding at_most_def by (meson add_left_mono le_trans)

text \<open>One request between computations that send nothing.\<close>

lemma at_most_sandwich:
  assumes "sends_only (\<lambda>_. False) m" and "\<And>x. at_most 1 (f x)"
  shows "at_most 1 (bindA m f)"
  using at_most_bind [OF at_most_silent [OF assms(1)] assms(2)] by simp

lemma at_most_then:
  assumes "\<And>p. sends_only (\<lambda>_. False) (f p)"
  shows "at_most 1 (bindA (fetchA r) f)" "at_most 1 (bindA (api_send env verb path t) f)"
    "at_most 1 (bindA (api_json env verb path v t) f)"
  unfolding api_send_def api_json_def
  using at_most_bind [OF at_most_fetch at_most_silent [OF assms]] by simp_all

lemmas one_request = at_most_catch at_most_sandwich at_most_then quiet.confined_intros

lemma mutate_monitor_one: "answers (mutate_monitor env i action name slug)" "at_most 1 (mutate_monitor env i action name slug)"
  unfolding mutate_monitor_def Let_def
  by (intro answers_catch, cases action) (simp_all add: action_payload_def del: One_nat_def, (intro one_request)+)

text \<open>C14: The actions on monitors, runs, alerts and profiles never raise, whatever the server answers: a failure is part of their result. Each sends at most one request.\<close>

theorem actions_answer:
  "answers (preview_monitor_draft env d i e) \<and> at_most 1 (preview_monitor_draft env d i e)
    \<and> answers (cancel_monitor_draft_preview env i) \<and> at_most 1 (cancel_monitor_draft_preview env i)
    \<and> answers (permanently_delete_monitors env is) \<and> at_most 1 (permanently_delete_monitors env is)
    \<and> answers (run_monitor env i revision) \<and> at_most 1 (run_monitor env i revision)
    \<and> answers (mutate_monitor env i action name slug) \<and> at_most 1 (mutate_monitor env i action name slug)
    \<and> answers (save_monitor_draft env i d) \<and> at_most 1 (save_monitor_draft env i d)
    \<and> answers (save_monitor_environment env i j updated) \<and> at_most 1 (save_monitor_environment env i j updated)
    \<and> answers (save_monitor_schedule env i d) \<and> at_most 1 (save_monitor_schedule env i d)
    \<and> answers (mutate_alert env i alert) \<and> at_most 1 (mutate_alert env i alert)
    \<and> answers (create_configuration_profile env kind label description ty d)
    \<and> at_most 1 (create_configuration_profile env kind label description ty d)
    \<and> answers (save_configuration_profile env kind i profile) \<and> at_most 1 (save_configuration_profile env kind i profile)
    \<and> answers (delete_configuration_profile env kind i) \<and> at_most 1 (delete_configuration_profile env kind i)
    \<and> answers (send_notification_test_email env i recipient) \<and> at_most 1 (send_notification_test_email env i recipient)"
  unfolding preview_monitor_draft_def cancel_monitor_draft_preview_def permanently_delete_monitors_def
    run_monitor_def save_monitor_draft_def save_monitor_environment_def save_monitor_schedule_def
    mutate_alert_def create_configuration_profile_def save_configuration_profile_def
    delete_configuration_profile_def send_notification_test_email_def
  by (intro conjI mutate_monitor_one answers_catch one_request)

section \<open>Identifiers and times\<close>

lemma encode_uri_safe:
  assumes "well_formed i" "encode_uri i = Some m" "c \<in> set m"
  shows "uri_unreserved c \<or> c = 37"
proof -
  from assms(1) have i: "\<forall>c\<in>set i. c < 65536" "None \<notin> set (code_points i)" by (auto simp: well_formed_def)
  then have "m = concat (map (\<lambda>p. encode_point (the p)) (code_points i))"
    using assms(2) encode_points_Some [OF i(2)] by (simp add: encode_uri_def)
  with assms(3) obtain q where "q \<in> set (code_points i)" "c \<in> set (encode_point (the q))" by auto
  moreover obtain p where "q = Some p" using i(2) calculation(1) by (cases q) auto
  ultimately show ?thesis
    using code_points_valid [OF i(1), of p] encode_point_safe [of p c] by auto
qed

text \<open>An identifier stays within its path segment: the path of a request for a monitor has the encoded identifier between the prefix and the suffix, without a slash, a question mark or a hash sign of its own, and decoding the segment gives the identifier back.\<close>

theorem monitor_path_segment:
  assumes "well_formed i" and "fst (monitor_path (JStr i) suffix s h) = Inr path"
  shows "\<exists>m. path = js ''/api/v1/monitors/'' @ m @ suffix \<and> decode_uri m = Some i
    \<and> 47 \<notin> set m \<and> 63 \<notin> set m \<and> 35 \<notin> set m"
proof -
  obtain m where m: "encode_uri i = Some m" "decode_uri m = Some i"
    using decode_encode_uri [OF assms(1)] by blast
  have "segment (JStr i) = Some m" by (simp add: segment_def m)
  from monitor_path_known [OF this, of suffix retA] assms(2)
  have "path = js ''/api/v1/monitors/'' @ m @ suffix"
    by (simp add: bindA_def retA_def fun_eq_iff split: sum.splits prod.splits)
      (cases "monitor_path (JStr i) suffix s h"; auto)
  moreover have "uri_unreserved c \<or> c = 37" if "c \<in> set m" for c
    by (rule encode_uri_safe [OF assms(1) m(1) that])
  then have "47 \<notin> set m" "63 \<notin> set m" "35 \<notin> set m"
    by (fastforce simp: uri_unreserved_def is_alnum_def is_alpha_def is_digit_def is_upper_def is_lower_def js_def)+
  ultimately show ?thesis using m(2) by blast
qed

lemma monitor_path_segment_witness:
  "\<exists>m. fst (monitor_path (JStr (js ''a/b?c'')) [] sample_server []) = Inr (js ''/api/v1/monitors/'' @ m @ [])
    \<and> decode_uri m = Some (js ''a/b?c'') \<and> 47 \<notin> set m"
proof -
  have "well_formed (js ''a/b?c'')" by code_simp
  moreover obtain path where "fst (monitor_path (JStr (js ''a/b?c'')) [] sample_server []) = Inr path"
  proof -
    have "fst (monitor_path (JStr (js ''a/b?c'')) [] sample_server []) = Inr (js ''/api/v1/monitors/a%2Fb%3Fc'')"
      by code_simp
    then show thesis by (rule that)
  qed
  ultimately show ?thesis using monitor_path_segment by metis
qed

text \<open>Dots are not encoded, so the identifier ".." gives a path that leaves the monitor's level.\<close>

lemma dot_segment_kept:
  "fst (monitor_path (JStr (js ''..'')) (js ''/publish'') s h) = Inr (js ''/api/v1/monitors/../publish'')"
proof -
  have "encode_uri (js ''..'') = Some (js ''..'')" by code_simp
  then show ?thesis by (simp add: monitor_path_def bindA_def liftA_def retA_def encodeA_def)
    (simp add: js_def)
qed

end
