(* ===== verification/Message_Blocks.thy ===== *)
theory Message_Blocks
  imports Js_Uri Js_Regex Js_Result
begin

text \<open>
  \<open>features/ai/message-blocks.ts\<close>: an answer of the assistant is split at its fenced blocks, and
  the JSON of a block is cut down to a chart, a list of figures or a callout that the page can
  render. \<open>String(v)\<close> of a parsed value may raise, so the functions return a value or an exception.
\<close>

section \<open>Segments\<close>

datatype chart_type = LineChart | AreaChart | BarChart | PieChart

record chart_series =
  cs_key :: jsstr
  cs_label :: jsstr

datatype cell = Text jsstr | Number rat

record chart_spec =
  ch_type :: chart_type
  ch_title :: jsstr
  ch_description :: "jsstr option"
  ch_unit :: "jsstr option"
  ch_xkey :: jsstr
  ch_series :: "chart_series list"
  ch_data :: "(jsstr \<times> cell) list list"

datatype stat_tone = Success | Warning | Destructive

record stat_item =
  si_label :: jsstr
  si_value :: jsstr
  si_hint :: "jsstr option"
  si_tone :: "stat_tone option"

datatype callout_tone = InfoTone | WarningTone | MissingTone

record callout_spec =
  co_tone :: callout_tone
  co_title :: jsstr
  co_body :: jsstr

datatype message_segment =
    Markdown jsstr
  | Chart chart_spec
  | Stats "stat_item list"
  | Callout callout_spec

section \<open>Reading values\<close>

definition key_re :: re where
  "key_re = seq_re [Bol, Cls False [(65, 90), (97, 122), (95, 95)],
     upto_re 39 (Cls False [(65, 90), (97, 122), (48, 57), (95, 95)]), Eol]"

definition is_key :: "jsstr \<Rightarrow> bool" where
  "is_key k = rtest key_re k"

definition collapse_spaces :: "jsstr \<Rightarrow> jsstr" where
  "collapse_spaces s = sub_all (plus_re space_re) (\<lambda>_ _. [32]) s"

definition clip :: "jsstr \<Rightarrow> nat \<Rightarrow> jsstr" where
  "clip v max_length =
     (let trimmed = collapse_spaces (trim v) in
      if max_length < length trimmed then take (max_length - 1) trimmed @ [8230] else trimmed)"

definition some_text :: "jsstr \<Rightarrow> jsstr option" where \<comment> \<open>\<open>s || undefined\<close>\<close>
  "some_text s = (if s = [] then None else Some s)"

definition optional_clip :: "jsval \<Rightarrow> nat \<Rightarrow> jsstr option" where
  "optional_clip v max_length = (case v of JStr s \<Rightarrow> some_text (clip s max_length) | _ \<Rightarrow> None)"

definition string_or :: "jsval \<Rightarrow> jsstr \<Rightarrow> exn + jsstr" where \<comment> \<open>\<open>String(v ?? d)\<close>\<close>
  "string_or v d = to_string (coalesce v (JStr d))"

definition read_number :: "jsval \<Rightarrow> rat option" where
  "read_number v =
     (case v of
        JNum (Fin x) \<Rightarrow> Some x
      | JStr s \<Rightarrow> if trim s = [] then None else (case str_to_num s of Fin x \<Rightarrow> Some x | _ \<Rightarrow> None)
      | _ \<Rightarrow> None)"

definition read_axis :: "jsval \<Rightarrow> cell option" where
  "read_axis v =
     (case v of
        JNum (Fin x) \<Rightarrow> Some (Number x)
      | JStr s \<Rightarrow> map_option Text (some_text (clip s 80))
      | _ \<Rightarrow> None)"

definition parse_json_object :: "jsstr \<Rightarrow> (jsstr \<times> jsval) list option" where
  "parse_json_object raw = (case json_parse raw of Some (JObj ps) \<Rightarrow> Some ps | _ \<Rightarrow> None)"

section \<open>Charts\<close>

definition read_chart_type :: "jsstr \<Rightarrow> chart_type option" where
  "read_chart_type s =
     (if s = js ''line'' then Some LineChart else if s = js ''area'' then Some AreaChart
      else if s = js ''bar'' then Some BarChart else if s = js ''pie'' then Some PieChart else None)"

definition read_series :: "jsval \<Rightarrow> exn + chart_series option" where
  "read_series v =
     (case v of
        JObj ps \<Rightarrow>
          bindE (string_or (fld v ''key'') []) (\<lambda>key.
          if \<not> is_key key then Inr None
          else bindE (string_or (fld v ''label'') key) (\<lambda>label.
               Inr (Some \<lparr>cs_key = key, cs_label = clip label 48\<rparr>)))
      | _ \<Rightarrow> Inr None)"

definition infer_x_key :: "jsval \<Rightarrow> jsstr" where
  "infer_x_key row =
     (case row of
        JObj ps \<Rightarrow>
          (case find (\<lambda>c. c \<in> set (map fst ps)) (map js [''at'', ''label'', ''name'', ''x'']) of
             Some c \<Rightarrow> c
           | None \<Rightarrow> (case ps of (k, v) # _ \<Rightarrow> if is_key k then k else [] | [] \<Rightarrow> []))
      | _ \<Rightarrow> [])"

definition infer_series :: "jsval \<Rightarrow> jsstr \<Rightarrow> chart_series list" where
  "infer_series row x_key =
     (case row of
        JObj ps \<Rightarrow>
          map (\<lambda>(k, v). \<lparr>cs_key = k, cs_label = k\<rparr>)
            (take 8 (filter (\<lambda>(k, v). k \<noteq> x_key \<and> is_key k \<and> read_number v \<noteq> None) ps))
      | _ \<Rightarrow> [])"

text \<open>\<open>next[key] = n\<close>: the key \<open>__proto__\<close> is a setter that ignores a number, unless it is an own key.\<close>

definition store_cell :: "jsstr \<Rightarrow> cell \<Rightarrow> (jsstr \<times> cell) list \<Rightarrow> (jsstr \<times> cell) list" where
  "store_cell k c cells =
     (if k = js ''__proto__'' \<and> k \<notin> set (map fst cells) then cells else obj_set k c cells)"

definition add_cell :: "jsval \<Rightarrow> chart_series \<Rightarrow> (jsstr \<times> cell) list \<times> bool \<Rightarrow> (jsstr \<times> cell) list \<times> bool" where
  "add_cell row item st =
     (case read_number (fld_str row (cs_key item)) of
        None \<Rightarrow> st
      | Some x \<Rightarrow> (store_cell (cs_key item) (Number x) (fst st), True))"

definition chart_row :: "jsstr \<Rightarrow> chart_series list \<Rightarrow> jsval \<Rightarrow> (jsstr \<times> cell) list option" where
  "chart_row x_key series row =
     (case row of
        JObj ps \<Rightarrow>
          (case read_axis (fld_str row x_key) of
             None \<Rightarrow> None
           | Some label \<Rightarrow>
               let (cells, has_value) = fold (add_cell row) series ([(x_key, label)], False) in
               if has_value then Some cells else None)
      | _ \<Rightarrow> None)"

definition declared_series :: "jsval \<Rightarrow> exn + chart_series list" where
  "declared_series v =
     (case v of
        JArr xs \<Rightarrow> bindE (mapE read_series (take 8 xs)) (\<lambda>items. Inr (List.map_filter id items))
      | _ \<Rightarrow> Inr [])"

definition declared_x_key :: "jsval \<Rightarrow> jsstr" where
  "declared_x_key v = (case v of JStr k \<Rightarrow> if is_key k then k else [] | _ \<Rightarrow> [])"

text \<open>The axis and the series: declared, the defaults of a pie, or inferred from the first row.\<close>

definition chart_axes :: "chart_type \<Rightarrow> jsstr \<Rightarrow> chart_series list \<Rightarrow> jsval \<Rightarrow> (jsstr \<times> chart_series list) option" where
  "chart_axes ty x_key series row =
     (let (x_key, series) =
            (if ty = PieChart \<and> series = []
             then (if x_key = [] then js ''name'' else x_key, [\<lparr>cs_key = js ''value'', cs_label = js ''Value''\<rparr>])
             else (x_key, series));
          x_key = (if x_key = [] then infer_x_key row else x_key)
      in
      if x_key = [] then None
      else
        let series = (if series = [] then infer_series row x_key else series) in
        if series = [] then None else Some (x_key, series))"

definition sanitize_chart :: "jsval \<Rightarrow> exn + chart_spec option" where
  "sanitize_chart v =
     bindE (string_or (fld v ''type'') []) (\<lambda>ty.
     case read_chart_type (to_lower ty) of
       None \<Rightarrow> Inr None
     | Some ty \<Rightarrow>
         bindE (string_or (fld v ''title'') (js ''Chart'')) (\<lambda>title.
         let rows = (case fld v ''data'' of JArr xs \<Rightarrow> take 180 xs | _ \<Rightarrow> []) in
         if length rows < 2 then Inr None
         else
         bindE (declared_series (fld v ''series'')) (\<lambda>series.
         case chart_axes ty (declared_x_key (fld v ''xKey'')) series (hd rows) of
           None \<Rightarrow> Inr None
         | Some (x_key, series) \<Rightarrow>
             let data = List.map_filter (chart_row x_key series) rows in
             if length data < 2 then Inr None
             else Inr (Some \<lparr>ch_type = ty, ch_title = clip title 160,
                    ch_description = optional_clip (fld v ''description'') 280,
                    ch_unit = optional_clip (fld v ''unit'') 24,
                    ch_xkey = x_key, ch_series = series, ch_data = data\<rparr>))))"

section \<open>Figures and callouts\<close>

definition read_stat_tone :: "jsstr \<Rightarrow> stat_tone option" where
  "read_stat_tone s =
     (if s = js ''success'' then Some Success else if s = js ''warning'' then Some Warning
      else if s = js ''destructive'' then Some Destructive else None)"

definition read_stat :: "jsval \<Rightarrow> exn + stat_item option" where
  "read_stat v =
     (case v of
        JObj ps \<Rightarrow>
          bindE (string_or (fld v ''label'') []) (\<lambda>label.
          bindE (string_or (fld v ''value'') []) (\<lambda>figure.
          if clip label 48 = [] \<or> clip figure 32 = [] then Inr None
          else bindE (string_or (fld v ''tone'') (js ''default'')) (\<lambda>tone.
            Inr (Some \<lparr>si_label = clip label 48, si_value = clip figure 32,
                   si_hint = optional_clip (fld v ''hint'') 80, si_tone = read_stat_tone tone\<rparr>))))
      | _ \<Rightarrow> Inr None)"

definition sanitize_stats :: "jsval \<Rightarrow> exn + stat_item list option" where
  "sanitize_stats v =
     bindE (mapE read_stat (case fld v ''items'' of JArr xs \<Rightarrow> take 6 xs | _ \<Rightarrow> [])) (\<lambda>items.
     let items = List.map_filter id items in Inr (if items = [] then None else Some items))"

definition read_callout_tone :: "jsstr \<Rightarrow> callout_tone option" where
  "read_callout_tone s =
     (if s = js ''info'' then Some InfoTone else if s = js ''warning'' then Some WarningTone
      else if s = js ''missing'' then Some MissingTone else None)"

definition sanitize_callout :: "jsval \<Rightarrow> exn + callout_spec option" where
  "sanitize_callout v =
     bindE (string_or (fld v ''tone'') (js ''info'')) (\<lambda>tone.
     bindE (string_or (fld v ''title'') []) (\<lambda>title.
     bindE (string_or (coalesce (fld v ''body'') (fld v ''content'')) []) (\<lambda>body.
     if clip title 80 = [] \<or> clip body 500 = [] then Inr None
     else Inr (case read_callout_tone tone of
            None \<Rightarrow> None
          | Some t \<Rightarrow> Some \<lparr>co_tone = t, co_title = clip title 80, co_body = clip body 500\<rparr>))))"

section \<open>Splitting an answer\<close>

definition fence_re :: re where
  "fence_re = seq_re [lit_re (js ''```''),
     Grp 1 (alt_re (map (\<lambda>k. lit_i_re (js k)) [''chart'', ''stats'', ''callout'', ''kpi''])),
     Star True (Cls True [(10, 10)]), unit_re 10, Grp 2 (Star False any_re), lit_re (js ''```'')]"

definition parse_fence :: "jsstr \<Rightarrow> jsstr \<Rightarrow> exn + message_segment option" where
  "parse_fence kind raw =
     (case parse_json_object raw of
        None \<Rightarrow> Inr None
      | Some ps \<Rightarrow>
          if kind = js ''chart'' then bindE (sanitize_chart (JObj ps)) (\<lambda>spec. Inr (map_option Chart spec))
          else if kind = js ''stats'' \<or> kind = js ''kpi''
          then bindE (sanitize_stats (JObj ps)) (\<lambda>items. Inr (map_option Stats items))
          else bindE (sanitize_callout (JObj ps)) (\<lambda>spec. Inr (map_option Callout spec)))"

definition push_markdown :: "jsstr \<Rightarrow> message_segment list" where
  "push_markdown v = (if trim v = [] then [] else [Markdown (trim v)])"

definition group_text :: "nat \<Rightarrow> mstate \<Rightarrow> jsstr" where
  "group_text k m = (case capture k m of Some s \<Rightarrow> s | None \<Rightarrow> [])"

fun split_fences :: "jsstr \<Rightarrow> nat \<Rightarrow> (nat \<times> jsstr \<times> mstate) list \<Rightarrow> exn + message_segment list" where
  "split_fences source cursor [] = Inr (push_markdown (drop cursor source))"
| "split_fences source cursor ((i, text, m) # ms) =
     bindE (parse_fence (to_lower (group_text 1 m)) (group_text 2 m)) (\<lambda>parsed.
     bindE (split_fences source (i + length text) ms) (\<lambda>segments.
     Inr (push_markdown (take (i - cursor) (drop cursor source))
          @ (case parsed of Some s \<Rightarrow> [s] | None \<Rightarrow> push_markdown text) @ segments)))"

definition parse_assistant_content :: "jsstr \<Rightarrow> exn + message_segment list" where
  "parse_assistant_content content =
     (let source = trim content in
      if source = [] then Inr []
      else bindE (split_fences source 0 (match_all fence_re source)) (\<lambda>segments.
           Inr (if segments = [] then [Markdown source] else segments)))"

end
