(* ===== verification/Message_Facts.thy ===== *)
theory Message_Facts
  imports Message_Blocks
begin

text \<open>
  What the page relies on of a parsed answer: the specs it receives are within the limits of the
  components that draw them, whatever the assistant wrote.
\<close>

section \<open>Keys and clipped texts\<close>

lemma rtest_start:
  assumes "\<And>l t. l \<noteq> [] \<Longrightarrow> rexec_from r l t = None"
  shows "rtest r s \<longleftrightarrow> rmatch r ([], s, []) \<noteq> []"
  using assms [of "[hd s]" "tl s"] by (cases s) (auto simp: rtest_def split: list.splits)

lemma rtest_anchored:
  assumes "plain a" "plain b"
  shows "rtest (seq_re [Bol, a, b, Eol]) s \<longleftrightarrow> s \<in> lang (Seq a b)"
proof -
  let ?ms = "rmatch (Seq a b) ([], s, [])"
  have later: "rexec_from (seq_re [Bol, a, b, Eol]) l t = None" if "l \<noteq> []" for l t
    using that by (induction t arbitrary: l) auto
  have start: "rtest (seq_re [Bol, a, b, Eol]) s \<longleftrightarrow> rmatch (seq_re [Bol, a, b, Eol]) ([], s, []) \<noteq> []"
    by (rule rtest_start) (rule later)
  have ends: "rmatch (seq_re [Bol, a, b, Eol]) ([], s, []) \<noteq> [] \<longleftrightarrow> (\<exists>m\<in>set ?ms. fst (snd m) = [])"
    by (simp add: split_beta)
  have "(\<exists>m\<in>set ?ms. fst (snd m) = []) \<longleftrightarrow> (\<exists>l'. \<exists>cs'. (l', [], cs') \<in> set ?ms)"
    by (metis fst_conv snd_conv prod.collapse)
  also have "\<dots> \<longleftrightarrow> s \<in> lang (Seq a b)"
    using rmatch_iff_lang [of "Seq a b" _ "[]" "[]" s "[]"] assms by (auto simp del: rmatch.simps lang.simps)
  finally show ?thesis unfolding start ends .
qed

lemma lang_Seq_Cls:
  "w \<in> lang (Seq (Cls neg rs) r) \<longleftrightarrow> (\<exists>c v. w = c # v \<and> in_cls neg rs c \<and> v \<in> lang r)"
proof
  assume "w \<in> lang (Seq (Cls neg rs) r)"
  then show "\<exists>c v. w = c # v \<and> in_cls neg rs c \<and> v \<in> lang r" by auto
next
  assume "\<exists>c v. w = c # v \<and> in_cls neg rs c \<and> v \<in> lang r"
  then obtain c v where "w = [c] @ v" "in_cls neg rs c" "v \<in> lang r" by auto
  then show "w \<in> lang (Seq (Cls neg rs) r)" unfolding lang.simps by blast
qed

lemma lang_upto_Cls:
  "w \<in> lang (upto_re n (Cls neg rs)) \<longleftrightarrow> length w \<le> n \<and> (\<forall>c\<in>set w. in_cls neg rs c)"
proof (induction n arbitrary: w)
  case (Suc n)
  show ?case
  proof (cases w)
    case (Cons c v)
    with Suc [of v] show ?thesis by (simp add: lang_Seq_Cls del: lang.simps(3)) auto
  qed simp
qed auto

lemma is_key_iff:
  "is_key k \<longleftrightarrow> (\<exists>c v. k = c # v \<and> (is_alpha c \<or> c = 95) \<and> length v \<le> 39 \<and> (\<forall>d\<in>set v. is_word_unit d))"
proof -
  have "in_cls False [(65, 90), (97, 122), (95, 95)] c \<longleftrightarrow> is_alpha c \<or> c = 95" for c
    by (auto simp: in_cls_def is_alpha_def is_upper_def is_lower_def)
  moreover have "in_cls False [(65, 90), (97, 122), (48, 57), (95, 95)] c \<longleftrightarrow> is_word_unit c" for c
    by (auto simp: in_cls_def is_word_unit_def is_alnum_def is_alpha_def is_upper_def is_lower_def is_digit_def)
  moreover have "plain (upto_re n (Cls neg rs))" for n neg rs by (induction n) simp_all
  ultimately show ?thesis
    unfolding is_key_def key_re_def by (auto simp: rtest_anchored lang_Seq_Cls lang_upto_Cls simp del: seq_re.simps lang.simps)
qed

lemma is_key_length: "is_key k \<Longrightarrow> k \<noteq> [] \<and> length k \<le> 40"
  by (auto simp: is_key_iff)

lemma length_clip: "0 < n \<Longrightarrow> length (clip v n) \<le> n"
  by (simp add: clip_def Let_def)

lemma optional_clip_length: "optional_clip v n = Some s \<Longrightarrow> 0 < n \<Longrightarrow> s \<noteq> [] \<and> length s \<le> n"
  by (auto simp: optional_clip_def some_text_def length_clip split: jsval.splits if_splits)

lemma okE_string_or: "okE (\<lambda>_. True) (string_or v d)"
  by (auto simp: okE_def string_or_def dest: to_string_error(1) split: sum.splits)

lemma okE_bind_string [okE_intros]: "(\<And>a. okE P (f a)) \<Longrightarrow> okE P (bindE (string_or v d) f)"
  by (rule okE_bind [OF okE_string_or])

lemma map_filter_all:
  "\<forall>y\<in>set ys. \<forall>x. y = Some x \<longrightarrow> P x \<Longrightarrow> \<forall>x\<in>set (List.map_filter id ys). P x"
  by (auto simp: map_filter_def)

lemma length_map_filter_le: "length (List.map_filter f xs) \<le> length xs"
  by (simp add: map_filter_def)

section \<open>Charts\<close>

definition series_ok :: "chart_series \<Rightarrow> bool" where
  "series_ok s \<longleftrightarrow> is_key (cs_key s) \<and> length (cs_label s) \<le> 48"

definition row_ok :: "jsstr \<Rightarrow> chart_series list \<Rightarrow> (jsstr \<times> cell) list \<Rightarrow> bool" where
  "row_ok x series cells \<longleftrightarrow>
     distinct (map fst cells) \<and> x \<in> fst ` set cells \<and> fst ` set cells \<subseteq> insert x (cs_key ` set series)
     \<and> (\<forall>k t. (k, Text t) \<in> set cells \<longrightarrow> k = x \<and> t \<noteq> [] \<and> length t \<le> 80)"

definition text_ok :: "nat \<Rightarrow> jsstr option \<Rightarrow> bool" where
  "text_ok n t \<longleftrightarrow> (case t of Some s \<Rightarrow> s \<noteq> [] \<and> length s \<le> n | None \<Rightarrow> True)"

definition chart_ok :: "chart_spec \<Rightarrow> bool" where
  "chart_ok c \<longleftrightarrow>
     length (ch_title c) \<le> 160 \<and> text_ok 280 (ch_description c) \<and> text_ok 24 (ch_unit c)
     \<and> is_key (ch_xkey c) \<and> ch_series c \<noteq> [] \<and> length (ch_series c) \<le> 8 \<and> (\<forall>s\<in>set (ch_series c). series_ok s)
     \<and> 2 \<le> length (ch_data c) \<and> length (ch_data c) \<le> 180
     \<and> (\<forall>row\<in>set (ch_data c). row_ok (ch_xkey c) (ch_series c) row)"

lemma text_ok_optional_clip: "0 < n \<Longrightarrow> text_ok n (optional_clip v n)"
  by (auto simp: text_ok_def dest: optional_clip_length split: option.splits)

lemma read_series_ok: "okE (\<lambda>s. \<forall>x. s = Some x \<longrightarrow> series_ok x) (read_series v)"
proof (cases v)
  case (JObj ps)
  show ?thesis
    unfolding read_series_def JObj jsval.case
    by (intro okE_intros) (auto simp: series_ok_def length_clip)
qed (simp_all add: read_series_def okE_def)

lemma declared_series_ok: "okE (\<lambda>ss. length ss \<le> 8 \<and> (\<forall>s\<in>set ss. series_ok s)) (declared_series v)"
proof (cases v)
  case (JArr xs)
  show ?thesis
    unfolding declared_series_def JArr jsval.case
  proof (rule okE_bind [OF okE_map [OF read_series_ok]], rule okE_Inr)
    fix ys assume ys: "length ys = length (take 8 xs) \<and> (\<forall>y\<in>set ys. \<forall>x. y = Some x \<longrightarrow> series_ok x)"
    then have "length ys \<le> 8" by simp
    with length_map_filter_le [of id ys] map_filter_all [of ys series_ok] ys
    show "length (List.map_filter id ys) \<le> 8 \<and> (\<forall>s\<in>set (List.map_filter id ys). series_ok s)" by auto
  qed
qed (simp_all add: declared_series_def okE_def)

lemma literal_keys: "list_all (\<lambda>s. is_key (js s)) [''at'', ''label'', ''name'', ''x'', ''value'']"
  by (auto simp: is_key_iff js_def is_alpha_def is_lower_def is_upper_def is_word_unit_def is_alnum_def)

lemma infer_x_key_ok: "infer_x_key row = [] \<or> is_key (infer_x_key row)"
  using literal_keys
  by (auto simp: infer_x_key_def find_Some_iff split: jsval.splits option.splits list.splits prod.splits)

lemma infer_series_ok: "length (infer_series row x) \<le> 8 \<and> (\<forall>s\<in>set (infer_series row x). series_ok s)"
  by (cases row)
    (fastforce simp: infer_series_def series_ok_def dest!: in_set_takeD dest: is_key_length)+

lemma chart_axes_ok:
  assumes "chart_axes ty x ss row = Some (x', ss')" and "length ss \<le> 8" "\<forall>s\<in>set ss. series_ok s"
    and "x = [] \<or> is_key x"
  shows "is_key x' \<and> ss' \<noteq> [] \<and> length ss' \<le> 8 \<and> (\<forall>s\<in>set ss'. series_ok s)"
proof -
  have "series_ok \<lparr>cs_key = js ''value'', cs_label = js ''Value''\<rparr>"
    using literal_keys by (simp add: series_ok_def)
  then show ?thesis
    using assms infer_x_key_ok [of row] literal_keys infer_series_ok [of row]
    by (auto simp: chart_axes_def Let_def split: if_splits)
qed

lemma store_cell_row_ok:
  assumes "row_ok x series cells" and "k \<in> cs_key ` set series"
  shows "row_ok x series (store_cell k (Number n) cells)"
proof (cases "k = js ''__proto__'' \<and> k \<notin> set (map fst cells)")
  case True
  with assms(1) show ?thesis by (auto simp: store_cell_def)
next
  case False
  let ?new = "obj_set k (Number n) cells"
  have d: "distinct (map fst ?new)"
    using assms(1) by (simp add: row_ok_def distinct_obj_set)
  have keys: "fst ` set ?new = insert k (fst ` set cells)"
    using keys_obj_set [of k "Number n" cells] by simp
  have cells: "(k', Text t) \<in> set ?new \<Longrightarrow> (k', Text t) \<in> set cells" for k' t
  proof -
    assume "(k', Text t) \<in> set ?new"
    with d have "map_of ?new k' = Some (Text t)" by (metis map_of_is_SomeI)
    then have "map_of cells k' = Some (Text t)" by (auto split: if_splits)
    then show "(k', Text t) \<in> set cells" by (rule map_of_SomeD)
  qed
  have "row_ok x series ?new"
    unfolding row_ok_def
  proof (intro conjI allI impI)
    show "x \<in> fst ` set ?new" "fst ` set ?new \<subseteq> insert x (cs_key ` set series)"
      using assms keys by (auto simp: row_ok_def)
    fix k' t assume "(k', Text t) \<in> set ?new"
    from cells [OF this] assms(1) show "k' = x" "t \<noteq> []" "length t \<le> 80" by (auto simp: row_ok_def)
  qed (rule d)
  with False show ?thesis by (auto simp: store_cell_def)
qed

lemma chart_row_ok: "chart_row x series row = Some cells \<Longrightarrow> row_ok x series cells"
proof -
  have fold: "row_ok x series (fst st) \<Longrightarrow> set ss \<subseteq> set series \<Longrightarrow> row_ok x series (fst (fold (add_cell row) ss st))" for ss st
  proof (induction ss arbitrary: st)
    case (Cons s ss)
    have "row_ok x series (fst (add_cell row s st))"
      using Cons.prems by (auto simp: add_cell_def intro: store_cell_row_ok split: option.splits)
    with Cons show ?case by simp
  qed simp
  have "row_ok x series [(x, label)]" if "read_axis v = Some label" for v label
    using that length_clip [of 80]
    by (auto simp: row_ok_def read_axis_def some_text_def split: jsval.splits jsnum.splits if_splits)
  then have start: "row_ok x series (fst ([(x, label)], False))" if "read_axis v = Some label" for v label
    using that by simp
  assume "chart_row x series row = Some cells"
  then obtain label where label: "read_axis (fld_str row x) = Some label"
    and "cells = fst (fold (add_cell row) series ([(x, label)], False))"
    by (auto simp: chart_row_def Let_def split: jsval.splits option.splits prod.splits if_splits)
  with fold [OF start [OF label] order_refl] show "row_ok x series cells" by simp
qed

lemma declared_x_key_ok: "declared_x_key v = [] \<or> is_key (declared_x_key v)"
  by (auto simp: declared_x_key_def split: jsval.splits)

lemma sanitize_chart_ok: "okE (\<lambda>c. \<forall>x. c = Some x \<longrightarrow> chart_ok x) (sanitize_chart v)"
proof -
  define rows where "rows = (case fld v ''data'' of JArr xs \<Rightarrow> take 180 xs | _ \<Rightarrow> [])"
  have rows: "length rows \<le> 180" by (simp add: rows_def split: jsval.splits)
  have row: "\<forall>cells\<in>set (List.map_filter (chart_row x series) rs). row_ok x series cells" for x series rs
    using chart_row_ok by (auto simp: map_filter_def)
  show ?thesis
    unfolding sanitize_chart_def Let_def rows_def [symmetric]
  proof (intro okE_intros okE_bind [OF declared_series_ok], goal_cases)
    case (4 a ty title series axes)
    obtain x ss where axes: "axes = (x, ss)" by (cases axes)
    from chart_axes_ok [of ty _ series "hd rows" x ss] 4 declared_x_key_ok axes
    have "is_key x \<and> ss \<noteq> [] \<and> length ss \<le> 8 \<and> (\<forall>s\<in>set ss. series_ok s)" by blast
    then show ?case
      unfolding axes prod.case
      using row [where x = x and series = ss and rs = rows] le_trans [OF length_map_filter_le rows]
      by (auto simp: okE_def chart_ok_def length_clip text_ok_optional_clip)
  qed simp_all
qed

section \<open>Figures, callouts and answers\<close>

definition stat_ok :: "stat_item \<Rightarrow> bool" where
  "stat_ok i \<longleftrightarrow> si_label i \<noteq> [] \<and> length (si_label i) \<le> 48 \<and> si_value i \<noteq> [] \<and> length (si_value i) \<le> 32
     \<and> text_ok 80 (si_hint i)"

definition callout_ok :: "callout_spec \<Rightarrow> bool" where
  "callout_ok c \<longleftrightarrow> co_title c \<noteq> [] \<and> length (co_title c) \<le> 80 \<and> co_body c \<noteq> [] \<and> length (co_body c) \<le> 500"

fun segment_ok :: "message_segment \<Rightarrow> bool" where
  "segment_ok (Markdown s) = (s \<noteq> [] \<and> trim s = s)"
| "segment_ok (Chart c) = chart_ok c"
| "segment_ok (Stats items) = (items \<noteq> [] \<and> length items \<le> 6 \<and> (\<forall>i\<in>set items. stat_ok i))"
| "segment_ok (Callout c) = callout_ok c"

lemma read_stat_ok: "okE (\<lambda>s. \<forall>x. s = Some x \<longrightarrow> stat_ok x) (read_stat v)"
proof (cases v)
  case (JObj ps)
  show ?thesis
    unfolding read_stat_def JObj jsval.case
    by (intro okE_intros) (auto simp: stat_ok_def length_clip text_ok_optional_clip)
qed (simp_all add: read_stat_def okE_def)

lemma sanitize_stats_ok: "okE (\<lambda>s. \<forall>x. s = Some x \<longrightarrow> segment_ok (Stats x)) (sanitize_stats v)"
  unfolding sanitize_stats_def Let_def
proof (rule okE_bind [OF okE_map [OF read_stat_ok]], rule okE_Inr)
  fix ys
  assume ys: "length ys = length (case fld v ''items'' of JArr xs \<Rightarrow> take 6 xs | _ \<Rightarrow> [])
    \<and> (\<forall>y\<in>set ys. \<forall>x. y = Some x \<longrightarrow> stat_ok x)"
  then have "length ys \<le> 6" by (auto split: jsval.splits)
  with length_map_filter_le [of id ys] map_filter_all [of ys stat_ok] ys
  show "\<forall>x. (if List.map_filter id ys = [] then None else Some (List.map_filter id ys)) = Some x \<longrightarrow> segment_ok (Stats x)"
    by auto
qed

lemma sanitize_callout_ok: "okE (\<lambda>c. \<forall>x. c = Some x \<longrightarrow> callout_ok x) (sanitize_callout v)"
  unfolding sanitize_callout_def
  by (intro okE_intros) (auto simp: callout_ok_def length_clip split: option.splits)

lemma parse_fence_ok: "okE (\<lambda>s. \<forall>x. s = Some x \<longrightarrow> segment_ok x) (parse_fence kind raw)"
  unfolding parse_fence_def
  by (intro okE_intros okE_bind [OF sanitize_chart_ok] okE_bind [OF sanitize_stats_ok]
      okE_bind [OF sanitize_callout_ok]) auto

lemma push_markdown_ok: "\<forall>s\<in>set (push_markdown v). segment_ok s"
  by (simp add: push_markdown_def)

lemma split_fences_ok: "okE (\<lambda>ss. \<forall>s\<in>set ss. segment_ok s) (split_fences source cursor ms)"
proof (induction ms arbitrary: cursor)
  case (Cons x ms)
  obtain i t m where x: "x = (i, t, m)" by (cases x)
  show ?case
    unfolding x split_fences.simps
    by (rule okE_bind [OF parse_fence_ok], rule okE_bind [OF Cons.IH], rule okE_Inr)
      (auto simp: push_markdown_ok split: option.splits)
qed (simp add: okE_def push_markdown_ok)

lemma parse_ok: "okE (\<lambda>ss. (\<forall>s\<in>set ss. segment_ok s) \<and> (ss = [] \<longleftrightarrow> trim content = [])) (parse_assistant_content content)"
  unfolding parse_assistant_content_def Let_def
  by (intro okE_intros okE_bind [OF split_fences_ok]) auto

section \<open>Matches of the fence\<close>

lemma plain_fence: "plain fence_re"
proof -
  have "plain (lit_i_re s)" for s by simp
  then show ?thesis by (simp add: fence_re_def)
qed

lemma fence_backtick: "w \<in> lang fence_re \<Longrightarrow> 96 \<in> set w"
  by (auto simp: fence_re_def js_def)

lemma match_all_none:
  assumes "plain r" and "\<And>w. w \<in> lang r \<Longrightarrow> c \<in> set w"
  shows "c \<notin> set s \<Longrightarrow> match_all_from r i l s = []"
proof (induction s arbitrary: i l)
  case Nil
  have "rmatch r (l, [], []) = []"
    using assms(2) by (subst rmatch_Nil_iff [OF assms(1)]) fastforce
  then show ?case by (simp add: match_all_from.simps)
next
  case (Cons d s)
  have "rmatch r (l, d # s, []) = []"
    using assms(2) Cons.prems by (subst rmatch_Nil_iff [OF assms(1)]) (metis UnCI set_append)
  with Cons show ?case by (subst match_all_from.simps) simp
qed

text \<open>Every match is a piece of the text.\<close>

definition piece :: "jsstr \<Rightarrow> jsstr \<Rightarrow> bool" where
  "piece t s \<longleftrightarrow> (\<exists>u v. s = u @ t @ v)"

lemma piece_refl: "piece s s"
  unfolding piece_def by (rule exI [of _ "[]"], rule exI [of _ "[]"]) simp

lemma piece_trans: "piece a b \<Longrightarrow> piece b c \<Longrightarrow> piece a c"
  unfolding piece_def by (metis append.assoc)

lemma piece_take: "piece (take n s) s" and piece_drop: "piece (drop n s) s"
  unfolding piece_def by (metis append_Nil append_take_drop_id, metis append_Nil2 append_take_drop_id)

lemma piece_trim: "piece (trim s) s"
proof -
  have "piece (dropWhile P s) s" for P and s :: jsstr
    unfolding piece_def by (metis append_Nil2 takeWhile_dropWhile_id)
  moreover have "piece (rev (dropWhile P (rev s))) s" for P and s :: jsstr
    unfolding piece_def by (metis append_Nil rev_append rev_rev_ident takeWhile_dropWhile_id)
  ultimately show ?thesis unfolding trim_def by (blast intro: piece_trans)
qed

lemma match_all_piece:
  assumes "plain r"
  shows "(j, t, m) \<in> set (match_all_from r i l s) \<Longrightarrow> piece t s"
proof (induction "length s" arbitrary: i l s rule: less_induct)
  case less
  have later: "piece t s" if "(j, t, m) \<in> set (case s of [] \<Rightarrow> [] | c # s' \<Rightarrow> match_all_from r (Suc i) (c # l) s')"
  proof (cases s)
    case (Cons c s')
    with that less.hyps [of s'] have "piece t s'" by simp
    with Cons show ?thesis by (auto simp: piece_def) (metis append_Cons)
  qed (use that in simp)
  show ?case
  proof (cases "rmatch r (l, s, [])")
    case Nil
    with less.prems later show ?thesis by (subst (asm) match_all_from.simps) simp
  next
    case (Cons n ns)
    obtain w where "s = w @ fst (snd n)"
      using rmatch_moves [OF assms, of n "(l, s, [])"] Cons by (auto simp: moves_def)
    then have "piece (fst (snd n)) s" unfolding piece_def by (metis append_Nil2)
    then have "piece t s" if "length (fst (snd n)) < length s"
        "(j, t, m) \<in> set (match_all_from r i' l' (fst (snd n)))" for i' l'
      using less.hyps [OF that] piece_trans by blast
    moreover have "piece (matched s n) s" by (simp add: matched_def piece_take)
    ultimately show ?thesis
      using less.prems Cons later
      by (subst (asm) match_all_from.simps) (auto split: if_splits)
  qed
qed

lemma push_markdown_piece: "piece v s \<Longrightarrow> Markdown t \<in> set (push_markdown v) \<Longrightarrow> piece t s"
  using piece_trim [of v] by (auto simp: push_markdown_def intro: piece_trans split: if_splits)

lemma parse_fence_block: "parse_fence k raw \<noteq> Inr (Some (Markdown t))"
  by (auto simp: parse_fence_def bindE_def split: option.splits if_splits sum.splits)

lemma split_fences_piece:
  "split_fences source cursor ms = Inr ss \<Longrightarrow> \<forall>(i, t, m)\<in>set ms. piece t source \<Longrightarrow>
    Markdown t \<in> set ss \<Longrightarrow> piece t source"
proof (induction ms arbitrary: cursor ss)
  case Nil
  then show ?case by (auto intro: push_markdown_piece piece_drop)
next
  case (Cons x ms)
  obtain i u m where x: "x = (i, u, m)" by (cases x)
  with Cons.prems(1) obtain parsed rest where p: "parse_fence (to_lower (group_text 1 m)) (group_text 2 m) = Inr parsed"
      "split_fences source (i + length u) ms = Inr rest"
      "ss = push_markdown (take (i - cursor) (drop cursor source))
        @ (case parsed of Some s \<Rightarrow> [s] | None \<Rightarrow> push_markdown u) @ rest"
    by (auto simp: bindE_def split: sum.splits)
  have "piece (take (i - cursor) (drop cursor source)) source"
    by (rule piece_trans [OF piece_take piece_drop])
  moreover have "piece u source" using Cons.prems(2) x by auto
  moreover have "Markdown t \<in> set rest \<Longrightarrow> piece t source"
    using Cons.IH [OF p(2)] Cons.prems(2) by auto
  ultimately show ?case
    using Cons.prems(3) p(1,3)
    by (auto simp: parse_fence_block split: option.splits intro: push_markdown_piece)
qed

section \<open>Properties\<close>

text \<open>C15: Whatever the assistant writes, every segment of the parsed answer is within the limits the page draws: a chart has an identifier as its axis, one to eight series, two to 180 rows with distinct columns among the axis and the series, and numbers or texts of at most 80 units in them; figures and callouts are non-empty and clipped; and the answer is empty only for an empty text.\<close>

theorem assistant_segments_bounded:
  assumes "parse_assistant_content content = Inr segments"
  shows "(\<forall>s\<in>set segments. segment_ok s) \<and> (segments = [] \<longleftrightarrow> trim content = [])"
  using parse_ok [of content] assms by (simp add: okE_def)

definition sample_answer :: jsstr where
  "sample_answer = js ''Before
```stats
{\"items\":[{\"label\":\"Rate\",\"value\":\"98%\"}]}
``` after''"

lemma assistant_segments_bounded_witness:
  "\<exists>segments. parse_assistant_content sample_answer = Inr segments \<and> length segments = 3
    \<and> (\<forall>s\<in>set segments. segment_ok s)"
proof -
  have "case parse_assistant_content sample_answer of Inr ss \<Rightarrow> length ss = 3 | Inl _ \<Rightarrow> False" by code_simp
  then obtain ss where "parse_assistant_content sample_answer = Inr ss" "length ss = 3"
    by (auto split: sum.splits)
  with assistant_segments_bounded [OF this(1)] show ?thesis by blast
qed

text \<open>The text of an answer is never altered: each markdown segment is a piece of what the assistant wrote, and an answer without a backtick is a single segment.\<close>

theorem assistant_text_kept:
  "(\<forall>ss t. parse_assistant_content content = Inr ss \<longrightarrow> Markdown t \<in> set ss \<longrightarrow> piece t content)
    \<and> (96 \<notin> set content \<longrightarrow>
        parse_assistant_content content = Inr (if trim content = [] then [] else [Markdown (trim content)]))"
proof (intro conjI allI impI)
  fix ss t assume p: "parse_assistant_content content = Inr ss" "Markdown t \<in> set ss"
  have "piece t (trim content)"
  proof (cases "trim content = []")
    case True
    with p show ?thesis by (simp add: parse_assistant_content_def)
  next
    case False
    with p(1) obtain ss' where s: "split_fences (trim content) 0 (match_all fence_re (trim content)) = Inr ss'"
        "ss = (if ss' = [] then [Markdown (trim content)] else ss')"
      by (auto simp: parse_assistant_content_def bindE_def Let_def split: sum.splits)
    from split_fences_piece [OF s(1), of t] match_all_piece [OF plain_fence] p(2) s(2) piece_refl show ?thesis
      unfolding match_all_def by (fastforce split: if_splits)
  qed
  then show "piece t content" using piece_trim piece_trans by blast
next
  assume "96 \<notin> set content"
  then have "96 \<notin> set (trim content)" using set_trim_subset by blast
  from match_all_none [OF plain_fence fence_backtick this]
  have "match_all fence_re (trim content) = []" by (simp add: match_all_def)
  then show "parse_assistant_content content = Inr (if trim content = [] then [] else [Markdown (trim content)])"
    by (simp add: parse_assistant_content_def bindE_def push_markdown_def)
qed

lemma assistant_text_kept_witness:
  "parse_assistant_content (js '' All good. '') = Inr [Markdown (js ''All good.'')]"
proof -
  have "96 \<notin> set (js '' All good. '')" "trim (js '' All good. '') = js ''All good.''" by code_simp+
  with assistant_text_kept [of "js '' All good. ''"] show ?thesis by simp
qed

text \<open>Parsing an answer raises nothing but a TypeError.\<close>

theorem assistant_errors:
  assumes "parse_assistant_content content = Inl e"
  shows "e = TypeError"
  using parse_ok [of content] assms by (simp add: okE_def)

text \<open>It does raise: a label that is an object with a property named \<open>toString\<close>.\<close>

definition raising_answer :: jsstr where
  "raising_answer = js ''```stats
{\"items\":[{\"label\":{\"toString\":null}}]}
```''"

lemma assistant_errors_witness:
  "\<exists>e. parse_assistant_content raising_answer = Inl e \<and> e = TypeError"
proof -
  have "case parse_assistant_content raising_answer of Inl _ \<Rightarrow> True | Inr _ \<Rightarrow> False" by code_simp
  then obtain e where "parse_assistant_content raising_answer = Inl e" by (auto split: sum.splits)
  with assistant_errors [OF this] show ?thesis by blast
qed

end
