(* ===== verification/Templated_Json.thy ===== *)
theory Templated_Json
  imports Js_Uri Js_Regex
begin

text \<open>
  \<open>lib/templated-json.ts\<close>: checking a JSON text that contains \<open>{{template}}\<close> references. The
  references are replaced by placeholders, the result is parsed, and the position of a syntax error
  is mapped back to the text. The message of a failed \<open>JSON.parse\<close> depends on the engine and is a
  parameter.
\<close>

section \<open>The checker\<close>

definition template_span_re :: re where
  "template_span_re = seq_re [lit_re (js ''{{''), Star False any_re, lit_re (js ''}}'')]"

definition value_placeholder :: jsstr where
  "value_placeholder = [34] @ js ''__rhythm_template__'' @ [34]"

definition string_placeholder :: jsstr where
  "string_placeholder = js ''rhythmTemplate''"

record rewrite_span =
  originalStart :: nat
  originalEnd :: nat
  rewrittenStart :: nat
  rewrittenEnd :: nat

text \<open>One character: in a string or not, and after a backslash or not.\<close>

definition quote_step :: "code_unit \<Rightarrow> bool \<times> bool \<Rightarrow> bool \<times> bool" where
  "quote_step c st =
     (case st of (in_string, escaped) \<Rightarrow>
        if in_string then
          if escaped then (True, False)
          else if c = 92 then (True, True)
          else if c = 34 then (False, escaped)
          else st
        else if c = 34 then (True, escaped)
        else st)"

definition is_inside_json_string :: "jsstr \<Rightarrow> nat \<Rightarrow> bool" where
  "is_inside_json_string source i = fst (fold quote_step (take i source) (False, False))"

record rewrite_state =
  rw_spans :: "rewrite_span list"
  rw_text :: jsstr
  rw_last :: nat

definition rewrite_match :: "jsstr \<Rightarrow> nat \<times> jsstr \<times> mstate \<Rightarrow> rewrite_state \<Rightarrow> rewrite_state" where
  "rewrite_match source match st =
     (let start = fst match;
          end' = start + length (fst (snd match));
          text = rw_text st @ take (start - rw_last st) (drop (rw_last st) source);
          text' = text @ (if is_inside_json_string source start then string_placeholder else value_placeholder)
      in \<lparr>rw_spans = rw_spans st @ [\<lparr>originalStart = start, originalEnd = end',
              rewrittenStart = length text, rewrittenEnd = length text'\<rparr>],
          rw_text = text', rw_last = end'\<rparr>)"

definition rewrite_json_templates :: "jsstr \<Rightarrow> jsstr \<times> rewrite_span list" where
  "rewrite_json_templates source =
     (let st = fold (rewrite_match source) (match_all template_span_re source)
                 \<lparr>rw_spans = [], rw_text = [], rw_last = 0\<rparr>
      in (rw_text st @ drop (rw_last st) source, rw_spans st))"

fun shift_offset :: "nat \<Rightarrow> int \<Rightarrow> rewrite_span list \<Rightarrow> int" where
  "shift_offset offset shift [] = int offset + shift"
| "shift_offset offset shift (sp # spans) =
     (if offset \<le> rewrittenStart sp then int offset + shift
      else if offset < rewrittenEnd sp then int (originalStart sp)
      else shift_offset offset
             (shift + (int (originalEnd sp) - int (originalStart sp)
                       - (int (rewrittenEnd sp) - int (rewrittenStart sp)))) spans)"

definition rewritten_offset_to_original :: "nat \<Rightarrow> rewrite_span list \<Rightarrow> int" where
  "rewritten_offset_to_original offset spans = shift_offset offset 0 spans"

definition line_step :: "code_unit \<Rightarrow> nat \<times> nat \<Rightarrow> nat \<times> nat" where
  "line_step c pos = (case pos of (line, column) \<Rightarrow> if c = 10 then (line + 1, 1) else (line, column + 1))"

definition offset_to_line_column :: "jsstr \<Rightarrow> int \<Rightarrow> nat \<times> nat" where
  "offset_to_line_column source offset =
     (let clamped = max 0 (min offset (int (length source))) in
      fold line_step (take (nat clamped) source) (1, 1))"

definition position_re :: re where
  "position_re = seq_re [lit_i_re (js ''position''), plus_re space_re, Grp 1 (plus_re digit_re)]"

definition parse_offset :: "jsstr \<Rightarrow> nat option" where \<comment> \<open>positions are below \<open>2\<^sup>5\<^sup>3\<close>, where \<open>Number\<close> is exact\<close>
  "parse_offset message =
     (case rexec position_re message of
        None \<Rightarrow> None
      | Some m \<Rightarrow> map_option undec (capture 1 m))"

definition end_of_input_re :: re where
  "end_of_input_re = seq_re [Bol, lit_i_re (js ''Unexpected end of JSON input''), Eol]"

record json_error =
  je_message :: jsstr
  je_offset :: int
  je_line :: nat
  je_column :: nat

definition find_templated_json_error :: "(jsstr \<Rightarrow> jsstr) \<Rightarrow> jsstr \<Rightarrow> json_error option" where
  "find_templated_json_error engine_message source =
     (if trim source = [] then None
      else
        let (rewritten, spans) = rewrite_json_templates source in
        case json_parse rewritten of
          Some _ \<Rightarrow> None
        | None \<Rightarrow>
            let message = engine_message rewritten;
                offset = rewritten_offset_to_original
                           (case parse_offset message of Some n \<Rightarrow> n | None \<Rightarrow> 0) spans;
                (line, column) = offset_to_line_column source offset
            in Some \<lparr>je_message = sub_first end_of_input_re (\<lambda>_ _. js ''JSON is incomplete.'') message,
                 je_offset = offset, je_line = line, je_column = column\<rparr>)"

section \<open>Matches as pieces of the text\<close>

text \<open>A text as gaps and templates, and the rest after the last template.\<close>

fun source_of :: "(jsstr \<times> jsstr \<times> jsstr) list \<Rightarrow> jsstr \<Rightarrow> jsstr" where
  "source_of [] rest = rest"
| "source_of ((gap, t, p) # ps) rest = gap @ t @ source_of ps rest"

fun rewritten_of :: "(jsstr \<times> jsstr \<times> jsstr) list \<Rightarrow> jsstr \<Rightarrow> jsstr" where
  "rewritten_of [] rest = rest"
| "rewritten_of ((gap, t, p) # ps) rest = gap @ p @ rewritten_of ps rest"

fun spans_of :: "nat \<Rightarrow> nat \<Rightarrow> (jsstr \<times> jsstr \<times> jsstr) list \<Rightarrow> rewrite_span list" where
  "spans_of o' r [] = []"
| "spans_of o' r ((gap, t, p) # ps) =
     \<lparr>originalStart = o' + length gap, originalEnd = o' + length gap + length t,
      rewrittenStart = r + length gap, rewrittenEnd = r + length gap + length p\<rparr>
     # spans_of (o' + length gap + length t) (r + length gap + length p) ps"

lemma template_words: "w \<in> lang template_span_re \<Longrightarrow> w \<noteq> []"
  by (auto simp: template_span_re_def js_def)

lemma plain_template: "plain template_span_re"
  by (simp add: template_span_re_def)

lemma match_all_first:
  assumes "plain r" and "\<And>w. w \<in> lang r \<Longrightarrow> w \<noteq> []"
  shows "match_all_from r i l s = [] \<or>
    (\<exists>gap t rest m l'. s = gap @ t @ rest \<and> t \<noteq> [] \<and> t \<in> lang r
       \<and> match_all_from r i l s = (i + length gap, t, m) # match_all_from r (i + length gap + length t) l' rest)"
proof (induction s arbitrary: i l)
  case Nil
  have "rmatch r (l, [], []) = []"
    using assms(2) by (subst rmatch_Nil_iff [OF assms(1)]) auto
  then show ?case by (simp add: match_all_from.simps)
next
  case (Cons c s)
  show ?case
  proof (cases "rmatch r (l, c # s, [])")
    case Nil
    then have "match_all_from r i l (c # s) = match_all_from r (Suc i) (c # l) s"
      by (subst match_all_from.simps) simp
    with Cons.IH [of "Suc i" "c # l"] show ?thesis
    proof (elim disjE exE conjE)
      fix gap t rest m l'
      assume "match_all_from r i l (c # s) = match_all_from r (Suc i) (c # l) s" "s = gap @ t @ rest" "t \<noteq> []"
        "t \<in> lang r" "match_all_from r (Suc i) (c # l) s
          = (Suc i + length gap, t, m) # match_all_from r (Suc i + length gap + length t) l' rest"
      then show ?thesis
        by (intro disjI2 exI [of _ "c # gap"] exI [of _ t] exI [of _ rest] exI [of _ m] exI [of _ l']) simp
    qed simp
  next
    case (Cons m ms)
    obtain w where w: "c # s = w @ fst (snd m)" "w \<in> lang r"
      using rmatch_moves [OF assms(1), of m "(l, c # s, [])"] Cons by (auto simp: moves_def)
    have "matched (c # s) m = w" using w(1) by (simp add: matched_def)
    moreover have "length (fst (snd m)) < length (c # s)"
      using w assms(2) by (metis length_append length_greater_0_conv less_add_same_cancel2)
    moreover have "length (c # s) - length (fst (snd m)) = length w" using w(1) by simp
    ultimately have "match_all_from r i l (c # s) = (i, w, m) # match_all_from r (i + length w) (fst m) (fst (snd m))"
      using Cons by (subst match_all_from.simps) simp
    with w assms(2) show ?thesis
      by (intro disjI2 exI [of _ "[]"] exI [of _ w] exI [of _ "fst (snd m)"] exI [of _ m] exI [of _ "fst m"]) simp
  qed
qed

definition placeholders :: "(jsstr \<times> jsstr \<times> jsstr) list \<Rightarrow> bool" where
  "placeholders ps \<longleftrightarrow>
     (\<forall>(gap, t, p)\<in>set ps. t \<noteq> [] \<and> t \<in> lang template_span_re \<and> p \<in> {string_placeholder, value_placeholder})"

lemma rewrite_loop:
  assumes "rw_last st = i" and "i \<le> length source"
  shows "\<exists>ps rest. drop i source = source_of ps rest \<and> placeholders ps
    \<and> (let st' = fold (rewrite_match source) (match_all_from template_span_re i l (drop i source)) st in
        rw_spans st' = rw_spans st @ spans_of i (length (rw_text st)) ps
        \<and> rw_text st' @ drop (rw_last st') source = rw_text st @ rewritten_of ps rest)"
  using assms
proof (induction "length source - i" arbitrary: st i l rule: less_induct)
  case less
  have "match_all_from template_span_re i l (drop i source) = []
      \<or> (\<exists>gap t rest m l'. drop i source = gap @ t @ rest \<and> t \<noteq> [] \<and> t \<in> lang template_span_re
        \<and> match_all_from template_span_re i l (drop i source)
          = (i + length gap, t, m) # match_all_from template_span_re (i + length gap + length t) l' rest)"
    by (rule match_all_first [OF plain_template]) (rule template_words)
  then show ?case
  proof (elim disjE exE conjE)
    assume "match_all_from template_span_re i l (drop i source) = []"
    with less.prems show ?thesis
      by (intro exI [of _ "[]"] exI [of _ "drop i source"]) (simp add: placeholders_def)
  next
    fix gap t rest m l'
    assume s: "drop i source = gap @ t @ rest" and t: "t \<noteq> []" "t \<in> lang template_span_re"
      and ms: "match_all_from template_span_re i l (drop i source)
        = (i + length gap, t, m) # match_all_from template_span_re (i + length gap + length t) l' rest"
    let ?j = "i + length gap + length t"
    define q where "q = (if is_inside_json_string source (i + length gap) then string_placeholder else value_placeholder)"
    define st' where "st' = rewrite_match source (i + length gap, t, m) st"
    have len: "length source = i + length gap + length t + length rest"
      using arg_cong [OF s, of length] less.prems(2) by simp
    have rest: "rest = drop ?j source"
    proof -
      have "drop ?j source = drop (length gap + length t) (drop i source)" by (simp add: add.commute add.left_commute)
      then show ?thesis by (simp add: s)
    qed
    have st': "rw_last st' = ?j" "rw_text st' = rw_text st @ gap @ q"
        "rw_spans st' = rw_spans st @ spans_of i (length (rw_text st)) [(gap, t, q)]"
      using less.prems(1) s by (simp_all add: st'_def rewrite_match_def Let_def q_def)
    define fin where "fin = fold (rewrite_match source) (match_all_from template_span_re ?j l' rest) st'"
    have "?j \<le> length source" "length source - ?j < length source - i" using len t(1) by simp_all
    from less.hyps [OF this(2) st'(1) this(1), of l', unfolded Let_def, folded rest, folded fin_def]
    obtain ps rest' where ps: "rest = source_of ps rest'" "placeholders ps"
      and fin: "rw_spans fin = rw_spans st' @ spans_of ?j (length (rw_text st')) ps"
        "rw_text fin @ drop (rw_last fin) source = rw_text st' @ rewritten_of ps rest'"
      by (elim exE conjE)
    show ?thesis
    proof (intro exI conjI)
      show "drop i source = source_of ((gap, t, q) # ps) rest'" using s ps(1) by simp
      show "placeholders ((gap, t, q) # ps)" using ps(2) t by (simp add: placeholders_def q_def)
      show "let st' = fold (rewrite_match source) (match_all_from template_span_re i l (drop i source)) st in
          rw_spans st' = rw_spans st @ spans_of i (length (rw_text st)) ((gap, t, q) # ps)
          \<and> rw_text st' @ drop (rw_last st') source = rw_text st @ rewritten_of ((gap, t, q) # ps) rest'"
        unfolding ms fold_simps st'_def [symmetric] fin_def [symmetric] Let_def using fin st' by (simp add: add.assoc)
    qed
  qed
qed

lemma rewrite_pieces:
  "\<exists>ps rest. source = source_of ps rest \<and> placeholders ps
    \<and> rewrite_json_templates source = (rewritten_of ps rest, spans_of 0 0 ps)"
  using rewrite_loop [of "\<lparr>rw_spans = [], rw_text = [], rw_last = 0\<rparr>" 0 source "[]"]
  by (auto simp: rewrite_json_templates_def match_all_def Let_def)

section \<open>Mapping positions back\<close>

definition inside_span :: "rewrite_span \<Rightarrow> nat \<Rightarrow> bool" where
  "inside_span sp p \<longleftrightarrow> rewrittenStart sp \<le> p \<and> p < rewrittenEnd sp"

lemma spans_after: "sp \<in> set (spans_of o' r ps) \<Longrightarrow> r \<le> rewrittenStart sp"
  by (induction ps arbitrary: o' r) (auto, fastforce)

lemma shift_spec:
  assumes "placeholders ps" and "p < length (rewritten_of ps rest)"
  shows "\<exists>q<length (source_of ps rest). shift_offset (r + p) (int o' - int r) (spans_of o' r ps) = int (o' + q)
    \<and> ((\<exists>sp\<in>set (spans_of o' r ps). inside_span sp (r + p) \<and> o' + q = originalStart sp)
       \<or> (\<forall>sp\<in>set (spans_of o' r ps). \<not> inside_span sp (r + p)) \<and> source_of ps rest ! q = rewritten_of ps rest ! p)"
  using assms
proof (induction ps arbitrary: o' r p)
  case (Cons x ps)
  obtain gap t pl where x: "x = (gap, t, pl)" by (cases x)
  from Cons.prems(1) x have t: "t \<noteq> []" "pl \<noteq> []" "placeholders ps"
    by (auto simp: placeholders_def string_placeholder_def value_placeholder_def js_def)
  consider "p < length gap" | "length gap \<le> p" "p < length gap + length pl" | "length gap + length pl \<le> p"
    by linarith
  then show ?case
  proof cases
    case 1
    then have "\<not> inside_span sp (r + p)" if "sp \<in> set (spans_of o' r (x # ps))" for sp
      using that spans_after [of sp "o' + length gap + length t" "r + length gap + length pl" ps]
      by (auto simp: x inside_span_def)
    with 1 show ?thesis by (intro exI [of _ p]) (auto simp: x nth_append)
  next
    case 2
    with t show ?thesis by (intro exI [of _ "length gap"]) (auto simp: x inside_span_def)
  next
    case 3
    let ?p = "p - length gap - length pl"
    have p: "r + p = r + length gap + length pl + ?p" using 3 by simp
    have "?p < length (rewritten_of ps rest)" using Cons.prems(2) 3 by (simp add: x)
    from Cons.IH [OF t(3) this, of "r + length gap + length pl" "o' + length gap + length t"]
    obtain q where q: "q < length (source_of ps rest)"
        "shift_offset (r + p) (int (o' + length gap + length t) - int (r + length gap + length pl))
           (spans_of (o' + length gap + length t) (r + length gap + length pl) ps) = int (o' + length gap + length t + q)"
        "(\<exists>sp\<in>set (spans_of (o' + length gap + length t) (r + length gap + length pl) ps).
            inside_span sp (r + p) \<and> o' + length gap + length t + q = originalStart sp)
         \<or> (\<forall>sp\<in>set (spans_of (o' + length gap + length t) (r + length gap + length pl) ps). \<not> inside_span sp (r + p))
           \<and> source_of ps rest ! q = rewritten_of ps rest ! ?p"
      unfolding p by blast
    have "\<not> r + p \<le> r + length gap" "\<not> r + p < r + length gap + length pl" using 3 t(2) by (auto simp: neq_Nil_conv)
    with q 3 t show ?thesis
      by (intro exI [of _ "length gap + length t + q"])
        (auto simp: x nth_append inside_span_def algebra_simps)
  qed
qed (simp add: shift_offset.simps)

section \<open>Lines and columns\<close>

lemma fold_line_step:
  "fold line_step t (l, c) =
     (l + length (filter ((=) 10) t),
      (if 10 \<in> set t then 1 else c) + length (takeWhile (\<lambda>d. d \<noteq> 10) (rev t)))"
proof (induction t rule: rev_induct)
  case (snoc d t)
  have "length (takeWhile (\<lambda>d. d \<noteq> 10) (rev t)) = length t" if "10 \<notin> set t"
    using that by (subst takeWhile_eq_all_conv [THEN iffD2]) auto
  with snoc show ?case by (auto simp: line_step_def)
qed simp

section \<open>Properties\<close>

text \<open>C16: A position of the rewritten text maps to a position of the original one: inside a placeholder it is the start of the template that the placeholder stands for, and anywhere else the two texts have the same character there.\<close>

theorem template_position_maps_back:
  assumes "rewrite_json_templates source = (rewritten, spans)" and "p < length rewritten"
  shows "\<exists>q<length source. rewritten_offset_to_original p spans = int q
    \<and> (if \<exists>sp\<in>set spans. inside_span sp p
       then \<exists>sp\<in>set spans. inside_span sp p \<and> q = originalStart sp
       else source ! q = rewritten ! p)"
proof -
  obtain ps rest where ps: "source = source_of ps rest" "placeholders ps"
    and "rewritten = rewritten_of ps rest" "spans = spans_of 0 0 ps"
    using rewrite_pieces [of source] assms(1) by auto
  with shift_spec [OF ps(2), of p rest 0 0] assms(2) show ?thesis
    by (auto simp: rewritten_offset_to_original_def)
qed

lemma template_position_maps_back_witness:
  "\<exists>q<length (js ''[{{id}},x]''). rewritten_offset_to_original 23 (snd (rewrite_json_templates (js ''[{{id}},x]''))) = int q
    \<and> js ''[{{id}},x]'' ! q = 120"
proof -
  let ?s = "js ''[{{id}},x]''" and ?r = "rewrite_json_templates (js ''[{{id}},x]'')"
  have "23 < length (fst ?r)" "fst ?r ! 23 = 120" "\<forall>sp\<in>set (snd ?r). \<not> inside_span sp 23" by code_simp+
  with template_position_maps_back [of ?s "fst ?r" "snd ?r" 23] show ?thesis by auto
qed

text \<open>A text without an opening pair of braces is checked as it is: an error is reported exactly when it is not blank and not valid JSON.\<close>

theorem plain_json_checked:
  assumes "\<not> contains_str (js ''{{'') source"
  shows "find_templated_json_error engine_message source = None \<longleftrightarrow> trim source = [] \<or> json_parse source \<noteq> None"
proof -
  obtain ps rest where ps: "source = source_of ps rest" "placeholders ps"
    "rewrite_json_templates source = (rewritten_of ps rest, spans_of 0 0 ps)"
    using rewrite_pieces [of source] by blast
  have "ps = []"
  proof (rule ccontr)
    assume "ps \<noteq> []"
    then obtain gap t p ps' where p: "ps = (gap, t, p) # ps'" by (cases ps) auto
    with ps(2) have "t \<in> lang template_span_re" by (simp add: placeholders_def)
    then obtain v where "t = js ''{{'' @ v" by (auto simp: template_span_re_def)
    with ps(1) p have "source = gap @ js ''{{'' @ (v @ source_of ps' rest)" by simp
    with assms show False unfolding includes_iff by blast
  qed
  with ps show ?thesis
    by (auto simp: find_templated_json_error_def Let_def split: option.splits prod.splits)
qed

lemma plain_json_checked_witness:
  "find_templated_json_error (\<lambda>_. []) (js ''[true, nul]'') \<noteq> None"
proof -
  have "\<not> contains_str (js ''{{'') (js ''[true, nul]'')" "trim (js ''[true, nul]'') \<noteq> []"
    "json_parse (js ''[true, nul]'') = None" by code_simp+
  with plain_json_checked show ?thesis by blast
qed

text \<open>The line of an offset is one more than the line breaks before it, its column one more than the characters since the last of them, and two offsets of a text never share both.\<close>

theorem line_column_spec:
  "offset_to_line_column source offset =
     (let t = take (nat (max 0 (min offset (int (length source))))) source in
      (1 + length (filter ((=) 10) t), 1 + length (takeWhile (\<lambda>d. d \<noteq> 10) (rev t))))
    \<and> inj_on (\<lambda>n. offset_to_line_column source (int n)) {..length source}"
proof
  show spec: "offset_to_line_column source offset =
     (let t = take (nat (max 0 (min offset (int (length source))))) source in
      (1 + length (filter ((=) 10) t), 1 + length (takeWhile (\<lambda>d. d \<noteq> 10) (rev t))))" for offset
    by (simp add: offset_to_line_column_def Let_def fold_line_step)
  have differ: "offset_to_line_column source (int n) \<noteq> offset_to_line_column source (int m)"
    if "n < m" "m \<le> length source" for n m
  proof -
    define d where "d = drop n (take m source)"
    have d: "take m source = take n source @ d"
      using that by (metis append_take_drop_id d_def min.absorb1 nat_less_le take_take)
    have "d \<noteq> []" using that by (simp add: d_def)
    have clamp: "nat (max 0 (min (int k) (int (length source)))) = k" if "k \<le> length source" for k
      using that by simp
    have n: "offset_to_line_column source (int n) =
        (1 + length (filter ((=) 10) (take n source)), 1 + length (takeWhile (\<lambda>d. d \<noteq> 10) (rev (take n source))))"
    proof -
      have "n \<le> length source" using that by simp
      then show ?thesis by (simp only: spec [of "int n"] Let_def clamp [of n])
    qed
    have m: "offset_to_line_column source (int m) =
        (1 + length (filter ((=) 10) (take n source @ d)), 1 + length (takeWhile (\<lambda>d. d \<noteq> 10) (rev d @ rev (take n source))))"
      using that by (simp only: spec [of "int m"] Let_def clamp [of m] d rev_append)
    show ?thesis
    proof (cases "10 \<in> set d")
      case True
      then have "filter ((=) 10) d \<noteq> []" by (auto simp: filter_empty_conv)
      then show ?thesis by (simp add: n m)
    next
      case False
      then have "\<And>x. x \<in> set (rev d) \<Longrightarrow> x \<noteq> 10" by auto
      then have "takeWhile (\<lambda>d. d \<noteq> 10) (rev d @ r) = rev d @ takeWhile (\<lambda>d. d \<noteq> 10) r" for r :: jsstr
        by (rule takeWhile_append2)
      then show ?thesis using \<open>d \<noteq> []\<close> by (simp add: n m)
    qed
  qed
  show "inj_on (\<lambda>n. offset_to_line_column source (int n)) {..length source}"
    by (rule inj_onI) (metis differ atMost_iff linorder_neqE_nat)
qed

end
