(* ===== verification/Variable_Catalog.thy ===== *)
theory Variable_Catalog
  imports Request_Definition Js_Sort
begin

text \<open>
  \<open>features/monitors/variable-catalog.ts\<close>: the variables a step of a monitor can use, gathered from
  the environment, the secrets, the scripts, the actions and extractors of the steps and a preview
  run. The JavaScript parser (acorn's \<open>parse\<close>, \<open>None\<close> when it throws) and \<open>localeCompare\<close> are
  parameters.
\<close>

section \<open>Entries\<close>

datatype variable_scope =
    Variables | Environment | Service | Application | Collection | Globals | Step | Secret | Dynamic

definition scope_name :: "variable_scope \<Rightarrow> jsstr" where
  "scope_name s =
     (case s of
        Variables \<Rightarrow> js ''variables''
      | Environment \<Rightarrow> js ''environment''
      | Service \<Rightarrow> js ''service''
      | Application \<Rightarrow> js ''application''
      | Collection \<Rightarrow> js ''collection''
      | Globals \<Rightarrow> js ''globals''
      | Step \<Rightarrow> js ''step''
      | Secret \<Rightarrow> js ''secret''
      | Dynamic \<Rightarrow> js ''dynamic'')"

datatype availability = Now | Later

datatype preview_state = Known | Masked | Runtime | AfterExecution

record catalog_entry =
  ve_id :: jsstr
  ve_name :: jsstr
  ve_scope :: variable_scope
  ve_template :: jsstr
  ve_explicit :: jsstr
  ve_javascript :: jsstr
  ve_origin :: jsstr
  ve_availability :: availability
  ve_after :: "jsstr option"
  ve_sensitive :: bool
  ve_preview_state :: preview_state
  ve_preview :: "jsstr option"
  ve_observed :: bool
  ve_shadowed :: bool

datatype script_operation = SetOp | UnsetOp | ClearOp

record script_variable =
  sv_name :: jsstr
  sv_scope :: variable_scope
  sv_operation :: script_operation

definition dynamic_variables :: "(jsstr \<times> jsstr) list" where
  "dynamic_variables =
     [(js ''$guid'', js ''Random GUID''),
      (js ''$uuid'', js ''Random UUID''),
      (js ''$timestamp'', js ''Unix timestamp''),
      (js ''$isoTimestamp'', js ''ISO-8601 timestamp''),
      (js ''$randomInt'', js ''Random integer from 0 to 1000'')]"

definition scope_accessor :: "variable_scope \<Rightarrow> jsstr" where
  "scope_accessor s =
     (case s of
        Variables \<Rightarrow> js ''rhythm.variables''
      | Environment \<Rightarrow> js ''rhythm.environment''
      | Service \<Rightarrow> js ''rhythm.service''
      | Application \<Rightarrow> js ''rhythm.application''
      | Collection \<Rightarrow> js ''pm.collectionVariables''
      | Globals \<Rightarrow> js ''rhythm.globals''
      | _ \<Rightarrow> js ''undefined'')" \<comment> \<open>the other scopes have no entry in the table\<close>

section \<open>Variables a script writes\<close>

text \<open>
  \<open>walk\<close> visits every object of the syntax tree, a node before its children. The tree is the plain
  data acorn returns: nodes are objects, lists of nodes are arrays.
\<close>

fun walk :: "(jsval \<Rightarrow> 's \<Rightarrow> 's) \<Rightarrow> jsval \<Rightarrow> 's \<Rightarrow> 's"
  and walk_items :: "(jsval \<Rightarrow> 's \<Rightarrow> 's) \<Rightarrow> jsval list \<Rightarrow> 's \<Rightarrow> 's"
  and walk_values :: "(jsval \<Rightarrow> 's \<Rightarrow> 's) \<Rightarrow> (jsstr \<times> jsval) list \<Rightarrow> 's \<Rightarrow> 's" where
  "walk visit (JArr xs) s = walk_items visit xs s"
| "walk visit (JObj ps) s = walk_values visit ps (visit (JObj ps) s)"
| "walk visit _ s = s"
| "walk_items visit [] s = s"
| "walk_items visit (x # xs) s = walk_items visit xs (walk visit x s)"
| "walk_values visit [] s = s"
| "walk_values visit ((k, x) # ps) s = walk_values visit ps (walk visit x s)"

definition is_type :: "jsval \<Rightarrow> string \<Rightarrow> bool" where \<comment> \<open>\<open>v?.type === t\<close>\<close>
  "is_type v t \<longleftrightarrow> fld v ''type'' = JStr (js t)"

definition is_named :: "jsval \<Rightarrow> string \<Rightarrow> bool" where \<comment> \<open>\<open>v.name === n\<close>\<close>
  "is_named v n \<longleftrightarrow> fld v ''name'' = JStr (js n)"

definition store_scope :: "jsval \<Rightarrow> jsval \<Rightarrow> variable_scope option" where
  "store_scope root_node store =
     (if is_named root_node ''pm'' \<and> is_named store ''collectionVariables'' then Some Collection
      else if is_named store ''variables'' then Some Variables
      else if is_named store ''environment'' then Some Environment
      else if is_named root_node ''rhythm'' \<and> is_named store ''service'' then Some Service
      else if is_named root_node ''rhythm'' \<and> is_named store ''application'' then Some Application
      else if is_named store ''globals'' then Some Globals
      else None)"

definition call_operation :: "jsval \<Rightarrow> script_operation option" where
  "call_operation property_node =
     (if is_named property_node ''set'' then Some SetOp
      else if is_named property_node ''unset'' then Some UnsetOp
      else if is_named property_node ''clear'' then Some ClearOp
      else None)"

definition first_argument :: "jsval \<Rightarrow> jsval" where \<comment> \<open>\<open>arguments?.[0]\<close>\<close>
  "first_argument node =
     (case fld node ''arguments'' of
        JArr (x # _) \<Rightarrow> x
      | JObj ps \<Rightarrow> fld_str (JObj ps) (js ''0'')
      | _ \<Rightarrow> JUndef)"

definition read_call :: "jsval \<Rightarrow> script_variable option" where
  "read_call node =
     (let callee = fld node ''callee''; obj = fld callee ''object''; prop = fld callee ''property'';
          root_node = fld obj ''object''; store = fld obj ''property'' in
      if \<not> is_type node ''CallExpression'' then None
      else if \<not> is_type callee ''MemberExpression'' then None
      else if \<not> is_type obj ''MemberExpression'' \<or> \<not> is_type prop ''Identifier'' then None
      else if \<not> is_type root_node ''Identifier''
        \<or> \<not> is_named root_node ''pm'' \<and> \<not> is_named root_node ''rhythm''
        \<or> \<not> is_type store ''Identifier'' then None
      else case (store_scope root_node store, call_operation prop) of
        (Some s, Some ClearOp) \<Rightarrow> Some (script_variable.make (js ''*'') s ClearOp)
      | (Some s, Some operation) \<Rightarrow>
          (case (is_type (first_argument node) ''Literal'', fld (first_argument node) ''value'') of
             (True, JStr v) \<Rightarrow> Some (script_variable.make v s operation)
           | _ \<Rightarrow> None)
      | _ \<Rightarrow> None)"

definition visit_call :: "jsval \<Rightarrow> script_variable list \<Rightarrow> script_variable list" where
  "visit_call node found = (case read_call node of Some v \<Rightarrow> found @ [v] | None \<Rightarrow> found)"

definition discover_script_variables :: "(jsstr \<Rightarrow> jsval option) \<Rightarrow> jsstr \<Rightarrow> script_variable list" where
  "discover_script_variables parse_script code =
     (if trim code = [] then []
      else case parse_script code of
        None \<Rightarrow> []
      | Some ast \<Rightarrow> walk visit_call ast [])"

definition set_variables :: "(jsstr \<Rightarrow> jsval option) \<Rightarrow> jsstr \<Rightarrow> script_variable list" where
  "set_variables parse_script code =
     filter (\<lambda>v. sv_operation v = SetOp) (discover_script_variables parse_script code)"

section \<open>Building entries\<close>

definition template_of :: "jsstr \<Rightarrow> jsstr" where
  "template_of s = js ''{{'' @ s @ js ''}}''"

definition scoped_entry :: "variable_scope \<Rightarrow> jsstr \<Rightarrow> jsstr \<Rightarrow> availability \<Rightarrow> catalog_entry" where
  "scoped_entry s name origin available = \<lparr>
     ve_id = scope_name s @ js '':'' @ name @ js '':'' @ origin,
     ve_name = name,
     ve_scope = s,
     ve_template = template_of name,
     ve_explicit = template_of (scope_name s @ js ''.'' @ name),
     ve_javascript = scope_accessor s @ js ''.get('' @ json_quote name @ js '')'',
     ve_origin = origin,
     ve_availability = available,
     ve_after = None,
     ve_sensitive = False,
     ve_preview_state = (if available = Now then Runtime else AfterExecution),
     ve_preview = None,
     ve_observed = False,
     ve_shadowed = False\<rparr>"

record profile =
  pf_id :: jsstr
  pf_name :: jsstr
  pf_config :: "(jsstr \<times> jsval) list"

definition secret_name_re :: re where
  "secret_name_re = alt_re [lit_i_re (js ''password''), lit_i_re (js ''secret''), lit_i_re (js ''token''),
     lit_i_re (js ''credential''),
     seq_re [lit_i_re (js ''private''), opt_re (Cls False [(95, 95), (45, 45)]), lit_i_re (js ''key'')],
     seq_re [lit_i_re (js ''api''), opt_re (Cls False [(95, 95), (45, 45)]), lit_i_re (js ''key'')]]"

definition is_secret_name :: "jsstr \<Rightarrow> bool" where
  "is_secret_name n = rtest secret_name_re n"

definition environment_values :: "profile \<Rightarrow> (jsstr \<times> jsval) list" where
  "environment_values env =
     (let config = JObj (pf_config env); vars = fld config ''variables'' in
      from_entries ([(js ''baseUrl'', fld config ''baseUrl''), (js ''region'', fld config ''region'')]
        @ (if is_object vars then spread vars else [])))"

definition environment_entry :: "profile \<Rightarrow> jsstr \<times> jsval \<Rightarrow> exn + catalog_entry" where
  "environment_entry env p =
     (let e = scoped_entry Environment (fst p) (pf_name env) Now in
      if is_secret_name (fst p)
      then Inr (e\<lparr>ve_sensitive := True, ve_preview_state := Masked\<rparr>)
      else bindE (to_string (snd p)) (\<lambda>v.
        Inr (e\<lparr>ve_preview_state := Known, ve_preview := Some v\<rparr>)))"

definition environment_entries :: "profile \<Rightarrow> exn + catalog_entry list" where
  "environment_entries env =
     mapE (environment_entry env)
       (filter (\<lambda>(_, v). \<not> (nullish v \<or> v = JStr [])) (environment_values env))"

definition secret_entry :: "profile \<Rightarrow> catalog_entry" where
  "secret_entry secret = \<lparr>
     ve_id = js ''secret:'' @ pf_id secret,
     ve_name = pf_name secret,
     ve_scope = Secret,
     ve_template = template_of (js ''secrets.'' @ pf_name secret),
     ve_explicit = template_of (js ''secrets.'' @ pf_name secret),
     ve_javascript = js ''rhythm.secrets.get('' @ json_quote (pf_name secret) @ js '')'',
     ve_origin = js ''Secrets'',
     ve_availability = Now,
     ve_after = None,
     ve_sensitive = True,
     ve_preview_state = Masked,
     ve_preview = None,
     ve_observed = False,
     ve_shadowed = False\<rparr>"

definition monitor_entries :: "(jsstr \<Rightarrow> jsval option) \<Rightarrow> request_definition \<Rightarrow> catalog_entry list" where
  "monitor_entries parse_script d =
     map (\<lambda>v. scoped_entry (sv_scope v) (sv_name v) (js ''Monitor pre-request script'') Now)
       (set_variables parse_script (sc_code (rd_pre_request d)))"

section \<open>The entries of a step\<close>

definition origin_of :: "jsstr \<Rightarrow> string \<Rightarrow> jsstr" where \<comment> \<open>the step's name, a middle dot and the source\<close>
  "origin_of step_name what = step_name @ [32, 183, 32] @ js what"

definition after_of :: "bool \<Rightarrow> step_definition \<Rightarrow> jsstr option" where
  "after_of available step = (if available then None else Some (st_name step))"

definition when_available :: "bool \<Rightarrow> availability" where
  "when_available b = (if b then Now else Later)"

text \<open>
  The actions of the step and those its request runs first, as pairs with whether
  \<open>request.preRequest.includes(action)\<close>: identity of objects, and no object is in both lists.
\<close>

definition controlled_actions :: "step_definition \<Rightarrow> (bool \<times> step_action) list" where
  "controlled_actions step =
     map (Pair False) (st_actions step) @ map (Pair True) (rq_pre_request (st_request step))"

definition action_entries :: "int \<Rightarrow> int \<Rightarrow> step_definition \<Rightarrow> catalog_entry list" where
  "action_entries selected i step =
     List.map_filter (\<lambda>(before_request, action).
       if \<not> ac_enabled action \<or> trim (ac_output action) = [] then None
       else let available = i < selected \<or> i = selected \<and> before_request in
         Some ((scoped_entry Variables (ac_output action) (origin_of (st_name step) ''controlled action'')
             (when_available available))\<lparr>ve_after := after_of available step\<rparr>))
       (controlled_actions step)"

definition pre_script_entries :: "(jsstr \<Rightarrow> jsval option) \<Rightarrow> int \<Rightarrow> int \<Rightarrow> step_definition \<Rightarrow> catalog_entry list" where
  "pre_script_entries parse_script selected i step =
     map (\<lambda>v. (scoped_entry (sv_scope v) (sv_name v) (origin_of (st_name step) ''pre-request script'')
         (when_available (i \<le> selected)))\<lparr>ve_after := after_of (i \<le> selected) step\<rparr>)
       (set_variables parse_script (sc_code (rq_pre_script (st_request step))))"

record step_output =
  so_name :: jsstr
  so_sensitive :: bool
  so_origin :: string
  so_scope :: variable_scope

definition post_response :: "(jsstr \<Rightarrow> jsval option) \<Rightarrow> step_definition \<Rightarrow> step_output list" where
  "post_response parse_script step =
     map (\<lambda>x. \<lparr>so_name = ex_variable x, so_sensitive = ex_sensitive x, so_origin = ''extractor'',
         so_scope = Variables\<rparr>) (rq_extractors (st_request step))
     @ map (\<lambda>v. \<lparr>so_name = sv_name v, so_sensitive = False, so_origin = ''Tests script'',
         so_scope = sv_scope v\<rparr>) (set_variables parse_script (sc_code (rq_test_script (st_request step))))"

definition output_preview :: "bool \<Rightarrow> step_output \<Rightarrow> preview_state" where
  "output_preview earlier out =
     (if so_sensitive out then Masked else if earlier then Runtime else AfterExecution)"

definition output_entries :: "bool \<Rightarrow> step_definition \<Rightarrow> step_output \<Rightarrow> catalog_entry list" where
  "output_entries earlier step out =
     (let origin = origin_of (st_name step) (so_origin out);
          reference = template_of (js ''steps.'' @ st_id step @ js ''.outputs.'' @ so_name out) in
      [(scoped_entry (so_scope out) (so_name out) origin (when_available earlier))
         \<lparr>ve_after := after_of earlier step, ve_sensitive := so_sensitive out,
          ve_preview_state := output_preview earlier out\<rparr>,
       \<lparr>ve_id = js ''step:'' @ st_id step @ js '':'' @ so_name out,
        ve_name = so_name out,
        ve_scope = Step,
        ve_template = reference,
        ve_explicit = reference,
        ve_javascript = js ''pm.variables.get('' @ json_quote (so_name out) @ js '')'',
        ve_origin = origin,
        ve_availability = when_available earlier,
        ve_after = after_of earlier step,
        ve_sensitive = so_sensitive out,
        ve_preview_state = output_preview earlier out,
        ve_preview = None,
        ve_observed = False,
        ve_shadowed = False\<rparr>])"

definition step_entries :: "(jsstr \<Rightarrow> jsval option) \<Rightarrow> int \<Rightarrow> int \<times> step_definition \<Rightarrow> catalog_entry list" where
  "step_entries parse_script selected p =
     (case p of (i, step) \<Rightarrow>
        action_entries selected i step
        @ pre_script_entries parse_script selected i step
        @ concat (map (output_entries (i < selected) step)
            (filter (\<lambda>out. trim (so_name out) \<noteq> []) (post_response parse_script step))))"

definition dynamic_entry :: "jsstr \<times> jsstr \<Rightarrow> catalog_entry" where
  "dynamic_entry p = \<lparr>
     ve_id = js ''dynamic:'' @ fst p,
     ve_name = fst p,
     ve_scope = Dynamic,
     ve_template = template_of (fst p),
     ve_explicit = template_of (fst p),
     ve_javascript = js ''pm.variables.replaceIn(\"'' @ template_of (fst p) @ js ''\")'',
     ve_origin = snd p,
     ve_availability = Now,
     ve_after = None,
     ve_sensitive = False,
     ve_preview_state = Runtime,
     ve_preview = None,
     ve_observed = False,
     ve_shadowed = False\<rparr>"

record observed_variable =
  ob_name :: jsstr
  ob_scope :: variable_scope
  ob_masked :: bool

definition observed_entry :: "observed_variable \<Rightarrow> catalog_entry" where
  "observed_entry item =
     (scoped_entry (ob_scope item) (ob_name item) (js ''Observed in preview'') Now)
       \<lparr>ve_observed := True, ve_sensitive := ob_masked item,
        ve_preview_state := (if ob_masked item then Masked else Runtime)\<rparr>"

section \<open>The catalog\<close>

record catalog_input =
  cg_definition :: request_definition
  cg_selected :: int
  cg_environments :: "profile list"
  cg_secrets :: "profile list"
  cg_environment :: "jsstr option"
  cg_observed :: "observed_variable list"

definition selected_environment :: "catalog_input \<Rightarrow> profile option" where
  "selected_environment inp = find (\<lambda>p. Some (pf_id p) = cg_environment inp) (cg_environments inp)"

definition gathered_entries :: "(jsstr \<Rightarrow> jsval option) \<Rightarrow> catalog_input \<Rightarrow> exn + catalog_entry list" where
  "gathered_entries parse_script inp =
     bindE (case selected_environment inp of None \<Rightarrow> Inr [] | Some env \<Rightarrow> environment_entries env) (\<lambda>from_environment.
     Inr (from_environment
       @ map secret_entry (cg_secrets inp)
       @ monitor_entries parse_script (cg_definition inp)
       @ concat (map (step_entries parse_script (cg_selected inp))
           (map (\<lambda>(i, step). (int i, step)) (enumerate 0 (rd_steps (cg_definition inp)))))
       @ map dynamic_entry dynamic_variables
       @ map observed_entry (cg_observed inp)))"

definition precedence :: "variable_scope list" where
  "precedence = [Variables, Environment, Collection, Globals]"

definition find_index :: "('a \<Rightarrow> bool) \<Rightarrow> 'a list \<Rightarrow> nat" where \<comment> \<open>of an element that is there\<close>
  "find_index p xs = length (takeWhile (\<lambda>x. \<not> p x) xs)"

definition scope_rank :: "variable_scope \<Rightarrow> nat" where
  "scope_rank s = find_index ((=) s) precedence"

definition contends :: "catalog_entry \<Rightarrow> bool" where
  "contends e \<longleftrightarrow> ve_scope e \<in> set precedence \<and> ve_availability e = Now"

definition add_winner :: "catalog_entry \<Rightarrow> (jsstr \<rightharpoonup> catalog_entry) \<Rightarrow> jsstr \<rightharpoonup> catalog_entry" where
  "add_winner e winners =
     (if \<not> contends e then winners
      else case winners (ve_name e) of
        None \<Rightarrow> winners(ve_name e \<mapsto> e)
      | Some w \<Rightarrow> if scope_rank (ve_scope e) < scope_rank (ve_scope w) then winners(ve_name e \<mapsto> e) else winners)"

definition winners_of :: "catalog_entry list \<Rightarrow> jsstr \<rightharpoonup> catalog_entry" where
  "winners_of entries = fold add_winner entries Map.empty"

definition mark_shadowed :: "(jsstr \<rightharpoonup> catalog_entry) \<Rightarrow> catalog_entry \<Rightarrow> catalog_entry" where
  "mark_shadowed winners e =
     e\<lparr>ve_shadowed := ve_scope e \<in> set precedence
        \<and> (case winners (ve_name e) of None \<Rightarrow> False | Some w \<Rightarrow> ve_id w \<noteq> ve_id e)\<rparr>"

definition same_variable :: "catalog_entry \<Rightarrow> catalog_entry \<Rightarrow> bool" where
  "same_variable e c \<longleftrightarrow> ve_scope c = ve_scope e \<and> ve_name c = ve_name e \<and> ve_origin c = ve_origin e"

definition first_of_each :: "catalog_entry list \<Rightarrow> catalog_entry list" where
  "first_of_each es = map snd (filter (\<lambda>(i, e). find_index (same_variable e) es = i) (enumerate 0 es))"

definition compare_entries :: "(jsstr \<Rightarrow> jsstr \<Rightarrow> int) \<Rightarrow> catalog_entry \<Rightarrow> catalog_entry \<Rightarrow> int" where
  "compare_entries locale_compare l r =
     (if ve_availability l \<noteq> ve_availability r then if ve_availability l = Now then - 1 else 1
      else locale_compare (ve_name l) (ve_name r))"

definition build_variable_catalog ::
  "(jsstr \<Rightarrow> jsval option) \<Rightarrow> (jsstr \<Rightarrow> jsstr \<Rightarrow> int) \<Rightarrow> catalog_input \<Rightarrow> exn + catalog_entry list" where
  "build_variable_catalog parse_script locale_compare inp =
     bindE (gathered_entries parse_script inp) (\<lambda>entries.
     Inr (sort_by (compare_entries locale_compare)
       (first_of_each (map (mark_shadowed (winners_of entries)) entries))))"

end
