(* ===== verification/Catalog_Facts.thy ===== *)
theory Catalog_Facts
  imports Variable_Catalog
begin

text \<open>
  What the picker relies on of the catalog: no secret is previewed, one row per variable and origin
  in the stated order, one unshadowed row per name, and rows that stay available as the selection
  moves to a later step.
\<close>

section \<open>Which row is kept\<close>

definition variable_key :: "catalog_entry \<Rightarrow> variable_scope \<times> jsstr \<times> jsstr" where
  "variable_key e = (ve_scope e, ve_name e, ve_origin e)"

lemma same_variable_iff: "same_variable e c \<longleftrightarrow> variable_key c = variable_key e"
  by (auto simp: same_variable_def variable_key_def)

definition first_index :: "catalog_entry list \<Rightarrow> nat \<Rightarrow> bool" where
  "first_index es i \<longleftrightarrow> (\<forall>j<i. variable_key (es ! j) \<noteq> variable_key (es ! i))"

lemma find_index_eq:
  assumes "i < length xs" "p (xs ! i)"
  shows "find_index p xs = i \<longleftrightarrow> (\<forall>j<i. \<not> p (xs ! j))"
  using assms
proof (induction xs arbitrary: i)
  case (Cons x xs)
  then show ?case
    by (cases i) (auto simp: find_index_def less_Suc_eq_0_disj)
qed simp

lemma first_of_each_nth:
  "first_of_each es = map ((!) es) (filter (first_index es) [0..<length es])"
proof -
  have e: "enumerate 0 es = map (\<lambda>i. (i, es ! i)) [0..<length es]"
    by (rule nth_equalityI) (simp_all add: nth_enumerate_eq)
  have "filter ((\<lambda>(i, e). find_index (same_variable e) es = i) \<circ> (\<lambda>i. (i, es ! i))) [0..<length es]
      = filter (first_index es) [0..<length es]"
    by (rule filter_cong) (auto simp: first_index_def find_index_eq same_variable_iff)
  then show ?thesis
    by (simp add: first_of_each_def e filter_map o_def)
qed

lemma set_first_of_each:
  "set (first_of_each es) = {es ! i |i. i < length es \<and> first_index es i}"
  by (auto simp: first_of_each_nth)

lemma first_of_each_subset: "set (first_of_each es) \<subseteq> set es"
  by (auto simp: set_first_of_each)

lemma first_of_each_covers:
  assumes "e \<in> set es"
  obtains c where "c \<in> set (first_of_each es)" "variable_key c = variable_key e"
proof -
  define p where "p i \<longleftrightarrow> i < length es \<and> variable_key (es ! i) = variable_key e" for i
  obtain i where "p i" using assms by (auto simp: in_set_conv_nth p_def)
  then obtain l where l: "p l" "\<forall>j<l. \<not> p j"
    using exists_least_iff [of p] by blast
  then have "first_index es l"
    by (auto simp: first_index_def p_def)
  with l(1) that show ?thesis by (auto simp: set_first_of_each p_def)
qed

lemma distinct_first_of_each: "distinct (map variable_key (first_of_each es))"
proof -
  have "i = j" if "first_index es i" "first_index es j" "variable_key (es ! i) = variable_key (es ! j)" for i j
    using that unfolding first_index_def by (metis linorder_neqE_nat)
  then have "inj_on (\<lambda>i. variable_key (es ! i)) (set (filter (first_index es) [0..<length es]))"
    by (auto intro: inj_onI)
  then show ?thesis by (simp add: first_of_each_nth distinct_map o_def)
qed

section \<open>The winners\<close>

lemma winners_invariant:
  "(\<forall>n w. winners_of es n = Some w \<longrightarrow> w \<in> set es \<and> contends w \<and> ve_name w = n
      \<and> (\<forall>e\<in>set es. contends e \<and> ve_name e = n \<longrightarrow> scope_rank (ve_scope w) \<le> scope_rank (ve_scope e)))
   \<and> (\<forall>n. winners_of es n = None \<longrightarrow> (\<forall>e\<in>set es. contends e \<longrightarrow> ve_name e \<noteq> n))"
proof (induction es rule: rev_induct)
  case (snoc e es)
  have "winners_of (es @ [e]) = add_winner e (winners_of es)" by (simp add: winners_of_def)
  with snoc show ?case
    by (auto simp: add_winner_def split: option.splits if_splits) (force dest: le_trans)+
qed (simp add: winners_of_def)

lemma winner:
  assumes "winners_of es n = Some w"
  shows "w \<in> set es" "contends w" "ve_name w = n"
    "e \<in> set es \<Longrightarrow> contends e \<Longrightarrow> ve_name e = n \<Longrightarrow> scope_rank (ve_scope w) \<le> scope_rank (ve_scope e)"
  using winners_invariant [of es] assms by blast+

lemma no_winner: "winners_of es n = None \<Longrightarrow> e \<in> set es \<Longrightarrow> contends e \<Longrightarrow> ve_name e \<noteq> n"
  using winners_invariant [of es] by blast

section \<open>The rows of the catalog\<close>

lemma mark_shadowed_simps [simp]:
  "variable_key (mark_shadowed ws e) = variable_key e"
  "ve_id (mark_shadowed ws e) = ve_id e" "ve_name (mark_shadowed ws e) = ve_name e"
  "ve_scope (mark_shadowed ws e) = ve_scope e" "ve_origin (mark_shadowed ws e) = ve_origin e"
  "ve_availability (mark_shadowed ws e) = ve_availability e"
  "ve_sensitive (mark_shadowed ws e) = ve_sensitive e" "ve_preview (mark_shadowed ws e) = ve_preview e"
  "ve_preview_state (mark_shadowed ws e) = ve_preview_state e"
  by (simp_all add: mark_shadowed_def variable_key_def)

lemma catalog_built:
  assumes "build_variable_catalog parse_script locale_compare inp = Inr catalog"
  obtains es where "gathered_entries parse_script inp = Inr es"
    "catalog = sort_by (compare_entries locale_compare) (first_of_each (map (mark_shadowed (winners_of es)) es))"
  using assms by (auto simp: build_variable_catalog_def bindE_def split: sum.splits)

lemma catalog_row:
  assumes "build_variable_catalog parse_script locale_compare inp = Inr catalog" "c \<in> set catalog"
  obtains es e where "gathered_entries parse_script inp = Inr es" "e \<in> set es" "c = mark_shadowed (winners_of es) e"
proof -
  obtain es where "gathered_entries parse_script inp = Inr es"
    "catalog = sort_by (compare_entries locale_compare) (first_of_each (map (mark_shadowed (winners_of es)) es))"
    using assms(1) by (rule catalog_built)
  with that assms(2) first_of_each_subset [of "map (mark_shadowed (winners_of es)) es"] show ?thesis by auto
qed

lemma catalog_covers:
  assumes "build_variable_catalog parse_script locale_compare inp = Inr catalog"
    "gathered_entries parse_script inp = Inr es" "e \<in> set es"
  obtains c where "c \<in> set catalog" "variable_key c = variable_key e"
proof -
  let ?ms = "map (mark_shadowed (winners_of es)) es"
  have "mark_shadowed (winners_of es) e \<in> set ?ms" using assms(3) by simp
  then obtain c where "c \<in> set (first_of_each ?ms)" "variable_key c = variable_key (mark_shadowed (winners_of es) e)"
    by (rule first_of_each_covers)
  with that assms show ?thesis by (elim catalog_built) auto
qed

lemma catalog_distinct:
  assumes "build_variable_catalog parse_script locale_compare inp = Inr catalog"
  shows "distinct (map variable_key catalog)"
proof -
  obtain es where c: "catalog = sort_by (compare_entries locale_compare) (first_of_each (map (mark_shadowed (winners_of es)) es))"
    using assms by (rule catalog_built)
  have "mset (map variable_key catalog) = mset (map variable_key (first_of_each (map (mark_shadowed (winners_of es)) es)))"
    by (simp add: c)
  then show ?thesis
    using distinct_first_of_each mset_eq_imp_distinct_iff by blast
qed

section \<open>Scripts\<close>

text \<open>The objects within a syntax tree, each before those inside it.\<close>

fun nodes :: "jsval \<Rightarrow> jsval list" and item_nodes :: "jsval list \<Rightarrow> jsval list"
  and member_nodes :: "(jsstr \<times> jsval) list \<Rightarrow> jsval list" where
  "nodes (JArr xs) = item_nodes xs"
| "nodes (JObj ps) = JObj ps # member_nodes ps"
| "nodes _ = []"
| "item_nodes [] = []"
| "item_nodes (x # xs) = nodes x @ item_nodes xs"
| "member_nodes [] = []"
| "member_nodes ((k, x) # ps) = nodes x @ member_nodes ps"

lemma walk_nodes:
  "walk visit v s = fold visit (nodes v) s"
  "walk_items visit xs s = fold visit (item_nodes xs) s"
  "walk_values visit ps s = fold visit (member_nodes ps) s"
  by (induction visit v s and visit xs s and visit ps s rule: walk_walk_items_walk_values.induct) simp_all

lemma fold_visit_call: "fold visit_call vs found = found @ List.map_filter read_call vs"
  by (induction vs arbitrary: found) (simp_all add: visit_call_def map_filter_simps split: option.splits)

text \<open>The variables found in a script are those of the store calls among the nodes of its syntax tree, in the order of the tree; a script that is blank or does not parse has none.\<close>

theorem discovered_are_calls:
  "discover_script_variables parse_script code =
     (case if trim code = [] then None else parse_script code of
        None \<Rightarrow> []
      | Some ast \<Rightarrow> List.map_filter read_call (nodes ast))"
  by (simp add: discover_script_variables_def walk_nodes fold_visit_call split: option.splits)

lemma store_scope_open: "store_scope r t \<noteq> Some Secret"
  by (simp add: store_scope_def)

lemma read_call_scope: "read_call node = Some v \<Longrightarrow> sv_scope v \<noteq> Secret"
  using store_scope_open
  by (auto simp: read_call_def Let_def script_variable.defs split: if_splits option.splits script_operation.splits
      jsval.splits bool.splits)

lemma discovered_scope:
  assumes "v \<in> set (set_variables parse_script code)"
  shows "sv_scope v \<noteq> Secret"
proof -
  from assms obtain node where "read_call node = Some v"
    by (auto simp: set_variables_def discovered_are_calls map_filter_def split: option.splits if_splits)
  then show ?thesis by (rule read_call_scope)
qed

section \<open>Where rows come from\<close>

definition environment_row :: "catalog_input \<Rightarrow> catalog_entry \<Rightarrow> bool" where
  "environment_row inp e \<longleftrightarrow>
     (\<exists>env p. selected_environment inp = Some env \<and> p \<in> set (environment_values env) \<and> environment_entry env p = Inr e)"

definition scoped_row :: "catalog_entry \<Rightarrow> bool" where
  "scoped_row e \<longleftrightarrow> (\<exists>s n x a after. s \<noteq> Secret \<and> e = (scoped_entry s n x a)\<lparr>ve_after := after\<rparr>)"

lemma scoped_rows [intro]:
  assumes "s \<noteq> Secret"
  shows "scoped_row ((scoped_entry s n x a)\<lparr>ve_after := after\<rparr>)" "scoped_row (scoped_entry s n x a)"
proof -
  have "(scoped_entry s n x a)\<lparr>ve_after := None\<rparr> = scoped_entry s n x a"
    by (simp add: scoped_entry_def)
  with assms show "scoped_row (scoped_entry s n x a)" unfolding scoped_row_def by metis
qed (use assms in \<open>unfold scoped_row_def, blast\<close>)

lemma environment_entries_rows:
  assumes "environment_entries env = Inr es" "e \<in> set es"
  shows "\<exists>p\<in>set (environment_values env). environment_entry env p = Inr e"
proof -
  let ?ps = "filter (\<lambda>(_, v). \<not> (nullish v \<or> v = JStr [])) (environment_values env)"
  have "list_all2 (\<lambda>p e. environment_entry env p = Inr e) ?ps es"
    using assms(1) by (simp add: environment_entries_def mapE_Inr)
  with assms(2) obtain i where "i < length ?ps" "environment_entry env (?ps ! i) = Inr e"
    by (auto simp: in_set_conv_nth list_all2_conv_all_nth)
  moreover from this have "?ps ! i \<in> set (environment_values env)"
    by (meson filter_is_subset nth_mem subsetD)
  ultimately show ?thesis by blast
qed

lemma gathered_rows:
  assumes "gathered_entries parse_script inp = Inr es" "e \<in> set es"
  shows "environment_row inp e \<or> (\<exists>s. e = secret_entry s)
    \<or> scoped_row e
    \<or> (\<exists>earlier step out. so_scope out \<noteq> Secret \<and> e \<in> set (output_entries earlier step out))
    \<or> (\<exists>p. e = dynamic_entry p) \<or> (\<exists>item. e = observed_entry item)"
proof -
  obtain fs where fs: "(case selected_environment inp of None \<Rightarrow> Inr [] | Some env \<Rightarrow> environment_entries env) = Inr fs"
    and es: "es = fs @ map secret_entry (cg_secrets inp)
       @ monitor_entries parse_script (cg_definition inp)
       @ concat (map (step_entries parse_script (cg_selected inp))
           (map (\<lambda>(i, step). (int i, step)) (enumerate 0 (rd_steps (cg_definition inp)))))
       @ map dynamic_entry dynamic_variables
       @ map observed_entry (cg_observed inp)"
    using assms(1) by (auto simp: gathered_entries_def bindE_def split: sum.splits)
  have environment: "environment_row inp e" if "e \<in> set fs"
    using fs that environment_entries_rows unfolding environment_row_def by (cases "selected_environment inp") fastforce+
  have monitor: "scoped_row e"
    if "e \<in> set (monitor_entries parse_script d)" for d
    using that discovered_scope by (auto simp: monitor_entries_def)
  have outputs: "so_scope out \<noteq> Secret" if "out \<in> set (post_response parse_script step)" for out step
    using that discovered_scope by (auto simp: post_response_def)
  have step: "scoped_row e
      \<or> (\<exists>earlier step out. so_scope out \<noteq> Secret \<and> e \<in> set (output_entries earlier step out))"
    if "e \<in> set (step_entries parse_script k (i, step))" for k i step
  proof -
    have "scoped_row e" if "e \<in> set (action_entries k i step) \<or> e \<in> set (pre_script_entries parse_script k i step)"
      using that discovered_scope
      by (auto simp: action_entries_def pre_script_entries_def map_filter_def Let_def split: if_splits)
    moreover have "\<exists>earlier step out. so_scope out \<noteq> Secret \<and> e \<in> set (output_entries earlier step out)"
      if "out \<in> set (post_response parse_script step)" "e \<in> set (output_entries (i < k) step out)" for out
      using that outputs by blast
    ultimately show ?thesis using that by (auto simp: step_entries_def)
  qed
  show ?thesis
    using assms(2) unfolding es set_append Un_iff
    by (elim disjE) (auto dest: environment monitor step)
qed

lemma row_identity:
  assumes "gathered_entries parse_script inp = Inr es" "e \<in> set es" "ve_scope e \<in> set precedence"
  shows "ve_id e = scope_name (ve_scope e) @ js '':'' @ ve_name e @ js '':'' @ ve_origin e"
  using gathered_rows [OF assms(1,2)] assms(3)
  by (auto simp: environment_row_def scoped_row_def environment_entry_def secret_entry_def output_entries_def dynamic_entry_def
      observed_entry_def scoped_entry_def precedence_def Let_def bindE_def split: if_splits sum.splits)

lemma identity_key:
  assumes "gathered_entries parse_script inp = Inr es" "e \<in> set es" "e' \<in> set es"
    "ve_scope e \<in> set precedence" "ve_scope e' \<in> set precedence" "ve_name e = ve_name e'" "ve_id e = ve_id e'"
  shows "variable_key e = variable_key e'"
  using row_identity [OF assms(1,2,4)] row_identity [OF assms(1,3,5)] assms(4-7)
  by (auto simp: precedence_def scope_name_def variable_key_def js_def)

section \<open>Properties\<close>

lemma secret_row_masked:
  assumes "gathered_entries parse_script inp = Inr es" "e \<in> set es" "ve_scope e = Secret" "ve_origin e = js ''Secrets''"
  shows "ve_sensitive e" "ve_preview_state e = Masked" "ve_preview e = None"
  using gathered_rows [OF assms(1,2)] assms(3,4)
  by (auto simp: environment_row_def scoped_row_def environment_entry_def secret_entry_def output_entries_def
      dynamic_entry_def observed_entry_def scoped_entry_def Let_def bindE_def js_def split: if_splits sum.splits)

text \<open>C17: No secret is shown: a row is sensitive exactly if it is masked, and then it has no preview;
  only values of the selected environment whose name does not look secret are previewed; and every
  secret profile has a row of its name in the scope of secrets that is sensitive, masked and has no
  preview.\<close>

theorem catalog_masks_secrets:
  assumes "build_variable_catalog parse_script locale_compare inp = Inr catalog"
  shows "(\<forall>e\<in>set catalog. (ve_sensitive e \<longleftrightarrow> ve_preview_state e = Masked) \<and> (ve_sensitive e \<longrightarrow> ve_preview e = None)
      \<and> (\<forall>v. ve_preview e = Some v \<longrightarrow> \<not> is_secret_name (ve_name e)
          \<and> (\<exists>env x. selected_environment inp = Some env \<and> (ve_name e, x) \<in> set (environment_values env)
              \<and> to_string x = Inr v)))
    \<and> (\<forall>s\<in>set (cg_secrets inp). \<exists>e\<in>set catalog. ve_scope e = Secret \<and> ve_name e = pf_name s
          \<and> ve_sensitive e \<and> ve_preview_state e = Masked \<and> ve_preview e = None)"
proof (intro conjI ballI)
  fix e assume "e \<in> set catalog"
  then obtain es e0 where g: "gathered_entries parse_script inp = Inr es" "e0 \<in> set es"
    and e: "e = mark_shadowed (winners_of es) e0"
    using catalog_row [OF assms] by metis
  show "ve_sensitive e \<longleftrightarrow> ve_preview_state e = Masked" "ve_sensitive e \<longrightarrow> ve_preview e = None"
    and "\<forall>v. ve_preview e = Some v \<longrightarrow> \<not> is_secret_name (ve_name e)
          \<and> (\<exists>env x. selected_environment inp = Some env \<and> (ve_name e, x) \<in> set (environment_values env)
              \<and> to_string x = Inr v)"
    using gathered_rows [OF g]
    by (auto simp: e environment_row_def scoped_row_def environment_entry_def secret_entry_def output_entries_def output_preview_def
        dynamic_entry_def observed_entry_def scoped_entry_def Let_def bindE_def split: if_splits sum.splits)
next
  fix s assume s: "s \<in> set (cg_secrets inp)"
  obtain es where g: "gathered_entries parse_script inp = Inr es"
    using assms by (rule catalog_built)
  with s have "secret_entry s \<in> set es"
    by (auto simp: gathered_entries_def bindE_def split: sum.splits)
  with assms g obtain c where c: "c \<in> set catalog" "variable_key c = variable_key (secret_entry s)"
    by (rule catalog_covers)
  obtain r where "r \<in> set es" "c = mark_shadowed (winners_of es) r"
    using catalog_row [OF assms c(1)] g by (metis Inr_inject)
  with c secret_row_masked [OF g]
  show "\<exists>e\<in>set catalog. ve_scope e = Secret \<and> ve_name e = pf_name s
      \<and> ve_sensitive e \<and> ve_preview_state e = Masked \<and> ve_preview e = None"
    by (intro bexI [of _ c]) (auto simp: variable_key_def secret_entry_def)
qed

lemma shadowed_iff:
  assumes "build_variable_catalog parse_script locale_compare inp = Inr catalog" "gathered_entries parse_script inp = Inr es"
    and "c \<in> set catalog" "ve_scope c \<in> set precedence"
  shows "ve_shadowed c \<longleftrightarrow> (\<exists>w. winners_of es (ve_name c) = Some w \<and> variable_key w \<noteq> variable_key c)"
proof -
  obtain r where r: "r \<in> set es" "c = mark_shadowed (winners_of es) r"
    using catalog_row [OF assms(1,3)] assms(2) by (metis Inr_inject)
  have "ve_id w = ve_id r \<longleftrightarrow> variable_key w = variable_key r" if w: "winners_of es (ve_name r) = Some w" for w
  proof -
    note winner = winner(1-3) [OF w]
    have scope: "ve_scope w \<in> set precedence" "ve_scope r \<in> set precedence"
      using winner(2) assms(4) r(2) by (simp_all add: contends_def)
    show ?thesis
      using identity_key [OF assms(2) winner(1) r(1) scope winner(3)]
        row_identity [OF assms(2) winner(1) scope(1)] row_identity [OF assms(2) r(1) scope(2)]
      by (auto simp: variable_key_def)
  qed
  moreover have "ve_name c = ve_name r" "variable_key c = variable_key r" by (simp_all add: r(2))
  moreover have "ve_shadowed c \<longleftrightarrow> (\<exists>w. winners_of es (ve_name r) = Some w \<and> ve_id w \<noteq> ve_id r)"
    using r(2) assms(4) by (auto simp: mark_shadowed_def split: option.splits)
  ultimately show ?thesis by auto
qed

lemma unshadowed_first:
  assumes "build_variable_catalog parse_script locale_compare inp = Inr catalog"
    and "e \<in> set catalog" "ve_scope e \<in> set precedence" "\<not> ve_shadowed e"
    and "c \<in> set catalog" "contends c" "ve_name c = ve_name e"
  shows "scope_rank (ve_scope e) \<le> scope_rank (ve_scope c)" and "\<not> ve_shadowed c \<Longrightarrow> c = e"
proof -
  obtain es where g: "gathered_entries parse_script inp = Inr es"
    using assms(1) by (rule catalog_built)
  note shadowed = shadowed_iff [OF assms(1) g]
  obtain q where "q \<in> set es" "c = mark_shadowed (winners_of es) q"
    using catalog_row [OF assms(1,5)] g by (metis Inr_inject)
  with assms(6,7) have q: "q \<in> set es" "contends q" "ve_name q = ve_name e" "ve_scope c = ve_scope q"
    by (simp_all add: contends_def)
  with no_winner obtain w where w: "winners_of es (ve_name e) = Some w" by (metis option.exhaust)
  with assms(4) shadowed [OF assms(2,3)] have k: "variable_key w = variable_key e" by blast
  then show "scope_rank (ve_scope e) \<le> scope_rank (ve_scope c)"
    using winner(4) [OF w q(1-3)] q(4) by (simp add: variable_key_def)
  assume "\<not> ve_shadowed c"
  with shadowed [OF assms(5)] assms(6,7) w k have "variable_key c = variable_key e" by (simp add: contends_def)
  with assms(2,5) catalog_distinct [OF assms(1)] show "c = e" by (auto simp: distinct_map dest: inj_onD)
qed

text \<open>
  A variable can be gathered more than once, as an action of a step and as an action of its request:
  whether it is available is then told by either row, and the catalog keeps the first.
\<close>

definition agreed_availability :: "catalog_entry list \<Rightarrow> bool" where
  "agreed_availability es \<longleftrightarrow>
     (\<forall>g\<in>set es. \<forall>h\<in>set es. variable_key g = variable_key h \<longrightarrow> ve_availability g = ve_availability h)"

text \<open>C18: Take the rows of one name in the scopes with a precedence. If one of them is available or
  shadowed, then exactly one of them is not shadowed; that row stands for a variable that was
  gathered as available, no available row comes before it in the precedence, and the row is itself
  available as long as no variable was gathered twice with different availability. So a row that is
  not available never shadows one that is.\<close>

theorem catalog_shadowing:
  assumes "build_variable_catalog parse_script locale_compare inp = Inr catalog"
    and "gathered_entries parse_script inp = Inr es"
    and "c \<in> set catalog" "ve_scope c \<in> set precedence" "ve_availability c = Now \<or> ve_shadowed c"
  shows "\<exists>e\<in>set catalog. ve_name e = ve_name c \<and> ve_scope e \<in> set precedence \<and> \<not> ve_shadowed e
    \<and> (\<forall>r\<in>set catalog. ve_name r = ve_name c \<and> ve_scope r \<in> set precedence \<and> r \<noteq> e \<longrightarrow>
        ve_shadowed r \<and> (ve_availability r = Now \<longrightarrow> scope_rank (ve_scope e) \<le> scope_rank (ve_scope r)))
    \<and> (\<exists>g\<in>set es. variable_key g = variable_key e \<and> ve_availability g = Now)
    \<and> (agreed_availability es \<longrightarrow> ve_availability e = Now)"
proof -
  note shadowed = shadowed_iff [OF assms(1,2)]
  have row: "\<exists>r\<in>set es. d = mark_shadowed (winners_of es) r" if "d \<in> set catalog" for d
    using catalog_row [OF assms(1) that] assms(2) by (metis Inr_inject)
  have "\<exists>w. winners_of es (ve_name c) = Some w"
  proof (cases "ve_shadowed c")
    case True
    then show ?thesis using shadowed [OF assms(3,4)] by blast
  next
    case False
    with assms(4,5) row [OF assms(3)] obtain q where "q \<in> set es" "contends q" "ve_name q = ve_name c"
      by (auto simp: contends_def)
    with no_winner show ?thesis by (metis option.exhaust)
  qed
  then obtain w where w: "winners_of es (ve_name c) = Some w" ..
  obtain e where e: "e \<in> set catalog" "variable_key e = variable_key w"
    using catalog_covers [OF assms(1,2) winner(1) [OF w]] by blast
  then have k: "ve_scope e = ve_scope w" "ve_name e = ve_name c" "ve_scope e \<in> set precedence"
    using winner(2,3) [OF w] by (auto simp: variable_key_def contends_def)
  with shadowed [OF e(1) k(3)] w e(2) have open_e: "\<not> ve_shadowed e" by simp
  have only: "ve_shadowed r" if r: "r \<in> set catalog" "ve_name r = ve_name c" "ve_scope r \<in> set precedence" "r \<noteq> e" for r
  proof -
    have "variable_key r \<noteq> variable_key w"
      using r(1,4) e catalog_distinct [OF assms(1)] by (metis distinct_map inj_onD)
    with shadowed [OF r(1,3)] r(2) w show ?thesis by auto
  qed
  have before: "scope_rank (ve_scope e) \<le> scope_rank (ve_scope r)"
    if r: "r \<in> set catalog" "ve_name r = ve_name c" "ve_scope r \<in> set precedence" "ve_availability r = Now" for r
    using row [OF r(1)] winner(4) [OF w] r(2-4) k(1) by (auto simp: contends_def)
  have now: "ve_availability w = Now" using winner(2) [OF w] by (simp add: contends_def)
  have "agreed_availability es \<longrightarrow> ve_availability e = Now"
    using row [OF e(1)] winner(1) [OF w] e(2) now unfolding agreed_availability_def by fastforce
  then show ?thesis
    using e k open_e only before winner(1) [OF w] now by (intro bexI [OF _ e(1)]) auto
qed

section \<open>Order and later steps\<close>

text \<open>Available rows come before the others and each part is in the order of names; a variable has one row per scope and origin.\<close>

theorem catalog_sorted:
  assumes "build_variable_catalog parse_script locale_compare inp = Inr catalog"
    and "transp (\<lambda>a b. locale_compare a b \<le> 0)" and "\<And>a b. 0 < locale_compare a b \<Longrightarrow> locale_compare b a \<le> 0"
  shows "sorted_wrt (\<lambda>l r. ve_availability l = ve_availability r \<and> locale_compare (ve_name l) (ve_name r) \<le> 0
      \<or> ve_availability l = Now \<and> ve_availability r = Later) catalog
    \<and> distinct (map (\<lambda>e. (ve_scope e, ve_name e, ve_origin e)) catalog)"
proof
  let ?le = "\<lambda>l r. compare_entries locale_compare l r \<le> 0"
  have le: "?le l r \<longleftrightarrow> ve_availability l = ve_availability r \<and> locale_compare (ve_name l) (ve_name r) \<le> 0
      \<or> ve_availability l = Now \<and> ve_availability r = Later" for l r
    by (cases "ve_availability l"; cases "ve_availability r") (simp_all add: compare_entries_def)
  have trans: "transp ?le"
    unfolding le using assms(2) by (auto simp: transp_def)
  have total: "?le r l" if "0 < compare_entries locale_compare l r" for l r
    using that assms(3) by (cases "ve_availability l"; cases "ve_availability r") (auto simp: compare_entries_def)
  obtain es where "catalog = sort_by (compare_entries locale_compare) es"
    using assms(1) by (rule catalog_built)
  with sorted_sort_by [OF trans total]
  show "sorted_wrt (\<lambda>l r. ve_availability l = ve_availability r \<and> locale_compare (ve_name l) (ve_name r) \<le> 0
      \<or> ve_availability l = Now \<and> ve_availability r = Later) catalog"
    unfolding le by simp
  show "distinct (map (\<lambda>e. (ve_scope e, ve_name e, ve_origin e)) catalog)"
    using catalog_distinct [OF assms(1)] by (simp add: variable_key_def [abs_def])
qed

definition at_least_as_available :: "catalog_entry \<Rightarrow> catalog_entry \<Rightarrow> bool" where
  "at_least_as_available e e' \<longleftrightarrow>
     variable_key e' = variable_key e \<and> (ve_availability e = Now \<longrightarrow> ve_availability e' = Now)"

lemma pointwise_concat:
  "(\<And>x. x \<in> set xs \<Longrightarrow> list_all2 R (f x) (g x)) \<Longrightarrow> list_all2 R (concat (map f xs)) (concat (map g xs))"
  by (induction xs) (simp_all add: list_all2_appendI)

lemma pointwise_map_filter:
  "(\<And>x. rel_option R (f x) (g x)) \<Longrightarrow> list_all2 R (List.map_filter f xs) (List.map_filter g xs)"
proof (induction xs)
  case (Cons x xs)
  have "rel_option R (f x) (g x)" by (rule Cons.prems)
  then show ?case by (cases rule: option.rel_cases) (simp_all add: map_filter_simps Cons.IH Cons.prems)
qed (simp add: map_filter_simps)

lemma pointwise_refl [simp]: "list_all2 at_least_as_available es es"
  by (simp add: list_all2_refl at_least_as_available_def)

lemma step_entries_available:
  assumes "k \<le> k'"
  shows "list_all2 at_least_as_available (step_entries parse_script k p) (step_entries parse_script k' p)"
proof -
  obtain i step where p: "p = (i, step)" by (cases p)
  have actions: "list_all2 at_least_as_available (action_entries k i step) (action_entries k' i step)"
    unfolding action_entries_def
    by (rule pointwise_map_filter)
      (use assms in \<open>auto simp: at_least_as_available_def variable_key_def scoped_entry_def when_available_def Let_def\<close>)
  have scripts: "list_all2 at_least_as_available (pre_script_entries parse_script k i step) (pre_script_entries parse_script k' i step)"
    using assms by (auto simp: pre_script_entries_def list_all2_map1 list_all2_map2 at_least_as_available_def
        variable_key_def scoped_entry_def when_available_def intro!: list_all2_refl)
  have outputs: "list_all2 at_least_as_available (output_entries (i < k) step out) (output_entries (i < k') step out)" for out
    using assms by (auto simp: output_entries_def at_least_as_available_def variable_key_def scoped_entry_def
        when_available_def Let_def)
  show ?thesis
    unfolding p step_entries_def prod.case
    by (intro list_all2_appendI actions scripts pointwise_concat outputs)
qed

lemma gathered_available:
  assumes "k \<le> k'" "gathered_entries parse_script (inp\<lparr>cg_selected := k\<rparr>) = Inr es"
    "gathered_entries parse_script (inp\<lparr>cg_selected := k'\<rparr>) = Inr es'"
  shows "list_all2 at_least_as_available es es'"
proof -
  have "selected_environment (inp\<lparr>cg_selected := j\<rparr>) = selected_environment inp" for j
    by (simp add: selected_environment_def)
  with assms(2,3) show ?thesis
    by (auto simp: gathered_entries_def bindE_def split: sum.splits
        intro!: list_all2_appendI pointwise_concat step_entries_available [OF assms(1)])
qed

text \<open>Selecting a later step never makes a variable unavailable: a row available at one step is available, under the same scope, name and origin, at every later one.\<close>

theorem catalog_stays_available:
  assumes "k \<le> k'" "build_variable_catalog parse_script locale_compare (inp\<lparr>cg_selected := k\<rparr>) = Inr catalog"
    and "build_variable_catalog parse_script locale_compare (inp\<lparr>cg_selected := k'\<rparr>) = Inr later"
    and "e \<in> set catalog" "ve_availability e = Now"
  shows "\<exists>e'\<in>set later. ve_scope e' = ve_scope e \<and> ve_name e' = ve_name e \<and> ve_origin e' = ve_origin e
    \<and> ve_availability e' = Now"
proof -
  obtain es where es: "gathered_entries parse_script (inp\<lparr>cg_selected := k\<rparr>) = Inr es"
    and c: "catalog = sort_by (compare_entries locale_compare) (first_of_each (map (mark_shadowed (winners_of es)) es))"
    using assms(2) by (rule catalog_built)
  obtain es' where es': "gathered_entries parse_script (inp\<lparr>cg_selected := k'\<rparr>) = Inr es'"
    and c': "later = sort_by (compare_entries locale_compare) (first_of_each (map (mark_shadowed (winners_of es')) es'))"
    using assms(3) by (rule catalog_built)
  have p: "length es = length es'" "\<And>i. i < length es' \<Longrightarrow> at_least_as_available (es ! i) (es' ! i)"
    using gathered_available [OF assms(1) es es'] by (auto simp: list_all2_conv_all_nth)
  from assms(4) obtain i where i: "i < length es" "e = mark_shadowed (winners_of es) (es ! i)"
    "first_index (map (mark_shadowed (winners_of es)) es) i"
    by (auto simp: c set_first_of_each)
  let ?e' = "mark_shadowed (winners_of es') (es' ! i)"
  have "first_index (map (mark_shadowed (winners_of es')) es') i"
    using i p by (auto simp: first_index_def at_least_as_available_def)
  then have "?e' \<in> set later" using i p(1) by (force simp: c' set_first_of_each)
  moreover have "variable_key ?e' = variable_key e \<and> ve_availability ?e' = Now"
    using i p assms(5) by (auto simp: at_least_as_available_def)
  ultimately show ?thesis unfolding variable_key_def prod.inject by blast
qed

section \<open>A catalog\<close>

definition sample_input :: catalog_input where
  "sample_input = \<lparr>
     cg_definition = initial_definition,
     cg_selected = 0,
     cg_environments = [\<lparr>pf_id = js ''e'', pf_name = js ''Prod'',
       pf_config = [(js ''region'', JStr (js ''eu'')), (js ''variables'', JObj [(js ''token'', JStr (js ''t''))])]\<rparr>],
     cg_secrets = [\<lparr>pf_id = js ''s'', pf_name = js ''db'', pf_config = []\<rparr>],
     cg_environment = Some (js ''e''),
     cg_observed = [\<lparr>ob_name = js ''region'', ob_scope = Variables, ob_masked = False\<rparr>]\<rparr>"

definition length_compare :: "jsstr \<Rightarrow> jsstr \<Rightarrow> int" where
  "length_compare a b = int (length a) - int (length b)"

definition sample_catalog :: "catalog_entry list" where
  "sample_catalog = (case build_variable_catalog (\<lambda>_. None) length_compare sample_input of Inr c \<Rightarrow> c | Inl _ \<Rightarrow> [])"

lemma sample_built: "build_variable_catalog (\<lambda>_. None) length_compare sample_input = Inr sample_catalog"
proof -
  have "case build_variable_catalog (\<lambda>_. None) length_compare sample_input of Inr _ \<Rightarrow> True | Inl _ \<Rightarrow> False"
    by code_simp
  then show ?thesis by (auto simp: sample_catalog_def split: sum.splits)
qed


lemma sample_rows:
  "map (\<lambda>e. (ve_scope e, ve_preview e, ve_shadowed e)) sample_catalog =
     [(Secret, None, False), (Environment, None, False), (Dynamic, None, False), (Dynamic, None, False),
      (Environment, Some (js ''eu''), True), (Variables, None, False), (Dynamic, None, False),
      (Dynamic, None, False), (Dynamic, None, False)]"
  by code_simp

lemma sample_row: "i < 9 \<Longrightarrow> sample_catalog ! i \<in> set sample_catalog"
  using arg_cong [OF sample_rows, of length] by simp

lemma catalog_masks_secrets_witness:
  "\<exists>e\<in>set sample_catalog. ve_scope e = Secret \<and> ve_name e = js ''db'' \<and> ve_sensitive e \<and> ve_preview e = None"
  using catalog_masks_secrets [OF sample_built] by (auto simp: sample_input_def)

definition sample_gathered :: "catalog_entry list" where
  "sample_gathered = projr (gathered_entries (\<lambda>_. None) sample_input)"

lemma sample_gathered_eq: "gathered_entries (\<lambda>_. None) sample_input = Inr sample_gathered"
  using sample_built
  by (auto simp: build_variable_catalog_def bindE_def sample_gathered_def split: sum.splits)

lemma catalog_shadowing_witness:
  "\<exists>e\<in>set sample_catalog. ve_name e = js ''region'' \<and> \<not> ve_shadowed e \<and> e \<noteq> sample_catalog ! 4"
proof -
  have "ve_scope (sample_catalog ! 4) = Environment \<and> ve_shadowed (sample_catalog ! 4)
      \<and> ve_name (sample_catalog ! 4) = js ''region''" by code_simp
  with catalog_shadowing [OF sample_built sample_gathered_eq sample_row, of 4] show ?thesis
    by (auto simp: precedence_def)
qed

text \<open>
  A step whose action and whose request's action put out the same name: selecting the step, the
  catalog lists the variable as not yet available, although the request's action sets it first.
\<close>

definition output_action :: step_action where
  "output_action = \<lparr>ac_id = js ''a'', ac_enabled = True, ac_type = js ''set'', ac_output = js ''t'',
     ac_expression = [], ac_sensitive = False, ac_fields = None\<rparr>"

definition output_step :: step_definition where
  "output_step = initial_step\<lparr>st_actions := [output_action],
     st_request := (st_request initial_step)\<lparr>rq_pre_request := [output_action]\<rparr>\<rparr>"

lemma available_row_dropped:
  "case build_variable_catalog (\<lambda>_. None) length_compare
      (sample_input\<lparr>cg_definition := initial_definition\<lparr>rd_steps := [output_step]\<rparr>\<rparr>) of
     Inl _ \<Rightarrow> False
   | Inr catalog \<Rightarrow> map (\<lambda>e. (ve_availability e, ve_shadowed e)) (filter (\<lambda>e. ve_name e = js ''t'') catalog)
       = [(Later, False)]"
  by code_simp

lemma catalog_sorted_witness:
  "sorted_wrt (\<lambda>l r. ve_availability l = ve_availability r \<and> length_compare (ve_name l) (ve_name r) \<le> 0
      \<or> ve_availability l = Now \<and> ve_availability r = Later) sample_catalog"
  using catalog_sorted [OF sample_built] by (simp add: length_compare_def transp_def)

lemma catalog_stays_available_witness:
  "\<exists>e'\<in>set sample_catalog. ve_scope e' = Secret \<and> ve_availability e' = Now"
proof -
  have zero: "sample_input\<lparr>cg_selected := 0\<rparr> = sample_input" by (simp add: sample_input_def)
  have "build_variable_catalog (\<lambda>_. None) length_compare (sample_input\<lparr>cg_selected := 1\<rparr>) = Inr sample_catalog"
  proof -
    have "case build_variable_catalog (\<lambda>_. None) length_compare (sample_input\<lparr>cg_selected := 1\<rparr>) of
        Inr c \<Rightarrow> c = sample_catalog | Inl _ \<Rightarrow> False" by code_simp
    then show ?thesis by (auto split: sum.splits)
  qed
  moreover have "ve_scope (sample_catalog ! 0) = Secret \<and> ve_availability (sample_catalog ! 0) = Now" by code_simp
  ultimately show ?thesis
    using catalog_stays_available [of 0 1 "\<lambda>_. None" length_compare sample_input sample_catalog sample_catalog "sample_catalog ! 0"]
      sample_built sample_row [of 0] zero by auto
qed

text \<open>
  An action marked sensitive is listed as a variable that is not: the flag of the action is not read.
\<close>

lemma action_flag_ignored:
  "\<forall>e\<in>set (action_entries selected i step). \<not> ve_sensitive e"
  by (auto simp: action_entries_def map_filter_def scoped_entry_def Let_def split: if_splits)

end
