(* ===== verification/Script_Stores.thy ===== *)
theory Script_Stores
  imports Js_Uri Js_Regex Js_Result
begin

text \<open>
  The stores behind the variables of a script and the lists behind its request headers, from
  \<open>services/api/internal/scripts/runtime_bootstrap_v2.js\<close>. What the host answers when a script asks
  for a random or a current value, and the text of a function inherited from \<open>Object.prototype\<close>, are
  parameters.
\<close>

section \<open>Objects as stores\<close>

type_synonym object = "(jsstr \<times> jsval) list"

text \<open>Reading a key of a plain object: its own property, or one its prototype has.\<close>

datatype found = Own jsval | Inherited jsstr | Missing

definition prototype_keys :: "jsstr list" where
  "prototype_keys =
     [js ''constructor'', js ''__proto__'', js ''hasOwnProperty'', js ''isPrototypeOf'',
      js ''propertyIsEnumerable'', js ''toLocaleString'', js ''toString'', js ''valueOf'',
      js ''__defineGetter__'', js ''__defineSetter__'', js ''__lookupGetter__'', js ''__lookupSetter__'']"

definition owns_key :: "object \<Rightarrow> jsstr \<Rightarrow> bool" where
  "owns_key ps k \<longleftrightarrow> k \<in> set (map fst ps)"

definition read_key :: "object \<Rightarrow> jsstr \<Rightarrow> found" where
  "read_key ps k =
     (case map_of ps k of
        Some v \<Rightarrow> Own v
      | None \<Rightarrow> if k \<in> set prototype_keys then Inherited k else Missing)"

text \<open>
  Assigning a string, a number, an array or an object under a key. Storing under \<open>__proto__\<close>, unless
  the object has such a property of its own, reaches the setter of \<open>Object.prototype\<close>: it ignores a
  primitive value. (Objects stored there would become the prototype and leave no property either.)
\<close>

definition write_key :: "jsstr \<Rightarrow> jsval \<Rightarrow> object \<Rightarrow> object" where
  "write_key k v ps = (if k = js ''__proto__'' \<and> \<not> owns_key ps k then ps else obj_set k v ps)"

definition remove_key :: "jsstr \<Rightarrow> object \<Rightarrow> object" where
  "remove_key k ps = filter (\<lambda>p. fst p \<noteq> k) ps"

definition clone_value :: "jsval \<Rightarrow> jsval" where \<comment> \<open>\<open>JSON.parse(JSON.stringify(v))\<close>\<close>
  "clone_value v =
     (if nullish v then v else case json_parse (json_stringify 0 v) of Some w \<Rightarrow> w | None \<Rightarrow> JUndef)"

definition text_of :: "jsval \<Rightarrow> exn + jsstr" where \<comment> \<open>\<open>v == null ? "" : String(v)\<close>\<close>
  "text_of v = (if nullish v then Inr [] else to_string v)"

datatype store_id =
    VariablesStore | IterationStore | ServiceStore | ApplicationStore | EnvironmentStore
  | CollectionStore | GlobalsStore | CookiesStore | StateStore

type_synonym stores = "store_id \<Rightarrow> object"

definition store_key :: "store_id \<Rightarrow> string" where
  "store_key i =
     (case i of
        VariablesStore \<Rightarrow> ''variables''
      | ServiceStore \<Rightarrow> ''service''
      | ApplicationStore \<Rightarrow> ''application''
      | EnvironmentStore \<Rightarrow> ''environment''
      | CollectionStore \<Rightarrow> ''collection''
      | GlobalsStore \<Rightarrow> ''globals''
      | CookiesStore \<Rightarrow> ''cookies''
      | StateStore \<Rightarrow> ''state''
      | IterationStore \<Rightarrow> ''iterationData'')"

definition initial_stores :: "jsval \<Rightarrow> stores" where \<comment> \<open>the host passes objects\<close>
  "initial_stores initial i =
     (case clone_value (or_else (fld initial (store_key i)) (JObj [])) of JObj ps \<Rightarrow> ps | _ \<Rightarrow> [])"

section \<open>Templates\<close>

record script_host =
  ho_uuid :: "nat \<Rightarrow> jsstr"
  ho_now :: "nat \<Rightarrow> nat" \<comment> \<open>milliseconds\<close>
  ho_iso :: "nat \<Rightarrow> jsstr"
  ho_random :: "nat \<Rightarrow> rat" \<comment> \<open>at least 0 and less than 1\<close>
  ho_inherited :: "jsstr \<Rightarrow> jsstr" \<comment> \<open>\<open>String(f)\<close> of an inherited property\<close>

definition dynamic_var :: "script_host \<Rightarrow> nat \<Rightarrow> jsstr \<Rightarrow> jsstr option" where
  "dynamic_var host n key =
     (let name = trim key in
      if name = js ''$guid'' \<or> name = js ''$uuid'' then Some (ho_uuid host n)
      else if name = js ''$timestamp'' then Some (dec (ho_now host n div 1000))
      else if name = js ''$isoTimestamp'' then Some (ho_iso host n)
      else if name = js ''$randomInt'' then Some (num_to_str (num_floor (num_mul (Fin (ho_random host n)) (nnum 1000))))
      else None)"

definition braces_re :: re where
  "braces_re =
     seq_re [lit_re (js ''{{''), Star True space_re,
       Grp 1 (Seq (Cls True [(123, 123), (125, 125)]) (Star False (Cls True [(123, 123), (125, 125)]))),
       Star True space_re, lit_re (js ''}}'')]"

definition found_text :: "script_host \<Rightarrow> found \<Rightarrow> exn + jsstr" where
  "found_text host f =
     (case f of Own v \<Rightarrow> text_of v | Inherited k \<Rightarrow> Inr (ho_inherited host k) | Missing \<Rightarrow> Inr [])"

definition render_reference :: "script_host \<Rightarrow> (jsstr \<Rightarrow> found) \<Rightarrow> nat \<Rightarrow> jsstr \<Rightarrow> exn + jsstr" where
  "render_reference host resolve n key =
     (case dynamic_var host n key of
        Some v \<Rightarrow> Inr v
      | None \<Rightarrow> found_text host (resolve (trim key)))"

text \<open>The \<open>n\<close>-th reference of the text may get the host's \<open>n\<close>-th answer.\<close>

fun expand_references :: "script_host \<Rightarrow> (jsstr \<Rightarrow> found) \<Rightarrow> jsstr \<Rightarrow> nat \<Rightarrow> nat
    \<Rightarrow> (nat \<times> jsstr \<times> mstate) list \<Rightarrow> exn + jsstr" where
  "expand_references host resolve text cursor n [] = Inr (drop cursor text)"
| "expand_references host resolve text cursor n ((i, t, m) # ms) =
     bindE (render_reference host resolve n (case capture 1 m of Some k \<Rightarrow> k | None \<Rightarrow> [])) (\<lambda>v.
     bindE (expand_references host resolve text (i + length t) (Suc n) ms) (\<lambda>rest.
     Inr (take (i - cursor) (drop cursor text) @ v @ rest)))"

definition replace_in :: "script_host \<Rightarrow> (jsstr \<Rightarrow> found) \<Rightarrow> jsval \<Rightarrow> exn + jsstr" where
  "replace_in host resolve v =
     bindE (to_string v) (\<lambda>text. expand_references host resolve text 0 0 (match_all braces_re text))"

section \<open>One scope\<close>

definition blocked :: "string \<Rightarrow> exn" where
  "blocked m = ErrorMsg (js m)"

definition writable_or :: "bool \<Rightarrow> exn + 'a \<Rightarrow> exn + 'a" where
  "writable_or writable m = (if writable then m else Inl (blocked ''This variable scope is read-only.''))"

definition scope_has :: "jsval \<Rightarrow> object \<Rightarrow> exn + bool" where
  "scope_has key store = bindE (to_string key) (\<lambda>k. Inr (owns_key store k))"

definition scope_get :: "jsval \<Rightarrow> object \<Rightarrow> exn + found" where
  "scope_get key store = bindE (to_string key) (\<lambda>k. Inr (read_key store k))"

definition put_text :: "jsval \<Rightarrow> jsval \<Rightarrow> object \<Rightarrow> exn + object" where
  "put_text key v store =
     bindE (to_string key) (\<lambda>k. bindE (text_of v) (\<lambda>s. Inr (write_key k (JStr s) store)))"

definition drop_key :: "jsval \<Rightarrow> object \<Rightarrow> exn + object" where
  "drop_key key store = bindE (to_string key) (\<lambda>k. Inr (remove_key k store))"

definition scope_set :: "bool \<Rightarrow> jsval \<Rightarrow> jsval \<Rightarrow> object \<Rightarrow> exn + object" where
  "scope_set writable key v store = writable_or writable (put_text key v store)"

definition scope_unset :: "bool \<Rightarrow> jsval \<Rightarrow> object \<Rightarrow> exn + object" where
  "scope_unset writable key store = writable_or writable (drop_key key store)"

definition delete_all :: "object \<Rightarrow> object" where \<comment> \<open>\<open>for (const key of Object.keys(store)) delete store[key]\<close>\<close>
  "delete_all store = fold remove_key (map fst store) store"

definition scope_clear :: "bool \<Rightarrow> object \<Rightarrow> exn + object" where
  "scope_clear writable store = writable_or writable (Inr (delete_all store))"

definition scope_replace_in :: "script_host \<Rightarrow> object \<Rightarrow> jsval \<Rightarrow> exn + jsstr" where
  "scope_replace_in host store v = replace_in host (read_key store) v"

definition scope_to_object :: "object \<Rightarrow> jsval" where
  "scope_to_object store = clone_value (JObj store)"

section \<open>The resolved scope\<close>

definition explicit_re :: re where
  "explicit_re =
     seq_re [Bol, Grp 1 (alt_re [lit_re (js ''variables''), lit_re (js ''service''), lit_re (js ''application''),
         lit_re (js ''environment''), lit_re (js ''collection''), lit_re (js ''globals'')]),
       lit_re (js ''.''), Grp 2 (plus_re dot_re), Eol]"

definition store_named :: "jsstr \<Rightarrow> store_id option" where
  "store_named n =
     find (\<lambda>i. js (store_key i) = n)
       [VariablesStore, ServiceStore, ApplicationStore, EnvironmentStore, CollectionStore, GlobalsStore]"

definition explicit_scope :: "jsstr \<Rightarrow> (store_id \<times> jsstr) option" where
  "explicit_scope key =
     (case rexec explicit_re key of
        None \<Rightarrow> None
      | Some m \<Rightarrow>
          (case (capture 1 m, capture 2 m) of
             (Some n, Some k) \<Rightarrow> map_option (\<lambda>i. (i, k)) (store_named n)
           | _ \<Rightarrow> None))"

definition resolution_order :: "store_id list" where
  "resolution_order =
     [VariablesStore, IterationStore, ServiceStore, ApplicationStore, EnvironmentStore, CollectionStore, GlobalsStore]"

definition resolved_has_key :: "stores \<Rightarrow> jsstr \<Rightarrow> bool" where
  "resolved_has_key st key =
     (case explicit_scope key of
        Some (i, k) \<Rightarrow> owns_key (st i) k
      | None \<Rightarrow> list_ex (\<lambda>i. owns_key (st i) key) resolution_order)"

definition resolved_key :: "stores \<Rightarrow> jsstr \<Rightarrow> found" where
  "resolved_key st key =
     (case explicit_scope key of
        Some (i, k) \<Rightarrow> read_key (st i) k
      | None \<Rightarrow>
          (case find (\<lambda>i. owns_key (st i) key) resolution_order of
             Some i \<Rightarrow> read_key (st i) key
           | None \<Rightarrow> Missing))"

definition resolved_has :: "jsval \<Rightarrow> stores \<Rightarrow> exn + bool" where
  "resolved_has key st = bindE (to_string key) (\<lambda>k. Inr (resolved_has_key st k))"

definition resolved_get :: "jsval \<Rightarrow> stores \<Rightarrow> exn + found" where
  "resolved_get key st = bindE (to_string key) (\<lambda>k. Inr (resolved_key st k))"

definition resolved_set :: "jsval \<Rightarrow> jsval \<Rightarrow> stores \<Rightarrow> exn + stores" where
  "resolved_set key v st =
     bindE (put_text key v (st VariablesStore)) (\<lambda>vs. Inr (st(VariablesStore := vs)))"

definition resolved_unset :: "jsval \<Rightarrow> stores \<Rightarrow> exn + stores" where
  "resolved_unset key st =
     bindE (drop_key key (st VariablesStore)) (\<lambda>vs. Inr (st(VariablesStore := vs)))"

definition resolved_clear :: "stores \<Rightarrow> stores" where
  "resolved_clear st = st(VariablesStore := delete_all (st VariablesStore))"

definition resolved_replace_in :: "script_host \<Rightarrow> stores \<Rightarrow> jsval \<Rightarrow> exn + jsstr" where
  "resolved_replace_in host st v = replace_in host (resolved_key st) v"

definition assign_all :: "object \<Rightarrow> object \<Rightarrow> object" where \<comment> \<open>\<open>Object.assign(target, source)\<close>\<close>
  "assign_all source target = fold (\<lambda>(k, v). write_key k v) source target"

definition resolved_to_object :: "stores \<Rightarrow> object" where
  "resolved_to_object st = fold (\<lambda>i. assign_all (st i)) (rev resolution_order) []"

section \<open>Cookies\<close>

definition set_cookie :: "jsval \<Rightarrow> jsval \<Rightarrow> stores \<Rightarrow> exn + stores" where
  "set_cookie name v st = bindE (put_text name v (st CookiesStore)) (\<lambda>cs. Inr (st(CookiesStore := cs)))"

definition unset_cookie :: "jsval \<Rightarrow> stores \<Rightarrow> exn + stores" where
  "unset_cookie name st = bindE (drop_key name (st CookiesStore)) (\<lambda>cs. Inr (st(CookiesStore := cs)))"

definition clear_cookies :: "stores \<Rightarrow> stores" where
  "clear_cookies st = st(CookiesStore := delete_all (st CookiesStore))"

definition jar_set :: "jsval \<Rightarrow> stores \<Rightarrow> exn + stores" where \<comment> \<open>\<open>jar().set\<close>: the error reaches the callback or the promise\<close>
  "jar_set cookie st =
     bindE (to_string (coalesce (coalesce (fld cookie ''name'') (fld cookie ''key'')) (JStr []))) (\<lambda>name.
     if name = [] then Inl (ErrorMsg (js ''Cookie name is required.''))
     else bindE (to_string (coalesce (fld cookie ''value'') (JStr []))) (\<lambda>v.
       Inr (st(CookiesStore := write_key name (JStr v) (st CookiesStore)))))"

section \<open>Lists of headers and parameters\<close>

record list_entry =
  le_key :: jsstr
  le_value :: jsstr
  le_sensitive :: bool
  le_disabled :: bool

definition entry_of :: "jsval \<Rightarrow> exn + list_entry" where
  "entry_of item =
     bindE (to_string (coalesce (coalesce (fld item ''key'') (fld item ''name'')) (JStr []))) (\<lambda>k.
     bindE (to_string (coalesce (fld item ''value'') (JStr []))) (\<lambda>v.
     Inr \<lparr>le_key = k, le_value = v, le_sensitive = truthy (fld item ''sensitive''),
          le_disabled = truthy (fld item ''disabled'')\<rparr>))"

definition keyed :: "jsstr \<Rightarrow> list_entry \<Rightarrow> bool" where
  "keyed k e \<longleftrightarrow> to_lower (le_key e) = to_lower k"

definition list_add :: "jsval \<Rightarrow> list_entry list \<Rightarrow> exn + list_entry list" where
  "list_add item es = bindE (entry_of item) (\<lambda>e. Inr (es @ [e]))"

fun replace_first :: "('a \<Rightarrow> bool) \<Rightarrow> 'a \<Rightarrow> 'a list \<Rightarrow> 'a list" where
  "replace_first p y [] = []"
| "replace_first p y (x # xs) = (if p x then y # xs else x # replace_first p y xs)"

definition upsert_entry :: "list_entry \<Rightarrow> list_entry list \<Rightarrow> list_entry list" where
  "upsert_entry e es = (if list_ex (keyed (le_key e)) es then replace_first (keyed (le_key e)) e es else es @ [e])"

definition list_upsert :: "jsval \<Rightarrow> list_entry list \<Rightarrow> exn + list_entry list" where
  "list_upsert item es = bindE (entry_of item) (\<lambda>e. Inr (upsert_entry e es))"

definition list_set :: "jsval \<Rightarrow> jsval \<Rightarrow> list_entry list \<Rightarrow> exn + list_entry list" where
  "list_set name v es =
     (if is_object name then list_upsert name es
      else bindE (to_string name) (\<lambda>k. bindE (to_string (coalesce v (JStr []))) (\<lambda>s.
        list_upsert (JObj [(js ''key'', JStr k), (js ''value'', JStr s)]) es)))"

definition remove_entries :: "jsstr \<Rightarrow> list_entry list \<Rightarrow> list_entry list" where
  "remove_entries k es = filter (\<lambda>e. \<not> keyed k e) es"

definition list_remove :: "jsval \<Rightarrow> list_entry list \<Rightarrow> exn + list_entry list" where
  "list_remove key es = bindE (to_string key) (\<lambda>k. Inr (remove_entries k es))"

definition entry_value :: "list_entry list \<Rightarrow> jsstr \<Rightarrow> jsstr option" where
  "entry_value es k = map_option le_value (find (keyed k) es)"

definition list_get :: "jsval \<Rightarrow> list_entry list \<Rightarrow> exn + jsstr option" where
  "list_get key es = (if es = [] then Inr None else bindE (to_string key) (\<lambda>k. Inr (entry_value es k)))"

definition list_has :: "jsval \<Rightarrow> list_entry list \<Rightarrow> exn + bool" where
  "list_has key es = (if es = [] then Inr False else bindE (to_string key) (\<lambda>k. Inr (list_ex (keyed k) es)))"

definition list_to_object :: "list_entry list \<Rightarrow> (jsstr \<times> jsstr) list" where
  "list_to_object es = from_entries (map (\<lambda>e. (le_key e, le_value e)) (filter (\<lambda>e. \<not> le_disabled e) es))"

end
