(* ===== verification/Script_Facts.thy ===== *)
theory Script_Facts
  imports Script_Stores
begin

text \<open>
  What a script relies on of its stores: the last write wins, whatever was called before it; the
  resolved scope agrees with the object it converts to; the scope of the iteration data cannot be
  written.
\<close>

section \<open>The interface of a keyed store\<close>

text \<open>
  Scopes, cookies and header lists offer the same contract: storing under a key determines what
  every key equal to it up to \<open>canon\<close> reads as, deleting and clearing likewise.
\<close>

datatype ('k, 'v) store_call = Put 'k 'v | Delete 'k | Clear

fun last_call :: "('k \<Rightarrow> 'n) \<Rightarrow> 'n \<Rightarrow> ('k, 'v) store_call list \<Rightarrow> 'v option option" where
  "last_call canon n [] = None"
| "last_call canon n (c # cs) =
     (case last_call canon n cs of
        Some r \<Rightarrow> Some r
      | None \<Rightarrow>
          (case c of
             Put k v \<Rightarrow> if canon k = n then Some (Some v) else None
           | Delete k \<Rightarrow> if canon k = n then Some None else None
           | Clear \<Rightarrow> Some None))"

locale key_lookup =
  fixes put :: "'k \<Rightarrow> 'v \<Rightarrow> 's \<Rightarrow> 's"
    and remove :: "'k \<Rightarrow> 's \<Rightarrow> 's"
    and lookup :: "'s \<Rightarrow> 'k \<Rightarrow> 'v option"
    and canon :: "'k \<Rightarrow> 'n"
    and usable :: "'k \<Rightarrow> bool"
  assumes lookup_put: "usable k \<Longrightarrow> lookup (put k v s) k' = (if canon k' = canon k then Some v else lookup s k')"
    and lookup_remove: "lookup (remove k s) k' = (if canon k' = canon k then None else lookup s k')"
begin

lemma put_then_lookup: "usable k \<Longrightarrow> lookup (put k v s) k = Some v"
  by (simp add: lookup_put)

lemma remove_then_lookup: "lookup (remove k s) k = None"
  by (simp add: lookup_remove)

lemma last_put: "usable k \<Longrightarrow> lookup (put k w (put k v s)) = lookup (put k w s)"
  by (simp add: lookup_put fun_eq_iff)

end

text \<open>A store that can be cleared as well: after any calls the last one decides.\<close>

locale keyed_access = key_lookup put remove lookup canon usable
  for put :: "'k \<Rightarrow> 'v \<Rightarrow> 's \<Rightarrow> 's"
    and remove :: "'k \<Rightarrow> 's \<Rightarrow> 's"
    and lookup :: "'s \<Rightarrow> 'k \<Rightarrow> 'v option"
    and canon :: "'k \<Rightarrow> 'n"
    and usable :: "'k \<Rightarrow> bool" +
  fixes cleared :: "'s \<Rightarrow> 's"
  assumes lookup_cleared: "lookup (cleared s) k' = None"
begin

fun perform :: "('k, 'v) store_call \<Rightarrow> 's \<Rightarrow> 's" where
  "perform (Put k v) s = put k v s"
| "perform (Delete k) s = remove k s"
| "perform Clear s = cleared s"

definition usable_calls :: "('k, 'v) store_call list \<Rightarrow> bool" where
  "usable_calls cs \<longleftrightarrow> (\<forall>k v. Put k v \<in> set cs \<longrightarrow> usable k)"

lemma last_write:
  "usable_calls cs \<Longrightarrow>
   lookup (fold perform cs s) k = (case last_call canon (canon k) cs of Some r \<Rightarrow> r | None \<Rightarrow> lookup s k)"
proof (induction cs arbitrary: s)
  case (Cons c cs)
  then have "usable_calls cs" and put: "\<And>k v. c = Put k v \<Longrightarrow> usable k" by (simp_all add: usable_calls_def)
  then have rest: "lookup (fold perform cs s) k = (case last_call canon (canon k) cs of Some r \<Rightarrow> r | None \<Rightarrow> lookup s k)" for s
    by (intro Cons.IH)
  show ?case
    by (cases c) (simp_all add: rest put lookup_put lookup_remove lookup_cleared split: option.split)
qed simp

end

section \<open>Stores\<close>

lemma delete_all [simp]: "delete_all ps = []"
proof -
  have "fold remove_key ks ps = filter (\<lambda>p. fst p \<notin> set ks) ps" for ks ps
    by (induction ks arbitrary: ps) (auto simp: remove_key_def conj_commute intro: filter_cong)
  then show ?thesis by (simp add: delete_all_def filter_empty_conv)
qed

lemma map_of_remove_key: "map_of (remove_key k ps) k' = (if k' = k then None else map_of ps k')"
  by (induction ps) (auto simp: remove_key_def)

lemma map_of_write_key:
  "k \<noteq> js ''__proto__'' \<Longrightarrow> map_of (write_key k v ps) k' = (if k' = k then Some v else map_of ps k')"
  by (simp add: write_key_def)

interpretation store: keyed_access write_key remove_key map_of id "\<lambda>k. k \<noteq> js ''__proto__''" delete_all
  by unfold_locales (simp_all add: map_of_write_key map_of_remove_key)

section \<open>Lists\<close>

lemma find_replace_first:
  assumes "list_ex p xs" "p y"
  shows "find p (replace_first p y xs) = Some y"
  using assms by (induction xs) auto

lemma find_replace_other:
  assumes "\<And>x. p x \<Longrightarrow> \<not> q x" "\<not> q y"
  shows "find q (replace_first p y xs) = find q xs"
  using assms by (induction xs) auto

lemma find_filter_other: "(\<And>x. q x \<Longrightarrow> p x) \<Longrightarrow> find q (filter p xs) = find q xs"
  by (induction xs) auto

lemma entry_value_upsert:
  "entry_value (upsert_entry e es) k =
     (if to_lower k = to_lower (le_key e) then Some (le_value e) else entry_value es k)"
proof (cases "to_lower k = to_lower (le_key e)")
  case True
  then have k: "keyed k = keyed (le_key e)" by (simp add: keyed_def fun_eq_iff)
  have e: "keyed (le_key e) e" by (simp add: keyed_def)
  show ?thesis
  proof (cases "list_ex (keyed (le_key e)) es")
    case False
    then have "find (keyed (le_key e)) es = None" by (simp add: find_None_iff list_ex_iff)
    then have "find (keyed (le_key e)) (es @ [e]) = Some e" using e by (induction es) (auto split: if_splits)
    with False True show ?thesis by (simp add: entry_value_def upsert_entry_def k)
  qed (simp add: entry_value_def upsert_entry_def k True find_replace_first e)
next
  case False
  have "find (keyed k) (es @ [e]) = find (keyed k) es" using False by (induction es) (auto simp: keyed_def)
  moreover have "find (keyed k) (replace_first (keyed (le_key e)) e es) = find (keyed k) es"
    by (rule find_replace_other) (use False in \<open>auto simp: keyed_def\<close>)
  ultimately show ?thesis using False by (simp add: entry_value_def upsert_entry_def)
qed

definition plain_entry :: "jsstr \<Rightarrow> jsstr \<Rightarrow> list_entry" where
  "plain_entry k v = \<lparr>le_key = k, le_value = v, le_sensitive = False, le_disabled = False\<rparr>"

lemma entry_value_remove:
  "entry_value (remove_entries k es) k' = (if to_lower k' = to_lower k then None else entry_value es k')"
proof (cases "to_lower k' = to_lower k")
  case True
  then have "find (keyed k') (filter (\<lambda>e. \<not> keyed k e) es) = None" by (auto simp: find_None_iff keyed_def)
  with True show ?thesis by (simp add: entry_value_def remove_entries_def)
next
  case False
  then have "find (keyed k') (filter (\<lambda>e. \<not> keyed k e) es) = find (keyed k') es"
    by (intro find_filter_other) (auto simp: keyed_def)
  with False show ?thesis by (simp add: entry_value_def remove_entries_def)
qed

interpretation headers: keyed_access "\<lambda>k v. upsert_entry (plain_entry k v)" remove_entries entry_value
    to_lower "\<lambda>_. True" "\<lambda>_. []"
proof unfold_locales
  show "entry_value [] k = None" for k by (simp add: entry_value_def)
qed (simp_all add: entry_value_upsert entry_value_remove plain_entry_def)

section \<open>Calls of a script\<close>

datatype scope_call = SetCall jsval jsval | UnsetCall jsval | ClearCall

fun scope_step :: "bool \<Rightarrow> scope_call \<Rightarrow> object \<Rightarrow> exn + object" where
  "scope_step writable (SetCall key v) store = scope_set writable key v store"
| "scope_step writable (UnsetCall key) store = scope_unset writable key store"
| "scope_step writable ClearCall store = scope_clear writable store"

fun run_scope :: "bool \<Rightarrow> scope_call list \<Rightarrow> object \<Rightarrow> exn + object" where
  "run_scope writable [] store = Inr store"
| "run_scope writable (c # cs) store = bindE (scope_step writable c store) (run_scope writable cs)"

definition shown :: "exn + jsstr \<Rightarrow> jsstr" where \<comment> \<open>of a conversion that succeeded\<close>
  "shown m = (case m of Inr s \<Rightarrow> s | Inl _ \<Rightarrow> [])"

fun scope_effect :: "scope_call \<Rightarrow> (jsstr, jsval) store_call" where
  "scope_effect (SetCall key v) = Put (shown (to_string key)) (JStr (shown (text_of v)))"
| "scope_effect (UnsetCall key) = Delete (shown (to_string key))"
| "scope_effect ClearCall = Clear"

lemma scope_step_effect:
  assumes "scope_step True c s = Inr s'"
  shows "s' = store.perform (scope_effect c) s"
  using assms by (cases c) (auto simp: scope_set_def scope_unset_def scope_clear_def writable_or_def put_text_def
      drop_key_def bindE_def shown_def split: sum.splits)

lemma run_scope_effect: "run_scope True cs s = Inr s' \<Longrightarrow> s' = fold store.perform (map scope_effect cs) s"
  by (induction cs arbitrary: s) (auto simp: bindE_def split: sum.splits dest: scope_step_effect)

definition key_found :: "jsstr \<Rightarrow> jsval option \<Rightarrow> found" where
  "key_found k r =
     (case r of Some v \<Rightarrow> Own v | None \<Rightarrow> if k \<in> set prototype_keys then Inherited k else Missing)"

lemma read_key_found: "read_key ps k = key_found k (map_of ps k)"
  by (simp add: read_key_def key_found_def)

text \<open>After any calls on a writable scope a key reads as the last call that concerned it left it, and as before if none did; a read-only scope refuses every call.\<close>

theorem scope_last_write:
  assumes "run_scope True calls store = Inr store'"
    and "\<And>key v. SetCall key v \<in> set calls \<Longrightarrow> to_string key \<noteq> Inr (js ''__proto__'')"
  shows "scope_get (JStr k) store' = Inr (case last_call id k (map scope_effect calls) of
        Some r \<Rightarrow> key_found k r
      | None \<Rightarrow> read_key store k)
    \<and> (calls \<noteq> [] \<longrightarrow> run_scope False calls store = Inl (ErrorMsg (js ''This variable scope is read-only.'')))"
proof
  have converted: "to_string key = Inr (shown (to_string key))" if "SetCall key v \<in> set calls" for key v
    using assms(1) that
  proof (induction calls arbitrary: store)
    case (Cons c cs)
    then obtain s where "scope_step True c store = Inr s" "run_scope True cs s = Inr store'"
      by (auto simp: bindE_def split: sum.splits)
    with Cons show ?case
      by (auto simp: scope_set_def writable_or_def put_text_def bindE_def shown_def split: sum.splits)
  qed simp
  have "store.usable_calls (map scope_effect calls)"
  proof -
    have "k \<noteq> js ''__proto__''" if effect: "Put k v = scope_effect c" "c \<in> set calls" for k v c
    proof (cases c)
      case (SetCall key w)
      with effect(2) have "to_string key = Inr (shown (to_string key))" "to_string key \<noteq> Inr (js ''__proto__'')"
        using converted assms(2) by blast+
      with effect(1) SetCall show ?thesis by auto
    qed (use effect in auto)
    then show ?thesis by (auto simp: store.usable_calls_def)
  qed
  from store.last_write [OF this, of store k] run_scope_effect [OF assms(1)]
  show "scope_get (JStr k) store' = Inr (case last_call id k (map scope_effect calls) of
        Some r \<Rightarrow> key_found k r | None \<Rightarrow> read_key store k)"
    by (simp add: scope_get_def bindE_def read_key_found split: option.splits)
  show "calls \<noteq> [] \<longrightarrow> run_scope False calls store = Inl (ErrorMsg (js ''This variable scope is read-only.''))"
  proof
    assume "calls \<noteq> []"
    then obtain c cs where "calls = c # cs" by (cases calls) auto
    then show "run_scope False calls store = Inl (ErrorMsg (js ''This variable scope is read-only.''))"
      by (cases c) (simp_all add: scope_set_def scope_unset_def scope_clear_def writable_or_def blocked_def bindE_def)
  qed
qed

lemma scope_last_write_witness:
  "\<exists>store'. run_scope True [SetCall (JStr (js ''a'')) (JBool True), SetCall (JStr (js ''b'')) JNull,
      UnsetCall (JStr (js ''a''))] [] = Inr store'
    \<and> scope_get (JStr (js ''b'')) store' = Inr (Own (JStr []))
    \<and> scope_get (JStr (js ''a'')) store' = Inr Missing"
proof -
  define calls where "calls = [SetCall (JStr (js ''a'')) (JBool True), SetCall (JStr (js ''b'')) JNull, UnsetCall (JStr (js ''a''))]"
  have run: "run_scope True calls [] = Inr [(js ''b'', JStr [])]" unfolding calls_def by code_simp
  have safe: "to_string key \<noteq> Inr (js ''__proto__'')" if "SetCall key v \<in> set calls" for key v
    using that by (auto simp: calls_def)
  have ends: "last_call id (js ''b'') (map scope_effect calls) = Some (Some (JStr []))"
    "last_call id (js ''a'') (map scope_effect calls) = Some None"
    unfolding calls_def by code_simp+
  have "key_found (js ''b'') (Some (JStr [])) = Own (JStr [])" "key_found (js ''a'') None = Missing" by code_simp+
  then show ?thesis
    using scope_last_write [OF run safe, where k = "js ''b''"] scope_last_write [OF run safe, where k = "js ''a''"] run
    unfolding ends calls_def [symmetric] by simp
qed

text \<open>The same for the headers of the request, whose names are compared without regard to case.\<close>

datatype list_call = SetEntry jsstr jsstr | RemoveEntry jsstr | ClearList

fun list_step :: "list_call \<Rightarrow> list_entry list \<Rightarrow> exn + list_entry list" where
  "list_step (SetEntry k v) es = list_set (JStr k) (JStr v) es"
| "list_step (RemoveEntry k) es = list_remove (JStr k) es"
| "list_step ClearList es = Inr []"

fun run_list :: "list_call list \<Rightarrow> list_entry list \<Rightarrow> exn + list_entry list" where
  "run_list [] es = Inr es"
| "run_list (c # cs) es = bindE (list_step c es) (run_list cs)"

fun list_effect :: "list_call \<Rightarrow> (jsstr, jsstr) store_call" where
  "list_effect (SetEntry k v) = Put k v"
| "list_effect (RemoveEntry k) = Delete k"
| "list_effect ClearList = Clear"

lemma list_set_strings [simp]: "list_set (JStr k) (JStr v) es = Inr (upsert_entry (plain_entry k v) es)"
  by (simp add: list_set_def is_object_def bindE_def list_upsert_def entry_of_def plain_entry_def)

lemma list_step_effect: "list_step c es = Inr (headers.perform (list_effect c) es)"
  by (cases c) (simp_all add: list_remove_def bindE_def)

lemma run_list_effect: "run_list cs es = Inr (fold headers.perform (map list_effect cs) es)"
  by (induction cs arbitrary: es) (simp_all add: list_step_effect bindE_def)

lemma list_get_string: "list_get (JStr k) es = Inr (entry_value es k)"
  by (simp add: list_get_def entry_value_def bindE_def)

text \<open>Whatever headers the request had, setting and removing headers always succeeds, and afterwards a name in any case reads as the last call on it left it.\<close>

theorem headers_last_write:
  "\<exists>es'. run_list calls es = Inr es'
    \<and> list_get (JStr k) es' = (case last_call to_lower (to_lower k) (map list_effect calls) of
        Some r \<Rightarrow> Inr r
      | None \<Rightarrow> list_get (JStr k) es)
    \<and> list_has (JStr k) es' = Inr (list_get (JStr k) es' \<noteq> Inr None)"
proof -
  have "headers.usable_calls (map list_effect calls)" by (simp add: headers.usable_calls_def)
  from headers.last_write [OF this, of es k]
  have "entry_value (fold headers.perform (map list_effect calls) es) k =
      (case last_call to_lower (to_lower k) (map list_effect calls) of Some r \<Rightarrow> r | None \<Rightarrow> entry_value es k)" .
  moreover have "list_has (JStr k) xs = Inr (list_get (JStr k) xs \<noteq> Inr None)" for xs
    by (auto simp: list_has_def list_get_string bindE_def entry_value_def find_None_iff list_ex_iff)
  ultimately show ?thesis
    by (auto simp: run_list_effect list_get_string split: option.splits)
qed

section \<open>The resolved scope\<close>

lemma map_of_assign_all:
  "k \<noteq> js ''__proto__'' \<Longrightarrow> map_of (assign_all source target) k = (case map_of (rev source) k of Some v \<Rightarrow> Some v | None \<Rightarrow> map_of target k)"
proof (induction source arbitrary: target)
  case (Cons p source)
  obtain k' v where p: "p = (k', v)" by (cases p)
  have "map_of (write_key k' v target) k = (if k = k' then Some v else map_of target k)"
    using Cons.prems by (auto simp: write_key_def)
  with Cons show ?case
    by (auto simp: p assign_all_def map_add_def split: option.splits)
qed (simp add: assign_all_def)

text \<open>The host builds its objects with distinct keys.\<close>

definition distinct_stores :: "stores \<Rightarrow> bool" where
  "distinct_stores st \<longleftrightarrow> (\<forall>i. distinct (map fst (st i)))"

text \<open>For a key without the prefix of a scope the resolved scope reads what the object it converts to holds: the value of the first store, in the order of resolution, that has the key.\<close>

theorem resolved_agrees:
  assumes "distinct_stores st" "explicit_scope k = None" "k \<noteq> js ''__proto__''"
  shows "resolved_key st k = (case map_of (resolved_to_object st) k of Some v \<Rightarrow> Own v | None \<Rightarrow> Missing)
    \<and> (resolved_has_key st k \<longleftrightarrow> map_of (resolved_to_object st) k \<noteq> None)"
proof -
  have own: "map_of (rev (st i)) = map_of (st i)" for i
    using assms(1) by (simp add: distinct_stores_def map_of_rev_distinct)
  have lookup: "map_of (fold (\<lambda>i. assign_all (st i)) is []) k =
      (case find (\<lambda>i. owns_key (st i) k) (rev is) of Some i \<Rightarrow> map_of (st i) k | None \<Rightarrow> None)" for "is"
  proof (induction "is" rule: rev_induct)
    case (snoc i "is")
    have "owns_key (st i) k \<longleftrightarrow> map_of (st i) k \<noteq> None"
      by (simp add: owns_key_def map_of_eq_None_iff)
    then show ?case
      by (auto simp: snoc map_of_assign_all [OF assms(3)] own split: option.splits)
  qed simp
  have obj: "map_of (resolved_to_object st) k =
      (case find (\<lambda>i. owns_key (st i) k) resolution_order of Some i \<Rightarrow> map_of (st i) k | None \<Rightarrow> None)"
    by (simp add: resolved_to_object_def lookup)
  show ?thesis
  proof (cases "find (\<lambda>i. owns_key (st i) k) resolution_order")
    case None
    then show ?thesis
      by (simp add: obj resolved_key_def resolved_has_key_def assms(2)) (simp add: find_None_iff list_ex_iff)
  next
    case (Some i)
    then have i: "i \<in> set resolution_order" "owns_key (st i) k" by (auto simp: find_Some_iff)
    then obtain v where v: "map_of (st i) k = Some v"
      by (metis owns_key_def map_of_eq_None_iff not_Some_eq set_map)
    have "list_ex (\<lambda>i. owns_key (st i) k) resolution_order" using i by (auto simp: list_ex_iff)
    with Some v show ?thesis
      by (simp add: obj resolved_key_def resolved_has_key_def assms(2) read_key_def)
  qed
qed

lemma resolved_agrees_witness:
  "\<exists>st. distinct_stores st \<and> st ServiceStore \<noteq> [] \<and> resolved_key st (js ''a'') = Own (JStr (js ''service''))
    \<and> map_of (resolved_to_object st) (js ''a'') = Some (JStr (js ''service''))"
proof -
  let ?st = "(\<lambda>_. [])(EnvironmentStore := [(js ''a'', JStr (js ''environment''))],
    ServiceStore := [(js ''a'', JStr (js ''service''))]) :: stores"
  have "distinct_stores ?st" by (simp add: distinct_stores_def)
  moreover have "explicit_scope (js ''a'') = None"
    and r: "resolved_key ?st (js ''a'') = Own (JStr (js ''service''))" by code_simp+
  moreover have "js ''a'' \<noteq> js ''__proto__''" by simp
  ultimately have "resolved_key ?st (js ''a'') = (case map_of (resolved_to_object ?st) (js ''a'') of Some v \<Rightarrow> Own v | None \<Rightarrow> Missing)"
    using resolved_agrees by blast
  with r have "map_of (resolved_to_object ?st) (js ''a'') = Some (JStr (js ''service''))"
    by (simp split: option.splits)
  with r \<open>distinct_stores ?st\<close> show ?thesis by (intro exI [of _ ?st]) simp
qed

lemma owns_key_map_of: "owns_key ps k \<longleftrightarrow> map_of ps k \<noteq> None"
  by (simp add: owns_key_def map_of_eq_None_iff)

lemma resolved_key_cong:
  assumes "\<And>i. i \<noteq> VariablesStore \<Longrightarrow> st' i = st i"
    and "\<And>k. k \<noteq> w \<Longrightarrow> map_of (st' VariablesStore) k = map_of (st VariablesStore) k"
    and "k \<noteq> w" "explicit_scope k \<noteq> Some (VariablesStore, w)"
  shows "resolved_key st' k = resolved_key st k"
proof -
  have eq: "map_of (st' i) k = map_of (st i) k" for i
    using assms(1-3) by (cases "i = VariablesStore") simp_all
  then have find: "find (\<lambda>i. owns_key (st' i) k) is = find (\<lambda>i. owns_key (st i) k) is" for "is"
    by (simp add: owns_key_map_of)
  have "read_key (st' i) k' = read_key (st i) k'" if "explicit_scope k = Some (i, k')" for i k'
    using that assms(1,2,4) by (cases "i = VariablesStore") (auto simp: read_key_def)
  then show ?thesis
    by (auto simp: resolved_key_def find read_key_def eq split: option.splits)
qed

text \<open>A variable that is set reads back as its text, no other store changes, and no other name reads differently but the one that spells out the variable's scope.\<close>

theorem resolved_set_read:
  assumes "resolved_set (JStr k) v st = Inr st'" "explicit_scope k = None" "k \<noteq> js ''__proto__''"
  shows "text_of v = Inr (shown (text_of v)) \<and> resolved_key st' k = Own (JStr (shown (text_of v)))
    \<and> (\<forall>i. i \<noteq> VariablesStore \<longrightarrow> st' i = st i)
    \<and> (\<forall>k'. k' \<noteq> k \<and> explicit_scope k' \<noteq> Some (VariablesStore, k) \<longrightarrow> resolved_key st' k' = resolved_key st k')"
proof -
  obtain s where s: "text_of v = Inr s" and st': "st' = st(VariablesStore := write_key k (JStr s) (st VariablesStore))"
    using assms(1) by (auto simp: resolved_set_def put_text_def bindE_def split: sum.splits)
  have m: "map_of (st' VariablesStore) k' = (if k' = k then Some (JStr s) else map_of (st VariablesStore) k')" for k'
    using assms(3) by (simp add: st' map_of_write_key)
  have "owns_key (st' VariablesStore) k" "read_key (st' VariablesStore) k = Own (JStr s)"
    using m [of k] by (simp_all add: owns_key_map_of read_key_def)
  then have "resolved_key st' k = Own (JStr s)"
    by (simp add: resolved_key_def assms(2) resolution_order_def)
  moreover have "resolved_key st' k' = resolved_key st k'"
    if "k' \<noteq> k" "explicit_scope k' \<noteq> Some (VariablesStore, k)" for k'
    by (rule resolved_key_cong [of st' st k]) (use that m st' in auto)
  ultimately show ?thesis by (simp add: s shown_def st')
qed

lemma resolved_set_read_witness:
  "\<exists>st'. resolved_set (JStr (js ''a'')) (JBool True) (\<lambda>_. []) = Inr st' \<and> resolved_key st' (js ''a'') = Own (JStr (js ''true''))"
proof -
  obtain st' where st': "resolved_set (JStr (js ''a'')) (JBool True) (\<lambda>_. []) = Inr st'"
    by (simp add: resolved_set_def put_text_def text_of_def bindE_def)
  have "explicit_scope (js ''a'') = None" by code_simp
  with resolved_set_read [OF st'] st' show ?thesis by (auto simp: text_of_def shown_def)
qed

text \<open>
  A name that spells out a scope is read from that scope but written to the variables, where it
  cannot be read: what was set is not found.
\<close>

lemma explicit_set_lost:
  "\<exists>st'. resolved_set (JStr (js ''environment.a'')) (JStr (js ''v'')) (\<lambda>_. []) = Inr st'
    \<and> resolved_get (JStr (js ''environment.a'')) st' = Inr Missing"
  by (simp add: resolved_set_def put_text_def text_of_def bindE_def resolved_get_def) code_simp

end
