(* ===== verification/Catalog_Runtime.thy ===== *)
theory Catalog_Runtime
  imports Catalog_Facts Script_Facts
begin

text \<open>
  The catalog against the runtime: the row the catalog shows as the one in force is the variable
  the runtime reads, as long as no scope is involved that the catalog's order of precedence leaves out.
\<close>

definition store_of :: "variable_scope \<Rightarrow> store_id" where
  "store_of s =
     (case s of
        Environment \<Rightarrow> EnvironmentStore
      | Service \<Rightarrow> ServiceStore
      | Application \<Rightarrow> ApplicationStore
      | Collection \<Rightarrow> CollectionStore
      | Globals \<Rightarrow> GlobalsStore
      | _ \<Rightarrow> VariablesStore)"

text \<open>The stores hold a name in a scope exactly if the catalog lists it as available there.\<close>

definition stores_match :: "catalog_entry list \<Rightarrow> jsstr \<Rightarrow> stores \<Rightarrow> bool" where
  "stores_match catalog n st \<longleftrightarrow>
     (\<forall>s\<in>{Variables, Environment, Service, Application, Collection, Globals}.
        owns_key (st (store_of s)) n \<longleftrightarrow>
          (\<exists>c\<in>set catalog. ve_scope c = s \<and> ve_name c = n \<and> ve_availability c = Now))
     \<and> \<not> owns_key (st IterationStore) n"

lemma stores_match_owns:
  "stores_match catalog n st \<Longrightarrow> s \<in> set precedence \<Longrightarrow>
   owns_key (st (store_of s)) n \<longleftrightarrow> (\<exists>c\<in>set catalog. ve_scope c = s \<and> ve_name c = n \<and> ve_availability c = Now)"
  by (auto simp: stores_match_def precedence_def)

text \<open>C19: Take an available row in the scopes with a precedence that the catalog does not mark as
  shadowed, whose name has no explicit scope prefix such as \<open>environment.\<close>, and stores of the
  runtime that agree with the catalog (\<open>stores_match\<close>: each scope's store holds the name exactly if
  the catalog lists the name as available in that scope, and there is no iteration variable of the
  name). If neither the service nor the application has a variable of the name, the runtime resolves
  the name in the scope of that row.\<close>

theorem catalog_matches_runtime:
  assumes "build_variable_catalog parse_script locale_compare inp = Inr catalog"
    and "e \<in> set catalog" "contends e" "\<not> ve_shadowed e"
    and "explicit_scope (ve_name e) = None" "stores_match catalog (ve_name e) st"
    and "\<not> owns_key (st ServiceStore) (ve_name e)" "\<not> owns_key (st ApplicationStore) (ve_name e)"
  shows "resolved_key st (ve_name e) = read_key (st (store_of (ve_scope e))) (ve_name e)"
proof -
  let ?n = "ve_name e" and ?in = "\<lambda>i. owns_key (st i) (ve_name e)"
  have scope: "ve_scope e \<in> set precedence" "ve_availability e = Now" using assms(3) by (simp_all add: contends_def)
  have own: "?in (store_of (ve_scope e))"
    using stores_match_owns [OF assms(6) scope(1)] assms(2) scope(2) by blast
  have first: "scope_rank (ve_scope e) \<le> scope_rank s" if s: "s \<in> set precedence" "?in (store_of s)" for s
  proof -
    obtain c where "c \<in> set catalog" "ve_scope c = s" "ve_name c = ?n" "ve_availability c = Now"
      using stores_match_owns [OF assms(6) s(1)] s(2) by blast
    with s(1) have "c \<in> set catalog" "contends c" "ve_name c = ?n" "ve_scope c = s"
      by (simp_all add: contends_def)
    with unshadowed_first(1) [OF assms(1,2) scope(1) assms(4)] show ?thesis by blast
  qed
  have ranks: "scope_rank Variables = 0" "scope_rank Environment = 1" "scope_rank Collection = 2" "scope_rank Globals = 3"
    by (simp_all add: scope_rank_def find_index_def precedence_def)
  have "\<not> ?in IterationStore" using assms(6) by (simp add: stores_match_def)
  then have "find ?in resolution_order = Some (store_of (ve_scope e))"
    using scope(1) own first [of Variables] first [of Environment] first [of Collection] assms(7,8)
    by (auto simp: precedence_def resolution_order_def store_of_def ranks)
  with assms(5) show ?thesis by (simp add: resolved_key_def)
qed

lemma catalog_matches_runtime_witness:
  "\<exists>st. resolved_key st (js ''region'') = Own (JStr (js ''x'')) \<and> owns_key (st EnvironmentStore) (js ''region'')"
proof -
  let ?st = "(\<lambda>_. [])(VariablesStore := [(js ''region'', JStr (js ''x''))],
    EnvironmentStore := [(js ''region'', JStr (js ''eu''))]) :: stores"
  have row: "ve_name (sample_catalog ! 5) = js ''region''" "ve_scope (sample_catalog ! 5) = Variables"
    "contends (sample_catalog ! 5)" "\<not> ve_shadowed (sample_catalog ! 5)"
    "explicit_scope (js ''region'') = None" by code_simp+
  have "stores_match sample_catalog (js ''region'') ?st"
    "\<not> owns_key (?st ServiceStore) (js ''region'')" "\<not> owns_key (?st ApplicationStore) (js ''region'')"
    "read_key (?st VariablesStore) (js ''region'') = Own (JStr (js ''x''))"
    "owns_key (?st EnvironmentStore) (js ''region'')" by code_simp+
  with catalog_matches_runtime [OF sample_built sample_row, of 5 ?st] row show ?thesis
    by (intro exI [of _ ?st]) (simp add: store_of_def)
qed

text \<open>
  With a service variable of the same name the two disagree: the catalog shows the environment's row
  as in force, the runtime reads the service's value.
\<close>

definition service_input :: catalog_input where
  "service_input = sample_input\<lparr>cg_observed := [\<lparr>ob_name = js ''region'', ob_scope = Service, ob_masked = False\<rparr>]\<rparr>"

lemma service_row_not_considered:
  "\<exists>catalog. build_variable_catalog (\<lambda>_. None) length_compare service_input = Inr catalog
    \<and> (\<exists>e\<in>set catalog. ve_scope e = Environment \<and> ve_name e = js ''region'' \<and> \<not> ve_shadowed e)
    \<and> (\<exists>e\<in>set catalog. ve_scope e = Service \<and> ve_name e = js ''region'' \<and> ve_availability e = Now)"
proof -
  have "case build_variable_catalog (\<lambda>_. None) length_compare service_input of Inl _ \<Rightarrow> False
     | Inr catalog \<Rightarrow> (\<exists>e\<in>set catalog. ve_scope e = Environment \<and> ve_name e = js ''region'' \<and> \<not> ve_shadowed e)
      \<and> (\<exists>e\<in>set catalog. ve_scope e = Service \<and> ve_name e = js ''region'' \<and> ve_availability e = Now)"
    by code_simp
  then show ?thesis by (auto split: sum.splits)
qed

lemma service_resolved_first:
  "resolved_key ((\<lambda>_. [])(ServiceStore := [(js ''region'', v)], EnvironmentStore := [(js ''region'', w)])) (js ''region'') = Own v"
proof -
  have "explicit_scope (js ''region'') = None" by code_simp
  then show ?thesis by (simp add: resolved_key_def resolution_order_def owns_key_def read_key_def)
qed

end
