(* ===== verification/Script_Bytes.thy ===== *)
theory Script_Bytes
  imports Js_Uri Js_Result
begin

unbundle bit_operations_syntax

text \<open>
  The byte functions of \<open>runtime_bootstrap_v2.js\<close>: recognising ASCII and UTF-8, and converting
  between strings and buffers in four encodings. Bytes are numbers below 256, as the elements of a
  \<open>Uint8Array\<close> are.
\<close>

section \<open>Recognising encodings\<close>

definition is_ascii :: "nat list \<Rightarrow> bool" where
  "is_ascii bytes \<longleftrightarrow> list_all (\<lambda>b. b < 128) bytes"

definition utf8_lead :: "nat \<Rightarrow> (nat \<times> nat \<times> nat) option" where
  \<comment> \<open>the number of bytes that follow, the least code point of that length, the bits of the first byte\<close>
  "utf8_lead first =
     (if 0xc2 \<le> first \<and> first \<le> 0xdf then Some (1, 0x80, first AND 0x1f)
      else if 0xe0 \<le> first \<and> first \<le> 0xef then Some (2, 0x800, first AND 0x0f)
      else if 0xf0 \<le> first \<and> first \<le> 0xf4 then Some (3, 0x10000, first AND 0x07)
      else None)"

fun utf8_tail :: "nat \<Rightarrow> nat list \<Rightarrow> nat option" where
  "utf8_tail code_point [] = Some code_point"
| "utf8_tail code_point (b # bs) =
     (if b AND 0xc0 \<noteq> 0x80 then None
      else utf8_tail (push_bit 6 code_point OR (b AND 0x3f)) bs)"

definition utf8_bad_point :: "nat \<Rightarrow> nat \<Rightarrow> bool" where
  "utf8_bad_point minimum code_point \<longleftrightarrow>
     code_point < minimum \<or> code_point > 0x10ffff \<or> code_point \<ge> 0xd800 \<and> code_point \<le> 0xdfff"

function is_utf8 :: "nat list \<Rightarrow> bool" where
  "is_utf8 [] = True"
| "is_utf8 (first # rest) =
     (if first \<le> 0x7f then is_utf8 rest
      else case utf8_lead first of
        None \<Rightarrow> False
      | Some (n, minimum, code_point) \<Rightarrow>
          if length rest < n then False
          else case utf8_tail code_point (take n rest) of
            None \<Rightarrow> False
          | Some p \<Rightarrow> \<not> utf8_bad_point minimum p \<and> is_utf8 (drop n rest))"
  by pat_completeness auto
termination
  by (relation "measure length") auto

declare is_utf8.simps(2) [simp del]

section \<open>Encodings\<close>

datatype encoding = Utf8 | Utf16le | Latin1 | Ascii

definition normalize_encoding :: "jsval \<Rightarrow> exn + encoding" where
  "normalize_encoding v =
     bindE (to_string (or_else v (JStr (js ''utf8'')))) (\<lambda>s.
     let n = filter (\<lambda>c. c \<noteq> 45 \<and> c \<noteq> 95) (to_lower s) in
     if n = js ''utf8'' \<or> n = js ''utf'' then Inr Utf8
     else if n = js ''utf16le'' \<or> n = js ''ucs2'' \<or> n = js ''ucs2le'' then Inr Utf16le
     else if n = js ''latin1'' \<or> n = js ''binary'' then Inr Latin1
     else if n = js ''ascii'' then Inr Ascii
     else Inl TypeError)"

text \<open>\<open>escape\<close> and \<open>unescape\<close>.\<close>

definition escape_kept :: "code_unit \<Rightarrow> bool" where
  "escape_kept c \<longleftrightarrow> is_alnum c \<or> c \<in> set (js ''@*_+-./'')"

definition escape_unit :: "code_unit \<Rightarrow> jsstr" where
  "escape_unit c =
     (if escape_kept c then [c]
      else if c < 256 then percent_byte c
      else [37, 117] @ [hex_upper (c div 4096 mod 16), hex_upper (c div 256 mod 16),
        hex_upper (c div 16 mod 16), hex_upper (c mod 16)])"

definition js_escape :: "jsstr \<Rightarrow> jsstr" where
  "js_escape s = concat (map escape_unit s)"

definition escaped_unit :: "jsstr \<Rightarrow> (code_unit \<times> nat) option" where \<comment> \<open>after a percent sign, with the length read\<close>
  "escaped_unit s =
     (case s of
        u # a # b # c # d # _ \<Rightarrow>
          if u = 117 \<and> radix_value 16 [a, b, c, d] \<noteq> None
          then map_option (\<lambda>v. (v, 5)) (radix_value 16 [a, b, c, d])
          else map_option (\<lambda>v. (v, 2)) (radix_value 16 [u, a])
      | a # b # _ \<Rightarrow> map_option (\<lambda>v. (v, 2)) (radix_value 16 [a, b])
      | _ \<Rightarrow> None)"

function js_unescape :: "jsstr \<Rightarrow> jsstr" where
  "js_unescape [] = []"
| "js_unescape (c # s) =
     (case if c = 37 then escaped_unit s else None of
        None \<Rightarrow> c # js_unescape s
      | Some (v, n) \<Rightarrow> v # js_unescape (drop n s))"
  by pat_completeness auto
termination
  by (relation "measure length") auto

declare js_unescape.simps(2) [simp del]

definition encode_utf8 :: "jsstr \<Rightarrow> exn + nat list" where \<comment> \<open>\<open>unescape(encodeURIComponent(s))\<close>\<close>
  "encode_utf8 s = (case encode_uri s of None \<Rightarrow> Inl URIError | Some e \<Rightarrow> Inr (js_unescape e))"

definition decode_utf8 :: "nat list \<Rightarrow> exn + jsstr" where \<comment> \<open>\<open>decodeURIComponent(escape(s))\<close>\<close>
  "decode_utf8 bytes = (case decode_uri (js_escape bytes) of None \<Rightarrow> Inl URIError | Some s \<Rightarrow> Inr s)"

fun decode_utf16 :: "nat list \<Rightarrow> jsstr" where
  "decode_utf16 (a # b # bs) = (a OR push_bit 8 b) # decode_utf16 bs"
| "decode_utf16 _ = []"

definition decode_buffer :: "nat list \<Rightarrow> jsval \<Rightarrow> exn + jsstr" where
  "decode_buffer bytes v =
     bindE (normalize_encoding v) (\<lambda>e.
     case e of
       Utf8 \<Rightarrow> if is_utf8 bytes then decode_utf8 bytes else Inl TypeError
     | Utf16le \<Rightarrow> Inr (decode_utf16 bytes)
     | Ascii \<Rightarrow> Inr (map (\<lambda>b. b AND 0x7f) bytes)
     | Latin1 \<Rightarrow> Inr bytes)"

definition encode_utf16 :: "jsstr \<Rightarrow> nat list" where
  "encode_utf16 s = concat (map (\<lambda>c. [c AND 0xff, drop_bit 8 c]) s)"

definition encode_buffer :: "jsstr \<Rightarrow> jsval \<Rightarrow> exn + nat list" where
  "encode_buffer s v =
     bindE (normalize_encoding v) (\<lambda>e.
     case e of
       Utf8 \<Rightarrow> encode_utf8 s
     | Utf16le \<Rightarrow> Inr (encode_utf16 s)
     | Ascii \<Rightarrow> Inr (map (\<lambda>w. hd w AND 0x7f) (characters s))
     | Latin1 \<Rightarrow> Inr (map (\<lambda>w. hd w AND 0xff) (characters s)))"

definition transcode :: "nat list \<Rightarrow> jsval \<Rightarrow> jsval \<Rightarrow> exn + nat list" where
  "transcode bytes from_encoding to_encoding =
     bindE (decode_buffer bytes from_encoding) (\<lambda>s. encode_buffer s to_encoding)"

section \<open>Hexadecimal text\<close>

definition hex_byte :: "nat \<Rightarrow> jsstr" where \<comment> \<open>\<open>b.toString(16).padStart(2, "0")\<close>\<close>
  "hex_byte b = [hex_digit (b div 16), hex_digit (b mod 16)]"

definition hex_string :: "nat list \<Rightarrow> jsstr" where
  "hex_string bytes = concat (map hex_byte bytes)"

fun hex_pairs :: "jsstr \<Rightarrow> nat list" where
  "hex_pairs (a # b # s) = (case radix_value 16 [a, b] of Some v \<Rightarrow> v | None \<Rightarrow> 0) # hex_pairs s"
| "hex_pairs _ = []"

definition hex_parse :: "jsstr \<Rightarrow> exn + nat list" where
  "hex_parse v =
     (let source = filter (\<lambda>c. \<not> is_space c) v in
      if odd (length source) \<or> list_ex (\<lambda>c. radix_value 16 [c] = None) source
      then Inl (ErrorMsg (js ''Hex input is invalid.''))
      else Inr (hex_pairs source))"

end
