(* ===== verification/Bytes_Facts.thy ===== *)
theory Bytes_Facts
  imports Script_Bytes
begin

text \<open>
  The recogniser of UTF-8 accepts exactly the encodings of sequences of code points, and decoding a
  buffer undoes encoding it in each of the four encodings.
\<close>

section \<open>Masks and shifts\<close>

lemma and_masks:
  "x AND 0x3f = x mod 64" "x AND 0x1f = x mod 32" "x AND 0x0f = x mod 16" "x AND 0x07 = x mod 8"
  "x AND 0x7f = x mod 128" "x AND 0xff = x mod 256" for x :: nat
  using take_bit_eq_mask [of 6 x] take_bit_eq_mask [of 5 x] take_bit_eq_mask [of 4 x] take_bit_eq_mask [of 3 x]
    take_bit_eq_mask [of 7 x] take_bit_eq_mask [of 8 x]
  by (simp_all add: take_bit_eq_mod mask_eq_exp_minus_1)

lemma continuation_byte: "b AND 0xc0 = 0x80 \<longleftrightarrow> b div 64 mod 4 = 2" for b :: nat
proof -
  have "b AND 0xc0 = push_bit 6 (take_bit 2 (drop_bit 6 b))"
  proof (rule bit_eqI)
    fix n
    have "bit (0xc0 :: nat) n \<longleftrightarrow> bit (push_bit 6 (mask 2) :: nat) n"
      by (simp add: mask_eq_exp_minus_1 push_bit_eq_mult)
    then show "bit (b AND 0xc0) n \<longleftrightarrow> bit (push_bit 6 (take_bit 2 (drop_bit 6 b))) n"
      by (auto simp: bit_simps)
  qed
  then show ?thesis by (simp add: push_bit_eq_mult take_bit_eq_mod drop_bit_eq_div)
qed

section \<open>UTF-8\<close>

text \<open>Without the bits: one continuation byte after another.\<close>

lemma utf8_tail_Cons:
  assumes "b < 256"
  shows "utf8_tail p (b # bs) = (if 128 \<le> b \<and> b < 192 then utf8_tail (p * 64 + (b - 128)) bs else None)"
proof -
  have "b div 64 < 4" using assms by linarith
  then have "b div 64 mod 4 = 2 \<longleftrightarrow> 128 \<le> b \<and> b < 192" by (simp, intro iffI conjI) linarith+
  moreover have "push_bit 6 p OR (b AND 0x3f) = p * 64 + (b - 128)" if "128 \<le> b" "b < 192"
  proof -
    have "b mod 64 = b - 128" using mod_mult_self1 [of "b - 128" 2 64] that by simp
    then show ?thesis using shift_or [of "b mod 64" 6 p] by (simp add: and_masks)
  qed
  ultimately show ?thesis by (simp add: continuation_byte)
qed

declare utf8_tail.simps(2) [simp del]

definition scalar :: "nat \<Rightarrow> bool" where
  "scalar p \<longleftrightarrow> p < 0x110000 \<and> \<not> is_surrogate p"

lemma bad_point: "minimum \<le> p \<Longrightarrow> utf8_bad_point minimum p \<longleftrightarrow> \<not> scalar p"
  by (auto simp: utf8_bad_point_def scalar_def is_surrogate_def)

lemma is_utf8_point:
  assumes "scalar p"
  shows "is_utf8 (utf8 p @ bs) = is_utf8 bs"
proof -
  from assms have p: "p < 0x110000" by (simp add: scalar_def)
  consider "p < 128" | "128 \<le> p" "p < 2048" | "2048 \<le> p" "p < 65536" | "65536 \<le> p"
    by linarith
  then show ?thesis
  proof cases
    case 1
    then show ?thesis by (simp add: utf8_def is_utf8.simps(2))
  next
    case 2
    have "p div 64 < 32" using 2 by linarith
    then have "(192 + p div 64) mod 32 = p div 64" using mod_mult_self1 [of "p div 64" 6 32] by (simp add: add.commute)
    then have "utf8_lead (192 + p div 64) = Some (1, 128, p div 64)"
      using 2 by (simp add: utf8_lead_def and_masks) linarith
    moreover have "utf8_tail (p div 64) [128 + p mod 64] = Some p"
      by (simp add: utf8_tail_Cons)
    ultimately show ?thesis
      using 2 assms bad_point [of 128 p] by (simp add: utf8_def is_utf8.simps(2))
  next
    case 3
    have "p div 4096 < 16" using 3 by linarith
    then have "(224 + p div 4096) mod 16 = p div 4096" using mod_mult_self1 [of "p div 4096" 14 16] by (simp add: add.commute)
    then have lead: "utf8_lead (224 + p div 4096) = Some (2, 2048, p div 4096)"
      using 3 by (simp add: utf8_lead_def and_masks)
    have "p div 4096 = p div 64 div 64" by (simp add: div_mult2_eq [symmetric])
    then have "(p div 4096 * 64 + p div 64 mod 64) * 64 + p mod 64 = p"
      by (simp only: div_mult_mod_eq)
    then have "utf8_tail (p div 4096) [128 + p div 64 mod 64, 128 + p mod 64] = Some p"
      by (simp add: utf8_tail_Cons)
    with lead show ?thesis
      using 3 assms bad_point [of 2048 p] by (simp add: utf8_def is_utf8.simps(2))
  next
    case 4
    have "p div 262144 < 8" using p by linarith
    then have "(240 + p div 262144) mod 8 = p div 262144" using mod_mult_self1 [of "p div 262144" 30 8] by (simp add: add.commute)
    then have lead: "utf8_lead (240 + p div 262144) = Some (3, 65536, p div 262144)"
      using p by (simp add: utf8_lead_def and_masks)
    have "p div 4096 = p div 64 div 64" "p div 262144 = p div 64 div 64 div 64"
      by (simp_all add: div_mult2_eq [symmetric])
    then have "((p div 262144 * 64 + p div 4096 mod 64) * 64 + p div 64 mod 64) * 64 + p mod 64 = p"
      by (simp only: div_mult_mod_eq)
    then have "utf8_tail (p div 262144) [128 + p div 4096 mod 64, 128 + p div 64 mod 64, 128 + p mod 64] = Some p"
      by (simp add: utf8_tail_Cons)
    with lead show ?thesis
      using 4 assms bad_point [of 65536 p] by (simp add: utf8_def is_utf8.simps(2))
  qed
qed

lemma is_utf8_points: "\<forall>p\<in>set ps. scalar p \<Longrightarrow> is_utf8 (concat (map utf8 ps))"
  by (induction ps) (simp_all add: is_utf8_point)

text \<open>The other direction: what the loop accepts at the front is the encoding of a code point.\<close>

lemma utf8_two:
  assumes "2 \<le> x" "x < 32" "y < 64"
  shows "utf8 (x * 64 + y) = [192 + x, 128 + y]"
  using assms by (simp add: utf8_def)

lemma utf8_three:
  assumes "x < 16" "y < 64" "z < 64" "2048 \<le> (x * 64 + y) * 64 + z"
  shows "utf8 ((x * 64 + y) * 64 + z) = [224 + x, 128 + y, 128 + z]"
proof -
  define p where "p = (x * 64 + y) * 64 + z"
  have "p mod 64 = z mod 64" unfolding p_def by (rule mod_mult_self3)
  then have "p div 64 = x * 64 + y" "p mod 64 = z" using assms by (simp_all add: p_def)
  moreover have "p div 4096 = p div 64 div 64" by (simp add: div_mult2_eq [symmetric])
  ultimately have "p div 64 mod 64 = y" "p div 4096 = x" "p mod 64 = z" using assms by simp_all
  moreover have "p < 65536" using assms by (simp add: p_def)
  ultimately show ?thesis using assms(4) unfolding p_def [symmetric] by (simp add: utf8_def)
qed

lemma utf8_four:
  assumes "x < 8" "y < 64" "z < 64" "w < 64" "65536 \<le> ((x * 64 + y) * 64 + z) * 64 + w"
  shows "utf8 (((x * 64 + y) * 64 + z) * 64 + w) = [240 + x, 128 + y, 128 + z, 128 + w]"
proof -
  define p where "p = ((x * 64 + y) * 64 + z) * 64 + w"
  have r: "p mod 64 = w mod 64" "((x * 64 + y) * 64 + z) mod 64 = z mod 64" unfolding p_def by (rule mod_mult_self3)+
  have d: "((x * 64 + y) * 64 + z) div 64 = x * 64 + y" "(x * 64 + y) mod 64 = y" "(x * 64 + y) div 64 = x"
    using assms mod_mult_self3 [of x 64 y] by simp_all
  from r have "p div 64 = (x * 64 + y) * 64 + z" "p mod 64 = w" using assms by (simp_all add: p_def)
  moreover have "p div 4096 = p div 64 div 64" "p div 262144 = p div 64 div 64 div 64"
    by (simp_all add: div_mult2_eq [symmetric])
  ultimately have "p div 64 mod 64 = z" "p div 4096 mod 64 = y" "p div 262144 = x" "p mod 64 = w"
    using assms r(2) d by simp_all
  then show ?thesis using assms(5) unfolding p_def [symmetric] by (simp add: utf8_def)
qed

lemma utf8_tail_Some:
  assumes "\<forall>b\<in>set bs. b < 256" "utf8_tail cp bs = Some p"
  obtains ys where "bs = map ((+) 128) ys" "\<forall>y\<in>set ys. y < 64" "p = foldl (\<lambda>a y. a * 64 + y) cp ys"
  using assms
proof (induction bs arbitrary: cp thesis)
  case Nil
  then show ?case by (auto intro: Nil(1) [of "[]"])
next
  case (Cons b bs)
  from Cons.prems(2,3) have b: "128 \<le> b" "b < 192" and t: "utf8_tail (cp * 64 + (b - 128)) bs = Some p"
    by (auto simp: utf8_tail_Cons split: if_splits)
  from Cons.prems(2) obtain ys where "bs = map ((+) 128) ys" "\<forall>y\<in>set ys. y < 64"
      "p = foldl (\<lambda>a y. a * 64 + y) (cp * 64 + (b - 128)) ys"
    by (auto intro: Cons.IH [OF _ _ t])
  with b show ?case by (intro Cons.prems(1) [of "(b - 128) # ys"]) auto
qed

lemma utf8_accepted:
  assumes "utf8_lead a = Some (n, minimum, cp)" "a < 256" "length bs = n" "\<forall>b\<in>set bs. b < 256"
    and "utf8_tail cp bs = Some p" "\<not> utf8_bad_point minimum p"
  shows "scalar p \<and> utf8 p = a # bs"
proof -
  obtain ys where ys: "bs = map ((+) 128) ys" "\<forall>y\<in>set ys. y < 64" "p = foldl (\<lambda>a y. a * 64 + y) cp ys"
    using assms(4,5) by (rule utf8_tail_Some)
  have m: "minimum \<le> p" using assms(6) by (simp add: utf8_bad_point_def)
  then have "scalar p" using assms(6) bad_point by blast
  moreover consider "0xc2 \<le> a" "a \<le> 0xdf" "n = 1" "cp = a mod 32"
    | "0xe0 \<le> a" "a \<le> 0xef" "n = 2" "cp = a mod 16" "minimum = 2048"
    | "0xf0 \<le> a" "a \<le> 0xf4" "n = 3" "cp = a mod 8" "minimum = 65536"
    using assms(1) by (auto simp: utf8_lead_def and_masks split: if_splits)
  then have "utf8 p = a # bs"
  proof cases
    case 1
    then obtain x where x: "a = 192 + x" "2 \<le> x" "x < 32" using le_Suc_ex [of 192 a] by auto
    then have "cp = x" using 1 mod_mult_self1 [of x 6 32] by (simp add: add.commute)
    moreover from 1 assms(3) ys(1) obtain y where "ys = [y]" by (auto simp: length_Suc_conv)
    ultimately show ?thesis using x ys utf8_two by simp
  next
    case 2
    then obtain x where x: "a = 224 + x" "x < 16" using le_Suc_ex [of 224 a] by auto
    then have "cp = x" using 2 mod_mult_self1 [of x 14 16] by (simp add: add.commute)
    moreover from 2 assms(3) ys(1) obtain y z where "ys = [y, z]" by (auto simp: length_Suc_conv numeral_2_eq_2)
    ultimately show ?thesis using 2 x ys utf8_three m by simp
  next
    case 3
    then obtain x where x: "a = 240 + x" "x < 8" using le_Suc_ex [of 240 a] by auto
    then have "cp = x" using 3 mod_mult_self1 [of x 30 8] by (simp add: add.commute)
    moreover from 3 assms(3) ys(1) obtain y z w where "ys = [y, z, w]" by (auto simp: length_Suc_conv numeral_3_eq_3)
    ultimately show ?thesis using 3 x ys utf8_four m by simp
  qed
  ultimately show ?thesis by blast
qed

text \<open>A buffer is recognised as UTF-8 exactly if it is the encoding of a sequence of code points other than surrogates; overlong and truncated forms are refused.\<close>

theorem is_utf8_spec:
  assumes "\<forall>b\<in>set bytes. b < 256"
  shows "is_utf8 bytes \<longleftrightarrow> (\<exists>ps. (\<forall>p\<in>set ps. scalar p) \<and> bytes = concat (map utf8 ps))"
proof
  assume "is_utf8 bytes"
  with assms show "\<exists>ps. (\<forall>p\<in>set ps. scalar p) \<and> bytes = concat (map utf8 ps)"
  proof (induction bytes rule: is_utf8.induct)
    case (2 a rest)
    show ?case
    proof (cases "a \<le> 0x7f")
      case True
      with 2 obtain ps where "\<forall>p\<in>set ps. scalar p" "rest = concat (map utf8 ps)"
        by (auto simp: is_utf8.simps(2))
      moreover have "utf8 a = [a]" "scalar a" using True by (simp_all add: utf8_def scalar_def is_surrogate_def)
      ultimately show ?thesis by (intro exI [of _ "a # ps"]) simp
    next
      case False
      with "2.prems"(2) obtain n minimum cp p where l: "utf8_lead a = Some (n, minimum, cp)" "n \<le> length rest"
        "utf8_tail cp (take n rest) = Some p" "\<not> utf8_bad_point minimum p" "is_utf8 (drop n rest)"
      proof -
        from False "2.prems"(2) obtain n minimum cp where l: "utf8_lead a = Some (n, minimum, cp)"
          by (cases "utf8_lead a") (auto simp: is_utf8.simps(2))
        with False "2.prems"(2) obtain p where "utf8_tail cp (take n rest) = Some p"
          by (cases "utf8_tail cp (take n rest)") (auto simp: is_utf8.simps(2) split: if_splits)
        with l that False "2.prems"(2) show ?thesis by (auto simp: is_utf8.simps(2) split: if_splits)
      qed
      moreover have "\<forall>b\<in>set (take n rest). b < 256" "\<forall>b\<in>set (drop n rest). b < 256"
        using "2.prems"(1) by (auto dest: in_set_takeD in_set_dropD)
      ultimately have p: "scalar p" "utf8 p = a # take n rest"
        using utf8_accepted [of a n minimum cp "take n rest" p] "2.prems"(1) by auto
      obtain ps where "\<forall>p\<in>set ps. scalar p" "drop n rest = concat (map utf8 ps)"
        using "2.IH"(2) [OF False l(1) refl refl _ l(3) _ l(5)] l \<open>\<forall>b\<in>set (drop n rest). b < 256\<close> by auto
      with p show ?thesis
        by (intro exI [of _ "p # ps"]) (simp, metis append_take_drop_id)
    qed
  qed (intro exI [of _ "[]"], simp)
next
  assume "\<exists>ps. (\<forall>p\<in>set ps. scalar p) \<and> bytes = concat (map utf8 ps)"
  then show "is_utf8 bytes" using is_utf8_points by blast
qed

lemma is_utf8_spec_witness:
  "\<not> (\<exists>ps. (\<forall>p\<in>set ps. scalar p) \<and> [0xc0, 0x80] = concat (map utf8 ps))"
proof -
  have "\<not> is_utf8 [0xc0, 0x80]" by code_simp
  with is_utf8_spec [of "[0xc0, 0x80]"] show ?thesis by simp
qed

section \<open>Buffers\<close>

lemma js_unescape_byte: "b < 256 \<Longrightarrow> js_unescape (percent_byte b @ t) = b # js_unescape t"
proof -
  assume b: "b < 256"
  have "radix_value 16 [hex_upper (b div 16), hex_upper (b mod 16)] = Some b"
    using percent_decode_byte [OF b, of "[]"] by (auto simp: percent_decode_def percent_byte_def)
  moreover have "hex_upper (b div 16) \<noteq> 117" using b by (auto simp: hex_upper_def)
  ultimately have "escaped_unit (hex_upper (b div 16) # hex_upper (b mod 16) # t) = Some (b, 2)"
    by (auto simp: escaped_unit_def split: list.splits)
  then show ?thesis by (simp add: percent_byte_def js_unescape.simps(2))
qed

lemma utf8_bytes: "scalar p \<Longrightarrow> b \<in> set (utf8 p) \<Longrightarrow> b < 256"
  by (auto simp: utf8_def scalar_def split: if_splits)

lemma js_unescape_bytes: "\<forall>b\<in>set bs. b < 256 \<Longrightarrow> js_unescape (concat (map percent_byte bs) @ t) = bs @ js_unescape t"
  by (induction bs) (simp_all add: js_unescape_byte)

lemma unreserved_plain: "uri_unreserved p \<Longrightarrow> p < 128 \<and> p \<noteq> 37"
  by (auto simp: uri_unreserved_def is_alnum_def is_alpha_def is_upper_def is_lower_def is_digit_def js_def)

lemma js_unescape_points:
  "\<forall>p\<in>set ps. scalar p \<Longrightarrow> js_unescape (concat (map encode_point ps)) = concat (map utf8 ps)"
proof (induction ps)
  case (Cons p ps)
  show ?case
  proof (cases "uri_unreserved p")
    case True
    with Cons unreserved_plain [OF True] show ?thesis by (simp add: encode_point_def utf8_def js_unescape.simps(2))
  next
    case False
    then have "encode_point p = concat (map percent_byte (utf8 p))" by (simp add: encode_point_def)
    moreover have "\<forall>b\<in>set (utf8 p). b < 256" using Cons.prems utf8_bytes by auto
    ultimately show ?thesis
      using Cons js_unescape_bytes [of "utf8 p" "concat (map encode_point ps)"] by simp
  qed
qed simp

lemma decode_uri_percent:
  assumes "scalar p"
  shows "decode_uri (concat (map percent_byte (utf8 p)) @ t) = map_option ((@) (units_of_point p)) (decode_uri t)"
proof -
  obtain b bs where b: "utf8 p = b # bs" by (cases "utf8 p") auto
  let ?r = "hex_upper (b div 16) # hex_upper (b mod 16) # concat (map percent_byte bs) @ t"
  have "concat (map percent_byte (utf8 p)) @ t = 37 # ?r" by (simp add: b percent_byte_def)
  moreover have "decode_point (37 # ?r) = Some (p, t)"
    using decode_point_utf8 [of p t] assms by (simp add: scalar_def b percent_byte_def)
  ultimately show ?thesis by (simp add: decode_uri.simps(2))
qed

lemma escape_kept_plain: "escape_kept c \<Longrightarrow> c < 128 \<and> c \<noteq> 37"
  by (auto simp: escape_kept_def is_alnum_def is_alpha_def is_upper_def is_lower_def is_digit_def js_def)

lemma js_escape_utf8:
  assumes "scalar p"
  shows "js_escape (utf8 p) = (if escape_kept p then [p] else concat (map percent_byte (utf8 p)))"
proof (cases "p < 128")
  case True
  then show ?thesis by (simp add: js_escape_def utf8_def escape_unit_def)
next
  case False
  then have "\<forall>b\<in>set (utf8 p). 128 \<le> b" by (auto simp: utf8_def split: if_splits)
  then have "\<forall>b\<in>set (utf8 p). escape_unit b = percent_byte b"
    using utf8_bytes [OF assms] escape_kept_plain by (auto simp: escape_unit_def) (metis leD)
  then have "map escape_unit (utf8 p) = map percent_byte (utf8 p)" by (intro map_cong) auto
  then have "js_escape (utf8 p) = concat (map percent_byte (utf8 p))"
    unfolding js_escape_def by (rule arg_cong)
  with False escape_kept_plain [of p] show ?thesis by auto
qed

lemma decode_uri_escaped:
  "\<forall>p\<in>set ps. scalar p \<Longrightarrow> decode_uri (js_escape (concat (map utf8 ps))) = Some (concat (map units_of_point ps))"
proof (induction ps)
  case (Cons p ps)
  have split: "js_escape (a @ b) = js_escape a @ js_escape b" for a b by (simp add: js_escape_def)
  show ?case
  proof (cases "escape_kept p")
    case True
    with Cons escape_kept_plain [OF True] show ?thesis
      by (simp add: split js_escape_utf8 decode_uri.simps(2) units_of_point_def)
  next
    case False
    with Cons show ?thesis by (simp add: split js_escape_utf8 decode_uri_percent)
  qed
qed (simp add: js_escape_def)

definition encodable :: "encoding \<Rightarrow> jsstr \<Rightarrow> bool" where
  "encodable e s \<longleftrightarrow>
     (case e of
        Utf8 \<Rightarrow> well_formed s
      | Utf16le \<Rightarrow> \<forall>c\<in>set s. c < 65536
      | Latin1 \<Rightarrow> \<forall>c\<in>set s. c < 256
      | Ascii \<Rightarrow> \<forall>c\<in>set s. c < 128)"

lemma utf8_round:
  assumes "well_formed s"
  obtains bytes where "encode_utf8 s = Inr bytes" "is_utf8 bytes" "decode_utf8 bytes = Inr s" "\<forall>b\<in>set bytes. b < 256"
proof -
  from assms have s: "\<forall>c\<in>set s. c < 65536" "None \<notin> set (code_points s)" by (auto simp: well_formed_def)
  let ?ps = "map the (code_points s)"
  have ps: "\<forall>p\<in>set ?ps. scalar p"
    using code_points_valid [OF s(1)] s(2) by (auto simp: scalar_def) (metis option.exhaust_sel)+
  have "encode_uri s = Some (concat (map encode_point ?ps))"
    using encode_points_Some [OF s(2)] by (simp add: encode_uri_def comp_def)
  then have "encode_utf8 s = Inr (concat (map utf8 ?ps))"
    using js_unescape_points [OF ps] by (simp add: encode_utf8_def)
  moreover have "decode_utf8 (concat (map utf8 ?ps)) = Inr s"
    using decode_uri_escaped [OF ps] code_points_units [OF s] by (simp add: decode_utf8_def comp_def)
  moreover have "\<forall>b\<in>set (concat (map utf8 ?ps)). b < 256" using ps utf8_bytes by fastforce
  ultimately show ?thesis using that is_utf8_points [OF ps] by blast
qed

lemma decode_encode_utf16:
  "\<forall>c\<in>set s. c < 65536 \<Longrightarrow> decode_utf16 (encode_utf16 s) = s \<and> (\<forall>b\<in>set (encode_utf16 s). b < 256)"
proof (induction s)
  case (Cons c s)
  have "c AND 0xff OR push_bit 8 (drop_bit 8 c) = c"
    using shift_or [of "c mod 256" 8 "c div 256"] by (simp add: and_masks drop_bit_eq_div or.commute)
  with Cons show ?case by (auto simp: encode_utf16_def and_masks drop_bit_eq_div)
qed (simp add: encode_utf16_def)

lemma characters_small:
  "\<forall>c\<in>set s. c < 256 \<Longrightarrow> characters s = map (\<lambda>c. [c]) s"
  by (induction s rule: characters.induct) (auto simp: is_high_def)

text \<open>C20: A text that an encoding can express is encoded into bytes that decode to the text; in UTF-8 these bytes are recognised as such.\<close>

theorem buffer_round_trip:
  assumes "normalize_encoding v = Inr e" "encodable e s"
  shows "\<exists>bytes. encode_buffer s v = Inr bytes \<and> decode_buffer bytes v = Inr s \<and> (\<forall>b\<in>set bytes. b < 256)"
proof (cases e)
  case Utf8
  with assms(2) have "well_formed s" by (simp add: encodable_def)
  then obtain bytes where "encode_utf8 s = Inr bytes" "is_utf8 bytes" "decode_utf8 bytes = Inr s" "\<forall>b\<in>set bytes. b < 256"
    by (rule utf8_round)
  with Utf8 assms(1) show ?thesis
    by (intro exI [of _ bytes]) (simp add: encode_buffer_def decode_buffer_def bindE_def)
next
  case Utf16le
  with assms decode_encode_utf16 [of s] show ?thesis
    by (auto simp: encode_buffer_def decode_buffer_def bindE_def encodable_def)
next
  case Latin1
  with assms have c: "\<forall>c\<in>set s. c < 256" "characters s = map (\<lambda>c. [c]) s"
    by (auto simp: encodable_def intro!: characters_small)
  have "map (\<lambda>w. hd w AND 0xff) (map (\<lambda>c. [c]) s) = s"
    using c(1) by (auto simp: and_masks intro!: map_idI)
  with Latin1 assms(1) c show ?thesis
    by (simp add: encode_buffer_def decode_buffer_def bindE_def)
next
  case Ascii
  with assms have c: "\<forall>c\<in>set s. c < 128" "characters s = map (\<lambda>c. [c]) s"
    by (auto simp: encodable_def intro!: characters_small)
  have "map (\<lambda>b. b AND 0x7f) (map (\<lambda>w. hd w AND 0x7f) (map (\<lambda>c. [c]) s)) = s"
    using c(1) by (auto simp: and_masks intro!: map_idI)
  with Ascii assms(1) c show ?thesis
    by (auto simp: encode_buffer_def decode_buffer_def bindE_def and_masks)
qed

lemma buffer_round_trip_witness:
  "\<exists>bytes. encode_buffer [233, 55357, 56832] (JStr (js ''UTF-8'')) = Inr bytes
    \<and> decode_buffer bytes (JStr (js ''UTF-8'')) = Inr [233, 55357, 56832]"
proof -
  have "normalize_encoding (JStr (js ''UTF-8'')) = Inr Utf8" by code_simp
  moreover have "encodable Utf8 [233, 55357, 56832]" by code_simp
  ultimately show ?thesis using buffer_round_trip by blast
qed

end
