(* ===== verification/Script_Packages.thy ===== *)
theory Script_Packages
  imports Js_Uri Js_Result
begin

text \<open>
  Packages a script can require, from \<open>runtime_bootstrap_v2.js\<close>: the CSV parser, the path functions,
  the query parameters of a URL, the parts of lodash with a loop of their own, and the resolution of
  package names.
\<close>

section \<open>CSV\<close>

record csv_state =
  cs_rows :: "jsstr list list"
  cs_row :: "jsstr list"
  cs_value :: jsstr
  cs_quoted :: bool

definition end_row :: "csv_state \<Rightarrow> csv_state" where
  "end_row st =
     (let row = cs_row st @ [cs_value st] in
      st\<lparr>cs_rows := (if list_ex (\<lambda>c. c \<noteq> []) row then cs_rows st @ [row] else cs_rows st),
         cs_row := [], cs_value := []\<rparr>)"

text \<open>One character and the text after it; the flag says that the next character is skipped.\<close>

definition csv_step :: "jsstr \<Rightarrow> code_unit \<Rightarrow> jsstr \<Rightarrow> csv_state \<Rightarrow> csv_state \<times> bool" where
  "csv_step delimiter c rest st =
     (if c = 34 then
        if cs_quoted st \<and> take 1 rest = [34]
        then (st\<lparr>cs_value := cs_value st @ [34]\<rparr>, True)
        else (st\<lparr>cs_quoted := \<not> cs_quoted st\<rparr>, False)
      else if \<not> cs_quoted st \<and> [c] = delimiter
      then (st\<lparr>cs_row := cs_row st @ [cs_value st], cs_value := []\<rparr>, False)
      else if \<not> cs_quoted st \<and> (c = 10 \<or> c = 13)
      then (end_row st, c = 13 \<and> take 1 rest = [10])
      else (st\<lparr>cs_value := cs_value st @ [c]\<rparr>, False))"

text \<open>The loop ends with a line break of its own after the text.\<close>

function csv_scan :: "jsstr \<Rightarrow> csv_state \<Rightarrow> jsstr \<Rightarrow> csv_state" where
  "csv_scan delimiter st [] = fst (csv_step delimiter 10 [] st)"
| "csv_scan delimiter st (c # s) =
     (case csv_step delimiter c s st of
        (st', skip) \<Rightarrow> csv_scan delimiter st' (if skip then drop 1 s else s))"
  by pat_completeness auto
termination
  by (relation "measure (\<lambda>(_, _, s). length s)") auto

definition csv_rows :: "jsstr \<Rightarrow> jsstr \<Rightarrow> jsstr list list" where
  "csv_rows delimiter text =
     cs_rows (csv_scan delimiter \<lparr>cs_rows = [], cs_row = [], cs_value = [], cs_quoted = False\<rparr> text)"

datatype csv_columns = NoColumns | HeaderRow | Named "jsstr list"

datatype csv_result = Rows "jsstr list list" | Records "(jsstr \<times> jsval) list list"

definition csv_record :: "jsstr list \<Rightarrow> jsstr list \<Rightarrow> (jsstr \<times> jsval) list" where
  "csv_record columns values =
     from_entries (map (\<lambda>(i, column). (column, if i < length values then JStr (values ! i) else JUndef))
       (enumerate 0 columns))"

definition csv_parse :: "jsstr \<Rightarrow> csv_columns \<Rightarrow> jsstr \<Rightarrow> csv_result" where
  "csv_parse delimiter columns text =
     (case (columns, csv_rows (if delimiter = [] then js '','' else delimiter) text) of
        (HeaderRow, header # rows) \<Rightarrow> Records (map (csv_record header) rows)
      | (Named names, row # rows) \<Rightarrow> Records (map (csv_record names) (row # rows))
      | (_, rows) \<Rightarrow> Rows rows)"

section \<open>Paths\<close>

definition path_part :: "jsstr list \<Rightarrow> jsstr \<Rightarrow> jsstr list" where
  "path_part parts part =
     (if part = js ''..'' then butlast parts
      else if part \<noteq> [] \<and> part \<noteq> js ''.'' then parts @ [part]
      else parts)"

definition path_parts :: "jsstr \<Rightarrow> jsstr list" where
  "path_parts v = foldl path_part [] (split_on 47 v)"

definition path_normalize :: "jsstr \<Rightarrow> jsstr" where
  "path_normalize v = join (js ''/'') (path_parts v)"

fun squeeze_slashes :: "jsstr \<Rightarrow> jsstr" where \<comment> \<open>\<open>replace(/\/+/g, "/")\<close>\<close>
  "squeeze_slashes (c # d # s) =
     (if c = 47 \<and> d = 47 then squeeze_slashes (d # s) else c # squeeze_slashes (d # s))"
| "squeeze_slashes s = s"

definition path_join :: "jsstr list \<Rightarrow> jsstr" where
  "path_join parts = squeeze_slashes (join (js ''/'') (filter (\<lambda>p. p \<noteq> []) parts))"

definition ends_with :: "jsstr \<Rightarrow> jsstr \<Rightarrow> bool" where
  "ends_with p s \<longleftrightarrow> starts_with (rev p) (rev s)"

definition path_basename :: "jsstr \<Rightarrow> jsstr \<Rightarrow> jsstr" where
  "path_basename v extension =
     (let name = last (split_on 47 v) in
      if extension \<noteq> [] \<and> ends_with extension name then take (length name - length extension) name else name)"

definition path_dirname :: "jsstr \<Rightarrow> jsstr" where
  "path_dirname v =
     (let dir = join (js ''/'') (butlast (split_on 47 v)) in if dir = [] then js ''.'' else dir)"

definition path_extname :: "jsstr \<Rightarrow> jsstr" where
  "path_extname v =
     (let name = last (split_on 47 v); after = takeWhile (\<lambda>c. c \<noteq> 46) (rev name) in
      if length after < length name \<and> 0 < length name - length after - 1
      then drop (length name - length after - 1) name else [])"

definition path_is_absolute :: "jsstr \<Rightarrow> bool" where
  "path_is_absolute v = starts_with (js ''/'') v"

definition path_resolve :: "jsstr list \<Rightarrow> jsstr" where
  "path_resolve parts = js ''/'' @ path_normalize (join (js ''/'') parts)"

section \<open>Query parameters\<close>

type_synonym pairs = "(jsstr \<times> jsstr) list"

definition plus_to_space :: "jsstr \<Rightarrow> jsstr" where
  "plus_to_space s = map (\<lambda>c. if c = 43 then 32 else c) s"

fun space_to_plus :: "jsstr \<Rightarrow> jsstr" where \<comment> \<open>\<open>replace(/%20/g, "+")\<close>\<close>
  "space_to_plus (a # b # c # s) =
     (if a = 37 \<and> b = 50 \<and> c = 48 then 43 # space_to_plus s else a # space_to_plus (b # c # s))"
| "space_to_plus s = s"

definition decode_component :: "jsstr \<Rightarrow> exn + jsstr" where
  "decode_component s = (case decode_uri (plus_to_space s) of None \<Rightarrow> Inl URIError | Some v \<Rightarrow> Inr v)"

definition parse_pair :: "jsstr \<Rightarrow> exn + jsstr \<times> jsstr" where
  "parse_pair part =
     (let ws = split_on 61 part in
      bindE (decode_component (hd ws)) (\<lambda>k.
      bindE (decode_component (join (js ''='') (tl ws))) (\<lambda>v. Inr (k, v))))"

definition params_parse :: "jsstr \<Rightarrow> exn + pairs" where
  "params_parse init =
     (let s = (case init of c # r \<Rightarrow> if c = 63 then r else init | [] \<Rightarrow> []) in
      mapE parse_pair (filter (\<lambda>part. part \<noteq> []) (split_on 38 s)))"

definition params_append :: "jsstr \<Rightarrow> jsstr \<Rightarrow> pairs \<Rightarrow> pairs" where
  "params_append k v ps = ps @ [(k, v)]"

definition params_delete :: "jsstr \<Rightarrow> pairs \<Rightarrow> pairs" where
  "params_delete k ps = filter (\<lambda>p. fst p \<noteq> k) ps"

definition params_set :: "jsstr \<Rightarrow> jsstr \<Rightarrow> pairs \<Rightarrow> pairs" where
  "params_set k v ps = params_append k v (params_delete k ps)"

definition params_get :: "pairs \<Rightarrow> jsstr \<Rightarrow> jsstr option" where
  "params_get ps k = map_option snd (find (\<lambda>p. fst p = k) ps)"

definition params_get_all :: "pairs \<Rightarrow> jsstr \<Rightarrow> jsstr list" where
  "params_get_all ps k = map snd (filter (\<lambda>p. fst p = k) ps)"

definition params_has :: "pairs \<Rightarrow> jsstr \<Rightarrow> bool" where
  "params_has ps k = list_ex (\<lambda>p. fst p = k) ps"

definition encode_component :: "jsstr \<Rightarrow> exn + jsstr" where
  "encode_component s = (case encode_uri s of None \<Rightarrow> Inl URIError | Some e \<Rightarrow> Inr (space_to_plus e))"

definition print_pair :: "jsstr \<times> jsstr \<Rightarrow> exn + jsstr" where
  "print_pair p =
     bindE (encode_component (fst p)) (\<lambda>k. bindE (encode_component (snd p)) (\<lambda>v. Inr (k @ js ''='' @ v)))"

definition params_print :: "pairs \<Rightarrow> exn + jsstr" where
  "params_print ps = bindE (mapE print_pair ps) (\<lambda>ws. Inr (join (js ''&'') ws))"

section \<open>Lists\<close>

definition js_slice :: "'a list \<Rightarrow> int \<Rightarrow> int \<Rightarrow> 'a list" where
  "js_slice xs start stop =
     (let n = int (length xs);
          from_start = (\<lambda>i. nat (if i < 0 then max 0 (n + i) else min i n)) in
      take (from_start stop - from_start start) (drop (from_start start) xs))"

text \<open>The loop of \<open>chunk\<close>, for a whole number as the size; \<open>None\<close> when it never ends.\<close>

partial_function (option) chunk_from :: "'a list \<Rightarrow> int \<Rightarrow> int \<Rightarrow> 'a list list option" where
  "chunk_from items count i =
     (if i < int (length items)
      then Option.bind (chunk_from items count (i + count)) (\<lambda>rest. Some (js_slice items i (i + count) # rest))
      else Some [])"

definition chunk :: "'a list \<Rightarrow> int \<Rightarrow> 'a list list option" where
  "chunk items count = chunk_from items count 0"

section \<open>Package names\<close>

definition strip_prefix :: "string \<Rightarrow> jsstr \<Rightarrow> jsstr" where
  "strip_prefix p s = (if starts_with (js p) s then drop (length p) s else s)"

definition index_or :: "jsstr \<Rightarrow> jsstr \<Rightarrow> int" where \<comment> \<open>\<open>s.indexOf(p)\<close>\<close>
  "index_or p s = (case index_of p s of Some i \<Rightarrow> int i | None \<Rightarrow> - 1)"

definition normalize_package_name :: "jsstr \<Rightarrow> jsstr" where
  "normalize_package_name specifier =
     (let v = strip_prefix ''jsr:'' (strip_prefix ''npm:'' (trim specifier)) in
      if starts_with (js ''@'') v then
        let second_at = (let i = index_or (js ''@'') (drop 1 v) in if i < 0 then - 1 else i + 1) in
        if index_or (js ''/'') v < second_at then take (nat second_at) v else v
      else
        let first_at = index_or (js ''@'') v in
        if 0 < first_at then take (nat first_at) v else v)"

datatype required = HostPackage jsstr | CatalogPackage jsstr

definition resolve_package :: "jsstr list \<Rightarrow> jsstr \<Rightarrow> exn + required" where
  "resolve_package catalog specifier =
     (let requested = trim specifier; name = normalize_package_name requested in
      if starts_with (js ''npm:'') requested \<or> starts_with (js ''jsr:'') requested \<or> starts_with (js ''@'') requested
      then Inr (HostPackage requested)
      else if name \<in> set catalog then Inr (CatalogPackage name)
      else if starts_with (js ''@'') name
      then Inl (ErrorMsg (js ''Package '' @ name @ js '' is not installed in the Rhythm Package Library.''))
      else Inl (ErrorMsg (js ''Package '' @ name @ js '' is not in the approved Rhythm sandbox catalog.'')))"

end
