(* ===== verification/Params_Facts.thy ===== *)
theory Params_Facts
  imports Packages_Facts Bytes_Facts Script_Facts
begin

text \<open>
  Laws of \<open>URLSearchParams\<close>: parameters survive printing and parsing, and a name reads as the last
  \<open>set\<close> or \<open>delete\<close> left it.
\<close>

section \<open>Setting and deleting\<close>

lemma find_filter_implied: "(\<And>x. p x \<Longrightarrow> q x) \<Longrightarrow> find p (filter q xs) = find p xs"
  by (induction xs) auto

interpretation params: key_lookup params_set params_delete params_get id "\<lambda>_. True"
proof
  fix k v k' :: jsstr and s :: pairs
  show del: "params_get (params_delete k s) k' = (if id k' = id k then None else params_get s k')"
    using find_filter_implied [of "\<lambda>p. fst p = k'" "\<lambda>p. fst p \<noteq> k" s]
    by (auto simp: params_get_def params_delete_def find_None_iff)
  have "find P (xs @ [x]) = (case find P xs of Some y \<Rightarrow> Some y | None \<Rightarrow> if P x then Some x else None)"
    for P and xs and x :: "jsstr \<times> jsstr"
    by (induction xs) auto
  then have "params_get (params_append k v s) k' =
      (case params_get s k' of Some w \<Rightarrow> Some w | None \<Rightarrow> if k' = k then Some v else None)" for s
    by (auto simp: params_get_def params_append_def split: option.split)
  with del show "params_get (params_set k v s) k' = (if id k' = id k then Some v else params_get s k')"
    by (auto simp: params_set_def split: option.split)
qed

lemma params_set_get: "params_get (params_set k v ps) k = Some v \<and> params_get (params_delete k ps) k = None"
  using params.put_then_lookup params.remove_then_lookup by simp

section \<open>Printing and parsing\<close>

definition form_point :: "nat \<Rightarrow> jsstr" where \<comment> \<open>a code point as it is printed\<close>
  "form_point p = (if p = 32 then [43] else encode_point p)"

lemma space_to_plus_Cons: "c \<noteq> 37 \<Longrightarrow> space_to_plus (c # s) = c # space_to_plus s"
  by (cases s; cases "tl s") auto

lemma hex_upper_plain: "d < 16 \<Longrightarrow> hex_upper d \<in> {48..57} \<union> {65..70}"
  by (auto simp: hex_upper_def)

lemma byte_digits:
  assumes "b < 256"
  shows "hex_upper (b div 16) \<in> {48..57} \<union> {65..70}" "hex_upper (b mod 16) \<in> {48..57} \<union> {65..70}"
  using assms by (auto intro!: hex_upper_plain simp del: Un_iff atLeastAtMost_iff simp: less_mult_imp_div_less)

lemma space_to_plus_byte:
  assumes "b < 256"
  shows "space_to_plus (percent_byte b @ t) = (if b = 32 then [43] else percent_byte b) @ space_to_plus t"
proof -
  let ?h = "hex_upper (b div 16)" and ?l = "hex_upper (b mod 16)"
  have h: "?h \<noteq> 37" "?l \<noteq> 37" using byte_digits [OF assms] by auto
  have "?h = 50 \<and> ?l = 48 \<longleftrightarrow> b div 16 = 2 \<and> b mod 16 = 0"
    using assms by (auto simp: hex_upper_def)
  also have "\<dots> \<longleftrightarrow> b = 32" using div_mult_mod_eq [of b 16] by auto
  finally show ?thesis using h by (auto simp: percent_byte_def space_to_plus_Cons)
qed

lemma space_to_plus_bytes:
  "\<forall>b\<in>set bs. b < 256 \<and> b \<noteq> 32 \<Longrightarrow>
   space_to_plus (concat (map percent_byte bs) @ t) = concat (map percent_byte bs) @ space_to_plus t"
  by (induction bs) (simp_all add: space_to_plus_byte)

lemma scalar_bytes: "scalar p \<Longrightarrow> \<forall>b\<in>set (utf8 p). b < 256 \<and> (b = 32 \<longrightarrow> p = 32)"
  using utf8_bytes [of p] by (auto simp: utf8_def split: if_splits)

lemma space_to_plus_point:
  assumes "scalar p"
  shows "space_to_plus (encode_point p @ t) = form_point p @ space_to_plus t"
proof -
  consider "uri_unreserved p" | "p = 32" | "\<not> uri_unreserved p" "p \<noteq> 32" by blast
  then show ?thesis
  proof cases
    case 1
    then have "p \<noteq> 37" "p \<noteq> 32"
      using unreserved_plain [of p] by (auto simp: uri_unreserved_def is_alnum_def is_alpha_def is_upper_def
          is_lower_def is_digit_def js_def)
    with 1 show ?thesis by (simp add: encode_point_def form_point_def space_to_plus_Cons)
  next
    case 2
    have "\<not> uri_unreserved 32"
      by (simp add: uri_unreserved_def is_alnum_def is_alpha_def is_upper_def is_lower_def is_digit_def js_def)
    with 2 space_to_plus_byte [of 32 t] show ?thesis by (simp add: encode_point_def form_point_def utf8_def)
  next
    case 3
    with scalar_bytes [OF assms] space_to_plus_bytes [of "utf8 p" t] show ?thesis
      by (auto simp: encode_point_def form_point_def)
  qed
qed

lemma space_to_plus_points:
  "\<forall>p\<in>set ps. scalar p \<Longrightarrow> space_to_plus (concat (map encode_point ps)) = concat (map form_point ps)"
  by (induction ps) (simp_all add: space_to_plus_point)

lemma percent_bytes_plain: "\<forall>b\<in>set bs. b < 256 \<Longrightarrow> c \<in> set (concat (map percent_byte bs)) \<Longrightarrow> c = 37 \<or> c \<in> {48..57} \<union> {65..70}"
proof (induction bs)
  case (Cons b bs)
  then show ?case
    using byte_digits [of b] by (auto simp: percent_byte_def)
qed simp

text \<open>The characters that mean something in a query do not occur in what is printed for a text.\<close>

lemma encode_point_plain:
  assumes "scalar p"
  shows "set (encode_point p) \<inter> {38, 43, 61, 63} = {}"
proof (cases "uri_unreserved p")
  case True
  then show ?thesis
    by (auto simp: encode_point_def uri_unreserved_def is_alnum_def is_alpha_def is_upper_def is_lower_def is_digit_def js_def)
next
  case False
  have "\<forall>b\<in>set (utf8 p). b < 256" using scalar_bytes [OF assms] by blast
  from percent_bytes_plain [OF this] False show ?thesis by (force simp: encode_point_def)
qed

lemma decode_form_point:
  assumes "scalar p"
  shows "decode_uri (plus_to_space (form_point p) @ t) = map_option ((@) (units_of_point p)) (decode_uri t)"
proof (cases "p = 32")
  case True
  then show ?thesis
    by (cases "decode_uri t") (simp_all add: form_point_def plus_to_space_def decode_uri.simps(2) units_of_point_def)
next
  case False
  have "43 \<notin> set (encode_point p)" using encode_point_plain [OF assms] by blast
  then have "plus_to_space (form_point p) = encode_point p"
    using False by (auto simp: plus_to_space_def form_point_def intro!: map_idI)
  with decode_uri_encode_point [of p t] assms show ?thesis by (simp add: scalar_def)
qed

lemma decode_form_points:
  "\<forall>p\<in>set ps. scalar p \<Longrightarrow>
   decode_uri (plus_to_space (concat (map form_point ps))) = Some (concat (map units_of_point ps))"
proof (induction ps)
  case (Cons p ps)
  then show ?case using decode_form_point [of p "plus_to_space (concat (map form_point ps))"]
    by (simp add: plus_to_space_def)
qed (simp add: plus_to_space_def)

definition form_text :: "jsstr \<Rightarrow> jsstr" where
  "form_text s = concat (map (\<lambda>p. form_point (the p)) (code_points s))"

lemma form_text_round:
  assumes "well_formed s"
  shows "encode_component s = Inr (form_text s)" "decode_component (form_text s) = Inr s"
    "set (form_text s) \<inter> {38, 61, 63} = {}"
proof -
  from assms have s: "\<forall>c\<in>set s. c < 65536" "None \<notin> set (code_points s)" by (auto simp: well_formed_def)
  let ?ps = "map the (code_points s)"
  have scalar: "\<forall>p\<in>set ?ps. scalar p"
  proof
    fix p
    assume "p \<in> set ?ps"
    then obtain x where "x \<in> set (code_points s)" "p = the x" by auto
    with s(2) have "Some p \<in> set (code_points s)" by (cases x) auto
    with code_points_valid [OF s(1)] show "scalar p" by (simp add: scalar_def)
  qed
  have form: "form_text s = concat (map form_point ?ps)" by (simp add: form_text_def comp_def)
  have "encode_uri s = Some (concat (map encode_point ?ps))"
    using encode_points_Some [OF s(2)] by (simp add: encode_uri_def comp_def)
  with space_to_plus_points [OF scalar] form show "encode_component s = Inr (form_text s)"
    by (simp add: encode_component_def)
  have "concat (map units_of_point ?ps) = s" using code_points_units [OF s] by (simp add: comp_def)
  with decode_form_points [OF scalar] form show "decode_component (form_text s) = Inr s"
    by (simp add: decode_component_def)
  have "set (form_point p) \<inter> {38, 61, 63} = {}" if "scalar p" for p
    using encode_point_plain [OF that] by (auto simp: form_point_def)
  with scalar show "set (form_text s) \<inter> {38, 61, 63} = {}" unfolding form by fastforce
qed

lemma split_at_equals:
  assumes "61 \<notin> set k" "61 \<notin> set v"
  shows "split_on 61 (k @ 61 # v) = [k, v]"
  using split_on_join [of "[k, v]" 61] assms by simp

lemma parse_printed_pair:
  assumes "well_formed k" "well_formed v"
  shows "print_pair (k, v) = Inr (form_text k @ [61] @ form_text v)"
    "parse_pair (form_text k @ [61] @ form_text v) = Inr (k, v)"
proof -
  note k = form_text_round [OF assms(1)] and v = form_text_round [OF assms(2)]
  show "print_pair (k, v) = Inr (form_text k @ [61] @ form_text v)"
    by (simp add: print_pair_def bindE_def k(1) v(1) js_def)
  have "split_on 61 (form_text k @ 61 # form_text v) = [form_text k, form_text v]"
    using k(3) v(3) by (intro split_at_equals) auto
  then show "parse_pair (form_text k @ [61] @ form_text v) = Inr (k, v)"
    by (simp add: parse_pair_def Let_def bindE_def k(2) v(2))
qed

text \<open>Parameters whose names and values are well-formed texts print, and parsing the text, with or without a question mark in front, gives them back in order, duplicates and empty ones included.\<close>

theorem params_round_trip:
  assumes "\<forall>(k, v)\<in>set ps. well_formed k \<and> well_formed v"
  shows "\<exists>text. params_print ps = Inr text \<and> params_parse text = Inr ps \<and> params_parse (js ''?'' @ text) = Inr ps"
proof -
  let ?part = "\<lambda>(k, v). form_text k @ [61] @ form_text v"
  let ?s = "join [38] (map ?part ps)"
  have "mapE print_pair ps = Inr (map ?part ps)"
    unfolding mapE_Inr using assms parse_printed_pair(1) by (intro list_all2_mapI) auto
  then have "params_print ps = Inr ?s" by (simp add: params_print_def bindE_def js_def)
  moreover have "mapE parse_pair (map ?part ps) = Inr ps"
    unfolding mapE_Inr list_all2_map1 list_all2_same using assms parse_printed_pair(2) by auto
  moreover have parts: "filter (\<lambda>part. part \<noteq> []) (split_on 38 ?s) = map ?part ps"
  proof (cases "ps = []")
    case False
    have "\<forall>w\<in>set (map ?part ps). 38 \<notin> set w" using assms form_text_round(3) by fastforce
    with False have "split_on 38 ?s = map ?part ps" by (intro split_on_join) simp_all
    then show ?thesis by (auto simp: filter_id_conv)
  qed simp
  moreover have "63 \<notin> set ?s"
  proof -
    have "\<forall>w\<in>set (map ?part ps). 63 \<notin> set w" using assms form_text_round(3) by fastforce
    with set_join_subset [of "[38]" "map ?part ps"] show ?thesis by auto
  qed
  ultimately show ?thesis
    by (auto simp: params_parse_def Let_def js_def split: list.split)
qed

lemma params_round_trip_witness:
  "\<exists>text. params_print [(js ''a b'', js ''1&2=3''), ([], [])] = Inr text
     \<and> params_parse text = Inr [(js ''a b'', js ''1&2=3''), ([], [])]"
  using params_round_trip [of "[(js ''a b'', js ''1&2=3''), ([], [])]"]
  by (auto simp: well_formed_def js_def is_high_def is_low_def)

end
