(* ===== verification/Js_Compare.thy ===== *)
theory Js_Compare
  imports Js_Result
begin

text \<open>
  Comparing values: identity, with a flag for two objects that are one and the same, the conversions
  to primitive values and to numbers, and the order the relational operators use.
\<close>

definition strict_equal :: "bool \<Rightarrow> jsval \<Rightarrow> jsval \<Rightarrow> bool" where
  "strict_equal same v w =
     (if is_object v \<and> is_object w then same else v = w \<and> v \<noteq> JNum NaN)"

definition type_of :: "jsval \<Rightarrow> jsstr" where
  "type_of v =
     (case v of
        JUndef \<Rightarrow> js ''undefined''
      | JBool _ \<Rightarrow> js ''boolean''
      | JNum _ \<Rightarrow> js ''number''
      | JStr _ \<Rightarrow> js ''string''
      | _ \<Rightarrow> js ''object'')"

text \<open>An object has no \<open>valueOf\<close> that answers with a primitive value, so its text is the primitive.\<close>

definition to_primitive :: "jsval \<Rightarrow> exn + jsval" where
  "to_primitive v = (if is_object v then bindE (to_string v) (\<lambda>s. Inr (JStr s)) else Inr v)"

fun primitive_number :: "jsval \<Rightarrow> jsnum" where
  "primitive_number JNull = Fin 0"
| "primitive_number (JBool b) = (if b then Fin 1 else Fin 0)"
| "primitive_number (JNum x) = x"
| "primitive_number (JStr s) = str_to_num s"
| "primitive_number _ = NaN"

definition to_number :: "jsval \<Rightarrow> exn + jsnum" where \<comment> \<open>\<open>Number(v)\<close>\<close>
  "to_number v = bindE (to_primitive v) (\<lambda>p. Inr (primitive_number p))"

fun str_less :: "jsstr \<Rightarrow> jsstr \<Rightarrow> bool" where
  "str_less s [] = False"
| "str_less [] (d # t) = True"
| "str_less (c # s) (d # t) = (c < d \<or> c = d \<and> str_less s t)"

text \<open>\<open>v < w\<close>, \<open>None\<close> when a number is missing on either side.\<close>

definition less_than :: "jsval \<Rightarrow> jsval \<Rightarrow> exn + bool option" where
  "less_than v w =
     bindE (to_primitive v) (\<lambda>p. bindE (to_primitive w) (\<lambda>q.
     Inr (case (p, q) of
       (JStr s, JStr t) \<Rightarrow> Some (str_less s t)
     | _ \<Rightarrow>
         (let x = primitive_number p; y = primitive_number q in
          if x = NaN \<or> y = NaN then None else Some (num_less x y)))))"

lemma less_than_numbers [simp]:
  "less_than (JNum x) (JNum y) = Inr (if x = NaN \<or> y = NaN then None else Some (num_less x y))"
  by (simp add: less_than_def to_primitive_def is_object_def bindE_def Let_def)

end
