(* ===== verification/Script_Expect.thy ===== *)
theory Script_Expect
  imports Script_Stores Js_Compare
begin

text \<open>
  Assertions and tests of a script, from \<open>runtime_bootstrap_v2.js\<close>: the chain behind \<open>pm.expect\<close> with
  its pending negation, the recorder behind \<open>pm.test\<close>, and the checks on the response. Whether two
  objects are one and the same is a flag of the calls that compare by identity; a regular expression
  is what its \<open>test\<close> answers and the text it prints as.
\<close>

section \<open>Comparing values\<close>

definition stringified :: "jsval \<Rightarrow> jsstr option" where \<comment> \<open>\<open>JSON.stringify(v)\<close>, \<open>None\<close> for \<open>undefined\<close>\<close>
  "stringified v = (if v = JUndef then None else Some (json_stringify 0 v))"

definition json_shown :: "jsval \<Rightarrow> jsstr" where \<comment> \<open>\<open>${JSON.stringify(v)}\<close>\<close>
  "json_shown v = (case stringified v of Some s \<Rightarrow> s | None \<Rightarrow> js ''undefined'')"

definition deep_equal :: "jsval \<Rightarrow> jsval \<Rightarrow> bool" where
  "deep_equal v w \<longleftrightarrow> stringified v = stringified w"

section \<open>Properties\<close>

definition own_property :: "jsval \<Rightarrow> jsstr \<Rightarrow> jsval option" where
  "own_property v k =
     (case v of
        JObj ps \<Rightarrow> map_of ps k
      | JArr _ \<Rightarrow> if k = js ''length'' then Some (fld_str v k) else map_of (spread v) k
      | JStr _ \<Rightarrow> if k = js ''length'' then Some (fld_str v k) else map_of (spread v) k
      | _ \<Rightarrow> None)"

text \<open>
  A property of an object as \<open>JSON.stringify\<close> sees it: an inherited function prints as
  \<open>undefined\<close> does, and the prototype reached through \<open>__proto__\<close> as an empty value.
\<close>

definition printed_property :: "jsval \<Rightarrow> jsstr \<Rightarrow> jsval" where
  "printed_property v k =
     (case own_property v k of
        Some w \<Rightarrow> w
      | None \<Rightarrow> if k = js ''__proto__'' then (if is_array v then JArr [] else JObj []) else JUndef)"

definition object_keys :: "jsval \<Rightarrow> jsstr list" where \<comment> \<open>\<open>Object.keys(v)\<close>\<close>
  "object_keys v = map fst (spread v)"

section \<open>The chain of an expectation\<close>

datatype expect_call =
    Chain \<comment> \<open>\<open>to\<close>, \<open>be\<close> and the other words that only return the expectation\<close>
  | Negate
  | Equal jsval bool
  | Eql jsval
  | Include jsval bool \<comment> \<open>whether the object looked for is an element\<close>
  | HasProperty jsval
  | HasKeys "jsval list"
  | Above jsval
  | Below jsval
  | AtLeast jsval
  | AtMost jsval
  | Match "jsstr \<Rightarrow> bool" jsstr
  | LengthOf jsval bool
  | TypeIs jsval
  | IsOk
  | IsTrue
  | IsFalse
  | IsNull
  | IsUndefined
  | IsEmpty

definition contains :: "jsval \<Rightarrow> jsval \<Rightarrow> bool \<Rightarrow> exn + bool" where
  \<comment> \<open>\<open>typeof v?.includes === "function" && v.includes(w)\<close>\<close>
  "contains v w same =
     (case v of
        JStr s \<Rightarrow> bindE (to_string w) (\<lambda>t. Inr (contains_str t s))
      | JArr xs \<Rightarrow> Inr (if is_object w then same else list_ex (\<lambda>x. x = w) xs)
      | _ \<Rightarrow> Inr False)"

definition agrees_on :: "jsval \<Rightarrow> jsval \<Rightarrow> bool" where
  \<comment> \<open>\<open>Object.keys(w || {}).every(key => __deepEqual(v[key], w[key]))\<close>\<close>
  "agrees_on v w =
     list_all (\<lambda>(k, x). deep_equal (printed_property v k) x) (spread (or_else w (JObj [])))"

definition included :: "jsval \<Rightarrow> jsval \<Rightarrow> bool \<Rightarrow> exn + bool" where
  "included v w same =
     bindE (contains v w same) (\<lambda>found. Inr (found \<or> is_object v \<and> agrees_on v w))"

fun flat :: "jsval list \<Rightarrow> jsval list" where
  "flat [] = []"
| "flat (x # xs) = (case x of JArr ys \<Rightarrow> ys @ flat xs | _ \<Rightarrow> x # flat xs)"

fun owns_every :: "jsval \<Rightarrow> jsval list \<Rightarrow> exn + bool" where
  "owns_every v [] = Inr True"
| "owns_every v (k # ks) =
     bindE (to_string k) (\<lambda>s.
     if nullish v then Inl TypeError
     else if own_property v s = None then Inr False
     else owns_every v ks)"

definition joined_keys :: "jsval list \<Rightarrow> exn + jsstr" where
  "joined_keys ks = bindE (mapE (\<lambda>k. if nullish k then Inr [] else to_string k) ks) (\<lambda>ws. Inr (join (js '', '') ws))"

definition comparison :: "exn + bool option \<Rightarrow> bool \<Rightarrow> jsval \<Rightarrow> jsval \<Rightarrow> string \<Rightarrow> exn + bool \<times> jsstr" where
  "comparison outcome wanted v w words =
     bindE outcome (\<lambda>r. bindE (to_string v) (\<lambda>s. bindE (to_string w) (\<lambda>t.
     Inr (r = Some wanted, js ''expected '' @ s @ js words @ t))))"

definition actual_type :: "jsval \<Rightarrow> jsstr" where
  "actual_type v = (if is_array v then js ''array'' else type_of v)"

text \<open>Whether a check passes, with the message for the case that it does not.\<close>

definition verdict :: "jsval \<Rightarrow> expect_call \<Rightarrow> exn + bool \<times> jsstr" where
  "verdict v call =
     (case call of
        Equal w same \<Rightarrow>
          Inr (strict_equal same v w, js ''expected '' @ json_shown v @ js '' to equal '' @ json_shown w)
      | Eql w \<Rightarrow> Inr (deep_equal v w, js ''expected '' @ json_shown v @ js '' to deeply equal '' @ json_shown w)
      | Include w same \<Rightarrow>
          bindE (included v w same) (\<lambda>p. Inr (p, js ''expected value to include '' @ json_shown w))
      | HasProperty k \<Rightarrow>
          bindE (to_string k) (\<lambda>s.
          Inr (own_property v s \<noteq> None, js ''expected value to have property '' @ s))
      | HasKeys ks \<Rightarrow>
          bindE (owns_every v (flat ks)) (\<lambda>p. bindE (joined_keys (flat ks)) (\<lambda>s.
          Inr (p, js ''expected value to contain keys '' @ s)))
      | Above w \<Rightarrow> comparison (less_than w v) True v w '' to be above ''
      | Below w \<Rightarrow> comparison (less_than v w) True v w '' to be below ''
      | AtLeast w \<Rightarrow> comparison (less_than v w) False v w '' to be at least ''
      | AtMost w \<Rightarrow> comparison (less_than w v) False v w '' to be at most ''
      | Match test source \<Rightarrow>
          bindE (to_string v) (\<lambda>s. Inr (test s, js ''expected '' @ s @ js '' to match '' @ source))
      | LengthOf w same \<Rightarrow>
          (let n = fld v ''length'' in
           bindE (to_string n) (\<lambda>s. bindE (to_string w) (\<lambda>t.
           Inr (strict_equal same n w, js ''expected length '' @ s @ js '' to equal '' @ t))))
      | TypeIs t \<Rightarrow>
          bindE (to_string t) (\<lambda>s.
          Inr (actual_type v = to_lower s, js ''expected '' @ actual_type v @ js '' to be '' @ to_lower s))
      | IsOk \<Rightarrow> Inr (truthy v, js ''expected value to be truthy'')
      | IsTrue \<Rightarrow> Inr (v = JBool True, js ''expected value to be true'')
      | IsFalse \<Rightarrow> Inr (v = JBool False, js ''expected value to be false'')
      | IsNull \<Rightarrow> Inr (v = JNull, js ''expected value to be null'')
      | IsUndefined \<Rightarrow> Inr (v = JUndef, js ''expected value to be undefined'')
      | IsEmpty \<Rightarrow> Inr (\<not> nullish v \<and> object_keys v = [], js ''expected value to be empty'')
      | _ \<Rightarrow> Inr (True, []))"

text \<open>
  One access of the chain: what it raises, if anything, and the negation it leaves pending.
  \<open>property\<close> goes on to read \<open>arguments\<close>; it is an arrow function of a script that runs at the top
  level, where nothing has that name.
\<close>

definition expect_step :: "jsval \<Rightarrow> expect_call \<Rightarrow> bool \<Rightarrow> (exn + unit) \<times> bool" where
  "expect_step v call negate =
     (case call of
        Chain \<Rightarrow> (Inr (), negate)
      | Negate \<Rightarrow> (Inr (), \<not> negate)
      | _ \<Rightarrow>
          (case verdict v call of
             Inl e \<Rightarrow> (Inl e, negate)
           | Inr (passed, message) \<Rightarrow>
               (if passed = negate then Inl (ErrorMsg message)
                else case call of HasProperty _ \<Rightarrow> Inl ReferenceError | _ \<Rightarrow> Inr (), False)))"

fun expect_chain :: "jsval \<Rightarrow> expect_call list \<Rightarrow> bool \<Rightarrow> exn + bool" where
  "expect_chain v [] negate = Inr negate"
| "expect_chain v (c # cs) negate =
     (case expect_step v c negate of
        (Inl e, _) \<Rightarrow> Inl e
      | (Inr _, negate') \<Rightarrow> expect_chain v cs negate')"

definition expectation :: "jsval \<Rightarrow> expect_call list \<Rightarrow> exn + unit" where
  "expectation v calls = bindE (expect_chain v calls False) (\<lambda>_. Inr ())"

end
