(* ===== verification/Script_Tests.thy ===== *)
theory Script_Tests
  imports Script_Expect Script_Bytes
begin

text \<open>
  The recorder behind \<open>pm.test\<close> and the checks of \<open>pm.response.to\<close>, from \<open>runtime_bootstrap_v2.js\<close>. A
  test's callback is the tree of its interactions with \<open>done\<close>: what it does next may depend on
  whether the call raised.
\<close>

section \<open>Results\<close>

datatype thrown = ErrorObject jsstr jsstr \<comment> \<open>name and message\<close> | Thrown jsval

definition thrown_truthy :: "thrown \<Rightarrow> bool" where
  "thrown_truthy t = (case t of ErrorObject _ _ \<Rightarrow> True | Thrown v \<Rightarrow> truthy v)"

definition thrown_text :: "thrown \<Rightarrow> exn + jsstr" where \<comment> \<open>\<open>String(error?.message || error)\<close>\<close>
  "thrown_text t =
     (case t of
        ErrorObject name message \<Rightarrow> Inr (if message = [] then name else message)
      | Thrown v \<Rightarrow> to_string (or_else (fld v ''message'') v))"

record test_result =
  tr_name :: jsstr
  tr_passed :: bool
  tr_skipped :: bool
  tr_error :: "jsstr option"

definition record_test :: "jsval \<Rightarrow> thrown \<Rightarrow> bool \<Rightarrow> test_result list \<Rightarrow> exn + test_result list" where
  "record_test name error skipped results =
     bindE (to_string name) (\<lambda>n.
     let result = \<lparr>tr_name = n, tr_passed = (\<not> thrown_truthy error \<and> \<not> skipped), tr_skipped = skipped, tr_error = None\<rparr> in
     if thrown_truthy error
     then bindE (thrown_text error) (\<lambda>m. Inr (results @ [result\<lparr>tr_error := Some m\<rparr>]))
     else Inr (results @ [result]))"

section \<open>Running a test\<close>

record test_run =
  rn_finished :: bool
  rn_results :: "test_result list"

definition finish :: "jsval \<Rightarrow> thrown \<Rightarrow> test_run \<Rightarrow> (exn + unit) \<times> test_run" where \<comment> \<open>\<open>done(error)\<close>\<close>
  "finish name error run =
     (if rn_finished run then (Inr (), run)
      else
        let run' = run\<lparr>rn_finished := True\<rparr> in
        case record_test name error False (rn_results run) of
          Inl e \<Rightarrow> (Inl e, run')
        | Inr results \<Rightarrow> (Inr (), run'\<lparr>rn_results := results\<rparr>))"

datatype test_body =
    CallDone thrown "exn option \<Rightarrow> test_body"
  | Returns bool \<comment> \<open>whether what it returns is a promise\<close>
  | Raises thrown

datatype test_end = Ended | Pending

text \<open>
  \<open>done()\<close> passes \<open>undefined\<close>. What it raises after the callback returned is caught and reported
  to \<open>done\<close> again, which has finished by then; what it raises in the handler leaves the test.
\<close>

primrec run_body :: "test_body \<Rightarrow> jsval \<Rightarrow> bool \<Rightarrow> test_run \<Rightarrow> (exn + test_end) \<times> test_run" where
  "run_body (CallDone error next_step) name takes_done run =
     (case finish name error run of
        (r, run') \<Rightarrow> run_body (next_step (case r of Inl e \<Rightarrow> Some e | Inr _ \<Rightarrow> None)) name takes_done run')"
| "run_body (Returns promise) name takes_done run =
     (if promise then (Inr Pending, run)
      else if takes_done then (Inr Ended, run)
      else (Inr Ended, snd (finish name (Thrown JUndef) run)))"
| "run_body (Raises error) name takes_done run =
     (case finish name error run of
        (Inr _, run') \<Rightarrow> (Inr Ended, run')
      | (Inl e, run') \<Rightarrow> (Inl e, run'))"

definition run_test :: "jsval \<Rightarrow> bool \<Rightarrow> test_body \<Rightarrow> test_result list \<Rightarrow> (exn + test_end) \<times> test_run" where
  "run_test name takes_done body results =
     run_body body name takes_done \<lparr>rn_finished = False, rn_results = results\<rparr>"

text \<open>What happens after the call: timers call \<open>done\<close>, or the promise of the test settles.\<close>

definition later_calls :: "jsval \<Rightarrow> thrown list \<Rightarrow> test_run \<Rightarrow> test_run" where
  "later_calls name errors run = fold (\<lambda>error r. snd (finish name error r)) errors run"

definition skip_test :: "jsval \<Rightarrow> test_result list \<Rightarrow> exn + test_result list" where
  "skip_test name results = record_test name (Thrown JNull) True results"

section \<open>The response\<close>

record script_response =
  sr_code :: jsnum
  sr_status :: jsstr
  sr_headers :: "list_entry list"
  sr_time :: jsnum
  sr_size :: jsnum
  sr_stream :: "nat list"
  sr_text :: jsstr

definition header_map :: "jsval \<Rightarrow> exn + list_entry list" where
  "header_map headers =
     mapE (\<lambda>(k, v). bindE (to_string v) (\<lambda>s.
         Inr \<lparr>le_key = k, le_value = s, le_sensitive = False, le_disabled = False\<rparr>))
       (spread (or_else headers (JObj [])))"

definition response_of :: "jsval \<Rightarrow> exn + script_response" where \<comment> \<open>of what the host passes, never \<open>undefined\<close>\<close>
  "response_of raw =
     bindE (header_map (or_else (fld raw ''headers'') (JObj []))) (\<lambda>headers.
     bindE (to_number (or_else (or_else (fld raw ''statusCode'') (fld raw ''code'')) (JNum (Fin 0)))) (\<lambda>code.
     bindE (to_string (or_else (fld raw ''body'') (JStr []))) (\<lambda>body.
     bindE (to_number (or_else (fld raw ''responseSize'') (JNum (nnum (length body))))) (\<lambda>bytes.
     bindE (to_string (or_else (fld raw ''status'') (JStr []))) (\<lambda>status.
     bindE (to_number (or_else (fld raw ''responseTimeMs'') (JNum (Fin 0)))) (\<lambda>time.
     bindE (encode_utf8 body) (\<lambda>stream.
     Inr \<lparr>sr_code = code, sr_status = status, sr_headers = headers, sr_time = time, sr_size = bytes,
          sr_stream = stream, sr_text = body\<rparr>)))))))"

definition response_json :: "script_response \<Rightarrow> exn + jsval" where
  "response_json r = (case json_parse (sr_text r) of Some v \<Rightarrow> Inr v | None \<Rightarrow> Inl SyntaxError)"

definition have_status :: "script_response \<Rightarrow> jsval \<Rightarrow> exn + unit" where
  "have_status r code = expectation (JNum (sr_code r)) [Chain, Equal code False]"

definition have_header :: "script_response \<Rightarrow> jsval \<Rightarrow> jsval option \<Rightarrow> exn + unit" where
  "have_header r name v =
     bindE (list_has name (sr_headers r)) (\<lambda>present.
     bindE (expectation (JBool present) [Chain, Equal (JBool True) False]) (\<lambda>_.
     case v of
       None \<Rightarrow> Inr ()
     | Some w \<Rightarrow>
         bindE (list_get name (sr_headers r)) (\<lambda>s.
         expectation (case s of Some t \<Rightarrow> JStr t | None \<Rightarrow> JUndef) [Chain, Equal w False])))"

text \<open>
  Following a path reads own properties; a segment that names a property of a built-in prototype
  reaches a function, which is not modelled.
\<close>

fun follow_path :: "(jsval \<Rightarrow> jsstr \<Rightarrow> bool) \<Rightarrow> jsstr list \<Rightarrow> jsval \<Rightarrow> exn + jsval" where
  "follow_path inherits [] v = Inr v"
| "follow_path inherits (k # ks) v =
     (if nullish v then follow_path inherits ks JUndef
      else case own_property v k of
        Some w \<Rightarrow> follow_path inherits ks w
      | None \<Rightarrow> if inherits v k then Inl IllTyped else follow_path inherits ks JUndef)"

definition have_json_body :: "(jsval \<Rightarrow> jsstr \<Rightarrow> bool) \<Rightarrow> script_response \<Rightarrow> jsval \<Rightarrow> jsval option \<Rightarrow> exn + unit" where
  "have_json_body inherits r path v =
     bindE (response_json r) (\<lambda>body.
     bindE (if truthy path then bindE (to_string path) (\<lambda>p. follow_path inherits (split_on 46 p) body) else Inr body) (\<lambda>current.
     case v of
       Some w \<Rightarrow> expectation current [Chain, Eql w]
     | None \<Rightarrow> expectation current [Chain, Negate, Equal JUndef False]))"

definition have_body :: "script_response \<Rightarrow> jsval \<Rightarrow> exn + unit" where
  "have_body r v = expectation (JStr (sr_text r)) [Chain, Include v False]"

definition in_range :: "nat \<Rightarrow> nat option \<Rightarrow> script_response \<Rightarrow> exn + unit" where
  "in_range low high r =
     expectation (JBool (sr_code r \<noteq> NaN \<and> \<not> num_less (sr_code r) (nnum low)
         \<and> (case high of None \<Rightarrow> True | Some n \<Rightarrow> num_less (sr_code r) (nnum n))))
       [Chain, Equal (JBool True) False]"

definition be_success :: "script_response \<Rightarrow> exn + unit" where
  "be_success = in_range 200 (Some 400)"

definition be_error :: "script_response \<Rightarrow> exn + unit" where
  "be_error = in_range 400 None"

definition be_client_error :: "script_response \<Rightarrow> exn + unit" where
  "be_client_error = in_range 400 (Some 500)"

definition be_server_error :: "script_response \<Rightarrow> exn + unit" where
  "be_server_error = in_range 500 None"

end
