(* ===== verification/Expect_Facts.thy ===== *)
theory Expect_Facts
  imports Script_Tests Json_Copy
begin

text \<open>
  Laws of assertions and tests: when an expectation holds, what deep equality compares, and which
  result a test records.
\<close>

section \<open>Deep equality\<close>

lemma print_inject:
  assumes "runtime_value v" "runtime_value w"
  shows "json_stringify n v = json_stringify n w \<longleftrightarrow> json_copy v = json_copy w"
proof
  assume "json_stringify n v = json_stringify n w"
  with copied [OF assms(1), of n] copied [OF assms(2), of n] show "json_copy v = json_copy w" by simp
next
  assume "json_copy v = json_copy w"
  then show "json_stringify n v = json_stringify n w" unfolding json_stringify_def by (metis print_copy(1))
qed

lemma deep_equal_copies:
  assumes "runtime_value v" "runtime_value w"
  shows "deep_equal v w \<longleftrightarrow> (v = JUndef \<longleftrightarrow> w = JUndef) \<and> json_copy v = json_copy w"
  using print_inject [OF assms, of 0] by (auto simp: deep_equal_def stringified_def)

text \<open>C24: Deep equality of two values is equality of their copies through JSON, with \<open>undefined\<close> equal only to itself: members in another order make a difference, \<open>NaN\<close> and \<open>null\<close> make none.\<close>

theorem deep_equal_spec:
  assumes "runtime_value v" "runtime_value w"
  shows "expectation v [Chain, Eql w] = Inr () \<longleftrightarrow>
    (v = JUndef \<longleftrightarrow> w = JUndef) \<and> json_copy v = json_copy w"
  using deep_equal_copies [OF assms] by (simp add: expectation_def expect_step_def verdict_def bindE_def)

lemma deep_equal_spec_witness:
  "expectation (JArr [JNum NaN, JStr []]) [Chain, Eql (JArr [JNull, JStr []])] = Inr ()
   \<and> expectation (JObj [([97], JNull), ([98], JNull)]) [Chain, Eql (JObj [([98], JNull), ([97], JNull)])] \<noteq> Inr ()"
proof
  show "expectation (JArr [JNum NaN, JStr []]) [Chain, Eql (JArr [JNull, JStr []])] = Inr ()"
    by (subst deep_equal_spec) simp_all
  have "index_key [97] = None" "index_key [98] = None" by (simp_all add: index_key_def is_digit_def)
  then show "expectation (JObj [([97], JNull), ([98], JNull)]) [Chain, Eql (JObj [([98], JNull), ([97], JNull)])] \<noteq> Inr ()"
    by (subst deep_equal_spec) (simp_all add: ordered_def key_before_def)
qed

section \<open>Chains\<close>

text \<open>The checks of a chain, each with whether it is negated: a negation counts for the next check only.\<close>

fun demands :: "expect_call list \<Rightarrow> bool \<Rightarrow> (expect_call \<times> bool) list" where
  "demands [] negate = []"
| "demands (c # cs) negate =
     (case c of
        Chain \<Rightarrow> demands cs negate
      | Negate \<Rightarrow> demands cs (\<not> negate)
      | _ \<Rightarrow> (c, negate) # demands cs False)"

definition met :: "jsval \<Rightarrow> expect_call \<times> bool \<Rightarrow> bool" where
  "met v d \<longleftrightarrow> (\<exists>m. verdict v (fst d) = Inr (\<not> snd d, m)) \<and> (\<nexists>k. fst d = HasProperty k)"

definition is_check :: "expect_call \<Rightarrow> bool" where
  "is_check c \<longleftrightarrow> c \<noteq> Chain \<and> c \<noteq> Negate"

lemma demands_check: "is_check c \<Longrightarrow> demands (c # cs) negate = (c, negate) # demands cs False"
  by (cases c) (simp_all add: is_check_def)

lemma expect_step_check:
  "is_check c \<Longrightarrow> expect_step v c negate =
     (case verdict v c of
        Inl e \<Rightarrow> (Inl e, negate)
      | Inr (passed, message) \<Rightarrow>
          (if passed = negate then Inl (ErrorMsg message)
           else if \<exists>k. c = HasProperty k then Inl ReferenceError else Inr (), False))"
  by (cases c) (auto simp: expect_step_def is_check_def split: sum.split)

lemma step_met:
  assumes "is_check c"
  shows "(\<exists>n'. expect_step v c n = (Inr (), n')) \<longleftrightarrow> met v (c, n)"
    and "expect_step v c n = (Inr (), n') \<Longrightarrow> n' = False"
  unfolding expect_step_check [OF assms] met_def by (auto split: sum.splits prod.splits if_splits)

lemma chain_check:
  assumes "is_check c"
  shows "(\<exists>n'. expect_chain v (c # cs) n = Inr n') \<longleftrightarrow> met v (c, n) \<and> (\<exists>n'. expect_chain v cs False = Inr n')"
proof (cases "expect_step v c n")
  case (Pair r n')
  with step_met [OF assms, of v n] show ?thesis by (cases r) auto
qed

lemma chain_met: "(\<exists>n'. expect_chain v cs n = Inr n') \<longleftrightarrow> list_all (met v) (demands cs n)"
proof (induction cs arbitrary: n)
  case (Cons c cs)
  consider "c = Chain" | "c = Negate" | "is_check c" by (auto simp: is_check_def)
  then show ?case
  proof cases
    case 3
    then show ?thesis using Cons.IH by (simp add: demands_check chain_check del: demands.simps expect_chain.simps)
  qed (simp_all add: expect_step_def Cons.IH)
qed simp

lemma expectation_met: "expectation v cs = Inr () \<longleftrightarrow> list_all (met v) (demands cs False)"
  using chain_met [of v cs False] by (auto simp: expectation_def bindE_def split: sum.splits)

text \<open>C23: An expectation whose chain does not use \<open>property\<close> holds exactly when each of its checks
  holds or, after an odd number of \<open>not\<close>s since the check before it, fails; a check that raises does
  neither.\<close>

theorem expectation_spec:
  assumes "\<forall>k. HasProperty k \<notin> set cs"
  shows "expectation v cs = Inr () \<longleftrightarrow>
    list_all (\<lambda>(c, negated). \<exists>m. verdict v c = Inr (\<not> negated, m)) (demands cs False)"
proof -
  have "c \<in> set cs" if "(c, b) \<in> set (demands cs n)" for c b n
    using that by (induction cs n rule: demands.induct) (auto split: expect_call.splits)
  with assms have "\<nexists>k. c = HasProperty k" if "(c, b) \<in> set (demands cs False)" for c b
    using that by blast
  then show ?thesis unfolding expectation_met list_all_iff met_def by fastforce
qed

lemma expectation_spec_witness:
  "expectation JNull [Chain, Negate, Eql JUndef, Chain, Eql JNull] = Inr ()"
  by (subst expectation_spec) (simp_all add: verdict_def deep_equal_def stringified_def)

text \<open>\<open>property\<close> never passes: after a check that holds it raises.\<close>

lemma property_fails: "HasProperty k \<in> set cs \<Longrightarrow> expectation v cs \<noteq> Inr ()"
proof -
  have "\<exists>n'. (HasProperty k, n') \<in> set (demands cs n)" if "HasProperty k \<in> set cs" for n
    using that
  proof (induction cs arbitrary: n)
    case (Cons c cs)
    then show ?case by (cases c) auto
  qed simp
  moreover assume "HasProperty k \<in> set cs"
  ultimately obtain n' where "(HasProperty k, n') \<in> set (demands cs False)" by blast
  then show ?thesis by (force simp: expectation_met list_all_iff met_def)
qed

text \<open>\<open>include\<close> of a value without properties passes on every array and object.\<close>

lemma include_vacuous:
  assumes "is_object v" "spread w = []"
  shows "expectation v [Chain, Include w same] = Inr ()"
proof -
  have "spread (or_else w (JObj [])) = []" using assms by (auto simp: or_else_def spread_def)
  then have "agrees_on v w" by (simp add: agrees_on_def)
  moreover have "contains v w same \<noteq> Inl e" for e using assms(1) by (cases v) (simp_all add: is_object_def contains_def)
  ultimately have "included v w same = Inr True"
    using assms(1) by (cases "contains v w same") (auto simp: included_def bindE_def)
  then show ?thesis by (simp add: expectation_def expect_step_def verdict_def bindE_def)
qed

section \<open>Tests\<close>

text \<open>The error the first report of a test gives, if its callback reports at all.\<close>

definition first_report :: "test_body \<Rightarrow> bool \<Rightarrow> thrown option" where
  "first_report body takes_done =
     (case body of
        CallDone error _ \<Rightarrow> Some error
      | Returns promise \<Rightarrow> if promise \<or> takes_done then None else Some (Thrown JUndef)
      | Raises error \<Rightarrow> Some error)"

definition recorded :: "jsval \<Rightarrow> thrown \<Rightarrow> test_result list \<Rightarrow> test_result list" where
  "recorded name error results = (case record_test name error False results of Inr rs \<Rightarrow> rs | Inl _ \<Rightarrow> results)"

lemma finish_finished: "rn_finished run \<Longrightarrow> finish name error run = (Inr (), run)"
  by (simp add: finish_def)

lemma finish_first:
  assumes "\<not> rn_finished run"
  shows "snd (finish name error run) = \<lparr>rn_finished = True, rn_results = recorded name error (rn_results run)\<rparr>"
  using assms by (cases run) (auto simp: finish_def recorded_def Let_def split: sum.split)

lemma body_finished: "rn_finished run \<Longrightarrow> snd (run_body body name takes_done run) = run"
  by (induction body arbitrary: run) (simp_all add: finish_finished)

lemma later_finished: "rn_finished run \<Longrightarrow> later_calls name errors run = run"
  by (induction errors) (simp_all add: later_calls_def finish_finished)

lemma run_body_first:
  assumes "\<not> rn_finished run"
  shows "snd (run_body body name takes_done run) =
    (case first_report body takes_done of
       None \<Rightarrow> run
     | Some error \<Rightarrow> \<lparr>rn_finished = True, rn_results = recorded name error (rn_results run)\<rparr>)"
proof (cases body)
  case (CallDone error next_step)
  obtain r run' where f: "finish name error run = (r, run')" by (cases "finish name error run")
  with finish_first [OF assms, of name error] show ?thesis
    by (simp add: CallDone first_report_def body_finished)
next
  case (Returns promise)
  with finish_first [OF assms, of name "Thrown JUndef"] show ?thesis
    by (auto simp: first_report_def split: prod.split sum.split)
next
  case (Raises error)
  with finish_first [OF assms, of name error] show ?thesis
    by (auto simp: first_report_def split: prod.split sum.split)
qed

text \<open>C25: A test records one result at most, that of the first report, whether the callback calls \<open>done\<close>, returns or raises, and whatever it, a timer or its promise reports later.\<close>

theorem test_records_once:
  "rn_results (later_calls name errors (snd (run_test name takes_done body results))) =
    (case first_report body takes_done of
       Some error \<Rightarrow> recorded name error results
     | None \<Rightarrow> (case errors of [] \<Rightarrow> results | error # _ \<Rightarrow> recorded name error results))"
proof -
  let ?run = "\<lparr>rn_finished = False, rn_results = results\<rparr>"
  have first: "later_calls name (error # es) ?run = \<lparr>rn_finished = True, rn_results = recorded name error results\<rparr>" for error es
  proof -
    have "later_calls name (error # es) ?run = later_calls name es (snd (finish name error ?run))"
      by (simp add: later_calls_def)
    then show ?thesis by (simp add: finish_first later_finished)
  qed
  have "later_calls name [] ?run = ?run" by (simp add: later_calls_def)
  with first show ?thesis
    by (simp add: run_test_def run_body_first later_finished split: option.split list.split)
qed

section \<open>Expectations in a test\<close>





end
