(* ===== verification/Script_State.thy ===== *)
theory Script_State
  imports Script_Expect
begin

text \<open>
  The monitor state behind \<open>pm.state\<close>, from \<open>runtime_bootstrap_v2.js\<close>: a store of JSON values that
  outlives the run. Every operation answers with a promise; a promise that is rejected and an
  exception raised before there is one are both an exception here. Storing an array or an object
  under \<open>__proto__\<close> changes the prototype of the store, which is not modelled.
\<close>

definition num_add :: "jsnum \<Rightarrow> jsnum \<Rightarrow> jsnum" where
  "num_add x y =
     (case (x, y) of
        (Fin a, Fin b) \<Rightarrow> to_double (a + b)
      | (Infinite m, Fin b) \<Rightarrow> Infinite m
      | (Fin a, Infinite n) \<Rightarrow> Infinite n
      | (Infinite m, Infinite n) \<Rightarrow> if m = n then Infinite m else NaN
      | _ \<Rightarrow> NaN)"

definition state_write :: "jsstr \<Rightarrow> jsval \<Rightarrow> object \<Rightarrow> exn + object" where
  "state_write k v store =
     (if k = js ''__proto__'' \<and> \<not> owns_key store k \<and> (is_object v \<or> v = JNull) then Inl IllTyped
      else Inr (write_key k v store))"

text \<open>A copy of an inherited function parses the text \<open>undefined\<close>; that of the prototype is empty.\<close>

definition clone_found :: "found \<Rightarrow> exn + jsval" where
  "clone_found f =
     (case f of
        Own v \<Rightarrow> Inr (clone_value v)
      | Missing \<Rightarrow> Inr JUndef
      | Inherited k \<Rightarrow> if k = js ''__proto__'' then Inr (JObj []) else Inl SyntaxError)"

definition state_get :: "jsval \<Rightarrow> object \<Rightarrow> exn + jsval" where
  "state_get key store = bindE (to_string key) (\<lambda>k. clone_found (read_key store k))"

definition state_set :: "jsval \<Rightarrow> jsval \<Rightarrow> object \<Rightarrow> exn + object" where
  "state_set key v store = bindE (to_string key) (\<lambda>k. state_write k (clone_value v) store)"

definition state_delete :: "jsval \<Rightarrow> object \<Rightarrow> exn + bool \<times> object" where
  "state_delete key store = bindE (to_string key) (\<lambda>k. Inr (owns_key store k, remove_key k store))"

definition state_keys :: "object \<Rightarrow> jsstr list" where
  "state_keys store = map fst store"

definition state_size :: "object \<Rightarrow> nat" where
  "state_size store = length (state_keys store)"

definition state_has :: "jsval \<Rightarrow> object \<Rightarrow> exn + bool" where
  "state_has key store = bindE (to_string key) (\<lambda>k. Inr (owns_key store k))"

definition state_clear :: "object \<Rightarrow> object" where
  "state_clear store = delete_all store"

definition state_to_object :: "object \<Rightarrow> jsval" where
  "state_to_object store = clone_value (JObj store)"

text \<open>Only an object makes a store; the code assigns whatever it is given.\<close>

definition state_replace :: "jsval \<Rightarrow> exn + object" where
  "state_replace v =
     (case clone_value (or_else v (JObj [])) of JObj ps \<Rightarrow> Inr ps | _ \<Rightarrow> Inl IllTyped)"

definition found_number :: "found \<Rightarrow> exn + jsnum" where \<comment> \<open>\<open>Number(v || 0)\<close>\<close>
  "found_number f =
     (case f of
        Own v \<Rightarrow> to_number (or_else v (JNum (Fin 0)))
      | Missing \<Rightarrow> Inr (Fin 0)
      | Inherited _ \<Rightarrow> Inr NaN)"

definition state_increment :: "jsval \<Rightarrow> jsval \<Rightarrow> object \<Rightarrow> exn + jsnum \<times> object" where
  "state_increment key amount store =
     bindE (to_string key) (\<lambda>k.
     bindE (found_number (read_key store k)) (\<lambda>x.
     bindE (to_number (if amount = JUndef then JNum (Fin 1) else amount)) (\<lambda>y.
     bindE (state_write k (JNum (num_add x y)) store) (\<lambda>store'.
     Inr (num_add x y, store')))))"

text \<open>The array under a key, a new one when nothing is there.\<close>

definition array_found :: "found \<Rightarrow> exn + jsval list" where
  "array_found f =
     (case f of
        Own (JArr xs) \<Rightarrow> Inr xs
      | Own v \<Rightarrow> if nullish v then Inr [] else Inl TypeError
      | Missing \<Rightarrow> Inr []
      | Inherited _ \<Rightarrow> Inl TypeError)"

definition cloned_items :: "jsval list \<Rightarrow> jsval list" where
  "cloned_items xs = (case clone_value (JArr xs) of JArr ys \<Rightarrow> ys | _ \<Rightarrow> [])"

definition pushed_items :: "jsval list \<Rightarrow> jsval list" where
  "pushed_items items = (case items of [JArr xs] \<Rightarrow> xs | _ \<Rightarrow> items)"

definition state_push :: "jsval \<Rightarrow> jsval list \<Rightarrow> object \<Rightarrow> exn + nat \<times> object" where
  "state_push key items store =
     bindE (to_string key) (\<lambda>k.
     bindE (array_found (read_key store k)) (\<lambda>xs.
     let next_items = xs @ cloned_items (pushed_items items) in
     bindE (state_write k (JArr next_items) store) (\<lambda>store'.
     Inr (length next_items, store'))))"

definition state_add_to_set :: "jsval \<Rightarrow> jsval \<Rightarrow> object \<Rightarrow> exn + bool \<times> object" where
  "state_add_to_set key item store =
     bindE (to_string key) (\<lambda>k.
     bindE (array_found (read_key store k)) (\<lambda>xs.
     let present = list_ex (\<lambda>x. deep_equal x item) xs in
     bindE (state_write k (JArr (if present then xs else xs @ [clone_value item])) store) (\<lambda>store'.
     Inr (\<not> present, store'))))"

end
