(* ===== verification/State_Facts.thy ===== *)
theory State_Facts
  imports Script_State Script_Facts Expect_Facts
begin

text \<open>
  Laws of the monitor state: what is stored is read back as its copy through JSON, every operation
  keeps the store a store of well-formed values, the store refines a map from names to values, and an
  array used as a set never holds two equal items.
\<close>

section \<open>Copies\<close>

lemma clone_copy: "runtime_value v \<Longrightarrow> clone_value v = (if v = JUndef then JUndef else json_copy v)"
  using copied [of v 0] by (auto simp: clone_value_def nullish_def)

lemma clone_runtime_value: "runtime_value v \<Longrightarrow> runtime_value (clone_value v)"
  using json_like_well_formed json_like_copy by (auto simp: clone_copy)

lemma clone_twice: "runtime_value v \<Longrightarrow> clone_value (clone_value v) = clone_value v"
  using clone_runtime_value [of v] by (simp add: clone_copy)

lemma clone_deep_equal: "runtime_value v \<Longrightarrow> deep_equal (clone_value v) v"
  using print_copy(1) [of 0 0 v] by (simp add: clone_copy deep_equal_def stringified_def json_stringify_def)

section \<open>The store stays well-formed\<close>

abbreviation state_ok :: "object \<Rightarrow> bool" where
  "state_ok store \<equiv> runtime_value (JObj store)"

lemma state_ok_iff: "state_ok store \<longleftrightarrow> ordered store \<and> (\<forall>(k, v)\<in>set store. runtime_value v)"
  by (auto simp: list_all_iff)

lemma state_ok_write: "state_ok store \<Longrightarrow> runtime_value v \<Longrightarrow> state_ok (write_key k v store)"
proof -
  assume ok: "state_ok store" "runtime_value v"
  have "set (obj_replace k v store) \<subseteq> insert (k, v) (set store)"
    by (induction k v store rule: obj_replace.induct) auto
  moreover have "set (obj_insert_index n k v store) = insert (k, v) (set store)" for n
    by (induction n k v store rule: obj_insert_index.induct) (auto split: option.split)
  ultimately have "set (obj_set k v store) \<subseteq> insert (k, v) (set store)"
    by (auto simp: obj_set_def split: option.split)
  with ok show ?thesis unfolding state_ok_iff write_key_def by (auto simp: ordered_obj_set)
qed

lemma state_ok_remove: "state_ok store \<Longrightarrow> state_ok (remove_key k store)"
  unfolding state_ok_iff
  using ordered_sub [of store "\<lambda>v. v" "\<lambda>p. fst p \<noteq> k"] by (auto simp: remove_key_def)

lemma found_ok: "state_ok store \<Longrightarrow> read_key store k = Own v \<Longrightarrow> runtime_value v"
  unfolding state_ok_iff by (auto simp: read_key_def split: option.splits if_splits dest!: map_of_SomeD)

lemma array_ok: "state_ok store \<Longrightarrow> array_found (read_key store k) = Inr xs \<Longrightarrow> list_all runtime_value xs"
  using found_ok [of store k] by (auto simp: array_found_def split: found.splits jsval.splits if_splits)

lemma items_ok: "list_all runtime_value xs \<Longrightarrow> list_all runtime_value (cloned_items xs)"
  using clone_runtime_value [of "JArr xs"] by (cases "clone_value (JArr xs)") (simp_all add: cloned_items_def)

lemma pushed_ok: "list_all runtime_value items \<Longrightarrow> list_all runtime_value (pushed_items items)"
  by (auto simp: pushed_items_def split: list.split jsval.split)

lemma num_add_ok: "runtime_value (JNum (num_add x y))"
  by (cases x; cases y) (auto simp: num_add_def to_double_again split: jsnum.split)

text \<open>The calls that change the store, each with what it does.\<close>

datatype state_call =
    SetState jsval jsval
  | DeleteState jsval
  | ClearState
  | ReplaceState jsval
  | Increment jsval jsval
  | PushItems jsval "jsval list"
  | AddToSet jsval jsval

definition state_perform :: "state_call \<Rightarrow> object \<Rightarrow> exn + object" where
  "state_perform c store =
     (case c of
        SetState k v \<Rightarrow> state_set k v store
      | DeleteState k \<Rightarrow> bindE (state_delete k store) (\<lambda>r. Inr (snd r))
      | ClearState \<Rightarrow> Inr (state_clear store)
      | ReplaceState v \<Rightarrow> state_replace v
      | Increment k a \<Rightarrow> bindE (state_increment k a store) (\<lambda>r. Inr (snd r))
      | PushItems k xs \<Rightarrow> bindE (state_push k xs store) (\<lambda>r. Inr (snd r))
      | AddToSet k v \<Rightarrow> bindE (state_add_to_set k v store) (\<lambda>r. Inr (snd r)))"

definition call_ok :: "state_call \<Rightarrow> bool" where
  "call_ok c \<longleftrightarrow>
     (case c of
        SetState k v \<Rightarrow> runtime_value v
      | ReplaceState v \<Rightarrow> runtime_value v
      | PushItems k xs \<Rightarrow> list_all runtime_value xs
      | AddToSet k v \<Rightarrow> runtime_value v
      | _ \<Rightarrow> True)"

text \<open>The states a run can reach: a call that fails leaves the store as it is.\<close>

inductive state_reaches :: "object \<Rightarrow> object \<Rightarrow> bool" where
  reach_refl: "state_reaches store store"
| reach_call: "state_reaches store store' \<Longrightarrow> call_ok c \<Longrightarrow> state_perform c store' = Inr store'' \<Longrightarrow> state_reaches store store''"
| reach_fail: "state_reaches store store' \<Longrightarrow> state_perform c store' = Inl e \<Longrightarrow> state_reaches store store'"

lemma bindE_InrE: "bindE m f = Inr b \<Longrightarrow> (\<And>a. m = Inr a \<Longrightarrow> f a = Inr b \<Longrightarrow> P) \<Longrightarrow> P"
  by (cases m) (simp_all add: bindE_def)

lemma state_write_ok:
  "state_write k v store = Inr store' \<Longrightarrow> state_ok store \<Longrightarrow> runtime_value v \<Longrightarrow> state_ok store'"
  by (auto simp: state_write_def state_ok_write simp del: runtime_value.simps split: if_splits)

lemma state_perform_ok:
  assumes "state_ok store" "call_ok c" "state_perform c store = Inr store'"
  shows "state_ok store'"
proof (cases c)
  case (SetState k v)
  with assms clone_runtime_value [of v] show ?thesis
    by (auto simp: state_perform_def state_set_def call_ok_def simp del: runtime_value.simps
        elim!: bindE_InrE intro: state_write_ok)
next
  case (DeleteState k)
  with assms show ?thesis
    by (auto simp: state_perform_def state_delete_def simp del: runtime_value.simps elim!: bindE_InrE intro: state_ok_remove)
next
  case ClearState
  with assms show ?thesis by (auto simp: state_perform_def state_clear_def ordered_def)
next
  case (ReplaceState v)
  then have "runtime_value (clone_value (or_else v (JObj [])))"
    using assms(2) by (intro clone_runtime_value) (auto simp: or_else_def call_ok_def ordered_def)
  with assms ReplaceState show ?thesis
    by (auto simp: state_perform_def state_replace_def simp del: runtime_value.simps split: jsval.splits)
next
  case (Increment k a)
  with assms num_add_ok show ?thesis
    by (auto simp: state_perform_def state_increment_def simp del: runtime_value.simps
        elim!: bindE_InrE intro: state_write_ok)
next
  case (PushItems k xs)
  with assms(3) obtain n ys where w: "array_found (read_key store n) = Inr ys"
    "state_write n (JArr (ys @ cloned_items (pushed_items xs))) store = Inr store'"
    by (auto simp: state_perform_def state_push_def Let_def elim!: bindE_InrE)
  have "list_all runtime_value xs" using assms(2) PushItems by (simp add: call_ok_def)
  with array_ok [OF assms(1) w(1)] have "runtime_value (JArr (ys @ cloned_items (pushed_items xs)))"
    by (simp add: items_ok pushed_ok)
  then show ?thesis by (rule state_write_ok [OF w(2) assms(1)])
next
  case (AddToSet k v)
  with assms(3) obtain n ys where w: "array_found (read_key store n) = Inr ys"
    "state_write n (JArr (if list_ex (\<lambda>x. deep_equal x v) ys then ys else ys @ [clone_value v])) store = Inr store'"
    by (auto simp: state_perform_def state_add_to_set_def Let_def elim!: bindE_InrE)
  have "runtime_value v" using assms(2) AddToSet by (simp add: call_ok_def)
  with array_ok [OF assms(1) w(1)] clone_runtime_value
  have "runtime_value (JArr (if list_ex (\<lambda>x. deep_equal x v) ys then ys else ys @ [clone_value v]))" by simp
  then show ?thesis by (rule state_write_ok [OF w(2) assms(1)])
qed

text \<open>Whatever calls a script makes on the monitor state with values of its own, and whichever of them fail, the stored values stay values of a script: every number is a binary64 value, infinite or \<open>NaN\<close>, and no object holds a key twice or out of order.\<close>

theorem state_stays_json:
  assumes "state_reaches store store'" "state_ok store"
  shows "state_ok store'"
  using assms by (induction rule: state_reaches.induct) (auto intro: state_perform_ok simp del: runtime_value.simps)

lemma state_stays_json_witness:
  "state_ok [([97], JNull)] \<and> state_reaches [] [([97], JNull)]"
proof -
  have "state_perform (SetState (JStr [97]) JNull) [] = Inr [([97], JNull)]"
    by (simp add: state_perform_def state_set_def bindE_def clone_value_def state_write_def write_key_def
        js_def obj_set_def index_key_def is_digit_def)
  then have "state_reaches [] [([97], JNull)]"
    by (rule reach_call [OF reach_refl, rotated]) (simp add: call_ok_def)
  moreover from state_stays_json [OF this] have "state_ok [([97], JNull)]" by (simp add: ordered_def)
  ultimately show ?thesis by blast
qed

section \<open>The store is a map\<close>

text \<open>
  What a script sees of the store is a map from names to values. Each call has its meaning on that
  map, stated with the copy through JSON instead of printing and parsing: what it stores is the copy
  of what it is given, and a call whose number cannot be read, or whose name holds something other
  than an array, leaves the map alone.
\<close>

definition state_name :: "jsval \<Rightarrow> jsstr" where
  "state_name key = (case to_string key of Inr n \<Rightarrow> n | Inl _ \<Rightarrow> [])"

definition stored_copy :: "jsval \<Rightarrow> jsval" where
  "stored_copy v = (if v = JUndef then JUndef else json_copy v)"

definition same_value :: "jsval \<Rightarrow> jsval \<Rightarrow> bool" where
  "same_value v w \<longleftrightarrow> (v = JUndef \<longleftrightarrow> w = JUndef) \<and> json_copy v = json_copy w"

definition current_number :: "jsval option \<Rightarrow> jsnum option" where
  "current_number x =
     (case x of
        None \<Rightarrow> Some (Fin 0)
      | Some v \<Rightarrow> (case to_number (if truthy v then v else JNum (Fin 0)) of Inr y \<Rightarrow> Some y | Inl _ \<Rightarrow> None))"

definition given_amount :: "jsval \<Rightarrow> jsnum option" where
  "given_amount a =
     (if a = JUndef then Some (Fin 1) else case to_number a of Inr y \<Rightarrow> Some y | Inl _ \<Rightarrow> None)"

definition current_items :: "jsval option \<Rightarrow> jsval list option" where
  "current_items x =
     (case x of
        None \<Rightarrow> Some []
      | Some (JArr xs) \<Rightarrow> Some xs
      | Some v \<Rightarrow> if nullish v then Some [] else None)"

definition map_call :: "state_call \<Rightarrow> (jsstr \<rightharpoonup> jsval) \<Rightarrow> jsstr \<rightharpoonup> jsval" where
  "map_call c m =
     (case c of
        SetState k v \<Rightarrow> m(state_name k \<mapsto> stored_copy v)
      | DeleteState k \<Rightarrow> m(state_name k := None)
      | ClearState \<Rightarrow> Map.empty
      | ReplaceState v \<Rightarrow>
          (case (if truthy v then json_copy v else JObj []) of JObj ps \<Rightarrow> map_of ps | _ \<Rightarrow> m)
      | Increment k a \<Rightarrow>
          (case (current_number (m (state_name k)), given_amount a) of
             (Some x, Some y) \<Rightarrow> m(state_name k \<mapsto> JNum (num_add x y))
           | _ \<Rightarrow> m)
      | PushItems k xs \<Rightarrow>
          (case current_items (m (state_name k)) of
             Some ys \<Rightarrow> m(state_name k \<mapsto> JArr (ys @ map json_copy (pushed_items xs)))
           | None \<Rightarrow> m)
      | AddToSet k v \<Rightarrow>
          (case current_items (m (state_name k)) of
             Some ys \<Rightarrow> m(state_name k \<mapsto> JArr (if \<exists>y\<in>set ys. same_value y v then ys else ys @ [stored_copy v]))
           | None \<Rightarrow> m))"

text \<open>The calls stated of: names that no object inherits, and objects, or nothing, to replace the store.\<close>

definition plain_name :: "jsval \<Rightarrow> bool" where
  "plain_name key \<longleftrightarrow> (\<exists>n. to_string key = Inr n \<and> n \<notin> set prototype_keys)"

definition plain_call :: "state_call \<Rightarrow> bool" where
  "plain_call c \<longleftrightarrow>
     (case c of
        SetState k _ \<Rightarrow> plain_name k
      | DeleteState k \<Rightarrow> plain_name k
      | ClearState \<Rightarrow> True
      | ReplaceState v \<Rightarrow> \<not> truthy v \<or> (\<exists>ps. v = JObj ps)
      | Increment k _ \<Rightarrow> plain_name k
      | PushItems k _ \<Rightarrow> plain_name k
      | AddToSet k _ \<Rightarrow> plain_name k)"

definition after_call :: "object \<Rightarrow> state_call \<Rightarrow> object" where
  "after_call store c = (case state_perform c store of Inr store' \<Rightarrow> store' | Inl _ \<Rightarrow> store)"

lemma plain_nameE:
  assumes "plain_name key"
  obtains n where "to_string key = Inr n" "state_name key = n" "n \<noteq> js ''__proto__''"
    "\<And>store. read_key store n = (case map_of store n of Some v \<Rightarrow> Own v | None \<Rightarrow> Missing)"
proof -
  obtain n where n: "to_string key = Inr n" "n \<notin> set prototype_keys" using assms by (auto simp: plain_name_def)
  moreover from n(2) have "n \<noteq> js ''__proto__''" by (auto simp: prototype_keys_def)
  ultimately show ?thesis by (intro that) (auto simp: state_name_def read_key_def)
qed

lemma write_plain:
  "n \<noteq> js ''__proto__'' \<Longrightarrow> state_write n v store = Inr (obj_set n v store)"
  by (simp add: state_write_def write_key_def)

lemma clone_stored: "runtime_value v \<Longrightarrow> clone_value v = stored_copy v"
  by (simp add: clone_copy stored_copy_def)

lemma cloned_items_copy: "list_all runtime_value xs \<Longrightarrow> cloned_items xs = map json_copy xs"
  by (simp add: cloned_items_def clone_copy)

lemma same_value_equal: "runtime_value v \<Longrightarrow> runtime_value w \<Longrightarrow> deep_equal v w \<longleftrightarrow> same_value v w"
  by (simp add: deep_equal_copies same_value_def)

lemma items_current:
  "array_found (case x of Some v \<Rightarrow> Own v | None \<Rightarrow> Missing) =
     (case current_items x of Some xs \<Rightarrow> Inr xs | None \<Rightarrow> Inl TypeError)"
  by (auto simp: array_found_def current_items_def nullish_def split: option.split jsval.split)

lemma number_current:
  "(case found_number (case x of Some v \<Rightarrow> Own v | None \<Rightarrow> Missing) of Inr y \<Rightarrow> Some y | Inl _ \<Rightarrow> None) = current_number x"
  by (auto simp: found_number_def current_number_def or_else_def split: option.split)

lemma amount_given:
  "(case to_number (if a = JUndef then JNum (Fin 1) else a) of Inr y \<Rightarrow> Some y | Inl _ \<Rightarrow> None) = given_amount a"
  by (simp add: given_amount_def to_number_def to_primitive_def is_object_def bindE_def)

lemma after_call_map:
  assumes "state_ok store" "call_ok c" "plain_call c"
  shows "map_of (after_call store c) = map_call c (map_of store)"
proof (cases c)
  case (SetState k v)
  with assms(3) obtain n where n: "to_string k = Inr n" "state_name k = n" "n \<noteq> js ''__proto__''"
    by (auto simp: plain_call_def elim: plain_nameE)
  then show ?thesis
    using SetState assms(2)
    by (simp add: after_call_def state_perform_def state_set_def bindE_def write_plain map_call_def call_ok_def clone_stored)
next
  case (DeleteState k)
  with assms(3) obtain n where n: "to_string k = Inr n" "state_name k = n"
    by (auto simp: plain_call_def elim: plain_nameE)
  then show ?thesis
    using DeleteState
    by (simp add: after_call_def state_perform_def state_delete_def bindE_def map_call_def map_of_remove_key fun_eq_iff)
next
  case ClearState
  then show ?thesis by (simp add: after_call_def state_perform_def state_clear_def map_call_def store.lookup_cleared)
next
  case (ReplaceState v)
  show ?thesis
  proof (cases "truthy v")
    case True
    with ReplaceState assms(2,3) obtain ps where v: "v = JObj ps" "runtime_value v"
      by (auto simp: plain_call_def call_ok_def)
    then have "clone_value (or_else v (JObj [])) = json_copy v"
      using True by (simp add: or_else_def clone_copy)
    with ReplaceState True v(1) show ?thesis
      by (simp add: after_call_def state_perform_def state_replace_def map_call_def)
  next
    case False
    then have "clone_value (or_else v (JObj [])) = JObj []"
      by (simp add: or_else_def clone_copy ordered_def)
    with ReplaceState False show ?thesis
      by (simp add: after_call_def state_perform_def state_replace_def map_call_def)
  qed
next
  case (Increment k a)
  with assms(3) obtain n where n: "to_string k = Inr n" "state_name k = n" "n \<noteq> js ''__proto__''"
    "read_key store n = (case map_of store n of Some v \<Rightarrow> Own v | None \<Rightarrow> Missing)"
    by (auto simp: plain_call_def elim: plain_nameE)
  let ?amount = "to_number (if a = JUndef then JNum (Fin 1) else a)"
  have x: "current_number (map_of store n) = (case found_number (read_key store n) of Inr y \<Rightarrow> Some y | Inl _ \<Rightarrow> None)"
    by (simp only: n(4) number_current)
  have y: "given_amount a = (case ?amount of Inr y \<Rightarrow> Some y | Inl _ \<Rightarrow> None)"
    by (simp only: amount_given)
  show ?thesis
    unfolding Increment after_call_def state_perform_def state_increment_def map_call_def state_call.case n(1,2) x y
    using write_plain [OF n(3)]
    by (cases "found_number (read_key store n)"; cases ?amount) (simp_all add: bindE_def del: if_split)
next
  case (PushItems k xs)
  with assms(3) obtain n where n: "to_string k = Inr n" "state_name k = n" "n \<noteq> js ''__proto__''"
    "read_key store n = (case map_of store n of Some v \<Rightarrow> Own v | None \<Rightarrow> Missing)"
    by (auto simp: plain_call_def elim: plain_nameE)
  have "list_all runtime_value (pushed_items xs)"
    using assms(2) PushItems by (simp add: call_ok_def pushed_ok)
  then show ?thesis
    using PushItems n(1,2) write_plain [OF n(3)] items_current [of "map_of store n", folded n(4)]
    by (simp add: after_call_def state_perform_def state_push_def map_call_def bindE_def Let_def cloned_items_copy
        split: option.split)
next
  case (AddToSet k v)
  with assms(3) obtain n where n: "to_string k = Inr n" "state_name k = n" "n \<noteq> js ''__proto__''"
    "read_key store n = (case map_of store n of Some v \<Rightarrow> Own v | None \<Rightarrow> Missing)"
    by (auto simp: plain_call_def elim: plain_nameE)
  have v: "runtime_value v" using assms(2) AddToSet by (simp add: call_ok_def)
  have found: "array_found (read_key store n) = (case current_items (map_of store n) of Some xs \<Rightarrow> Inr xs | None \<Rightarrow> Inl TypeError)"
    unfolding n(4) by (rule items_current)
  show ?thesis
  proof (cases "current_items (map_of store n)")
    case (Some ys)
    with found array_ok [OF assms(1)] have "list_all runtime_value ys" by simp
    then have "list_ex (\<lambda>y. deep_equal y v) ys \<longleftrightarrow> (\<exists>y\<in>set ys. same_value y v)"
      using same_value_equal [OF _ v] by (auto simp: list_ex_iff list_all_iff)
    with AddToSet n(1,2) write_plain [OF n(3)] found Some show ?thesis
      by (simp add: after_call_def state_perform_def state_add_to_set_def map_call_def bindE_def Let_def clone_stored [OF v])
  qed (use AddToSet n(1,2) found in
      \<open>simp add: after_call_def state_perform_def state_add_to_set_def map_call_def bindE_def Let_def\<close>)
qed

lemma after_call_ok: "state_ok store \<Longrightarrow> call_ok c \<Longrightarrow> state_ok (after_call store c)"
  using state_perform_ok by (auto simp: after_call_def simp del: runtime_value.simps split: sum.split)

text \<open>C27: The monitor state is a map from names to JSON values: after any calls that set, delete,
  clear, replace, increment, push and add to a set, whichever of them fail, the store maps every
  name as the same calls do on a map. What is set is the copy through JSON, an increment stores the
  sum of the number there and the amount, items are appended to the array there as their copies, an
  item is added to a set only when no equal one is in it, a call that finds no number or no array
  changes nothing, and no call touches another name. The values are those of a script, the names are
  not among those every object inherits, and the store is only replaced by an object.\<close>

theorem state_refines_map:
  assumes "state_ok store" "\<forall>c\<in>set calls. call_ok c \<and> plain_call c"
  shows "map_of (foldl after_call store calls) = fold map_call calls (map_of store)"
  using assms
proof (induction calls arbitrary: store)
  case (Cons c calls)
  then have "state_ok (after_call store c)" by (intro after_call_ok) simp_all
  with Cons after_call_map [of store c] show ?case by simp
qed simp

lemma state_refines_map_witness:
  "map_of (foldl after_call [] [SetState (JStr [97]) (JArr [JUndef]), PushItems (JStr [97]) [JNum NaN], DeleteState (JStr [98])])
     = [[97] \<mapsto> JArr [JNull, JNull]]"
proof -
  have name: "plain_name (JStr [97])" "plain_name (JStr [98])" "state_name (JStr [97]) = [97]" "state_name (JStr [98]) = [98]"
    by (simp_all add: plain_name_def state_name_def prototype_keys_def js_def)
  show ?thesis
    by (subst state_refines_map)
      (simp_all add: call_ok_def plain_call_def name ordered_def map_call_def stored_copy_def current_items_def
        pushed_items_def fun_eq_iff)
qed

section \<open>Reading back\<close>

text \<open>What is under a key, as the operations see it, and a write of a value that makes no prototype.\<close>

lemma read_write:
  assumes "k \<noteq> js ''__proto__''"
  shows "read_key (write_key k v store) l = (if l = k then Own v else read_key store l)"
  using store.lookup_put [of k v store l] assms by (simp add: read_key_def split: option.split)

lemma state_write_plain: "k \<noteq> js ''__proto__'' \<Longrightarrow> state_write k v store = Inr (write_key k v store)"
  by (simp add: state_write_def)

text \<open>C28: A value that is stored reads back as its copy through JSON, as often as it is read, and no other key changes.\<close>

theorem state_set_get:
  assumes "to_string key = Inr k" "k \<noteq> js ''__proto__''" "runtime_value v"
  obtains store' where "state_set key v store = Inr store'"
    and "state_get key store' = Inr (if v = JUndef then JUndef else json_copy v)"
    and "\<And>other l. to_string other = Inr l \<Longrightarrow> l \<noteq> k \<Longrightarrow> state_get other store' = state_get other store"
proof (rule that)
  show "state_set key v store = Inr (write_key k (clone_value v) store)"
    using assms(1,2) by (simp add: state_set_def bindE_def state_write_plain)
  have "clone_value (clone_value v) = (if v = JUndef then JUndef else json_copy v)"
    using clone_twice [OF assms(3)] clone_copy [OF assms(3)] by simp
  then show "state_get key (write_key k (clone_value v) store) = Inr (if v = JUndef then JUndef else json_copy v)"
    using assms(1,2) by (simp add: state_get_def bindE_def read_write clone_found_def)
  show "state_get other (write_key k (clone_value v) store) = state_get other store"
    if "to_string other = Inr l" "l \<noteq> k" for other l
    using that assms(2) by (simp add: state_get_def bindE_def read_write)
qed

lemma state_set_get_witness:
  "\<exists>store'. state_set (JStr [97]) (JArr [JUndef, JNum NaN]) [] = Inr store'
     \<and> state_get (JStr [97]) store' = Inr (JArr [JNull, JNull])"
  by (rule state_set_get [of "JStr [97]" "[97]" "JArr [JUndef, JNum NaN]" "[]"]) (auto simp: js_def)

section \<open>Arrays as sets\<close>

definition pairwise_different :: "jsval list \<Rightarrow> bool" where
  "pairwise_different xs \<longleftrightarrow> sorted_wrt (\<lambda>x y. \<not> deep_equal x y) xs"

lemma deep_equal_sym: "deep_equal x y \<longleftrightarrow> deep_equal y x"
  by (auto simp: deep_equal_def)

lemma deep_equal_trans: "deep_equal x y \<Longrightarrow> deep_equal y z \<Longrightarrow> deep_equal x z"
  by (simp add: deep_equal_def)

text \<open>Adding to an array used as a set always succeeds on an array or a missing key; afterwards the item is in it, the items are as different from each other as before, and adding an equal item changes nothing.\<close>

theorem state_add_to_set_spec:
  assumes "to_string key = Inr k" "k \<noteq> js ''__proto__''" "array_found (read_key store k) = Inr xs"
    "runtime_value item" "pairwise_different xs"
  obtains added store' ys where "state_add_to_set key item store = Inr (added, store')"
    and "array_found (read_key store' k) = Inr ys" "pairwise_different ys" "\<exists>y\<in>set ys. deep_equal y item"
    and "added \<longleftrightarrow> \<not> (\<exists>x\<in>set xs. deep_equal x item)" "set xs \<subseteq> set ys"
    and "\<And>other. deep_equal other item \<Longrightarrow> state_add_to_set key other store' = Inr (False, store')"
proof -
  define present where "present \<longleftrightarrow> list_ex (\<lambda>x. deep_equal x item) xs"
  define ys where "ys = (if present then xs else xs @ [clone_value item])"
  define store' where "store' = write_key k (JArr ys) store"
  have "read_key store' k = Own (JArr ys)" using assms(2) by (simp add: store'_def read_write)
  then have found: "array_found (read_key store' k) = Inr ys" by (simp add: array_found_def)
  have inside: "\<exists>y\<in>set ys. deep_equal y item"
    using clone_deep_equal [OF assms(4)] by (auto simp: ys_def present_def list_ex_iff)
  have "deep_equal x item" if "deep_equal x (clone_value item)" for x
    using that clone_deep_equal [OF assms(4)] by (rule deep_equal_trans)
  with assms(5) have "pairwise_different ys"
    by (auto simp: ys_def present_def pairwise_different_def sorted_wrt_append list_ex_iff)
  moreover have "state_add_to_set key item store = Inr (\<not> present, store')"
    using assms(1-3) by (auto simp: state_add_to_set_def bindE_def Let_def state_write_plain store'_def ys_def present_def)
  moreover have "state_add_to_set key other store' = Inr (False, store')" if "deep_equal other item" for other
  proof -
    have "list_ex (\<lambda>y. deep_equal y other) ys"
      using inside that deep_equal_trans deep_equal_sym unfolding list_ex_iff by blast
    moreover have "write_key k (JArr ys) store' = store'"
      using assms(2) by (simp add: store'_def write_key_def obj_set_id)
    ultimately show ?thesis
      using assms(1,2) found by (simp add: state_add_to_set_def bindE_def Let_def state_write_plain)
  qed
  ultimately show ?thesis
    using found inside by (intro that) (auto simp: present_def list_ex_iff ys_def)
qed

lemma state_add_to_set_spec_witness:
  "\<exists>store'. state_add_to_set (JStr [97]) JNull [] = Inr (True, store')
     \<and> state_add_to_set (JStr [97]) (JNum NaN) store' = Inr (False, store')"
proof (rule state_add_to_set_spec [of "JStr [97]" "[97]" "[]" "[]" JNull])
  show "array_found (read_key [] [97]) = Inr []"
    by (simp add: read_key_def prototype_keys_def js_def array_found_def)
  fix added :: bool and store' :: object
  assume "state_add_to_set (JStr [97]) JNull [] = Inr (added, store')"
    and "added \<longleftrightarrow> \<not> (\<exists>x\<in>set []. deep_equal x JNull)"
    and "\<And>other. deep_equal other JNull \<Longrightarrow> state_add_to_set (JStr [97]) other store' = Inr (False, store')"
  then show ?thesis by (auto simp: deep_equal_def stringified_def json_stringify_def)
qed (simp_all add: js_def pairwise_different_def)

text \<open>Reading a name that every object inherits raises a syntax error.\<close>

lemma state_get_inherited: "state_get (JStr (js ''constructor'')) [] = Inl SyntaxError"
  by (simp add: state_get_def bindE_def read_key_def prototype_keys_def clone_found_def)

end
