(* ===== verification/Script_Schema.thy ===== *)
theory Script_Schema
  imports Script_Expect
begin

text \<open>
  The JSON schema validator a script can require, from \<open>runtime_bootstrap_v2.js\<close>: the errors of a
  value under a rule, in the order they are found. Regular expressions are a parameter: what \<open>test\<close>
  answers for a pattern, or nothing when the pattern does not compile.
\<close>

section \<open>Single keywords\<close>

record schema_error =
  se_path :: jsstr
  se_keyword :: jsstr
  se_message :: jsstr

definition schema_error :: "jsstr \<Rightarrow> string \<Rightarrow> jsstr \<Rightarrow> schema_error" where
  "schema_error path keyword message = \<lparr>se_path = path, se_keyword = js keyword, se_message = message\<rparr>"

definition json_type :: "jsval \<Rightarrow> jsstr" where
  "json_type v =
     (if is_array v then js ''array'' else if v = JNull then js ''null'' else type_of v)"

text \<open>An error of one keyword, with a value of the rule in its message.\<close>

definition error_unless :: "bool \<Rightarrow> jsstr \<Rightarrow> string \<Rightarrow> string \<Rightarrow> jsval \<Rightarrow> string \<Rightarrow> exn + schema_error list" where
  "error_unless ok path keyword before v after =
     (if ok then Inr []
      else bindE (to_string v) (\<lambda>s. Inr [schema_error path keyword (js before @ s @ js after)]))"

definition check_type :: "jsval \<Rightarrow> jsval \<Rightarrow> jsstr \<Rightarrow> exn + schema_error list" where
  "check_type v rule path =
     (let t = fld rule ''type'' in
      error_unless (\<not> truthy t \<or> t = JStr (json_type v)) path ''type'' ''must be '' t [])"

definition check_enum :: "jsval \<Rightarrow> jsval \<Rightarrow> jsstr \<Rightarrow> exn + schema_error list" where
  "check_enum v rule path =
     (let e = fld rule ''enum'' in
      if \<not> truthy e then Inr []
      else
        (case e of
           JArr items \<Rightarrow>
             if list_ex (\<lambda>item. deep_equal item v) items then Inr []
             else Inr [schema_error path ''enum'' (js ''must be equal to one of the allowed values'')]
         | _ \<Rightarrow> Inl TypeError))"

definition check_required :: "jsval \<Rightarrow> jsval \<Rightarrow> jsstr \<Rightarrow> exn + schema_error list" where
  "check_required v rule path =
     bindE (iterate (or_else (fld rule ''required'') (JArr []))) (\<lambda>names.
     bindE (mapE (\<lambda>n.
         bindE (to_string n) (\<lambda>s.
         Inr (if own_property v s \<noteq> None then []
           else [schema_error path ''required'' (js ''must have required property '' @ [39] @ s @ [39])]))) names)
       (\<lambda>es. Inr (concat es)))"

text \<open>A limit that is \<open>null\<close> or missing does not count; the flag says that the value must not lie below it.\<close>

definition check_limit :: "bool \<Rightarrow> jsval \<Rightarrow> jsval \<Rightarrow> string \<Rightarrow> string \<Rightarrow> string \<Rightarrow> jsstr \<Rightarrow> exn + schema_error list" where
  "check_limit least v rule keyword before after path =
     (let limit = fld rule keyword in
      if nullish limit then Inr []
      else bindE (if least then less_than v limit else less_than limit v) (\<lambda>r.
        error_unless (r \<noteq> Some True) path keyword before limit after))"

definition check_pattern :: "(jsstr \<Rightarrow> (jsstr \<Rightarrow> bool) option) \<Rightarrow> jsstr \<Rightarrow> jsval \<Rightarrow> jsstr \<Rightarrow> exn + schema_error list" where
  "check_pattern regexp s rule path =
     (let p = fld rule ''pattern'' in
      if \<not> truthy p then Inr []
      else bindE (to_string p) (\<lambda>source.
        case regexp source of
          None \<Rightarrow> Inl SyntaxError
        | Some test \<Rightarrow> error_unless (test s) path ''pattern'' ''must match pattern '' p []))"

definition appendE :: "exn + 'a list \<Rightarrow> exn + 'a list \<Rightarrow> exn + 'a list" where
  "appendE m n = bindE m (\<lambda>xs. bindE n (\<lambda>ys. Inr (xs @ ys)))"

definition check_text :: "(jsstr \<Rightarrow> (jsstr \<Rightarrow> bool) option) \<Rightarrow> jsstr \<Rightarrow> jsval \<Rightarrow> jsstr \<Rightarrow> exn + schema_error list" where
  "check_text regexp s rule path =
     (let n = JNum (nnum (length s)) in
      appendE (check_limit True n rule ''minLength'' ''must NOT have fewer than '' '' characters'' path)
       (appendE (check_limit False n rule ''maxLength'' ''must NOT have more than '' '' characters'' path)
         (check_pattern regexp s rule path)))"

definition check_number :: "jsval \<Rightarrow> jsval \<Rightarrow> jsstr \<Rightarrow> exn + schema_error list" where
  "check_number v rule path =
     appendE (check_limit True v rule ''minimum'' ''must be >= '' [] path)
       (check_limit False v rule ''maximum'' ''must be <= '' [] path)"

section \<open>Values and rules\<close>

text \<open>The rules of the properties a value has, each with the key and the value; what is not an object is no rule.\<close>

definition child_rules :: "jsval \<Rightarrow> jsval \<Rightarrow> (jsstr \<times> jsval \<times> jsval) list" where
  "child_rules v rule =
     List.map_filter (\<lambda>(k, r). map_option (\<lambda>x. (k, x, r)) (own_property v k))
       (filter (\<lambda>m. is_object (snd m)) (spread (or_else (fld rule ''properties'') (JObj []))))"

text \<open>Rules nest in rules.\<close>

lemma spread_size: "(k, r) \<in> set (spread v) \<Longrightarrow> is_object r \<Longrightarrow> size r < size v"
proof (cases v)
  case (JObj ms)
  assume "(k, r) \<in> set (spread v)"
  with JObj have "(k, r) \<in> set ms" by simp
  then have "size r < size_list (size_prod (\<lambda>_. 0) size) ms"
    by (intro size_list_estimation [of "(k, r)"]) auto
  with JObj show ?thesis by simp
next
  case (JArr xs)
  assume "(k, r) \<in> set (spread v)"
  with JArr have "r \<in> set xs" by (auto simp: spread_def enumerate_eq_zip dest: set_zip_rightD)
  then have "size r < Suc (size_list size xs)" by (simp add: size_list_estimation' less_Suc_eq_le)
  with JArr show ?thesis by simp
qed (auto simp: spread_def is_object_def)

lemma fld_size: "is_object (fld v k) \<Longrightarrow> size (fld v k) < size v"
proof (cases v)
  case (JObj ms)
  assume "is_object (fld v k)"
  with JObj have "(js k, fld v k) \<in> set (spread v)"
    by (auto simp: is_object_def split: option.splits dest: map_of_SomeD)
  then show ?thesis using \<open>is_object (fld v k)\<close> by (rule spread_size)
qed (auto simp: is_object_def fld_def fld_str_def split: if_splits)

lemma child_rules_size:
  assumes "(k, x, r) \<in> set (child_rules v rule)"
  shows "size r < size rule"
proof -
  have "\<exists>l. (l, r) \<in> set (spread (or_else (fld rule ''properties'') (JObj [])))" "is_object r"
    using assms by (auto simp: child_rules_def map_filter_def split: if_splits)
  then obtain l where l: "(l, r) \<in> set (spread (or_else (fld rule ''properties'') (JObj [])))" "is_object r" by blast
  then have "truthy (fld rule ''properties'')" by (auto simp: or_else_def split: if_splits)
  with l have p: "(l, r) \<in> set (spread (fld rule ''properties''))" by (simp add: or_else_def)
  have "is_object (fld rule ''properties'')"
    using p l(2) by (cases "fld rule ''properties''") (auto simp: is_object_def spread_def)
  with fld_size [of rule "''properties''"] spread_size [OF p l(2)] show ?thesis by simp
qed

function visit_rule :: "(jsstr \<Rightarrow> (jsstr \<Rightarrow> bool) option) \<Rightarrow> jsval \<Rightarrow> jsval \<Rightarrow> jsstr \<Rightarrow> exn + schema_error list" where
  "visit_rule regexp v rule path =
     (if \<not> is_object rule then Inr []
      else
        appendE (check_type v rule path)
       (appendE (check_enum v rule path)
         (case v of
            JObj _ \<Rightarrow>
              appendE (check_required v rule path)
               (bindE (mapE (\<lambda>(k, x, r). visit_rule regexp x r (path @ js ''/'' @ k)) (child_rules v rule))
                 (\<lambda>es. Inr (concat es)))
          | JArr xs \<Rightarrow>
              if is_object (fld rule ''items'')
              then bindE (mapE (\<lambda>(i, x). visit_rule regexp x (fld rule ''items'') (path @ js ''/'' @ dec i)) (enumerate 0 xs))
                     (\<lambda>es. Inr (concat es))
              else Inr []
          | JStr s \<Rightarrow> check_text regexp s rule path
          | JNum _ \<Rightarrow> check_number v rule path
          | _ \<Rightarrow> Inr [])))"
  by pat_completeness auto
termination
  by (relation "measure (\<lambda>(_, _, rule, _). size rule)") (auto simp: child_rules_size fld_size)

declare visit_rule.simps [simp del]

text \<open>\<open>new Ajv().compile(schema)(value)\<close> with \<open>validate.errors\<close> after it, \<open>None\<close> for \<open>null\<close>.\<close>

definition schema_validate ::
    "(jsstr \<Rightarrow> (jsstr \<Rightarrow> bool) option) \<Rightarrow> jsval \<Rightarrow> jsval \<Rightarrow> exn + bool \<times> schema_error list option" where
  "schema_validate regexp schema v =
     bindE (visit_rule regexp v schema []) (\<lambda>es. Inr (es = [], if es = [] then None else Some es))"

end
