(* ===== verification/Schema_Facts.thy ===== *)
theory Schema_Facts
  imports Script_Schema Json_Copy
begin

text \<open>
  What the schema validator reports: the errors of every value under the rule that governs it, where
  a rule governs a value if following properties and items from the schema and the document leads to
  both.
\<close>

section \<open>The shape of the traversal\<close>

definition concatE :: "exn + 'a list list \<Rightarrow> exn + 'a list" where
  "concatE m = bindE m (\<lambda>xs. Inr (concat xs))"

lemma appendE_assoc: "appendE (appendE l m) n = appendE l (appendE m n)"
  by (cases l; cases m; cases n) (simp_all add: appendE_def bindE_def)

lemma appendE_Nil [simp]: "appendE m (Inr []) = m"
  by (cases m) (simp_all add: appendE_def bindE_def)

lemma Nil_appendE [simp]: "appendE (Inr []) m = m"
  by (cases m) (simp_all add: appendE_def bindE_def)

lemma mapE_map: "mapE f (map g xs) = mapE (\<lambda>x. f (g x)) xs"
  by (induction xs) simp_all

text \<open>The errors of a value by itself, and the values inside it with the rules for them.\<close>

definition own_errors :: "(jsstr \<Rightarrow> (jsstr \<Rightarrow> bool) option) \<Rightarrow> jsval \<Rightarrow> jsval \<Rightarrow> jsstr \<Rightarrow> exn + schema_error list" where
  "own_errors regexp v rule path =
     appendE (check_type v rule path)
      (appendE (check_enum v rule path)
        (case v of
           JObj _ \<Rightarrow> check_required v rule path
         | JStr s \<Rightarrow> check_text regexp s rule path
         | JNum _ \<Rightarrow> check_number v rule path
         | _ \<Rightarrow> Inr []))"

definition children :: "jsval \<Rightarrow> jsval \<Rightarrow> jsstr \<Rightarrow> (jsval \<times> jsval \<times> jsstr) list" where
  "children v rule path =
     (case v of
        JObj _ \<Rightarrow> map (\<lambda>(k, x, r). (x, r, path @ js ''/'' @ k)) (child_rules v rule)
      | JArr xs \<Rightarrow>
          if is_object (fld rule ''items'')
          then map (\<lambda>(i, x). (x, fld rule ''items'', path @ js ''/'' @ dec i)) (enumerate 0 xs)
          else []
      | _ \<Rightarrow> [])"

lemma visit_children:
  "visit_rule regexp v rule path =
     (if is_object rule
      then appendE (own_errors regexp v rule path)
             (concatE (mapE (\<lambda>(x, r, p). visit_rule regexp x r p) (children v rule path)))
      else Inr [])"
proof (cases v)
  case (JArr xs)
  then show ?thesis
    by (subst visit_rule.simps)
      (simp add: own_errors_def children_def concatE_def appendE_assoc mapE_map case_prod_unfold bindE_def [of "Inr []"])
next
  case (JObj ms)
  then show ?thesis
    by (subst visit_rule.simps)
      (simp add: own_errors_def children_def concatE_def appendE_assoc mapE_map case_prod_unfold)
qed (subst visit_rule.simps, simp add: own_errors_def children_def concatE_def appendE_assoc bindE_def)+

lemma child_rules_object: "(k, x, r) \<in> set (child_rules v rule) \<Longrightarrow> is_object r"
  by (auto simp: child_rules_def map_filter_def)

lemma children_rule:
  assumes "(x, r, p) \<in> set (children v rule path)"
  shows "is_object r \<and> size r < size rule"
  using assms by (auto simp: children_def fld_size dest: child_rules_object child_rules_size split: jsval.splits if_splits)

section \<open>Rules and what they govern\<close>

inductive governs :: "jsval \<times> jsval \<times> jsstr \<Rightarrow> jsval \<times> jsval \<times> jsstr \<Rightarrow> bool" where
  governs_here: "is_object rule \<Longrightarrow> governs (v, rule, path) (v, rule, path)"
| governs_inside: "is_object rule \<Longrightarrow> c \<in> set (children v rule path) \<Longrightarrow> governs c t \<Longrightarrow> governs (v, rule, path) t"

inductive_simps governs_iff: "governs (v, rule, path) t"

definition errors_at :: "(jsstr \<Rightarrow> (jsstr \<Rightarrow> bool) option) \<Rightarrow> jsval \<times> jsval \<times> jsstr \<Rightarrow> exn + schema_error list" where
  "errors_at regexp t = (case t of (v, rule, path) \<Rightarrow> own_errors regexp v rule path)"

lemma concatE_Inr:
  assumes "concatE (mapE f xs) = Inr zs"
  shows "set zs = {e. \<exists>x\<in>set xs. \<exists>ys. f x = Inr ys \<and> e \<in> set ys}" "\<And>x. x \<in> set xs \<Longrightarrow> \<exists>ys. f x = Inr ys"
proof -
  obtain yss where yss: "list_all2 (\<lambda>x y. f x = Inr y) xs yss" "zs = concat yss"
    using assms by (cases "mapE f xs") (auto simp: concatE_def bindE_def mapE_Inr)
  then show "\<And>x. x \<in> set xs \<Longrightarrow> \<exists>ys. f x = Inr ys" by (auto simp: list_all2_conv_all_nth in_set_conv_nth)
  from yss show "set zs = {e. \<exists>x\<in>set xs. \<exists>ys. f x = Inr ys \<and> e \<in> set ys}"
    by (induction xs yss arbitrary: zs rule: list_all2_induct) auto
qed

lemma concatE_Inl: "concatE (mapE f xs) = Inl e \<Longrightarrow> \<exists>x\<in>set xs. f x = Inl e"
  by (induction xs) (auto simp: concatE_def bindE_def split: sum.splits)

declare split_paired_Ex [simp del] split_paired_All [simp del]

lemma visit_governs:
  "case visit_rule regexp v rule path of
     Inl e \<Rightarrow> \<exists>t. governs (v, rule, path) t \<and> errors_at regexp t = Inl e
   | Inr es \<Rightarrow> (\<forall>t. governs (v, rule, path) t \<longrightarrow> (\<exists>xs. errors_at regexp t = Inr xs \<and> set xs \<subseteq> set es))
       \<and> (\<forall>e\<in>set es. \<exists>t xs. governs (v, rule, path) t \<and> errors_at regexp t = Inr xs \<and> e \<in> set xs)"
proof (induction "size rule" arbitrary: v rule path rule: less_induct)
  case less
  show ?case
  proof (cases "is_object rule")
    case False
    then show ?thesis by (simp add: visit_children [of regexp v rule path] governs_iff [of v rule path])
  next
    case True
    let ?f = "\<lambda>(x, r, p). visit_rule regexp x r p" and ?cs = "children v rule path"
    have IH: "case ?f c of
         Inl e \<Rightarrow> \<exists>t. governs c t \<and> errors_at regexp t = Inl e
       | Inr es \<Rightarrow> (\<forall>t. governs c t \<longrightarrow> (\<exists>xs. errors_at regexp t = Inr xs \<and> set xs \<subseteq> set es))
           \<and> (\<forall>e\<in>set es. \<exists>t xs. governs c t \<and> errors_at regexp t = Inr xs \<and> e \<in> set xs)"
      if "c \<in> set ?cs" for c
    proof (cases c)
      case (fields x r p)
      with that children_rule have "size r < size rule" by blast
      from less.hyps [OF this, of x p] show ?thesis by (simp only: fields prod.case)
    qed
    show ?thesis
    proof (cases "own_errors regexp v rule path")
      case (Inl e)
      with True show ?thesis by (auto simp: visit_children [of regexp v rule path] appendE_def bindE_def errors_at_def intro: governs_here)
    next
      case own: (Inr xs)
      show ?thesis
      proof (cases "concatE (mapE ?f ?cs)")
        case (Inl e)
        with concatE_Inl [of ?f ?cs e] obtain c where c: "c \<in> set ?cs" "?f c = Inl e" by blast
        with IH [of c] obtain t where "governs c t" "errors_at regexp t = Inl e" by auto
        moreover have "visit_rule regexp v rule path = Inl e"
          using True own Inl by (simp add: visit_children [of regexp v rule path] appendE_def bindE_def)
        ultimately show ?thesis using governs_inside [OF True c(1)] by (simp only: sum.case) blast
      next
        case inside: (Inr zs)
      note zs = concatE_Inr [OF inside]
      have sub: "set ys \<subseteq> set zs" if "c \<in> set ?cs" "?f c = Inr ys" for c ys
        unfolding zs(1) using that by blast
      have "visit_rule regexp v rule path = Inr (xs @ zs)"
        using own inside True by (simp add: visit_children [of regexp v rule path] appendE_def bindE_def)
      moreover have "\<exists>ys. errors_at regexp t = Inr ys \<and> set ys \<subseteq> set (xs @ zs)" if "governs (v, rule, path) t" for t
        using that unfolding governs_iff [of v rule path]
      proof (elim disjE exE conjE)
        assume "t = (v, rule, path)"
        with own show ?thesis by (auto simp: errors_at_def)
      next
        fix c assume c: "c \<in> set ?cs" "governs c t"
        with zs(2) obtain ys where ys: "?f c = Inr ys" by blast
        with IH [OF c(1)] c(2) obtain ws where "errors_at regexp t = Inr ws" "set ws \<subseteq> set ys" by auto
        with sub [OF c(1) ys] show ?thesis by auto
      qed
      moreover have "\<exists>t ys. governs (v, rule, path) t \<and> errors_at regexp t = Inr ys \<and> e \<in> set ys" if "e \<in> set (xs @ zs)" for e
      proof (cases "e \<in> set xs")
        case True
        with own \<open>is_object rule\<close> show ?thesis by (auto simp: errors_at_def intro: governs_here)
      next
        case False
        with that have "e \<in> set zs" by simp
        then obtain c ys where c: "c \<in> set ?cs" "?f c = Inr ys" "e \<in> set ys"
          unfolding zs(1) by blast
        with IH [OF c(1)] obtain t ws where "governs c t" "errors_at regexp t = Inr ws" "e \<in> set ws" by auto
        with governs_inside [OF \<open>is_object rule\<close> c(1)] show ?thesis by blast
      qed
      ultimately show ?thesis by simp
      qed
    qed
  qed
qed

section \<open>Rules without errors\<close>

definition in_limits :: "jsval \<Rightarrow> jsval \<Rightarrow> string \<Rightarrow> string \<Rightarrow> bool" where
  "in_limits v rule lo hi \<longleftrightarrow>
     (\<not> nullish (fld rule lo) \<longrightarrow> less_than v (fld rule lo) \<noteq> Inr (Some True))
     \<and> (\<not> nullish (fld rule hi) \<longrightarrow> less_than (fld rule hi) v \<noteq> Inr (Some True))"

definition fits :: "(jsstr \<Rightarrow> (jsstr \<Rightarrow> bool) option) \<Rightarrow> jsval \<Rightarrow> jsval \<Rightarrow> bool" where
  "fits regexp v rule \<longleftrightarrow>
     (truthy (fld rule ''type'') \<longrightarrow> fld rule ''type'' = JStr (json_type v))
     \<and> (truthy (fld rule ''enum'') \<longrightarrow> (\<exists>items. fld rule ''enum'' = JArr items \<and> (\<exists>item\<in>set items. deep_equal item v)))
     \<and> (case v of
          JObj _ \<Rightarrow> \<forall>names n s. iterate (or_else (fld rule ''required'') (JArr [])) = Inr names \<longrightarrow> n \<in> set names \<longrightarrow>
              to_string n = Inr s \<longrightarrow> own_property v s \<noteq> None
        | JStr s \<Rightarrow> in_limits (JNum (nnum (length s))) rule ''minLength'' ''maxLength''
            \<and> (truthy (fld rule ''pattern'') \<longrightarrow>
                (\<exists>source test. to_string (fld rule ''pattern'') = Inr source \<and> regexp source = Some test \<and> test s))
        | JNum _ \<Rightarrow> in_limits v rule ''minimum'' ''maximum''
        | _ \<Rightarrow> True)"

lemma appendE_Inr: "appendE m n = Inr xs \<longleftrightarrow> (\<exists>ys zs. m = Inr ys \<and> n = Inr zs \<and> xs = ys @ zs)"
  by (auto simp: appendE_def bindE_def split: sum.splits)

lemma error_unless_none: "error_unless ok path k b v a = Inr xs \<Longrightarrow> xs = [] \<longleftrightarrow> ok"
  by (auto simp: error_unless_def bindE_def split: if_splits sum.splits)

lemma check_limit_none:
  "check_limit least v rule k b a path = Inr xs \<Longrightarrow>
     xs = [] \<longleftrightarrow> nullish (fld rule k) \<or> (if least then less_than v (fld rule k) else less_than (fld rule k) v) \<noteq> Inr (Some True)"
  by (auto simp: check_limit_def Let_def bindE_def [of "if _ then _ else _"] bindE_def [of "less_than _ _"]
      split: if_splits sum.splits dest: error_unless_none)

lemma check_type_none:
  "check_type v rule path = Inr xs \<Longrightarrow> xs = [] \<longleftrightarrow> (truthy (fld rule ''type'') \<longrightarrow> fld rule ''type'' = JStr (json_type v))"
  by (auto simp: check_type_def Let_def dest: error_unless_none)

lemma check_enum_none:
  "check_enum v rule path = Inr xs \<Longrightarrow>
     xs = [] \<longleftrightarrow> (truthy (fld rule ''enum'') \<longrightarrow> (\<exists>items. fld rule ''enum'' = JArr items \<and> (\<exists>item\<in>set items. deep_equal item v)))"
  by (auto simp: check_enum_def Let_def list_ex_iff split: if_splits jsval.splits)

lemma concatE_Nil: "concatE (mapE f xs) = Inr zs \<Longrightarrow> zs = [] \<longleftrightarrow> (\<forall>x\<in>set xs. f x = Inr [])"
proof (induction xs arbitrary: zs)
  case (Cons x xs)
  obtain ys yss where "f x = Inr ys" "mapE f xs = Inr yss" "zs = ys @ concat yss"
    using Cons.prems by (auto simp: concatE_def bindE_def split: sum.splits)
  moreover from this(2) have "concat yss = [] \<longleftrightarrow> (\<forall>x\<in>set xs. f x = Inr [])"
    by (intro Cons.IH) (simp add: concatE_def bindE_def)
  ultimately show ?case by auto
qed (simp add: concatE_def bindE_def)

lemma check_required_none:
  assumes "check_required v rule path = Inr xs"
  shows "xs = [] \<longleftrightarrow> (\<forall>names n s. iterate (or_else (fld rule ''required'') (JArr [])) = Inr names \<longrightarrow> n \<in> set names \<longrightarrow>
      to_string n = Inr s \<longrightarrow> own_property v s \<noteq> None)"
proof -
  define f where "f = (\<lambda>n. bindE (to_string n) (\<lambda>s. Inr (if own_property v s \<noteq> None then []
      else [schema_error path ''required'' (js ''must have required property '' @ [39] @ s @ [39])])))"
  obtain names where names: "iterate (or_else (fld rule ''required'') (JArr [])) = Inr names"
    and c: "concatE (mapE f names) = Inr xs"
    using assms by (auto simp: f_def check_required_def concatE_def bindE_def [of "iterate _"] split: sum.splits)
  have "f n = Inr [] \<longleftrightarrow> (\<forall>s. to_string n = Inr s \<longrightarrow> own_property v s \<noteq> None)" if "n \<in> set names" for n
    using concatE_Inr(2) [OF c that] by (cases "to_string n") (auto simp: f_def bindE_def split: if_splits)
  with concatE_Nil [OF c] names show ?thesis by auto
qed

lemma check_pattern_none:
  "check_pattern regexp s rule path = Inr xs \<Longrightarrow>
     xs = [] \<longleftrightarrow> (truthy (fld rule ''pattern'') \<longrightarrow>
       (\<exists>source test. to_string (fld rule ''pattern'') = Inr source \<and> regexp source = Some test \<and> test s))"
  by (auto simp: check_pattern_def Let_def bindE_def [of "to_string _"] split: if_splits sum.splits option.splits dest: error_unless_none)

lemma own_errors_none:
  assumes "own_errors regexp v rule path = Inr xs"
  shows "xs = [] \<longleftrightarrow> fits regexp v rule"
proof -
  obtain as bs cs where as: "check_type v rule path = Inr as" and bs: "check_enum v rule path = Inr bs"
    and cs: "(case v of JObj _ \<Rightarrow> check_required v rule path | JStr s \<Rightarrow> check_text regexp s rule path
         | JNum _ \<Rightarrow> check_number v rule path | _ \<Rightarrow> Inr []) = Inr cs" and xs: "xs = as @ bs @ cs"
    using assms by (auto simp: own_errors_def appendE_Inr)
  have "cs = [] \<longleftrightarrow> (case v of
          JObj _ \<Rightarrow> \<forall>names n s. iterate (or_else (fld rule ''required'') (JArr [])) = Inr names \<longrightarrow> n \<in> set names \<longrightarrow>
              to_string n = Inr s \<longrightarrow> own_property v s \<noteq> None
        | JStr s \<Rightarrow> in_limits (JNum (nnum (length s))) rule ''minLength'' ''maxLength''
            \<and> (truthy (fld rule ''pattern'') \<longrightarrow>
                (\<exists>source test. to_string (fld rule ''pattern'') = Inr source \<and> regexp source = Some test \<and> test s))
        | JNum _ \<Rightarrow> in_limits v rule ''minimum'' ''maximum''
        | _ \<Rightarrow> True)"
  proof (cases v)
    case (JStr s)
    with cs show ?thesis
      by (auto simp: check_text_def Let_def appendE_Inr in_limits_def dest!: check_limit_none check_pattern_none)
  next
    case (JNum x)
    with cs show ?thesis
      by (auto simp: check_number_def appendE_Inr in_limits_def dest!: check_limit_none)
  next
    case (JObj ms)
    with cs check_required_none [of v rule path cs] show ?thesis by simp
  qed (use cs in auto)
  with check_type_none [OF as] check_enum_none [OF bs] show ?thesis by (simp add: xs fits_def)
qed

section \<open>Validation\<close>

text \<open>C29: A value is valid exactly when every value inside it fits the rule that governs it: its type, the values and properties it asks for, its length, pattern and bounds; the errors reported are those of the governed values, each of them, and validating raises only what looking at one of them raises.\<close>

theorem schema_errors_spec:
  "case schema_validate regexp schema v of
     Inl e \<Rightarrow> \<exists>t. governs (v, schema, []) t \<and> errors_at regexp t = Inl e
   | Inr (valid, errors) \<Rightarrow>
       (valid \<longleftrightarrow> errors = None) \<and> (valid \<longleftrightarrow> (\<forall>x rule path. governs (v, schema, []) (x, rule, path) \<longrightarrow> fits regexp x rule))
       \<and> (\<forall>es. errors = Some es \<longrightarrow>
            set es = {e. \<exists>t xs. governs (v, schema, []) t \<and> errors_at regexp t = Inr xs \<and> e \<in> set xs})"
proof (cases "visit_rule regexp v schema []")
  case (Inl e)
  with visit_governs [of v schema "[]" regexp] show ?thesis by (simp add: schema_validate_def bindE_def)
next
  case (Inr es)
  with visit_governs [of v schema "[]" regexp]
  have all: "\<And>t. governs (v, schema, []) t \<Longrightarrow> \<exists>xs. errors_at regexp t = Inr xs \<and> set xs \<subseteq> set es"
    and some: "\<And>e. e \<in> set es \<Longrightarrow> \<exists>t xs. governs (v, schema, []) t \<and> errors_at regexp t = Inr xs \<and> e \<in> set xs"
    by simp_all
  have "es = [] \<longleftrightarrow> (\<forall>t. governs (v, schema, []) t \<longrightarrow> errors_at regexp t = Inr [])"
  proof
    assume "es = []"
    with all show "\<forall>t. governs (v, schema, []) t \<longrightarrow> errors_at regexp t = Inr []" by fastforce
  next
    assume "\<forall>t. governs (v, schema, []) t \<longrightarrow> errors_at regexp t = Inr []"
    with some show "es = []" by (cases es) fastforce+
  qed
  also have "\<dots> \<longleftrightarrow> (\<forall>x rule path. governs (v, schema, []) (x, rule, path) \<longrightarrow> fits regexp x rule)"
  proof -
    have "errors_at regexp (x, rule, path) = Inr [] \<longleftrightarrow> fits regexp x rule" if "governs (v, schema, []) (x, rule, path)" for x rule path
      using all [OF that] own_errors_none [of regexp x rule path] by (auto simp: errors_at_def)
    then show ?thesis by (metis prod_cases3)
  qed
  finally have "es = [] \<longleftrightarrow> (\<forall>x rule path. governs (v, schema, []) (x, rule, path) \<longrightarrow> fits regexp x rule)" .
  moreover have "set es = {e. \<exists>t xs. governs (v, schema, []) t \<and> errors_at regexp t = Inr xs \<and> e \<in> set xs}"
  proof
    show "set es \<subseteq> {e. \<exists>t xs. governs (v, schema, []) t \<and> errors_at regexp t = Inr xs \<and> e \<in> set xs}"
      using some by blast
    show "{e. \<exists>t xs. governs (v, schema, []) t \<and> errors_at regexp t = Inr xs \<and> e \<in> set xs} \<subseteq> set es"
      using all by fastforce
  qed
  ultimately show ?thesis using Inr by (simp add: schema_validate_def bindE_def)
qed

lemma schema_errors_spec_witness:
  "\<exists>e t xs. schema_validate (\<lambda>_. None) (JObj [(js ''type'', JStr (js ''string''))]) (JArr [JNull]) = Inr (False, Some [e])
     \<and> governs (JArr [JNull], JObj [(js ''type'', JStr (js ''string''))], []) t
     \<and> errors_at (\<lambda>_. None) t = Inr xs \<and> e \<in> set xs"
proof -
  let ?schema = "JObj [(js ''type'', JStr (js ''string''))]" and ?e = "schema_error [] ''type'' (js ''must be string'')"
  have "schema_validate (\<lambda>_. None) ?schema (JArr [JNull]) = Inr (False, Some [?e])"
    by code_simp
  with schema_errors_spec [where regexp = "\<lambda>_. None" and schema = ?schema and v = "JArr [JNull]"] show ?thesis
    by (intro exI [of _ ?e]) auto
qed

text \<open>Every number breaks the rule that asks for an integer.\<close>

lemma integer_never_valid:
  assumes "fld rule ''type'' = JStr (js ''integer'')" "is_object rule"
  shows "schema_validate regexp rule (JNum x) = Inr (valid, errors) \<Longrightarrow> \<not> valid"
proof
  assume v: "schema_validate regexp rule (JNum x) = Inr (valid, errors)" "valid"
  have "check_type (JNum x) rule [] \<noteq> Inr []"
    by (simp add: check_type_def assms(1) error_unless_def json_type_def type_of_def bindE_def)
  moreover have "check_type (JNum x) rule [] \<noteq> Inl e" for e
    by (simp add: check_type_def assms(1) error_unless_def json_type_def type_of_def bindE_def)
  ultimately obtain y ys where "check_type (JNum x) rule [] = Inr (y # ys)"
    by (metis sum.exhaust_sel list.exhaust)
  with v show False
    by (auto simp: schema_validate_def visit_children [of regexp "JNum x" rule] assms(2) own_errors_def
        appendE_def bindE_def split: sum.splits)
qed

end
