(* ===== verification/Validation_Summary.thy ===== *)
theory Validation_Summary
  imports Api_Contracts Js_Compare Js_Sort
begin

text \<open>
  The summary of a deployment validation, from \<open>features/suites/validation-summary.ts\<close>: which checks
  failed or warned, the order they are listed in, the counts and the texts of the decision. Values
  are read the way the code reads them, so a report without its declared shape may raise a
  \<open>TypeError\<close>. \<open>Date.parse\<close> is a parameter.
\<close>

section \<open>Reading\<close>

definition member :: "jsval \<Rightarrow> string \<Rightarrow> exn + jsval" where \<comment> \<open>\<open>v.k\<close>\<close>
  "member v k = (if nullish v then Inl TypeError else Inr (fld v k))"

fun someE :: "('a \<Rightarrow> exn + bool) \<Rightarrow> 'a list \<Rightarrow> exn + bool" where
  "someE p [] = Inr False"
| "someE p (x # xs) = bindE (p x) (\<lambda>b. if b then Inr True else someE p xs)"

definition some_element :: "(jsval \<Rightarrow> exn + bool) \<Rightarrow> jsval \<Rightarrow> exn + bool" where \<comment> \<open>\<open>(v ?? []).some(p)\<close>\<close>
  "some_element p v =
     (if nullish v then Inr False else case v of JArr xs \<Rightarrow> someE p xs | _ \<Rightarrow> Inl TypeError)"

definition orE :: "exn + bool \<Rightarrow> exn + bool \<Rightarrow> exn + bool" where
  "orE m n = bindE m (\<lambda>b. if b then Inr True else n)"

definition upper_status :: "jsval \<Rightarrow> exn + jsstr" where \<comment> \<open>\<open>(status ?? "").toUpperCase()\<close>\<close>
  "upper_status status =
     (if nullish status then Inr []
      else case status of JStr s \<Rightarrow> Inr (to_upper s) | _ \<Rightarrow> Inl TypeError)"

section \<open>Failed and warned checks\<close>

definition passed_statuses :: "jsstr list" where
  "passed_statuses = map js [''SUCCESS'', ''SUCCESS_WITH_WARNINGS'', ''PASSED'', ''PASSED_WITH_WARNINGS'']"

definition check_failed :: "jsval \<Rightarrow> exn + bool" where
  "check_failed status =
     bindE (upper_status status) (\<lambda>s. Inr (s \<notin> set (passed_statuses @ [js ''PENDING'', []])))"

definition sample_passed :: "jsval \<Rightarrow> exn + bool" where
  "sample_passed status = bindE (upper_status status) (\<lambda>s. Inr (s \<in> set passed_statuses))"

definition failed_classification :: "jsval \<Rightarrow> exn + bool" where
  "failed_classification item = bindE (member item ''classification'') (\<lambda>c. Inr (c = JStr (js ''REGRESSED'')))"

definition post_failures :: "jsval \<Rightarrow> exn + bool" where \<comment> \<open>\<open>(item.post.failureCount ?? 0) > 0\<close>\<close>
  "post_failures item =
     bindE (member item ''post'') (\<lambda>post. bindE (member post ''failureCount'') (\<lambda>count.
     bindE (less_than (JNum (Fin 0)) (coalesce count (JNum (Fin 0)))) (\<lambda>r. Inr (r = Some True))))"

definition sample_failed :: "jsval \<Rightarrow> exn + bool" where
  "sample_failed sample =
     bindE (member sample ''status'') (\<lambda>s. bindE (sample_passed s) (\<lambda>p. Inr (\<not> p)))"

definition regressed :: "jsval \<Rightarrow> exn + bool" where
  "regressed item = orE (failed_classification item) (post_failures item)"

definition browser_failed :: "jsval \<Rightarrow> exn + bool" where
  "browser_failed monitor =
     orE (regressed monitor) (bindE (member monitor ''samples'') (some_element sample_failed))"

definition monitor_failed :: "jsval \<Rightarrow> exn + bool" where
  "monitor_failed monitor =
     orE (browser_failed monitor) (bindE (member monitor ''steps'') (some_element regressed))"

definition warned :: "(jsval \<Rightarrow> exn + bool) \<Rightarrow> jsval \<Rightarrow> exn + bool" where
  "warned failed monitor =
     bindE (failed monitor) (\<lambda>f.
     if f then Inr False
     else bindE (member monitor ''classification'') (\<lambda>c.
       Inr (c \<in> set [JStr (js ''INSUFFICIENT_HISTORY''), JStr (js ''PENDING'')])))"

definition monitor_warned :: "jsval \<Rightarrow> exn + bool" where
  "monitor_warned = warned monitor_failed"

definition browser_warned :: "jsval \<Rightarrow> exn + bool" where
  "browser_warned = warned browser_failed"

section \<open>Order\<close>

definition rank :: "bool \<Rightarrow> bool \<Rightarrow> bool \<Rightarrow> int" where
  "rank failed warn required =
     (if failed \<and> required then 0 else if failed then 1 else if warn then 2 else 3)"

definition item_rank :: "(jsval \<Rightarrow> exn + bool) \<Rightarrow> (jsval \<Rightarrow> exn + bool) \<Rightarrow> jsval \<Rightarrow> exn + int" where
  "item_rank failed warn item =
     bindE (failed item) (\<lambda>f. bindE (warn item) (\<lambda>w. bindE (member item ''required'') (\<lambda>r.
     Inr (rank f w (truthy r)))))"

text \<open>Sorting two items or more compares each of them, so one that has no rank makes it raise.\<close>

definition sort_ranked :: "(jsval \<Rightarrow> exn + int) \<Rightarrow> jsval \<Rightarrow> exn + jsval list" where
  "sort_ranked item_rank_of items =
     bindE (iterate (coalesce items (JArr []))) (\<lambda>xs.
     if length xs \<le> 1 then Inr xs
     else bindE (mapE item_rank_of xs) (\<lambda>ranks.
       Inr (map fst (sort_by (\<lambda>x y. snd x - snd y) (zip xs ranks)))))"

definition check_rank :: "jsval \<Rightarrow> exn + int" where
  "check_rank item =
     bindE (member item ''status'') (\<lambda>s. bindE (check_failed s) (\<lambda>f. bindE (member item ''required'') (\<lambda>r.
     Inr (rank f False (truthy r)))))"

definition sort_monitors :: "jsval \<Rightarrow> exn + jsval list" where
  "sort_monitors = sort_ranked (item_rank monitor_failed monitor_warned)"

definition sort_browsers :: "jsval \<Rightarrow> exn + jsval list" where
  "sort_browsers = sort_ranked (item_rank browser_failed browser_warned)"

definition sort_checks :: "jsval \<Rightarrow> exn + jsval list" where
  "sort_checks = sort_ranked check_rank"

definition sort_dynatrace :: "jsval \<Rightarrow> exn + jsval list" where
  "sort_dynatrace = sort_ranked check_rank"

section \<open>Durations\<close>

definition num_mod :: "jsnum \<Rightarrow> nat \<Rightarrow> jsnum" where \<comment> \<open>\<open>x % n\<close> of a number that is not negative\<close>
  "num_mod x n =
     (case x of Fin a \<Rightarrow> Fin (a - of_nat n * of_int \<lfloor>a / of_nat n\<rfloor>) | _ \<Rightarrow> NaN)"

definition amount :: "jsnum \<Rightarrow> string \<Rightarrow> jsstr" where
  "amount x u = num_to_str x @ js u"

definition duration_label :: "jsnum \<Rightarrow> jsstr" where
  "duration_label secs =
     (if num_less secs (nnum 60) then amount secs ''s''
      else
        let minutes = num_floor (num_div_nat secs 60); seconds = num_mod secs 60 in
        if num_less minutes (nnum 60)
        then (if num_truthy seconds then amount minutes ''m '' @ amount seconds ''s'' else amount minutes ''m'')
        else
          let hours = num_floor (num_div_nat minutes 60); remain = num_mod minutes 60 in
          if num_truthy remain then amount hours ''h '' @ amount remain ''m'' else amount hours ''h'')"

definition is_finite :: "jsnum \<Rightarrow> bool" where
  "is_finite x = (case x of Fin _ \<Rightarrow> True | _ \<Rightarrow> False)"

definition format_duration :: "(jsval \<Rightarrow> jsnum) \<Rightarrow> jsval \<Rightarrow> jsval \<Rightarrow> jsstr" where
  "format_duration date_parse started_at ended_at =
     (let missing = js ''Duration not recorded''; started = date_parse started_at; ended = date_parse ended_at in
      if \<not> truthy started_at \<or> \<not> truthy ended_at then missing
      else if \<not> is_finite started \<or> \<not> is_finite ended \<or> num_less ended started then missing
      else duration_label (num_round (num_div_nat (num_sub ended started) 1000)))"

section \<open>Counts\<close>

record validation_counts =
  vc_failed :: nat
  vc_warnings :: nat
  vc_passed :: nat
  vc_total :: nat
  vc_duration :: jsstr

definition listed :: "jsval \<Rightarrow> string \<Rightarrow> exn + jsval list" where \<comment> \<open>\<open>report.k ?? []\<close>, an array\<close>
  "listed report k =
     bindE (member report k) (\<lambda>v. case coalesce v (JArr []) of JArr xs \<Rightarrow> Inr xs | _ \<Rightarrow> Inl IllTyped)"

datatype verdict_of = Failed | Warned | Passed

definition judge :: "(jsval \<Rightarrow> exn + bool) \<Rightarrow> (jsval \<Rightarrow> exn + bool) \<Rightarrow> jsval \<Rightarrow> exn + verdict_of" where
  "judge failed warn item =
     bindE (failed item) (\<lambda>f.
     if f then Inr Failed else bindE (warn item) (\<lambda>w. Inr (if w then Warned else Passed)))"

definition judge_check :: "jsval \<Rightarrow> exn + verdict_of" where
  "judge_check item =
     bindE (member item ''status'') (\<lambda>s. bindE (check_failed s) (\<lambda>f. Inr (if f then Failed else Passed)))"

definition summarize_validation :: "(jsval \<Rightarrow> jsnum) \<Rightarrow> jsval \<Rightarrow> exn + validation_counts" where
  "summarize_validation date_parse run =
     bindE (member run ''report'') (\<lambda>report.
     bindE (listed report ''monitors'') (\<lambda>monitors.
     bindE (listed report ''browserMonitors'') (\<lambda>browsers.
     bindE (listed report ''elfResults'') (\<lambda>elf.
     bindE (listed report ''alertResults'') (\<lambda>alerts.
     bindE (listed report ''dynatraceResults'') (\<lambda>dynatrace.
     bindE (mapE (judge monitor_failed monitor_warned) monitors) (\<lambda>ms.
     bindE (mapE (judge browser_failed browser_warned) browsers) (\<lambda>bs.
     bindE (mapE judge_check (elf @ alerts @ dynatrace)) (\<lambda>cs.
     bindE (listed report ''warnings'') (\<lambda>notes.
     let results = ms @ bs @ cs in
     Inr \<lparr>vc_failed = count_list results Failed,
          vc_warnings = count_list results Warned + length notes,
          vc_passed = count_list results Passed,
          vc_total = length monitors + length browsers + length elf + length alerts + length dynatrace,
          vc_duration = format_duration date_parse (fld run ''startedAt'') (fld run ''endedAt'')\<rparr>))))))))))"

definition decision_copy :: "jsstr \<Rightarrow> nat \<Rightarrow> jsstr" where
  "decision_copy decision failed =
     (if decision = js ''BLOCK'' then
        (if failed \<noteq> 0
         then js ''Block this release. '' @ dec failed @ js '' required check'' @ (if failed = 1 then [] else js ''s'')
              @ js '' failed the gate.''
         else js ''Block this release. Rhythm recorded a blocking gate decision.'')
      else if decision = js ''ALLOW_WITH_WARNINGS''
      then js ''Allow with warnings. Review the advisory findings before promoting.''
      else if decision = js ''ALLOW'' then js ''Allow this release. Required checks passed the gate.''
      else js ''Gate decision is still pending.'')"

definition format_milliseconds :: "(jsval \<Rightarrow> jsstr) \<Rightarrow> jsval \<Rightarrow> jsstr" where
  "format_milliseconds locale_text v =
     (if nullish v then js ''Not recorded'' else locale_text v @ js '' ms'')"

end
