(* ===== verification/Number_Text.thy ===== *)
theory Number_Text
  imports Json_Numbers
begin

text \<open>
  Numbers that are exact: the binary64 value of a quotient of naturals lies close enough for its
  floor and its rounding to be those of the quotient, and a natural below two to the fifty-third
  prints as its decimal digits.
\<close>

section \<open>Printing naturals\<close>

lemma exact_or_large:
  fixes v :: nat
  assumes "to_double (of_nat v) = Fin (of_nat n)" "n < 2 ^ 53"
  shows "v = n"
proof (cases "v < 2 ^ 53")
  case True
  with assms(1) to_double_of_nat [of v] show ?thesis by simp
next
  case False
  let ?x = "of_nat v :: rat"
  have x: "0 < ?x" "2 ^ 53 \<le> ?x" using False of_nat_le_iff [of "2 ^ 53" v, where 'a = rat] by (simp_all add: not_less)
  have "pow2 53 < pow2 (ilog2 ?x + 1)" using x(2) ilog2_bounds [OF x(1)] pow2_of_nat [of 53] by simp
  then have i: "53 \<le> ilog2 ?x" using pow2_less by fastforce
  then have lp: "last_place ?x = ilog2 ?x - 52" by (simp add: last_place_def)
  have "pow2 (ilog2 ?x) = 2 ^ 52 * pow2 (last_place ?x)"
    using pow2_add [of 52 "last_place ?x"] pow2_of_nat [of 52] by (simp add: lp)
  then have "2 ^ 52 \<le> ?x / pow2 (last_place ?x)" using ilog2_bounds [OF x(1)] by (simp add: pos_le_divide_eq)
  then have "2 ^ 52 < of_int (round_half_even (?x / pow2 (last_place ?x))) + (1 :: rat)"
    using round_half_even_error [of "?x / pow2 (last_place ?x)"] by linarith
  then have "of_int (2 ^ 52) < (of_int (round_half_even (?x / pow2 (last_place ?x)) + 1) :: rat)" by simp
  then have "2 ^ 52 \<le> round_half_even (?x / pow2 (last_place ?x))" unfolding of_int_less_iff by simp
  then have "(of_int (2 ^ 52) :: rat) \<le> of_int (round_half_even (?x / pow2 (last_place ?x)))" unfolding of_int_le_iff .
  then have "2 ^ 52 * pow2 (last_place ?x) \<le> rounded ?x" unfolding rounded_def by (intro mult_right_mono) simp_all
  moreover have "(2 :: rat) ^ 53 \<le> 2 ^ 52 * pow2 (last_place ?x)"
    using pow2_mono [of 1 "last_place ?x"] i lp by (simp add: pow2_def [of 1])
  moreover have "(of_nat n :: rat) < of_nat (2 ^ 53)" unfolding of_nat_less_iff by (rule assms(2))
  moreover have "rounded ?x = of_nat n" using assms(1) x(1) by (simp add: to_double_pos split: if_splits)
  ultimately show ?thesis by simp
qed

lemma ilog10_nat:
  assumes "0 < n"
  shows "ilog10 (of_nat n) = int (length (dec n)) - 1"
proof -
  have q: "quotient_of (of_nat n) = (int n, 1)" using quotient_of_int [of "int n"] by simp
  have e: "int (length (dec n)) - 1 = int (length (dec n) - 1)" by (cases "dec n") simp_all
  have "10 ^ (length (dec n) - 1) \<le> n" using dec_bounds [of n] assms by simp
  then have "(of_nat (10 ^ (length (dec n) - 1)) :: rat) \<le> of_nat n" unfolding of_nat_le_iff .
  then have "pow10 (int (length (dec n)) - 1) \<le> (of_nat n :: rat)" unfolding e pow10_of_nat by simp
  moreover have "length (dec 1) = 1" by (simp add: dec.simps)
  ultimately show ?thesis by (simp add: ilog10_def q Let_def)
qed

lemma shortest_nat:
  assumes "0 < n" "n < 2 ^ 53" "shortest_decimal (of_nat n) = (ds, p)"
  shows "int (length ds) \<le> p" "p \<le> 17"
proof -
  let ?x = "of_nat n :: rat" and ?l = "length (dec n)"
  define ok where "ok = (\<lambda>k. case decimal_candidate ?x k of (m, e) \<Rightarrow> to_double (of_int m * pow10 e) = Fin ?x)"
  have l: "0 < ?l" "?l \<le> 16"
  proof -
    show "0 < ?l" using dec_bounds [of n] assms(1) by (cases "dec n") simp_all
    have "10 ^ (?l - 1) < (10 :: nat) ^ 16" using dec_bounds [of n] assms(1,2) by simp
    then have "?l - 1 < 16" by (simp only: power_strict_increasing_iff)
    then show "?l \<le> 16" by simp
  qed
  have "decimal_candidate ?x ?l = (int n, 0)"
    using round_half_even_int [of "int n"] by (simp add: decimal_candidate_def ilog10_nat [OF assms(1)] pow10_def)
  then have okl: "ok ?l" using to_double_of_nat [OF assms(2)] by (simp add: ok_def pow10_def)
  have "1 \<le> ?l" "?l < 18" using l by linarith+
  then have "?l \<in> set [1..<18]" by (simp only: set_upt atLeastLessThan_iff simp_thms)
  with okl have "find ok [1..<18] \<noteq> None" unfolding find_None_iff by blast
  then obtain k where k: "find ok [1..<18] = Some k" by blast
  then obtain i where i: "i < 17" "k = 1 + i" "\<forall>j<i. \<not> ok (1 + j)" unfolding find_Some_iff by auto
  have "k \<le> ?l"
  proof (rule ccontr)
    assume "\<not> k \<le> ?l"
    with i(2) l(1) have "?l - 1 < i" by linarith
    with i(3) have "\<not> ok (1 + (?l - 1))" by blast
    moreover have "1 + (?l - 1) = ?l" using l(1) by linarith
    ultimately show False using okl by metis
  qed
  have "0 < k" using i(2) by simp
  obtain m e where c: "decimal_candidate ?x k = (m, e)" by (cases "decimal_candidate ?x k")
  note b = decimal_candidate_bounds [OF _ \<open>0 < k\<close> c]
  have sd: "(ds, p) = (if m = 10 ^ k then (js ''1'', ilog10 ?x + 2) else (dec (nat m), ilog10 ?x + 1))"
    using assms(3) c unfolding shortest_decimal_def ok_def [symmetric] k by simp
  have "length ds \<le> k"
  proof (cases "m = 10 ^ k")
    case True
    with sd \<open>0 < k\<close> show ?thesis by simp
  next
    case False
    have "0 < m" using b(1) assms(1) by (intro order.strict_trans2 [of 0 "10 ^ (k - 1)" m]) simp_all
    with False sd b(1,2) assms(1) \<open>0 < k\<close> have "length ds = k"
      by (auto intro!: length_dec simp: le_nat_iff nat_less_iff)
    then show ?thesis by simp
  qed
  with \<open>k \<le> ?l\<close> sd ilog10_nat [OF assms(1)] show "int (length ds) \<le> p" by (auto split: if_splits)
  show "p \<le> 17" using sd ilog10_nat [OF assms(1)] l(2) by (auto split: if_splits)
qed

theorem num_to_str_nat: "n < 2 ^ 53 \<Longrightarrow> num_to_str (nnum n) = dec n"
proof (cases "n = 0")
  case True
  then show ?thesis by (simp add: num_to_str_def js_def dec.simps)
next
  case False
  assume n: "n < 2 ^ 53"
  obtain ds p where sd: "shortest_decimal (of_nat n) = (ds, p)" by (cases "shortest_decimal (of_nat n)")
  have ds: "digits_of ds" "to_double (digits_value ds p) = Fin (of_nat n)"
    using shortest_decimal [OF _ to_double_of_nat [OF n] sd] False by simp_all
  note p = shortest_nat [OF _ n sd]
  let ?z = "nat (p - int (length ds))"
  have "digits_value ds p = of_nat (undec ds * 10 ^ ?z)"
    using p(1) False by (simp add: digits_value_def pow10_def)
  with ds(2) exact_or_large [OF _ n] have "undec ds * 10 ^ ?z = n" by metis
  then have "undec (ds @ replicate ?z 48) = n" by (simp add: undec_append undec_zeros)
  moreover have "dec (undec (ds @ replicate ?z 48)) = ds @ replicate ?z 48"
    using ds(1) by (intro dec_undec) (auto simp: digits_of_def list_all_iff is_digit_def)
  ultimately have "dec n = ds @ replicate ?z 48" by metis
  moreover have "layout_digits ds p = ds @ replicate ?z 48"
    using p False by (simp add: layout_digits_def)
  ultimately show ?thesis using False sd by (simp add: num_to_str_def)
qed

section \<open>Naturals\<close>

lemma num_less_nat [simp]: "num_less (nnum a) (nnum b) \<longleftrightarrow> a < b"
  by simp

lemma num_truthy_nat [simp]: "num_truthy (nnum a) \<longleftrightarrow> a \<noteq> 0"
  by (simp add: num_truthy_def)

lemma num_sub_nat:
  assumes "a \<le> b" "b < 2 ^ 53"
  shows "num_sub (nnum b) (nnum a) = nnum (b - a)"
proof -
  have "to_double (of_nat b - of_nat a) = nnum (b - a)"
    using to_double_of_nat [of "b - a"] assms(2) unfolding of_nat_diff [OF assms(1), symmetric] by simp
  then show ?thesis by (simp only: num_sub_def prod.case jsnum.case)
qed

section \<open>Quotients\<close>

lemma double_near:
  fixes y :: rat
  assumes "0 < y" "y < of_nat a / of_nat n" "a \<le> 2 ^ 53" "0 < n" "n < 2 ^ 60"
  obtains r where "to_double y = Fin r" "\<bar>r - y\<bar> < 1 / of_nat n"
proof -
  let ?q = "last_place y"
  have n: "(0 :: rat) < of_nat n" "(of_nat n :: rat) < of_nat (2 ^ 60)" using assms(4,5) by (simp_all only: of_nat_less_iff of_nat_0_less_iff)
  have "(of_nat a :: rat) \<le> of_nat (2 ^ 53)" using assms(3) by (simp only: of_nat_le_iff)
  with assms(2) n have "of_nat n * y < 2 ^ 53" by (simp add: pos_less_divide_eq mult.commute)
  then have "of_nat n * pow2 (ilog2 y) < 2 ^ 53"
    using ilog2_bounds [OF assms(1)] n(1) by (meson mult_left_mono less_imp_le order.strict_trans1)
  moreover have "pow2 (ilog2 y) = 2 ^ 53 * (pow2 (ilog2 y - 52) / 2)"
    using pow2_add [of 52 "ilog2 y - 52"] pow2_of_nat [of 52] by simp
  ultimately have "of_nat n * (pow2 (ilog2 y - 52) / 2) < 1" by simp
  moreover have "of_nat n * (pow2 (- 1074) / 2) < (1 :: rat)"
    using n by (simp add: pow2_def pos_divide_less_eq)
  ultimately have "of_nat n * (pow2 ?q / 2) < 1" by (simp add: last_place_def max_def)
  then have q: "pow2 ?q / 2 < 1 / of_nat n" using n by (simp add: pos_less_divide_eq mult.commute)
  have "rounded y - y = (of_int (round_half_even (y / pow2 ?q)) - y / pow2 ?q) * pow2 ?q"
    by (simp add: rounded_def left_diff_distrib)
  then have "\<bar>rounded y - y\<bar> \<le> 1 / 2 * pow2 ?q"
    using round_half_even_error [of "y / pow2 ?q"] by (simp only: abs_mult abs_of_pos [OF pow2_pos]) (intro mult_right_mono, simp_all)
  with q have near: "\<bar>rounded y - y\<bar> < 1 / of_nat n" by simp
  have "1 / of_nat n \<le> (1 :: rat)" using assms(4) by simp
  moreover have "y < 2 ^ 53"
  proof -
    have "(1 :: rat) \<le> of_nat n" using assms(4) by simp
    then have "1 * y \<le> of_nat n * y" using assms(1) by (intro mult_right_mono) simp_all
    with \<open>of_nat n * y < 2 ^ 53\<close> show ?thesis by simp
  qed
  ultimately have "rounded y < 2 ^ 54" using near by simp
  moreover have "(2 :: rat) ^ 54 \<le> pow2 1024" by (simp add: pow2_def)
  ultimately have "to_double y = Fin (rounded y)" using assms(1) by (simp add: to_double_pos)
  from this near show ?thesis by (rule that)
qed

lemma floor_quotient:
  assumes "a < 2 ^ 53" "0 < n" "n < 2 ^ 60"
  shows "num_floor (num_div_nat (nnum a) n) = nnum (a div n)"
proof (cases "n dvd a")
  case True
  then have "(of_nat a :: rat) / of_nat n = of_nat (a div n)" using assms(2) by (auto simp: dvd_def)
  moreover have "a div n < 2 ^ 53" using assms(1) div_le_dividend [of a n] by linarith
  ultimately show ?thesis using to_double_of_nat by (simp add: num_div_nat_def num_floor_def)
next
  case False
  define k where "k = a div n"
  have m: "0 < a mod n" "a mod n + 1 \<le> n" using False assms(2) by (simp_all add: dvd_eq_mod_eq_0 Suc_leI)
  have "a = k * n + a mod n" by (simp add: k_def)
  then have "(of_nat a :: rat) = of_nat k * of_nat n + of_nat (a mod n)" by (metis of_nat_add of_nat_mult)
  moreover have "(1 :: rat) \<le> of_nat (a mod n)" "of_nat (a mod n) + 1 \<le> (of_nat n :: rat)"
    using m of_nat_le_iff [of 1 "a mod n", where 'a = rat] of_nat_le_iff [of "a mod n + 1" n, where 'a = rat] by simp_all
  ultimately have y: "of_nat k + 1 / of_nat n \<le> (of_nat a :: rat) / of_nat n" "of_nat a / of_nat n + 1 / of_nat n \<le> of_nat k + (1 :: rat)"
    using assms(2) by (simp_all add: field_simps)
  have "0 < a" using False by (cases a) simp_all
  then obtain r where "to_double (of_nat a / of_nat n) = Fin r" "\<bar>r - of_nat a / of_nat n\<bar> < 1 / of_nat n"
    using double_near [of "of_nat a / of_nat n" "a + 1" n] assms by (auto simp: divide_strict_right_mono)
  moreover from this(2) y have "\<lfloor>r\<rfloor> = int k" by (simp add: floor_eq_iff abs_less_iff)
  ultimately show ?thesis by (simp add: num_div_nat_def num_floor_def k_def)
qed

lemma to_double_half:
  assumes "0 < z" "z < 2 ^ 52"
  shows "to_double (of_nat z / 2) = Fin (of_nat z / 2)"
proof -
  let ?y = "of_nat z / 2 :: rat"
  have y: "0 < ?y" using assms(1) by simp
  have "(of_nat z :: rat) < of_nat (2 ^ 52)" unfolding of_nat_less_iff by (rule assms(2))
  then have y': "?y < 2 ^ 51" by simp
  then have "pow2 (ilog2 ?y) < pow2 51"
    using ilog2_bounds [OF y] pow2_of_nat [of 51] by simp
  then have "ilog2 ?y < 51" by (rule pow2_less)
  then have q: "last_place ?y \<le> - 1" by (simp add: last_place_def)
  then have "- 1 = last_place ?y + int (nat (- 1 - last_place ?y))" by simp
  then have "pow2 (- 1) = pow2 (last_place ?y) * 2 ^ nat (- 1 - last_place ?y)"
    by (metis pow2_add pow2_of_nat)
  then have "?y / pow2 (last_place ?y) = of_int (int z * 2 ^ nat (- 1 - last_place ?y))"
    by (simp add: pow2_def [of "- 1"] field_simps)
  then have "rounded ?y = ?y"
    unfolding rounded_def by (metis round_half_even_int nonzero_eq_divide_eq pow2_nonzero(1))
  moreover have "(2 :: rat) ^ 51 \<le> pow2 1024" by (simp add: pow2_def)
  ultimately show ?thesis using y y' by (simp add: to_double_pos)
qed

lemma round_quotient:
  assumes "a < 2 ^ 51" "0 < n" "n < 2 ^ 59"
  shows "num_round (num_div_nat (nnum a) n) = nnum ((2 * a + n) div (2 * n))"
proof (cases "n dvd 2 * a")
  case True
  then obtain z where z: "2 * a = n * z" by (auto simp: dvd_def)
  then have y: "(of_nat a :: rat) / of_nat n = of_nat z / 2"
    using assms(2) by (simp add: field_simps) (metis of_nat_mult of_nat_numeral mult.commute)
  have "z \<le> n * z" using assms(2) by simp
  then have "z \<le> 2 * a" by (simp only: z)
  with assms(1) have "z < 2 ^ 52" by simp
  then have "to_double (of_nat z / 2) = Fin (of_nat z / 2)"
    using to_double_half [of z] by (cases "z = 0") (simp_all add: to_double_def)
  moreover have "\<lfloor>(of_nat z / 2 :: rat) + 1 / 2\<rfloor> = int ((z + 1) div 2)"
    using floor_divide_of_nat_eq [of "z + 1" 2, where 'a = rat] by (simp add: add_divide_distrib add.commute)
  moreover have "(2 * a + n) div (2 * n) = (z + 1) div 2"
    using z assms(2) by (simp add: algebra_simps) (metis div_mult_mult1 add_mult_distrib2 mult.commute mult_Suc_right add.commute less_numeral_extra(3))
  ultimately show ?thesis by (simp add: num_div_nat_def num_round_def y)
next
  case False
  define k where "k = (2 * a + n) div (2 * n)"
  define m where "m = (2 * a + n) mod (2 * n)"
  have e: "2 * a + n = k * (2 * n) + m" unfolding k_def m_def by (rule div_mult_mod_eq [symmetric])
  have "m \<noteq> 0"
  proof
    assume "m = 0"
    with e have "2 * a + n = n * (2 * k)" by (simp add: ac_simps)
    then have "2 * a = n * (2 * k) - n" by (metis diff_add_inverse2)
    then have "2 * a = n * (2 * k - 1)" by (simp add: diff_mult_distrib2)
    with False show False by simp
  qed
  then have m: "1 \<le> m" "m + 1 \<le> 2 * n" using assms(2) by (simp_all add: m_def Suc_leI)
  have "2 * of_nat a + of_nat n = of_nat k * (2 * of_nat n) + (of_nat m :: rat)"
    using e by (metis of_nat_add of_nat_mult of_nat_numeral)
  moreover have "(1 :: rat) \<le> of_nat m" "of_nat m + 1 \<le> (2 * of_nat n :: rat)"
    using m of_nat_le_iff [of 1 m, where 'a = rat] of_nat_le_iff [of "m + 1" "2 * n", where 'a = rat] by simp_all
  ultimately have y: "of_nat k + 1 / of_nat (2 * n) \<le> (of_nat a :: rat) / of_nat n + 1 / 2"
    "of_nat a / of_nat n + 1 / 2 + 1 / of_nat (2 * n) \<le> of_nat k + (1 :: rat)"
    using assms(2) by (simp_all add: field_simps)
  have "0 < a" using False by (cases a) simp_all
  then have "0 < (of_nat a :: rat) / of_nat n" using assms(2) by simp
  moreover have "(of_nat a :: rat) / of_nat n < of_nat (2 * a + 1) / of_nat (2 * n)"
    using assms(2) by (simp add: field_simps)
  moreover have "2 * a + 1 \<le> 2 ^ 53" "0 < 2 * n" "2 * n < 2 ^ 60" using assms by simp_all
  ultimately obtain r where "to_double (of_nat a / of_nat n) = Fin r" "\<bar>r - of_nat a / of_nat n\<bar> < 1 / of_nat (2 * n)"
    by (rule double_near)
  moreover from this(2) y have "\<lfloor>r + 1 / 2\<rfloor> = int k" by (simp add: floor_eq_iff abs_less_iff)
  ultimately show ?thesis by (simp add: num_div_nat_def num_round_def k_def)
qed

section \<open>Reading naturals\<close>

lemma trim_no_space: "\<forall>c\<in>set s. \<not> is_space c \<Longrightarrow> trim s = s"
proof -
  assume s: "\<forall>c\<in>set s. \<not> is_space c"
  then have "dropWhile is_space s = s" "dropWhile is_space (rev s) = rev s"
    using hd_in_set [of s] hd_in_set [of "rev s"] by (auto simp: dropWhile_eq_self_iff)
  then show ?thesis by (simp add: trim_def)
qed

lemma str_to_num_dec:
  assumes "n < 2 ^ 53"
  shows "str_to_num (dec n) = nnum n"
proof -
  obtain c ds where d: "dec n = c # ds" by (cases "dec n") auto
  then have c: "is_digit c" "\<forall>x\<in>set ds. is_digit x" using dec_digits [of _ n] by simp_all
  have t: "trim (dec n) = dec n"
    by (rule trim_no_space) (auto simp: is_space_def is_digit_def dest: dec_digits)
  have p: "\<not> starts_with (js (k1 # k2 # [])) (dec n)" if "\<not> is_digit (of_char k2)" for k1 k2
    using d c that by (cases ds) (auto simp: js_def)
  have tw: "takeWhile is_digit (dec n) = dec n" "dropWhile is_digit (dec n) = []"
    using dec_digits by (auto simp: takeWhile_eq_all_conv dropWhile_eq_Nil_conv)
  have u: "unsigned_decimal (dec n) = Some (of_nat n)"
    unfolding unsigned_decimal_def tw by (simp add: decimal_value_def exponent_part_def pow10_def)
  have "dec n \<noteq> js ''Infinity''" "hd (dec n) \<noteq> 43" "hd (dec n) \<noteq> 45"
    using d c by (auto simp: js_def is_digit_def)
  with u to_double_of_nat [OF assms] show ?thesis
    by (simp add: str_to_num_def Let_def t p or_nan_def is_digit_def)
qed

end
