(* ===== verification/Summary_Facts.thy ===== *)
theory Summary_Facts
  imports Validation_Summary Number_Text Api_Facts
begin

text \<open>
  What the summary of a deployment validation says: for a run of its declared shape which checks
  count as failed, the order the checks are listed in, and the duration in hours, minutes and seconds.
\<close>

section \<open>Durations\<close>

text \<open>A number of seconds in whole hours, minutes and seconds.\<close>

definition clock_text :: "nat \<Rightarrow> jsstr" where
  "clock_text n =
     (if n < 60 then dec n @ js ''s''
      else if n < 3600
      then dec (n div 60) @ js ''m'' @ (if n mod 60 = 0 then [] else js '' '' @ dec (n mod 60) @ js ''s'')
      else dec (n div 3600) @ js ''h'' @
        (if n div 60 mod 60 = 0 then [] else js '' '' @ dec (n div 60 mod 60) @ js ''m''))"

lemma num_mod_nat:
  assumes "0 < n"
  shows "num_mod (nnum a) n = nnum (a mod n)"
proof -
  have "(of_nat a :: rat) = of_nat (a div n * n + a mod n)" by simp
  then have "(of_nat a :: rat) - of_nat n * of_nat (a div n) = of_nat (a mod n)"
    unfolding of_nat_add of_nat_mult by simp
  moreover have "\<lfloor>(of_nat a :: rat) / of_nat n\<rfloor> = int (a div n)" by (rule floor_divide_of_nat_eq)
  ultimately show ?thesis by (simp add: num_mod_def)
qed

lemma duration_clock:
  assumes "n < 2 ^ 53"
  shows "duration_label (nnum n) = clock_text n"
proof -
  have d: "n div 60 < 2 ^ 53" "n div 60 div 60 < 2 ^ 53" using assms by simp_all
  have m: "k mod 60 < 2 ^ 53" for k :: nat by (rule order.strict_trans [of _ 60]) simp_all
  have f: "num_floor (num_div_nat (nnum n) 60) = nnum (n div 60)"
    "num_floor (num_div_nat (nnum (n div 60)) 60) = nnum (n div 60 div 60)"
    using floor_quotient [OF assms, of 60] floor_quotient [OF d(1), of 60] by simp_all
  have h: "n div 60 div 60 = n div 3600" by (simp add: div_mult2_eq [symmetric])
  have l: "n div 60 < 60 \<longleftrightarrow> n < 3600" by (simp add: div_less_iff_less_mult)
  show ?thesis
    unfolding duration_label_def clock_text_def amount_def Let_def f num_mod_nat [OF zero_less_numeral]
      num_less_nat num_truthy_nat num_to_str_nat [OF assms] num_to_str_nat [OF d(1)] num_to_str_nat [OF d(2)]
      num_to_str_nat [OF m] l
    unfolding h by (simp add: js_def)
qed

text \<open>Between two instants the duration shown is the time from one to the other, rounded to seconds, half a second up, and written in hours, minutes and seconds; an end before the start, or a time that is missing or not a date, gives no duration. (Instants are counts of milliseconds below two to the fifty-first.)\<close>

theorem duration_shown:
  assumes "truthy s" "truthy e" and "date_parse s = nnum a" "date_parse e = nnum b" and "b < 2 ^ 51"
  shows "format_duration date_parse s e =
     (if a \<le> b then clock_text ((2 * (b - a) + 1000) div 2000) else js ''Duration not recorded'')"
proof (cases "a \<le> b")
  case True
  have b: "b - a < 2 ^ 51" using assms(5) by simp
  have "num_sub (nnum b) (nnum a) = nnum (b - a)" using True assms(5) by (intro num_sub_nat) simp_all
  moreover have "num_round (num_div_nat (nnum (b - a)) 1000) = nnum ((2 * (b - a) + 1000) div 2000)"
    using round_quotient [OF b, of 1000] by simp
  moreover have "(2 * (b - a) + 1000) div 2000 < 2 ^ 53" using b by simp
  ultimately have "format_duration date_parse s e =
      (if b < a then js ''Duration not recorded'' else clock_text ((2 * (b - a) + 1000) div 2000))"
    using assms(1,2) unfolding format_duration_def assms(3,4)
    by (simp only: Let_def num_less_nat duration_clock is_finite_def jsnum.case simp_thms if_False)
  with True show ?thesis by (simp only: leD if_True if_False)
qed (use assms in \<open>simp add: format_duration_def is_finite_def\<close>)

lemma duration_shown_witness:
  "format_duration (\<lambda>v. if v = JStr (js ''end'') then nnum 5025400 else nnum 1000) (JStr (js ''start'')) (JStr (js ''end''))
     = js ''1h 23m''"
proof -
  have "clock_text ((2 * (5025400 - 1000) + 1000) div 2000) = js ''1h 23m''"
    by code_simp
  with duration_shown [of "JStr (js ''start'')" "JStr (js ''end'')"
      "\<lambda>v. if v = JStr (js ''end'') then nnum 5025400 else nnum 1000" 1000 5025400]
  show ?thesis by (simp add: js_def)
qed

section \<open>Checks that count as failed\<close>

definition elements :: "jsval \<Rightarrow> jsval list" where
  "elements v = (case v of JArr xs \<Rightarrow> xs | _ \<Rightarrow> [])"

definition status_of :: "jsval \<Rightarrow> jsstr" where
  "status_of v = (case fld v ''status'' of JStr s \<Rightarrow> to_upper s | _ \<Rightarrow> [])"

definition broken :: "jsval \<Rightarrow> bool" where
  "broken v \<longleftrightarrow> fld v ''classification'' = JStr (js ''REGRESSED'')
     \<or> (case fld (fld v ''post'') ''failureCount'' of JNum x \<Rightarrow> num_less (Fin 0) x | _ \<Rightarrow> False)"

definition browser_broken :: "jsval \<Rightarrow> bool" where
  "browser_broken v \<longleftrightarrow> broken v \<or> (\<exists>s\<in>set (elements (fld v ''samples'')). status_of s \<notin> set passed_statuses)"

definition monitor_broken :: "jsval \<Rightarrow> bool" where
  "monitor_broken v \<longleftrightarrow> browser_broken v \<or> (\<exists>s\<in>set (elements (fld v ''steps'')). broken s)"

definition check_broken :: "jsval \<Rightarrow> bool" where
  "check_broken v \<longleftrightarrow> status_of v \<notin> set (passed_statuses @ [js ''PENDING'', []])"

definition unsure :: "jsval \<Rightarrow> bool" where
  "unsure v \<longleftrightarrow> fld v ''classification'' \<in> set [JStr (js ''INSUFFICIENT_HISTORY''), JStr (js ''PENDING'')]"

text \<open>Of results with their declared shape.\<close>

definition compared_shape :: "jsval \<Rightarrow> bool" where
  "compared_shape v \<longleftrightarrow> \<not> nullish v \<and> \<not> nullish (fld v ''post'') \<and> (\<exists>x. fld (fld v ''post'') ''failureCount'' = JNum x)"

definition check_shape :: "jsval \<Rightarrow> bool" where
  "check_shape v \<longleftrightarrow> \<not> nullish v \<and> (\<exists>s. fld v ''status'' = JStr s)"

definition browser_shape :: "jsval \<Rightarrow> bool" where
  "browser_shape v \<longleftrightarrow> compared_shape v \<and> (\<exists>xs. fld v ''samples'' = JArr xs \<and> list_all check_shape xs)"

definition monitor_shape :: "jsval \<Rightarrow> bool" where
  "monitor_shape v \<longleftrightarrow> browser_shape v \<and> (\<exists>xs. fld v ''steps'' = JArr xs \<and> list_all compared_shape xs)"

lemma member_known [simp]: "\<not> nullish v \<Longrightarrow> member v k = Inr (fld v k)"
  by (simp add: member_def)

lemma someE_total: "(\<And>x. x \<in> set xs \<Longrightarrow> p x = Inr (q x)) \<Longrightarrow> someE p xs = Inr (\<exists>x\<in>set xs. q x)"
  by (induction xs) (simp_all add: bindE_def)

lemma mapE_total: "(\<And>x. x \<in> set xs \<Longrightarrow> f x = Inr (g x)) \<Longrightarrow> mapE f xs = Inr (map g xs)"
  by (induction xs) (simp_all add: bindE_def)

lemma regressed_broken: "compared_shape v \<Longrightarrow> regressed v = Inr (broken v)"
  by (auto simp: compared_shape_def regressed_def orE_def failed_classification_def post_failures_def broken_def
      bindE_def coalesce_def nullish_def)

lemma check_broken_iff: "check_shape v \<Longrightarrow> bindE (member v ''status'') check_failed = Inr (check_broken v)"
  by (auto simp: check_shape_def check_failed_def upper_status_def check_broken_def status_of_def bindE_def nullish_def)

lemma sample_broken: "check_shape v \<Longrightarrow> sample_failed v = Inr (status_of v \<notin> set passed_statuses)"
  by (auto simp: check_shape_def sample_failed_def sample_passed_def upper_status_def status_of_def bindE_def nullish_def)

lemma browser_broken_iff: "browser_shape v \<Longrightarrow> browser_failed v = Inr (browser_broken v)"
  by (auto simp: browser_shape_def browser_failed_def regressed_broken orE_def bindE_def some_element_def browser_broken_def
      elements_def nullish_def compared_shape_def list_all_iff sample_broken
      someE_total [of _ _ "\<lambda>s. status_of s \<notin> set passed_statuses"])

lemma monitor_broken_iff: "monitor_shape v \<Longrightarrow> monitor_failed v = Inr (monitor_broken v)"
  by (auto simp: monitor_shape_def monitor_failed_def browser_broken_iff orE_def bindE_def some_element_def monitor_broken_def
      elements_def nullish_def browser_shape_def compared_shape_def [of v] list_all_iff regressed_broken
      someE_total [of _ _ broken])

lemma warned_iff:
  "failed v = Inr b \<Longrightarrow> \<not> nullish v \<Longrightarrow> warned failed v = Inr (\<not> b \<and> unsure v)"
  by (auto simp: warned_def unsure_def bindE_def)

lemma shape_known: "monitor_shape v \<Longrightarrow> \<not> nullish v" "browser_shape v \<Longrightarrow> \<not> nullish v" "check_shape v \<Longrightarrow> \<not> nullish v"
  by (simp_all add: monitor_shape_def browser_shape_def compared_shape_def check_shape_def)

lemma monitor_warned_iff: "monitor_shape v \<Longrightarrow> monitor_warned v = Inr (\<not> monitor_broken v \<and> unsure v)"
  unfolding monitor_warned_def by (rule warned_iff) (simp_all add: monitor_broken_iff shape_known)

lemma browser_warned_iff: "browser_shape v \<Longrightarrow> browser_warned v = Inr (\<not> browser_broken v \<and> unsure v)"
  unfolding browser_warned_def by (rule warned_iff) (simp_all add: browser_broken_iff shape_known)

section \<open>Order of the lists\<close>

definition severity :: "(jsval \<Rightarrow> bool) \<Rightarrow> (jsval \<Rightarrow> bool) \<Rightarrow> jsval \<Rightarrow> int" where
  "severity fails warns v =
     (if fails v then (if truthy (fld v ''required'') then 0 else 1) else if warns v then 2 else 3)"

lemma sort_ranked_total:
  assumes "\<And>v. v \<in> set xs \<Longrightarrow> r v = Inr (k v)"
  shows "sort_ranked r (JArr xs) = Inr (sort_key k xs)"
proof -
  have z: "sort_by (\<lambda>x y. snd x - snd y) (map (\<lambda>x. (x, k x)) xs) = map (\<lambda>x. (x, k x)) (sort_key k xs)" for xs
  proof -
    have "insert_by (\<lambda>x y. snd x - snd y) (a, k a) (map (\<lambda>x. (x, k x)) ys) = map (\<lambda>x. (x, k x)) (insort_key k a ys)" for a ys
      by (induction ys) auto
    then show ?thesis by (induction xs) (simp_all add: sort_by_def sort_key_def)
  qed
  have "zip xs (map k xs) = map (\<lambda>x. (x, k x)) xs" by (induction xs) simp_all
  with mapE_total [of xs r k] assms z [of xs] have "length xs > 1 \<Longrightarrow> ?thesis"
    by (simp add: sort_ranked_def iterate_def coalesce_def nullish_def bindE_def comp_def)
  moreover have "length xs \<le> 1 \<Longrightarrow> ?thesis"
    by (cases xs) (simp_all add: sort_ranked_def iterate_def coalesce_def nullish_def bindE_def)
  ultimately show ?thesis by linarith
qed

text \<open>Monitor results are listed in a stable order: failed required ones, then failed optional ones, then those without enough history, then the others, equal ones as they came; browser results likewise, and checks by whether they failed.\<close>

theorem lists_by_severity:
  "(list_all monitor_shape xs \<longrightarrow> sort_monitors (JArr xs) = Inr (sort_key (severity monitor_broken unsure) xs))
    \<and> (list_all browser_shape xs \<longrightarrow> sort_browsers (JArr xs) = Inr (sort_key (severity browser_broken unsure) xs))
    \<and> (list_all check_shape xs \<longrightarrow> sort_checks (JArr xs) = Inr (sort_key (severity check_broken (\<lambda>_. False)) xs))"
proof (intro conjI impI)
  show "sort_monitors (JArr xs) = Inr (sort_key (severity monitor_broken unsure) xs)" if "list_all monitor_shape xs"
    unfolding sort_monitors_def
    by (rule sort_ranked_total)
      (use that in \<open>auto simp: list_all_iff item_rank_def monitor_broken_iff shape_known monitor_warned_iff
        bindE_def rank_def severity_def\<close>)
  show "sort_browsers (JArr xs) = Inr (sort_key (severity browser_broken unsure) xs)" if "list_all browser_shape xs"
    unfolding sort_browsers_def
    by (rule sort_ranked_total)
      (use that in \<open>auto simp: list_all_iff item_rank_def browser_broken_iff shape_known browser_warned_iff
        bindE_def rank_def severity_def\<close>)
  have "check_rank v = Inr (severity check_broken (\<lambda>_. False) v)" if "check_shape v" for v
    using check_broken_iff [OF that] that
    by (auto simp: check_shape_def check_rank_def bindE_def rank_def severity_def)
  then show "sort_checks (JArr xs) = Inr (sort_key (severity check_broken (\<lambda>_. False)) xs)" if "list_all check_shape xs"
    unfolding sort_checks_def using that by (intro sort_ranked_total) (simp add: list_all_iff)
qed

definition check_sample :: "string \<Rightarrow> bool \<Rightarrow> jsval" where
  "check_sample status required = JObj [(js ''status'', JStr (js status)), (js ''required'', JBool required)]"

lemma lists_by_severity_witness:
  "sort_checks (JArr [check_sample ''PASSED'' True, check_sample ''TIMEOUT'' False, check_sample ''FAILED'' True])
     = Inr [check_sample ''FAILED'' True, check_sample ''TIMEOUT'' False, check_sample ''PASSED'' True]"
proof -
  let ?xs = "[check_sample ''PASSED'' True, check_sample ''TIMEOUT'' False, check_sample ''FAILED'' True]"
  have f: "fld (check_sample s b) ''status'' = JStr (js s)" "\<not> nullish (check_sample s b)" for s b
    by (simp_all add: check_sample_def nullish_def js_def)
  have "map (severity check_broken (\<lambda>_. False)) ?xs = [3, 1, 0]" by code_simp
  then have "sort_key (severity check_broken (\<lambda>_. False)) ?xs
      = [check_sample ''FAILED'' True, check_sample ''TIMEOUT'' False, check_sample ''PASSED'' True]"
    by (simp add: sort_key_def)
  with lists_by_severity [of ?xs] f show ?thesis by (simp add: check_shape_def)
qed

section \<open>Counts\<close>

definition verdict_by :: "(jsval \<Rightarrow> bool) \<Rightarrow> (jsval \<Rightarrow> bool) \<Rightarrow> jsval \<Rightarrow> verdict_of" where
  "verdict_by fails warns v = (if fails v then Failed else if warns v then Warned else Passed)"

lemma judged:
  "monitor_shape v \<Longrightarrow> judge monitor_failed monitor_warned v = Inr (verdict_by monitor_broken unsure v)"
  "browser_shape v \<Longrightarrow> judge browser_failed browser_warned v = Inr (verdict_by browser_broken unsure v)"
  "check_shape v \<Longrightarrow> judge_check v = Inr (verdict_by check_broken (\<lambda>_. False) v)"
proof -
  show "monitor_shape v \<Longrightarrow> judge monitor_failed monitor_warned v = Inr (verdict_by monitor_broken unsure v)"
    by (simp add: judge_def monitor_broken_iff monitor_warned_iff bindE_def verdict_by_def)
  show "browser_shape v \<Longrightarrow> judge browser_failed browser_warned v = Inr (verdict_by browser_broken unsure v)"
    by (simp add: judge_def browser_broken_iff browser_warned_iff bindE_def verdict_by_def)
  show "check_shape v \<Longrightarrow> judge_check v = Inr (verdict_by check_broken (\<lambda>_. False) v)"
    using check_broken_iff [of v] by (auto simp: judge_check_def bindE_def verdict_by_def check_shape_def split: sum.splits)
qed

definition results_of :: "jsval \<Rightarrow> verdict_of list" where
  "results_of report =
     map (verdict_by monitor_broken unsure) (elements (fld report ''monitors''))
     @ map (verdict_by browser_broken unsure) (elements (fld report ''browserMonitors''))
     @ map (verdict_by check_broken (\<lambda>_. False))
         (elements (fld report ''elfResults'') @ elements (fld report ''alertResults'') @ elements (fld report ''dynatraceResults''))"

lemma count_verdicts: "count_list rs Failed + count_list rs Warned + count_list rs Passed = length rs"
proof (induction rs)
  case (Cons r rs)
  then show ?case by (cases r) simp_all
qed simp

text \<open>A run of its declared shape has results of theirs.\<close>

lemma conforms_list:
  assumes "conforms (TObject fs) v" "may k (TArray t) \<in> set fs" "\<And>x. conforms t x \<Longrightarrow> P x"
  shows "(fld v k = JUndef \<or> (\<exists>xs. fld v k = JArr xs)) \<and> list_all P (elements (fld v k))"
  using conforms_may [OF assms(1,2)] assms(3)
  by (auto simp: elements_def list_all_iff split: jsval.splits)

lemma conforms_elements:
  "conforms (TObject fs) v \<Longrightarrow> need k (TArray t) \<in> set fs \<Longrightarrow> \<exists>xs. fld v k = JArr xs \<and> list_all (conforms t) xs"
  using conforms_need by (fastforce split: jsval.splits)

lemma compared_conforms:
  assumes "conforms (TObject fs) v" "need ''post'' deployment_distribution_contract \<in> set fs"
  shows "compared_shape v"
proof -
  have post: "conforms deployment_distribution_contract (fld v ''post'')" by (rule conforms_need [OF assms])
  then have "conforms TNumber (fld (fld v ''post'') ''failureCount'')"
    unfolding deployment_distribution_contract_def by (rule conforms_need) simp
  moreover have "\<not> nullish (fld v ''post'')"
    using post unfolding deployment_distribution_contract_def by (rule conforms_not_nullish)
  ultimately show ?thesis
    unfolding compared_shape_def using conforms_not_nullish [OF assms(1)] conforms_number by blast
qed

lemma check_conforms:
  assumes "conforms (TObject fs) v" "need ''status'' TString \<in> set fs"
  shows "check_shape v"
  using conforms_not_nullish [OF assms(1)] conforms_need [OF assms] conforms_string by (auto simp: check_shape_def)

lemma browser_conforms:
  assumes "conforms (TObject fs) v" "need ''post'' deployment_distribution_contract \<in> set fs"
    "need ''samples'' (TArray (TObject gs)) \<in> set fs" "need ''status'' TString \<in> set gs"
  shows "browser_shape v"
  using conforms_elements [OF assms(1,3)] compared_conforms [OF assms(1,2)] check_conforms [OF _ assms(4)]
  unfolding browser_shape_def list_all_iff by blast

lemma monitor_conforms:
  assumes "conforms (TObject fs) v" "need ''post'' deployment_distribution_contract \<in> set fs"
    "need ''samples'' (TArray (TObject gs)) \<in> set fs" "need ''status'' TString \<in> set gs"
    "need ''steps'' (TArray (TObject ss)) \<in> set fs" "need ''post'' deployment_distribution_contract \<in> set ss"
  shows "monitor_shape v"
  using conforms_elements [OF assms(1,5)] browser_conforms [OF assms(1-4)] compared_conforms [OF _ assms(6)]
  unfolding monitor_shape_def list_all_iff by blast

lemma report_conforms:
  assumes "conforms deployment_validation_run_contract run"
  shows "\<not> nullish run" "\<not> nullish (fld run ''report'')"
    "list_all monitor_shape (elements (fld (fld run ''report'') ''monitors''))"
    "list_all browser_shape (elements (fld (fld run ''report'') ''browserMonitors''))"
    "list_all check_shape (elements (fld (fld run ''report'') ''elfResults'')
       @ elements (fld (fld run ''report'') ''alertResults'') @ elements (fld (fld run ''report'') ''dynatraceResults''))"
    "\<forall>k\<in>{''monitors'', ''browserMonitors'', ''elfResults'', ''alertResults'', ''dynatraceResults'', ''warnings''}.
       fld (fld run ''report'') k = JUndef \<or> (\<exists>xs. fld (fld run ''report'') k = JArr xs)"
proof -
  note c = assms [unfolded deployment_validation_run_contract_def]
  show "\<not> nullish run" by (rule conforms_not_nullish [OF c])
  obtain fs ms mss mst bs bss where r: "conforms (TObject fs) (fld run ''report'')"
    and m: "may ''monitors'' (TArray (TObject ms)) \<in> set fs" "need ''post'' deployment_distribution_contract \<in> set ms"
      "need ''samples'' (TArray (TObject mss)) \<in> set ms" "need ''status'' TString \<in> set mss"
      "need ''steps'' (TArray (TObject mst)) \<in> set ms" "need ''post'' deployment_distribution_contract \<in> set mst"
    and b: "may ''browserMonitors'' (TArray (TObject bs)) \<in> set fs" "need ''post'' deployment_distribution_contract \<in> set bs"
      "need ''samples'' (TArray (TObject bss)) \<in> set bs" "need ''status'' TString \<in> set bss"
    and k: "may ''elfResults'' validation_suite_run_results \<in> set fs" "may ''alertResults'' validation_suite_run_results \<in> set fs"
      "may ''dynatraceResults'' (TArray dynatrace_deployment_comparison_contract) \<in> set fs"
      "may ''warnings'' (TArray TString) \<in> set fs"
    by (rule that, rule conforms_need [OF c]) (rule list.set_intros)+
  show "\<not> nullish (fld run ''report'')" by (rule conforms_not_nullish [OF r])
  note cm = conforms_list [OF r m(1), of monitor_shape, OF monitor_conforms [OF _ m(2-6)]]
  note cb = conforms_list [OF r b(1), of browser_shape, OF browser_conforms [OF _ b(2-4)]]
  have s: "conforms dynatrace_deployment_comparison_contract x \<Longrightarrow> check_shape x" for x
    unfolding dynatrace_deployment_comparison_contract_def
    by (rule check_conforms, assumption) simp
  obtain ks where v: "validation_suite_run_results = TArray (TObject ks)" "need ''status'' TString \<in> set ks"
    by (rule that, rule validation_suite_run_results_def) simp
  note ce = conforms_list [OF r k(1) [unfolded v(1)], of check_shape, OF check_conforms [OF _ v(2)]]
  note ca = conforms_list [OF r k(2) [unfolded v(1)], of check_shape, OF check_conforms [OF _ v(2)]]
  note cd = conforms_list [OF r k(3), of check_shape, OF s]
  note cw = conforms_list [OF r k(4), of "\<lambda>_. True"]
  show "list_all monitor_shape (elements (fld (fld run ''report'') ''monitors''))" using cm by blast
  show "list_all browser_shape (elements (fld (fld run ''report'') ''browserMonitors''))" using cb by blast
  show "list_all check_shape (elements (fld (fld run ''report'') ''elfResults'')
       @ elements (fld (fld run ''report'') ''alertResults'') @ elements (fld (fld run ''report'') ''dynatraceResults''))"
    using ce ca cd by simp
  show "\<forall>k\<in>{''monitors'', ''browserMonitors'', ''elfResults'', ''alertResults'', ''dynatraceResults'', ''warnings''}.
       fld (fld run ''report'') k = JUndef \<or> (\<exists>xs. fld (fld run ''report'') k = JArr xs)"
    using cm cb ce ca cd cw by blast
qed

lemma listed_total:
  "\<not> nullish report \<Longrightarrow> fld report k = JUndef \<or> (\<exists>xs. fld report k = JArr xs) \<Longrightarrow>
     listed report k = Inr (elements (fld report k))"
  by (auto simp: listed_def bindE_def coalesce_def nullish_def elements_def)

text \<open>C30: The summary of a run of its declared shape is always there: its total is the number of results, the failed ones are those whose comparison regressed, failed, or had a sample or step that did (of a check, whose status is none of the passing ones, pending or empty), and failed, passed and warnings add up to the results and the report's own warnings.\<close>

theorem validation_counted:
  assumes "conforms deployment_validation_run_contract run"
  shows "\<exists>c. summarize_validation date_parse run = Inr c
    \<and> vc_total c = length (results_of (fld run ''report''))
    \<and> vc_failed c = count_list (results_of (fld run ''report'')) Failed
    \<and> vc_failed c + vc_passed c + vc_warnings c
        = vc_total c + length (elements (fld (fld run ''report'') ''warnings''))
    \<and> vc_duration c = format_duration date_parse (fld run ''startedAt'') (fld run ''endedAt'')"
proof -
  let ?r = "fld run ''report''"
  note r = report_conforms [OF assms]
  have l: "listed ?r k = Inr (elements (fld ?r k))"
    if "k \<in> {''monitors'', ''browserMonitors'', ''elfResults'', ''alertResults'', ''dynatraceResults'', ''warnings''}" for k
    by (rule listed_total [OF r(2) bspec [OF r(6) that]])
  have j: "mapE (judge monitor_failed monitor_warned) (elements (fld ?r ''monitors'')) =
      Inr (map (verdict_by monitor_broken unsure) (elements (fld ?r ''monitors'')))"
    "mapE (judge browser_failed browser_warned) (elements (fld ?r ''browserMonitors'')) =
      Inr (map (verdict_by browser_broken unsure) (elements (fld ?r ''browserMonitors'')))"
    "mapE judge_check (elements (fld ?r ''elfResults'') @ elements (fld ?r ''alertResults'') @ elements (fld ?r ''dynatraceResults'')) =
      Inr (map (verdict_by check_broken (\<lambda>_. False))
        (elements (fld ?r ''elfResults'') @ elements (fld ?r ''alertResults'') @ elements (fld ?r ''dynatraceResults'')))"
    by (rule mapE_total; use judged r(3-5) in \<open>auto simp: list_all_iff\<close>)+
  show ?thesis
    using count_verdicts [of "results_of ?r"]
    unfolding summarize_validation_def
    by (simp add: r(1) l j bindE_def [of "Inr _"] Let_def results_of_def)
qed

text \<open>The least value of a type: no optional fields, no elements.\<close>

fun least_value :: "ty \<Rightarrow> jsval" and least_fields :: "(jsstr \<times> bool \<times> ty) list \<Rightarrow> (jsstr \<times> jsval) list"
  and least_choice :: "ty list \<Rightarrow> jsval" where
  "least_value TString = JStr []"
| "least_value TNumber = JNum (Fin 0)"
| "least_value TBoolean = JBool True"
| "least_value TNull = JNull"
| "least_value TJson = JNull"
| "least_value (TLit s) = JStr s"
| "least_value (TArray t) = JArr []"
| "least_value (TRecord t) = JObj []"
| "least_value (TObject fs) = JObj (least_fields fs)"
| "least_value (TUnion ts) = least_choice ts"
| "least_fields [] = []"
| "least_fields ((k, optional, t) # fs) = (if optional then least_fields fs else (k, least_value t) # least_fields fs)"
| "least_choice [] = JUndef"
| "least_choice (t # ts) = least_value t"

definition failed_run :: jsval where
  "failed_run =
     (let fields = (case least_value deployment_validation_run_contract of JObj ms \<Rightarrow> ms | _ \<Rightarrow> []);
          check = (case validation_suite_run_results of TArray t \<Rightarrow> (case least_value t of JObj ms \<Rightarrow> ms | _ \<Rightarrow> []) | _ \<Rightarrow> [])
      in JObj ((js ''report'', JObj
           [(js ''elfResults'', JArr [JObj ((js ''status'', JStr (js ''TIMEOUT'')) # check), JObj check]),
            (js ''warnings'', JArr [JStr (js ''late'')])]) # fields))"

lemma validation_counted_witness:
  "\<exists>c. summarize_validation (\<lambda>_. NaN) failed_run = Inr c \<and> vc_total c = 2 \<and> vc_failed c = 1
     \<and> vc_failed c + vc_passed c + vc_warnings c = 3"
proof -
  have "conforms deployment_validation_run_contract failed_run" by code_simp
  moreover have "length (results_of (fld failed_run ''report'')) = 2
    \<and> count_list (results_of (fld failed_run ''report'')) Failed = 1
    \<and> length (elements (fld (fld failed_run ''report'') ''warnings'')) = 1"
    by code_simp
  ultimately show ?thesis using validation_counted [of failed_run "\<lambda>_. NaN"] by auto
qed

end
