(* ===== verification/Monitor_Times.thy ===== *)
theory Monitor_Times
  imports Monitors_Client Number_Text
begin

text \<open>
  How long ago a monitor ran, as its list shows it: the text the arithmetic on binary64 numbers gives
  is the one of exact arithmetic.
\<close>

definition age_text :: "nat \<Rightarrow> jsstr" where
  "age_text s =
     (if s < 60 then dec s @ js '' sec ago''
      else if s < 3600 then dec (s div 60) @ js '' min ago''
      else if s < 86400 then dec (s div 3600) @ js '' hr ago''
      else dec (s div 86400) @ js '' days ago'')"

lemma num_max_zero [simp]: "num_max (nnum 0) (nnum n) = nnum n"
  by (simp add: num_max_def)

text \<open>A value that is not positive stays one when rounded.\<close>

definition not_positive :: "jsnum \<Rightarrow> bool" where
  "not_positive v = (case v of Fin r \<Rightarrow> r \<le> 0 | Infinite negative \<Rightarrow> negative | NaN \<Rightarrow> False)"

lemma to_double_not_positive:
  assumes "x \<le> 0"
  shows "not_positive (to_double x)"
proof -
  have "0 \<le> round_half_even y" if "0 \<le> y" for y
    using that by (auto simp: round_half_even_def Let_def)
  then have "0 \<le> of_int (round_half_even (\<bar>x\<bar> / pow2 q)) * pow2 q" for q by simp
  with assms show ?thesis by (auto simp: not_positive_def to_double_def Let_def)
qed

lemma clamped_not_positive: "not_positive v \<Longrightarrow> num_max (nnum 0) (num_round (num_div_nat v k)) = nnum 0"
proof (cases v)
  case (Fin r)
  assume "not_positive v"
  with Fin have "r / of_nat k \<le> 0" by (simp add: not_positive_def divide_nonpos_nonneg)
  then have "not_positive (num_div_nat v k)" using Fin by (simp add: num_div_nat_def to_double_not_positive)
  then show ?thesis
  proof (cases "num_div_nat v k")
    case (Fin y)
    with \<open>not_positive (num_div_nat v k)\<close> have "\<lfloor>y + 1 / 2\<rfloor> \<le> 0" by (simp add: not_positive_def floor_le_iff)
    with Fin show ?thesis by (simp add: num_round_def num_max_def)
  qed (auto simp: not_positive_def num_round_def num_max_def)
qed (auto simp: not_positive_def num_div_nat_def num_round_def num_max_def)

lemma elapsed_nat:
  assumes "n < 2 ^ 51"
  shows "num_max (nnum 0) (num_round (num_div_nat (num_sub (nnum n) (nnum b)) 1000)) = nnum ((2 * (n - b) + 1000) div 2000)"
proof (cases "b \<le> n")
  case True
  have d: "n - b < 2 ^ 51" using assms by simp
  have "num_sub (nnum n) (nnum b) = nnum (n - b)" using True assms by (intro num_sub_nat) simp_all
  moreover have "num_round (num_div_nat (nnum (n - b)) 1000) = nnum ((2 * (n - b) + 1000) div 2000)"
    using round_quotient [OF d, of 1000] by simp
  ultimately show ?thesis by (simp only: num_max_zero)
next
  case False
  then have "not_positive (num_sub (nnum n) (nnum b))"
    by (simp add: num_sub_def to_double_not_positive)
  moreover have "(2 * (n - b) + 1000) div 2000 = 0" using False by simp
  ultimately show ?thesis using clamped_not_positive by presburger
qed

text \<open>The time shown for an instant is the rounded number of seconds since then, or the whole minutes, hours or days in it; an instant in the future is "0 sec ago" and what is not a date "NaN days ago".\<close>

theorem relative_time_spec:
  "(ce_date env v = nnum b \<and> ce_now env = nnum n \<and> n < 2 ^ 51 \<longrightarrow>
       relative_time env v = age_text ((2 * (n - b) + 1000) div 2000))
    \<and> (ce_date env v = NaN \<longrightarrow> relative_time env v = js ''NaN days ago'')"
proof (intro conjI impI; (elim conjE)?)
  assume v: "ce_date env v = nnum b" "ce_now env = nnum n" and n: "n < 2 ^ 51"
  define s where "s = (2 * (n - b) + 1000) div 2000"
  have s: "s < 2 ^ 53" using n by (simp add: s_def)
  have e: "num_max (nnum 0) (num_round (num_div_nat (num_sub (nnum n) (nnum b)) 1000)) = nnum s"
    unfolding s_def by (rule elapsed_nat [OF n])
  have d: "num_to_str (num_floor (num_div_nat (nnum s) k)) = dec (s div k)" if "0 < k" "k < 2 ^ 60" for k
    using floor_quotient [OF s that] num_to_str_nat [OF order.strict_trans1 [OF div_le_dividend s]] by simp
  show "relative_time env v = age_text ((2 * (n - b) + 1000) div 2000)"
    unfolding s_def [symmetric] relative_time_def v e Let_def num_less_nat num_to_str_nat [OF s] age_text_def
    using d [of 60] d [of 3600] d [of 86400] by simp
next
  assume "ce_date env v = NaN"
  then show "relative_time env v = js ''NaN days ago''"
    by (cases "ce_now env")
      (simp_all add: relative_time_def num_sub_def num_div_nat_def num_round_def num_max_def num_floor_def num_to_str_def js_def)
qed

definition two_hours :: client_env where
  "two_hours = \<lparr>ce_api_url = None, ce_now = nnum 7201000, ce_date = \<lambda>_. nnum 1000, ce_collate = \<lambda>_ _. 0\<rparr>"

lemma relative_time_spec_witness: "relative_time two_hours (JStr (js ''then'')) = js ''2 hr ago''"
proof -
  have "age_text ((2 * (7201000 - 1000) + 1000) div 2000) = js ''2 hr ago''" by code_simp
  moreover have "ce_date two_hours (JStr (js ''then'')) = nnum 1000" "ce_now two_hours = nnum 7201000"
    by (simp_all only: two_hours_def client_env.select_convs)
  moreover have "(7201000 :: nat) < 2 ^ 51" by simp
  ultimately show ?thesis using relative_time_spec [of two_hours "JStr (js ''then'')" 1000 7201000] by metis
qed

end
