(* ===== verification/Agent_Targets.thy ===== *)
theory Agent_Targets
  imports Js_Compare Js_Uri
begin

text \<open>
  Which addresses the browser agent may open, from \<open>services/browser-agent/server.mjs\<close>: the network
  addresses of a target, the ranges that count as private, the hosts and blocks an operator exempts,
  and the check of a target before the browser goes there. Addresses are strings of code units;
  \<open>net.isIPv4\<close> and \<open>net.isIPv6\<close> are modelled by the texts they accept. \<open>new URL\<close> and the resolver
  are parameters.
\<close>

unbundle bit_operations_syntax

section \<open>Texts of addresses\<close>

definition is_octet :: "jsstr \<Rightarrow> bool" where
  "is_octet p \<longleftrightarrow> p \<noteq> [] \<and> list_all is_digit p \<and> (length p = 1 \<or> hd p \<noteq> 48) \<and> undec p \<le> 255"

definition is_ipv4 :: "jsstr \<Rightarrow> bool" where \<comment> \<open>\<open>net.isIPv4\<close>\<close>
  "is_ipv4 s \<longleftrightarrow> (let parts = split_on 46 s in length parts = 4 \<and> list_all is_octet parts)"

definition is_hex :: "code_unit \<Rightarrow> bool" where
  "is_hex c \<longleftrightarrow> is_digit c \<or> (97 \<le> c \<and> c \<le> 102) \<or> (65 \<le> c \<and> c \<le> 70)"

definition is_group :: "jsstr \<Rightarrow> bool" where
  "is_group p \<longleftrightarrow> p \<noteq> [] \<and> length p \<le> 4 \<and> list_all is_hex p"

text \<open>The first \<open>::\<close> of a text, with what stands on both sides.\<close>

definition halves :: "jsstr \<Rightarrow> (jsstr \<times> jsstr) option" where
  "halves s = map_option (\<lambda>i. (take i s, drop (i + 2) s)) (index_of (js ''::'') s)"

definition parts_of :: "jsstr \<Rightarrow> jsstr list" where
  "parts_of t = (if t = [] then [] else split_on 58 t)"

text \<open>How many groups the parts stand for; an address in dotted form may come last and counts as two.\<close>

definition group_count :: "bool \<Rightarrow> jsstr list \<Rightarrow> nat option" where
  "group_count dotted ps =
     (if list_all is_group ps then Some (length ps)
      else if dotted \<and> list_all is_group (butlast ps) \<and> is_ipv4 (last ps) then Some (length ps + 1)
      else None)"

definition is_ipv6_text :: "jsstr \<Rightarrow> bool" where
  "is_ipv6_text a \<longleftrightarrow>
     (case halves a of
        None \<Rightarrow> group_count True (split_on 58 a) = Some 8
      | Some (l, r) \<Rightarrow>
          (case (group_count False (parts_of l), group_count True (parts_of r)) of
             (Some m, Some n) \<Rightarrow> m + n \<le> 7
           | _ \<Rightarrow> False))"

definition is_zone :: "jsstr \<Rightarrow> bool" where
  "is_zone z \<longleftrightarrow> z = [] \<or> (2 \<le> length z \<and> list_all (\<lambda>c. is_alnum c \<or> c = 45 \<or> c = 46 \<or> c = 58) (tl z))"

definition is_ipv6 :: "jsstr \<Rightarrow> bool" where \<comment> \<open>\<open>net.isIPv6\<close>\<close>
  "is_ipv6 s \<longleftrightarrow> is_ipv6_text (takeWhile (\<lambda>c. c \<noteq> 37) s) \<and> is_zone (dropWhile (\<lambda>c. c \<noteq> 37) s)"

section \<open>Numbers of addresses\<close>

record ip_number =
  ip_bits :: nat
  ip_value :: nat

definition shift_in :: "nat \<Rightarrow> nat \<Rightarrow> nat \<Rightarrow> nat" where \<comment> \<open>\<open>(value << w) | part\<close>\<close>
  "shift_in w v p = (push_bit w v OR p)"

definition ipv4_number :: "jsstr \<Rightarrow> nat" where
  "ipv4_number a = foldl (shift_in 8) 0 (map undec (split_on 46 a))"

fun hex_text :: "nat \<Rightarrow> jsstr" where \<comment> \<open>\<open>n.toString(16)\<close>\<close>
  "hex_text n =
     (let d = (\<lambda>k. if k < 10 then 48 + k else 87 + k) in
      if n < 16 then [d n] else hex_text (n div 16) @ [d (n mod 16)])"

declare hex_text.simps [simp del]

definition is_dotted :: "jsstr \<Rightarrow> bool" where \<comment> \<open>\<open>\d+\.\d+\.\d+\.\d+\<close>\<close>
  "is_dotted p \<longleftrightarrow> length (split_on 46 p) = 4 \<and> list_all (\<lambda>d. d \<noteq> [] \<and> list_all is_digit d) (split_on 46 p)"

text \<open>A dotted form at the end is rewritten as two groups.\<close>

definition dotted_groups :: "jsstr \<Rightarrow> jsstr" where
  "dotted_groups a =
     (let tail = last (split_on 58 a) in
      if is_dotted tail
      then let b = map undec (split_on 46 tail) in
           take (length a - length tail) a
             @ hex_text (shift_in 8 (b ! 0) (b ! 1)) @ js '':'' @ hex_text (shift_in 8 (b ! 2) (b ! 3))
      else a)"

definition hex_number :: "jsstr \<Rightarrow> nat" where \<comment> \<open>\<open>Number.parseInt(part || "0", 16)\<close> of a group\<close>
  "hex_number p = (case radix_value 16 (if p = [] then js ''0'' else p) of Some n \<Rightarrow> n | None \<Rightarrow> 0)"

definition ipv6_groups :: "jsstr \<Rightarrow> jsstr list" where
  "ipv6_groups a =
     (case halves a of
        None \<Rightarrow> parts_of a
      | Some (l, r) \<Rightarrow>
          parts_of l @ replicate (8 - length (parts_of l) - length (parts_of r)) (js ''0'') @ parts_of r)"

definition ip_number_of :: "jsstr \<Rightarrow> ip_number option" where
  "ip_number_of raw =
     (let address = to_lower (hd (split_on 37 raw)) in
      if is_ipv4 address then Some \<lparr>ip_bits = 32, ip_value = ipv4_number address\<rparr>
      else if \<not> is_ipv6 address then None
      else
        let groups = ipv6_groups (dotted_groups address) in
        if length groups \<noteq> 8 then None
        else Some \<lparr>ip_bits = 128, ip_value = foldl (shift_in 16) 0 (map hex_number groups)\<rparr>)"

section \<open>Private ranges\<close>

definition is_private_ipv4 :: "nat \<Rightarrow> nat \<Rightarrow> bool" where
  "is_private_ipv4 a b \<longleftrightarrow>
     a = 10 \<or> a = 127 \<or> (a = 169 \<and> b = 254) \<or> (a = 172 \<and> 16 \<le> b \<and> b \<le> 31) \<or> (a = 192 \<and> b = 168)"

definition is_private_address :: "jsstr \<Rightarrow> bool" where
  "is_private_address address \<longleftrightarrow>
     (if is_ipv4 address
      then let ps = map undec (split_on 46 address) in is_private_ipv4 (ps ! 0) (ps ! 1)
      else let n = to_lower address in
        n = js ''::1'' \<or> starts_with (js ''fc'') n \<or> starts_with (js ''fd'') n \<or> starts_with (js ''fe80:'') n)"

section \<open>Exemptions\<close>

definition csv :: "jsstr \<Rightarrow> jsstr list" where
  "csv s = filter (\<lambda>item. item \<noteq> []) (map trim (split_on 44 s))"

definition drop_dot :: "jsstr \<Rightarrow> jsstr" where \<comment> \<open>\<open>replace(/\.$/, "")\<close>\<close>
  "drop_dot s = (if s \<noteq> [] \<and> last s = 46 then butlast s else s)"

definition normalize_host_pattern :: "jsstr \<Rightarrow> exn + jsstr" where
  "normalize_host_pattern v =
     (let host = drop_dot (to_lower v) in
      if host = js ''*'' \<or> (42 \<in> set host \<and> \<not> starts_with (js ''*.'') host)
      then Inl (ErrorMsg (js ''Invalid browser private-target host pattern: '' @ v))
      else Inr host)"

record cidr_block = ip_number +
  cb_prefix :: nat

definition parse_cidr :: "jsstr \<Rightarrow> exn + cidr_block" where
  "parse_cidr v =
     (let parts = split_on 47 v;
          parsed = ip_number_of (hd parts);
          prefix = (if 2 \<le> length parts then str_to_num (parts ! 1) else NaN);
          invalid = Inl (ErrorMsg (js ''Invalid browser private-target CIDR: '' @ v))
      in case (parsed, prefix) of
           (Some p, Fin x) \<Rightarrow>
             if 3 \<le> length parts \<or> x \<noteq> of_int \<lfloor>x\<rfloor> \<or> x < 0 \<or> of_nat (ip_bits p) < x then invalid
             else Inr \<lparr>ip_bits = ip_bits p, ip_value = ip_value p, cb_prefix = nat \<lfloor>x\<rfloor>\<rparr>
         | _ \<Rightarrow> invalid)"

definition host_ends :: "jsstr \<Rightarrow> jsstr \<Rightarrow> bool" where
  "host_ends p s \<longleftrightarrow> starts_with (rev p) (rev s)"

definition host_matches :: "jsstr \<Rightarrow> jsstr \<Rightarrow> bool" where
  "host_matches host pattern \<longleftrightarrow>
     pattern = host
     \<or> (starts_with (js ''*.'') pattern \<and> host_ends (drop 1 pattern) host \<and> host \<noteq> drop 2 pattern)"

definition in_block :: "ip_number \<Rightarrow> cidr_block \<Rightarrow> bool" where
  "in_block p c \<longleftrightarrow>
     ip_bits c = ip_bits p
     \<and> drop_bit (ip_bits c - cb_prefix c) (ip_value p) = drop_bit (ip_bits c - cb_prefix c) (ip_value c)"

record target_policy =
  tp_unrestricted :: bool
  tp_allow_private :: bool
  tp_hosts :: "jsstr list"
  tp_blocks :: "cidr_block list"

definition private_target_allowed :: "target_policy \<Rightarrow> jsstr \<Rightarrow> jsstr \<Rightarrow> bool" where
  "private_target_allowed policy hostname address \<longleftrightarrow>
     list_ex (host_matches (drop_dot (to_lower hostname))) (tp_hosts policy)
     \<or> (case ip_number_of address of None \<Rightarrow> False | Some p \<Rightarrow> list_ex (in_block p) (tp_blocks policy))"

text \<open>The policy of an agent from its environment: flags, hosts and blocks; a missing variable is the empty text.\<close>

definition first_set :: "jsstr list \<Rightarrow> jsstr" where \<comment> \<open>\<open>a || b || ""\<close>\<close>
  "first_set vs = (case filter (\<lambda>v. v \<noteq> []) vs of v # _ \<Rightarrow> v | [] \<Rightarrow> [])"

definition is_flag_set :: "jsstr list \<Rightarrow> bool" where
  "is_flag_set vs \<longleftrightarrow> to_lower (first_set vs) = js ''true''"

definition policy_of :: "(jsstr \<Rightarrow> jsstr) \<Rightarrow> exn + target_policy" where
  "policy_of env =
     (let var = (\<lambda>k. env (js k));
          unrestricted = is_flag_set [var ''RHYTHM_BROWSER_UNRESTRICTED_OUTBOUND'', var ''RHYTHM_UNRESTRICTED_OUTBOUND'']
      in bindE (mapE normalize_host_pattern
            (csv (first_set [var ''RHYTHM_BROWSER_PRIVATE_TARGET_ALLOWED_HOSTS'', var ''RHYTHM_PRIVATE_TARGET_ALLOWED_HOSTS''])))
          (\<lambda>hosts. bindE (mapE parse_cidr
            (csv (first_set [var ''RHYTHM_BROWSER_PRIVATE_TARGET_ALLOWED_CIDRS'', var ''RHYTHM_PRIVATE_TARGET_ALLOWED_CIDRS''])))
          (\<lambda>blocks. Inr
            \<lparr>tp_unrestricted = unrestricted,
             tp_allow_private = unrestricted
               \<or> is_flag_set [var ''RHYTHM_BROWSER_ALLOW_PRIVATE_TARGETS'', var ''RHYTHM_ALLOW_PRIVATE_TARGETS''],
             tp_hosts = hosts, tp_blocks = blocks\<rparr>)))"

section \<open>Targets\<close>

record web_url =
  wu_protocol :: jsstr
  wu_origin :: jsstr
  wu_hostname :: jsstr

record target_host =
  th_url :: "jsstr \<Rightarrow> web_url option" \<comment> \<open>\<open>new URL(v)\<close>\<close>
  th_lookup :: "jsstr \<Rightarrow> exn + jsstr list" \<comment> \<open>\<open>dns.lookup(name, { all: true })\<close>\<close>

fun some_origin :: "target_host \<Rightarrow> jsstr \<Rightarrow> jsstr list \<Rightarrow> exn + bool" where
  "some_origin h origin [] = Inr False"
| "some_origin h origin (v # vs) =
     (case th_url h v of
        None \<Rightarrow> Inl TypeError
      | Some u \<Rightarrow> if wu_origin u = origin then Inr True else some_origin h origin vs)"

text \<open>The result lists the addresses the browser may connect to; the code returns nothing.\<close>

definition validate_target :: "target_policy \<Rightarrow> target_host \<Rightarrow> jsstr \<Rightarrow> jsstr list \<Rightarrow> exn + jsstr list" where
  "validate_target policy h raw allowed_origins =
     (case th_url h raw of
        None \<Rightarrow> Inl TypeError
      | Some target \<Rightarrow>
          if wu_protocol target \<notin> {js ''http:'', js ''https:''}
          then Inl (ErrorMsg (js ''Only HTTP and HTTPS browser targets are allowed.''))
          else
            bindE (if tp_unrestricted policy \<or> allowed_origins = [] then Inr True
                   else some_origin h (wu_origin target) allowed_origins) (\<lambda>known.
            if \<not> known then Inl (ErrorMsg (js ''Navigation target is outside the monitor'' @ [39] @ js ''s allowed origins.''))
            else
              bindE (th_lookup h (wu_hostname target)) (\<lambda>addresses.
              if \<not> tp_allow_private policy
                 \<and> list_ex (\<lambda>a. is_private_address a \<and> \<not> private_target_allowed policy (wu_hostname target) a) addresses
              then Inl (ErrorMsg (js ''Navigation resolved to a private target blocked by policy.''))
              else Inr addresses)))"

section \<open>Credentials\<close>

text \<open>\<open>Buffer.from(s)\<close>: the UTF-8 form, with the replacement character for an unpaired surrogate.\<close>

definition buffer_bytes :: "jsstr \<Rightarrow> nat list" where
  "buffer_bytes s = concat (map (\<lambda>p. case p of Some c \<Rightarrow> utf8 c | None \<Rightarrow> [239, 191, 189]) (code_points s))"

definition timing_safe_loop :: "nat list \<Rightarrow> nat list \<Rightarrow> bool" where
  "timing_safe_loop l r \<longleftrightarrow> foldl (\<lambda>d (a, b). d OR (a XOR b)) 0 (zip l r) = 0"

text \<open>The flag tells whether the platform has \<open>crypto.subtle\<close>.\<close>

definition constant_time_equal :: "bool \<Rightarrow> jsstr \<Rightarrow> jsstr \<Rightarrow> bool" where
  "constant_time_equal subtle l r \<longleftrightarrow>
     (let a = buffer_bytes l; b = buffer_bytes r in
      if length a \<noteq> length b then False else if subtle then timing_safe_loop a b else l = r)"

end
