(* ===== verification/Targets_Facts.thy ===== *)
theory Targets_Facts
  imports Agent_Targets Bytes_Facts Number_Text
begin

text \<open>
  What the browser agent's address checks decide: the texts of IPv4 and IPv6 addresses as numbers,
  blocks of addresses as ranges of numbers, the private IPv4 addresses as five blocks, and the targets
  that pass the check.
\<close>

unbundle bit_operations_syntax

section \<open>Numbers in parts\<close>

definition positional :: "nat \<Rightarrow> nat list \<Rightarrow> nat" where
  "positional w ps = foldl (\<lambda>v p. v * 2 ^ w + p) 0 ps"

lemma shift_in_parts:
  assumes "\<forall>p\<in>set ps. p < 2 ^ w"
  shows "foldl (shift_in w) 0 ps = positional w ps"
proof -
  have "foldl (shift_in w) v ps = foldl (\<lambda>v p. v * 2 ^ w + p) v ps" for v
    using assms by (induction ps arbitrary: v) (simp_all add: shift_in_def shift_or)
  then show ?thesis by (simp add: positional_def)
qed

lemma positional_bound:
  assumes "\<forall>p\<in>set ps. p < 2 ^ w"
  shows "positional w ps < 2 ^ (w * length ps)"
  using assms
proof (induction ps rule: rev_induct)
  case (snoc p ps)
  then have "positional w ps + 1 \<le> 2 ^ (w * length ps)" "p < 2 ^ w" by simp_all
  then have "(positional w ps + 1) * 2 ^ w \<le> 2 ^ (w * length ps) * 2 ^ w" by (intro mult_right_mono) simp_all
  with \<open>p < 2 ^ w\<close> show ?case by (simp add: positional_def power_add add_mult_distrib ac_simps)
qed (simp add: positional_def)

section \<open>IPv4\<close>

definition dotted :: "nat list \<Rightarrow> jsstr" where
  "dotted ps = join (js ''.'') (map dec ps)"

lemma dot: "js ''.'' = [46]" "js '':'' = [58]" "js ''::'' = [58, 58]"
  by (simp_all add: js_def)

lemma split_dotted:
  assumes "ps \<noteq> []"
  shows "split_on 46 (dotted ps) = map dec ps"
proof -
  have "46 \<notin> set (dec n)" for n using dec_digits [of 46 n] by (auto simp: is_digit_def)
  then show ?thesis using assms unfolding dotted_def dot by (intro split_on_join) auto
qed

lemma is_octet_dec: "is_octet p \<longleftrightarrow> (\<exists>n\<le>255. p = dec n)"
proof
  assume "is_octet p"
  then have "dec (undec p) = p" "undec p \<le> 255" by (simp_all add: is_octet_def dec_undec)
  then show "\<exists>n\<le>255. p = dec n" by metis
next
  assume "\<exists>n\<le>255. p = dec n"
  then obtain n where n: "n \<le> 255" "p = dec n" by blast
  have "length (dec n) = 1 \<or> hd (dec n) \<noteq> 48"
    using hd_dec [of n] by (cases "n = 0") (simp_all add: dec.simps)
  with n show "is_octet p" by (auto simp: is_octet_def list_all_iff dest: dec_digits)
qed

lemma is_ipv4_iff: "is_ipv4 s \<longleftrightarrow> (\<exists>ps. length ps = 4 \<and> (\<forall>p\<in>set ps. p < 256) \<and> s = dotted ps)"
proof
  assume s: "is_ipv4 s"
  then have "map dec (map undec (split_on 46 s)) = split_on 46 s"
    by (auto simp: is_ipv4_def Let_def list_all_iff is_octet_dec intro!: map_idI)
  then have "s = dotted (map undec (split_on 46 s))" unfolding dotted_def dot by (simp only: join_split_on)
  moreover have "length (map undec (split_on 46 s)) = 4" "\<forall>p\<in>set (map undec (split_on 46 s)). p < 256"
    using s by (auto simp: is_ipv4_def Let_def list_all_iff is_octet_def)
  ultimately show "\<exists>ps. length ps = 4 \<and> (\<forall>p\<in>set ps. p < 256) \<and> s = dotted ps" by blast
next
  assume "\<exists>ps. length ps = 4 \<and> (\<forall>p\<in>set ps. p < 256) \<and> s = dotted ps"
  then obtain ps where ps: "length ps = 4" "\<forall>p\<in>set ps. p < 256" "s = dotted ps" by blast
  then have "ps \<noteq> []" by auto
  with ps split_dotted [of ps] show "is_ipv4 s"
    by (auto simp: is_ipv4_def list_all_iff is_octet_dec)
qed

lemma is_ipv4_dotted: "length ps = 4 \<Longrightarrow> \<forall>p\<in>set ps. p < 256 \<Longrightarrow> is_ipv4 (dotted ps)"
  using is_ipv4_iff by blast

lemma to_lower_digits: "\<forall>c\<in>set s. c < 65 \<Longrightarrow> to_lower s = s"
  by (induction s) (auto simp: to_lower_Cons lower_unit_def is_upper_def)

lemma set_dotted: "c \<in> set (dotted ps) \<Longrightarrow> is_digit c \<or> c = 46"
  using set_join_subset [of "js ''.''" "map dec ps"] unfolding dotted_def dot by (auto dest: dec_digits)

theorem ip_number_dotted:
  assumes "length ps = 4" "\<forall>p\<in>set ps. p < 256"
  shows "ip_number_of (dotted ps) = Some \<lparr>ip_bits = 32, ip_value = positional 8 ps\<rparr>"
proof -
  have c: "\<forall>c\<in>set (dotted ps). c < 65" "37 \<notin> set (dotted ps)"
    using set_dotted [of _ ps] by (fastforce simp: is_digit_def)+
  have ne: "ps \<noteq> []" using assms(1) by auto
  have "ipv4_number (dotted ps) = positional 8 ps"
    using assms(2) by (simp add: ipv4_number_def split_dotted [OF ne] comp_def shift_in_parts)
  moreover have "is_ipv4 (dotted ps)" using assms is_ipv4_iff by blast
  ultimately show ?thesis
    by (simp add: ip_number_of_def split_on_absent [OF c(2)] to_lower_digits [OF c(1)])
qed

section \<open>Blocks\<close>

lemma block_range_nat:
  fixes v c m :: nat
  assumes "0 < m"
  shows "v div m = c div m \<longleftrightarrow> c div m * m \<le> v \<and> v < c div m * m + m"
proof
  assume "v div m = c div m"
  then show "c div m * m \<le> v \<and> v < c div m * m + m"
    using assms div_mult_mod_eq [of v m] mod_less_divisor [of m v] by (metis le_add1 nat_add_left_cancel_less)
next
  assume "c div m * m \<le> v \<and> v < c div m * m + m"
  then show "v div m = c div m" using assms by (intro div_nat_eqI) (simp_all add: ac_simps)
qed

text \<open>A block of addresses is a range of as many numbers as its prefix leaves open, the block's own address among them.\<close>

lemma in_block_range:
  "in_block p c \<longleftrightarrow> ip_bits p = ip_bits c
     \<and> (let n = 2 ^ (ip_bits c - cb_prefix c); first = ip_value c div n * n in
        first \<le> ip_value p \<and> ip_value p < first + n)"
  using block_range_nat [of "2 ^ (ip_bits c - cb_prefix c)" "ip_value p" "ip_value c"]
  by (auto simp: in_block_def drop_bit_eq_div Let_def)

text \<open>The text of a block.\<close>

definition block_text :: "nat list \<Rightarrow> nat \<Rightarrow> jsstr" where
  "block_text ps n = dotted ps @ js ''/'' @ dec n"

lemma parse_block:
  assumes "length ps = 4" "\<forall>p\<in>set ps. p < 256" "n \<le> 32"
  shows "parse_cidr (block_text ps n) = Inr \<lparr>ip_bits = 32, ip_value = positional 8 ps, cb_prefix = n\<rparr>"
proof -
  have "47 \<notin> set (dotted ps)" "47 \<notin> set (dec n)"
    using set_dotted [of 47 ps] dec_digits [of 47 n] by (auto simp: is_digit_def)
  then have "split_on 47 (block_text ps n) = [dotted ps, dec n]"
    by (simp add: block_text_def js_def split_on_append split_on_absent)
  moreover have "str_to_num (dec n) = nnum n" using assms(3) by (intro str_to_num_dec) simp
  ultimately show ?thesis
    using assms(3) ip_number_dotted [OF assms(1,2)] by (simp add: parse_cidr_def of_nat_less_iff [of 32 n, simplified])
qed

definition private_blocks :: "(nat list \<times> nat) list" where
  "private_blocks =
     [([10, 0, 0, 0], 8), ([127, 0, 0, 0], 8), ([169, 254, 0, 0], 16), ([172, 16, 0, 0], 12), ([192, 168, 0, 0], 16)]"

definition within_block :: "jsstr \<Rightarrow> jsstr \<Rightarrow> bool" where
  "within_block address block \<longleftrightarrow>
     (case (ip_number_of address, parse_cidr block) of (Some p, Inr c) \<Rightarrow> in_block p c | _ \<Rightarrow> False)"

lemma within_block_text:
  assumes "length ps = 4" "\<forall>p\<in>set ps. p < 256" "length bs = 4" "\<forall>b\<in>set bs. b < 256" "n \<le> 32"
  shows "within_block (dotted ps) (block_text bs n) \<longleftrightarrow> positional 8 ps div 2 ^ (32 - n) = positional 8 bs div 2 ^ (32 - n)"
  by (simp add: within_block_def ip_number_dotted [OF assms(1,2)] parse_block [OF assms(3-5)] in_block_def drop_bit_eq_div)

lemma parts_eq:
  fixes a b n m :: nat
  assumes "b < m"
  shows "a * m + b = n \<longleftrightarrow> a = n div m \<and> b = n mod m"
proof -
  have "(a * m + b) div m = a" "(a * m + b) mod m = b" using assms by simp_all
  then show ?thesis by (metis div_mult_mod_eq)
qed

text \<open>An IPv4 address counts as private exactly when it lies in one of the five blocks 10/8, 127/8, 169.254/16, 172.16/12 and 192.168/16, read with the parser of blocks the operator's exemptions use.\<close>

theorem private_ipv4_blocks:
  "is_ipv4 s \<Longrightarrow> is_private_address s \<longleftrightarrow> (\<exists>(bs, n)\<in>set private_blocks. within_block s (block_text bs n))"
proof -
  assume s: "is_ipv4 s"
  then obtain a b c d where ps: "\<forall>p\<in>set [a, b, c, d]. p < 256" "s = dotted [a, b, c, d]"
    unfolding is_ipv4_iff by (auto simp: length_Suc_conv numeral_eq_Suc)
  define v where "v = positional 8 [a, b, c, d]"
  have v: "v = a * 2 ^ 24 + (b * 2 ^ 16 + (c * 2 ^ 8 + d))" by (simp add: v_def positional_def)
  have "c * 2 ^ 8 + d < 2 ^ 16" "b * 2 ^ 16 + (c * 2 ^ 8 + d) < 2 ^ 24" using ps(1) by simp_all
  then have q: "v div 2 ^ 24 = a" "v div 2 ^ 16 = a * 256 + b" "v div 2 ^ 20 = a * 16 + b div 16"
    using ps(1) by (simp_all add: v)
  have w: "within_block s (block_text bs n) \<longleftrightarrow> v div 2 ^ (32 - n) = positional 8 bs div 2 ^ (32 - n)"
    if "length bs = 4" "\<forall>b\<in>set bs. b < 256" "n \<le> 32" for bs n
    using within_block_text [of "[a, b, c, d]", OF _ ps(1) that] by (simp add: ps(2) v_def)
  have "is_private_address s = is_private_ipv4 a b"
    using s by (simp add: is_private_address_def ps(2) split_dotted)
  also have "\<dots> \<longleftrightarrow> a = 10 \<or> a = 127 \<or> a * 256 + b = 43518 \<or> a * 16 + b div 16 = 2753 \<or> a * 256 + b = 49320"
  proof -
    have b: "b < 256" using ps(1) by simp
    then have "b div 16 < 16" by (simp add: div_less_iff_less_mult)
    from parts_eq [OF this, of a 2753] have "a * 16 + b div 16 = 2753 \<longleftrightarrow> a = 172 \<and> b div 16 = 1" by simp
    moreover have "b div 16 = 1 \<longleftrightarrow> 16 \<le> b \<and> b \<le> 31" using block_range_nat [of 16 b 16] by auto
    ultimately have e: "a * 16 + b div 16 = 2753 \<longleftrightarrow> a = 172 \<and> 16 \<le> b \<and> b \<le> 31" by (simp only:)
    have f: "a * 256 + b = 43518 \<longleftrightarrow> a = 169 \<and> b = 254" "a * 256 + b = 49320 \<longleftrightarrow> a = 192 \<and> b = 168"
      using parts_eq [OF b, of a 43518] parts_eq [OF b, of a 49320] by simp_all
    show ?thesis unfolding is_private_ipv4_def e f ..
  qed
  also have "\<dots> \<longleftrightarrow> (\<exists>(bs, n)\<in>set private_blocks. within_block s (block_text bs n))"
  proof -
    have "within_block s (block_text [10, 0, 0, 0] 8) \<longleftrightarrow> a = 10" "within_block s (block_text [127, 0, 0, 0] 8) \<longleftrightarrow> a = 127"
      using w [of "[10, 0, 0, 0]" 8] w [of "[127, 0, 0, 0]" 8] q(1) by (simp_all add: positional_def)
    moreover have "within_block s (block_text [169, 254, 0, 0] 16) \<longleftrightarrow> a * 256 + b = 43518"
      "within_block s (block_text [192, 168, 0, 0] 16) \<longleftrightarrow> a * 256 + b = 49320"
      using w [of "[169, 254, 0, 0]" 16] w [of "[192, 168, 0, 0]" 16] q(2) by (simp_all add: positional_def)
    moreover have "within_block s (block_text [172, 16, 0, 0] 12) \<longleftrightarrow> a * 16 + b div 16 = 2753"
      using w [of "[172, 16, 0, 0]" 12] q(3) by (simp add: positional_def)
    ultimately show ?thesis by (simp add: private_blocks_def)
  qed
  finally show ?thesis .
qed

lemma private_ipv4_blocks_witness:
  "is_private_address (dotted [172, 31, 255, 255]) \<and> \<not> is_private_address (dotted [172, 32, 0, 0])"
proof -
  have "is_ipv4 (dotted [172, 31, 255, 255])" "is_ipv4 (dotted [172, 32, 0, 0])"
    by (simp_all add: is_ipv4_dotted)
  moreover have "\<exists>(bs, n)\<in>set private_blocks. within_block (dotted [172, 31, 255, 255]) (block_text bs n)"
    by (rule bexI [of _ "([172, 16, 0, 0], 12)"]) (simp_all add: private_blocks_def within_block_text positional_def)
  moreover have "\<not> (\<exists>(bs, n)\<in>set private_blocks. within_block (dotted [172, 32, 0, 0]) (block_text bs n))"
    by (simp add: private_blocks_def within_block_text positional_def)
  ultimately show ?thesis
    using private_ipv4_blocks [of "dotted [172, 31, 255, 255]"] private_ipv4_blocks [of "dotted [172, 32, 0, 0]"]
    by (simp only: simp_thms)
qed

text \<open>Forms of local addresses that do not count as private.\<close>

lemma not_counted_private:
  "\<not> is_private_address (js ''0.0.0.0'')" "\<not> is_private_address (js ''100.64.0.1'')"
  "\<not> is_private_address (js ''::ffff:127.0.0.1'')" "\<not> is_private_address (js ''fe90::1'')"
  by code_simp+

lemma mapped_loopback: "is_ipv6 (js ''::ffff:127.0.0.1'')" by code_simp

text \<open>A block without the digits of its prefix is the block of all addresses.\<close>

lemma empty_prefix_is_all:
  assumes "length bs = 4" "\<forall>b\<in>set bs. b < 256" "is_ipv4 a"
  shows "within_block a (dotted bs @ js ''/'')"
proof -
  obtain ps where ps: "length ps = 4" "\<forall>p\<in>set ps. p < 256" "a = dotted ps" using assms(3) is_ipv4_iff by blast
  have "47 \<notin> set (dotted bs)" using set_dotted [of 47 bs] by (auto simp: is_digit_def)
  then have "split_on 47 (dotted bs @ js ''/'') = [dotted bs, []]"
    by (simp add: js_def split_on_append split_on_absent)
  moreover have "str_to_num [] = Fin 0" by (simp add: str_to_num_def)
  ultimately have "parse_cidr (dotted bs @ js ''/'') = Inr \<lparr>ip_bits = 32, ip_value = positional 8 bs, cb_prefix = 0\<rparr>"
    by (simp add: parse_cidr_def ip_number_dotted [OF assms(1,2)])
  with positional_bound [of ps 8] positional_bound [of bs 8] ps assms(1,2) show ?thesis
    by (simp add: within_block_def ip_number_dotted in_block_def drop_bit_eq_div)
qed

end
