(* ===== verification/Credential_Facts.thy ===== *)
theory Credential_Facts
  imports Targets_Facts
begin

text \<open>
  The check of a target as a whole, and the comparison of credentials.
\<close>

unbundle bit_operations_syntax

section \<open>Targets\<close>

lemma host_ends_iff: "host_ends p s \<longleftrightarrow> (\<exists>l. s = l @ p)"
proof
  assume "host_ends p s"
  then obtain t where "rev s = rev p @ t" by (auto simp: host_ends_def starts_with_iff)
  then have "s = rev t @ p" by (metis rev_append rev_rev_ident)
  then show "\<exists>l. s = l @ p" by blast
qed (auto simp: host_ends_def)

text \<open>A pattern stands for its host or, when it starts with \<open>*.\<close>, for the hosts below the domain after it.\<close>

lemma host_matches_iff:
  "host_matches host pattern \<longleftrightarrow> pattern = host \<or> (\<exists>l d. pattern = js ''*.'' @ d \<and> host = l @ js ''.'' @ d)"
proof -
  have "host_matches host (js ''*.'' @ d) \<longleftrightarrow> js ''*.'' @ d = host \<or> (\<exists>l. host = l @ js ''.'' @ d)" for d
    by (auto simp: host_matches_def host_ends_iff js_def)
  moreover have "host_matches host pattern \<longleftrightarrow> pattern = host" if "\<nexists>d. pattern = js ''*.'' @ d"
    using that by (auto simp: host_matches_def starts_with_iff)
  ultimately show ?thesis by (cases "\<exists>d. pattern = js ''*.'' @ d") (metis, blast)
qed

definition exempt_host :: "target_policy \<Rightarrow> jsstr \<Rightarrow> bool" where
  "exempt_host policy hostname \<longleftrightarrow>
     (\<exists>pattern\<in>set (tp_hosts policy). let host = drop_dot (to_lower hostname) in
        pattern = host \<or> (\<exists>l d. pattern = js ''*.'' @ d \<and> host = l @ js ''.'' @ d))"

definition exempt_number :: "target_policy \<Rightarrow> jsstr \<Rightarrow> bool" where
  "exempt_number policy address \<longleftrightarrow>
     (\<exists>p. ip_number_of address = Some p \<and> (\<exists>c\<in>set (tp_blocks policy). ip_bits p = ip_bits c
        \<and> (let n = 2 ^ (ip_bits c - cb_prefix c); first = ip_value c div n * n in
           first \<le> ip_value p \<and> ip_value p < first + n)))"

lemma private_target_allowed_iff:
  "private_target_allowed policy hostname address \<longleftrightarrow> exempt_host policy hostname \<or> exempt_number policy address"
  unfolding private_target_allowed_def exempt_host_def exempt_number_def list_ex_iff host_matches_iff in_block_range Let_def
  by (auto split: option.splits)

text \<open>An allowed origin is found when no entry before it is an address that does not parse.\<close>

definition origin_listed :: "target_host \<Rightarrow> jsstr \<Rightarrow> jsstr list \<Rightarrow> bool" where
  "origin_listed h origin vs \<longleftrightarrow>
     (\<exists>n<length vs. (\<exists>u. th_url h (vs ! n) = Some u \<and> wu_origin u = origin) \<and> (\<forall>m<n. th_url h (vs ! m) \<noteq> None))"

lemma some_origin_iff: "some_origin h origin vs = Inr True \<longleftrightarrow> origin_listed h origin vs"
proof (induction vs)
  case Nil
  then show ?case by (simp add: origin_listed_def)
next
  case (Cons v vs)
  show ?case
  proof (cases "th_url h v")
    case None
    then show ?thesis by (auto simp: origin_listed_def nth_Cons less_Suc_eq_0_disj split: nat.splits)
  next
    case (Some u)
    have "origin_listed h origin (v # vs) \<longleftrightarrow> wu_origin u = origin \<or> origin_listed h origin vs"
      using Some by (auto simp: origin_listed_def Ex_less_Suc2 All_less_Suc2)
    with Some Cons show ?thesis by simp
  qed
qed

lemma checks_pass:
  "bindE known (\<lambda>b. if \<not> b then Inl e else bindE found (\<lambda>as. if \<not> p \<and> q as then Inl e' else Inr as)) = Inr addresses
    \<longleftrightarrow> known = Inr True \<and> found = Inr addresses \<and> (p \<or> \<not> q addresses)"
  by (auto simp: bindE_def split: sum.splits)

definition target_open :: "target_policy \<Rightarrow> target_host \<Rightarrow> jsstr list \<Rightarrow> web_url \<Rightarrow> bool" where
  \<comment> \<open>the origin is no reason to refuse the target\<close>
  "target_open policy h allowed_origins t \<longleftrightarrow>
     tp_unrestricted policy \<or> allowed_origins = [] \<or> origin_listed h (wu_origin t) allowed_origins"

text \<open>C8: What the check of a target of the browser agent decides, whatever its configuration. It accepts
  a target exactly if the target is an HTTP or HTTPS address whose host resolves, and neither of two
  switchable restrictions refuses it. The origin restriction applies only when the agent is not
  unrestricted and the monitor has a list of origins, and asks for the target's origin in that list
  (before any entry that is no address). The restriction on private targets applies only when the
  agent does not allow private targets, and asks that each private address the host resolves to is
  exempted, by a host pattern or a block of the operator; for IPv4 an address is private exactly if
  it lies in one of the private blocks. An unrestricted agent also allows
  private targets (the agent sets the second switch from the first); configured so, as the
  deployment files do, it accepts every HTTP or HTTPS address whose host resolves, which is what the
  documentation says.\<close>

theorem target_check_spec:
  "(validate_target policy h raw allowed_origins = Inr addresses \<longleftrightarrow>
      (\<exists>t. th_url h raw = Some t \<and> wu_protocol t \<in> {js ''http:'', js ''https:''} \<and>
         target_open policy h allowed_origins t \<and> th_lookup h (wu_hostname t) = Inr addresses \<and>
         (tp_allow_private policy \<or>
          (\<forall>a\<in>set addresses. is_private_address a \<longrightarrow> exempt_host policy (wu_hostname t) \<or> exempt_number policy a)))) \<and>
   (\<forall>a. is_ipv4 a \<longrightarrow> is_private_address a = (\<exists>(bs, n)\<in>set private_blocks. within_block a (block_text bs n)))"
proof
  show "validate_target policy h raw allowed_origins = Inr addresses \<longleftrightarrow>
      (\<exists>t. th_url h raw = Some t \<and> wu_protocol t \<in> {js ''http:'', js ''https:''} \<and>
         target_open policy h allowed_origins t \<and> th_lookup h (wu_hostname t) = Inr addresses \<and>
         (tp_allow_private policy \<or>
          (\<forall>a\<in>set addresses. is_private_address a \<longrightarrow> exempt_host policy (wu_hostname t) \<or> exempt_number policy a)))"
  proof (cases "th_url h raw")
    case (Some t)
    let ?known = "if tp_unrestricted policy \<or> allowed_origins = [] then Inr True
      else some_origin h (wu_origin t) allowed_origins"
    have known: "?known = Inr True \<longleftrightarrow> target_open policy h allowed_origins t"
      by (simp add: target_open_def some_origin_iff)
    have priv: "list_ex (\<lambda>a. is_private_address a \<and> \<not> private_target_allowed policy (wu_hostname t) a) as \<longleftrightarrow>
        \<not> (\<forall>a\<in>set as. is_private_address a \<longrightarrow> exempt_host policy (wu_hostname t) \<or> exempt_number policy a)" for as
      by (auto simp: list_ex_iff private_target_allowed_iff)
    show ?thesis
      using Some by (simp add: validate_target_def checks_pass known priv)
  qed (simp add: validate_target_def)
qed (use private_ipv4_blocks in blast)

definition sample_host :: target_host where
  "sample_host = \<lparr>th_url = \<lambda>_. Some \<lparr>wu_protocol = js ''https:'', wu_origin = js ''https://shop'', wu_hostname = js ''shop''\<rparr>,
     th_lookup = \<lambda>_. Inr [dotted [10, 1, 2, 3]]\<rparr>"

definition sample_policy :: target_policy where
  "sample_policy = \<lparr>tp_unrestricted = False, tp_allow_private = False, tp_hosts = [js ''shop''], tp_blocks = []\<rparr>"

lemma target_check_spec_witness:
  "validate_target sample_policy sample_host (js ''https://shop/'') [] = Inr [dotted [10, 1, 2, 3]]
     \<and> (exempt_host sample_policy (js ''shop'') \<or> exempt_number sample_policy (dotted [10, 1, 2, 3]))"
proof -
  have shop: "drop_dot (to_lower (js ''shop'')) = js ''shop''" by code_simp
  then have v: "validate_target sample_policy sample_host (js ''https://shop/'') [] = Inr [dotted [10, 1, 2, 3]]"
    by (simp add: validate_target_def sample_host_def sample_policy_def bindE_def private_target_allowed_def host_matches_def)
  have "is_ipv4 (dotted [10, 1, 2, 3])" by (simp add: is_ipv4_dotted)
  moreover have "\<exists>(bs, n)\<in>set private_blocks. within_block (dotted [10, 1, 2, 3]) (block_text bs n)"
    by (rule bexI [of _ "([10, 0, 0, 0], 8)"]) (simp_all add: private_blocks_def within_block_text positional_def)
  ultimately show ?thesis
    using v target_check_spec [of sample_policy sample_host "js ''https://shop/''" "[]" "[dotted [10, 1, 2, 3]]"]
    by (auto simp: sample_host_def sample_policy_def)
qed

section \<open>Credentials\<close>

lemma timing_safe_loop_iff:
  "length l = length r \<Longrightarrow> timing_safe_loop l r \<longleftrightarrow> l = r"
proof -
  assume len: "length l = length r"
  have f: "foldl (\<lambda>d (a, b). d OR (a XOR b)) d ps = 0 \<longleftrightarrow> d = 0 \<and> (\<forall>(a, b)\<in>set ps. a = b)" for d :: nat and ps
  proof (induction ps arbitrary: d)
    case (Cons p ps)
    have "a XOR b = 0 \<longleftrightarrow> a = b" for a b :: nat
      by (metis xor_self_eq bit_xor_iff bit_eq_iff bit_0_eq bot_apply bot_bool_def)
    moreover have "d OR k = 0 \<longleftrightarrow> d = 0 \<and> k = 0" for k :: nat
      by (metis bit.disj_zero_right or_eq_0_iff)
    ultimately show ?case by (auto simp: Cons.IH split: prod.splits)
  qed simp
  show ?thesis unfolding timing_safe_loop_def f using len
    by (auto simp: list_eq_iff_nth_eq set_zip)
qed

lemma buffer_bytes_inject:
  assumes "well_formed l" "well_formed r" "buffer_bytes l = buffer_bytes r"
  shows "l = r"
proof -
  have enc: "encode_utf8 s = Inr (buffer_bytes s)" if "well_formed s" for s
  proof -
    from that have s: "\<forall>c\<in>set s. c < 65536" "None \<notin> set (code_points s)" by (auto simp: well_formed_def)
    have ps: "\<forall>p\<in>set (map the (code_points s)). scalar p"
      using code_points_valid [OF s(1)] s(2) by (auto simp: scalar_def) (metis option.exhaust_sel)+
    have b: "map (\<lambda>p. case p of Some c \<Rightarrow> utf8 c | None \<Rightarrow> [239, 191, 189]) (code_points s) = map utf8 (map the (code_points s))"
      using s(2) by (auto split: option.splits)
    show ?thesis
      unfolding buffer_bytes_def b
      using encode_points_Some [OF s(2)] js_unescape_points [OF ps]
      by (simp add: encode_utf8_def encode_uri_def comp_def)
  qed
  obtain bytes where "encode_utf8 l = Inr bytes" "decode_utf8 bytes = Inr l" using utf8_round [OF assms(1)] by blast
  moreover obtain bytes' where "encode_utf8 r = Inr bytes'" "decode_utf8 bytes' = Inr r" using utf8_round [OF assms(2)] by blast
  ultimately show ?thesis using assms enc by auto
qed

text \<open>C32: A credential is accepted exactly when it is the expected text, whichever of the two comparisons the platform offers.\<close>

theorem credential_exact:
  "well_formed l \<Longrightarrow> well_formed r \<Longrightarrow> constant_time_equal subtle l r \<longleftrightarrow> l = r"
  by (auto simp: constant_time_equal_def Let_def timing_safe_loop_iff buffer_bytes_inject)

lemma credential_exact_witness: "\<not> constant_time_equal True (js ''Bearer a'') (js ''Bearer b'')"
proof -
  have "well_formed (js ''Bearer a'')" "well_formed (js ''Bearer b'')" by code_simp+
  then show ?thesis using credential_exact by simp
qed

end
