(* ===== verification/Agent_Checks.thy ===== *)
theory Agent_Checks
  imports Script_Tests Js_Regex Js_Compare
begin

text \<open>
  The comparisons, texts and classifications of the browser agent, from
  \<open>services/browser-agent/server.mjs\<close>: how a check compares what it observed, how variables are put
  into a text, how secrets are masked, and which category a failure falls into. What a regular
  expression of a check answers, the codec of images, \<open>new URL\<close> and the texts of the engine's own
  errors are parameters.
\<close>

section \<open>Comparisons\<close>

type_synonym regexps = "jsstr \<Rightarrow> (jsstr \<Rightarrow> bool) option" \<comment> \<open>\<open>new RegExp(source).test\<close>; \<open>None\<close> when it does not compile\<close>

definition compare_text :: "regexps \<Rightarrow> jsval \<Rightarrow> jsval \<Rightarrow> jsval \<Rightarrow> exn + bool" where
  "compare_text regexp observed expected operator =
     bindE (to_string (coalesce observed (JStr []))) (\<lambda>actual.
     bindE (to_string (coalesce expected (JStr []))) (\<lambda>wanted.
       if operator = JStr (js ''CONTAINS'') then Inr (contains_str wanted actual)
       else if operator = JStr (js ''NOT_CONTAINS'') then Inr (\<not> contains_str wanted actual)
       else if operator = JStr (js ''MATCHES'') then
         (case regexp wanted of None \<Rightarrow> Inl SyntaxError | Some test \<Rightarrow> Inr (test actual))
       else if operator = JStr (js ''NOT_EQUALS'') then Inr (actual \<noteq> wanted)
       else Inr (actual = wanted)))"

definition compare_number :: "jsnum \<Rightarrow> jsnum \<Rightarrow> jsval \<Rightarrow> bool" where
  "compare_number observed expected operator =
     (case (observed, expected) of
        (Fin a, Fin b) \<Rightarrow>
          if operator = JStr (js ''GREATER_THAN'') then b < a
          else if operator = JStr (js ''GREATER_THAN_OR_EQUAL'') then b \<le> a
          else if operator = JStr (js ''LESS_THAN_OR_EQUAL'') then a \<le> b
          else if operator = JStr (js ''EQUALS'') then a = b
          else if operator = JStr (js ''NOT_EQUALS'') then a \<noteq> b
          else a < b
      | _ \<Rightarrow> False)"

record png =
  png_width :: nat
  png_height :: nat

record 'b png_comparison =
  pc_passed :: bool
  pc_diff_pixels :: nat
  pc_diff_ratio :: jsnum
  pc_diff :: "'b option" \<comment> \<open>the image of the differences\<close>

definition num_le :: "jsnum \<Rightarrow> jsnum \<Rightarrow> bool" where
  "num_le x y \<longleftrightarrow> x \<noteq> NaN \<and> y \<noteq> NaN \<and> \<not> num_less y x"

definition pixel_ratio :: "nat \<Rightarrow> nat \<Rightarrow> jsnum" where \<comment> \<open>division of naturals\<close>
  "pixel_ratio n d =
     (if d = 0 then (if n = 0 then NaN else Infinite False) else to_double (of_nat n / of_nat d))"

text \<open>The codec reads an image or fails; the matcher counts different pixels and draws them, and may fail as well.\<close>

definition compare_pngs ::
    "('b \<Rightarrow> png option) \<Rightarrow> ('b \<Rightarrow> 'b \<Rightarrow> (nat \<times> 'b) option) \<Rightarrow> 'b \<Rightarrow> 'b \<Rightarrow> jsnum \<Rightarrow> 'b png_comparison" where
  "compare_pngs read pixelmatch actual_bytes expected_bytes threshold =
     (let failed = \<lparr>pc_passed = False, pc_diff_pixels = 0, pc_diff_ratio = Fin 1, pc_diff = None\<rparr> in
      case (read actual_bytes, read expected_bytes) of
        (Some actual, Some expected) \<Rightarrow>
          if png_width actual \<noteq> png_width expected \<or> png_height actual \<noteq> png_height expected
          then failed\<lparr>pc_diff_pixels := png_width actual * png_height actual\<rparr>
          else
            (case pixelmatch expected_bytes actual_bytes of
               None \<Rightarrow> failed
             | Some (n, diff) \<Rightarrow>
                 let ratio = pixel_ratio n (png_width actual * png_height actual) in
                 \<lparr>pc_passed = num_le ratio threshold, pc_diff_pixels = n, pc_diff_ratio = ratio, pc_diff = Some diff\<rparr>)
      | _ \<Rightarrow> failed)"

section \<open>Values in documents and texts\<close>

definition index_re :: re where \<comment> \<open>\<open>\[(\d+)\]\<close>\<close>
  "index_re = seq_re [unit_re 91, Grp 1 (plus_re digit_re), unit_re 93]"

definition path_segments :: "jsstr \<Rightarrow> jsstr list" where
  "path_segments path =
     (let rest = sub_first (seq_re [Bol, unit_re 36, opt_re (unit_re 46)]) (\<lambda>_ _. []) path;
          flat = sub_all index_re (\<lambda>_ m. 46 # (case capture 1 m of Some d \<Rightarrow> d | None \<Rightarrow> [])) rest
      in filter (\<lambda>s. s \<noteq> []) (split_on 46 flat))"

definition get_path :: "(jsval \<Rightarrow> jsstr \<Rightarrow> bool) \<Rightarrow> jsval \<Rightarrow> jsval \<Rightarrow> exn + jsval" where
  "get_path inherits v path =
     (if \<not> truthy path \<or> path = JStr (js ''$'') then Inr v
      else bindE (to_string path) (\<lambda>p. follow_path inherits (path_segments p) v))"

definition numeric_re :: re where \<comment> \<open>\<open>-?\d+(?:\.\d+)?\<close>\<close>
  "numeric_re = seq_re [opt_re (unit_re 45), plus_re digit_re, opt_re (seq_re [unit_re 46, plus_re digit_re])]"

definition parse_numeric :: "jsval \<Rightarrow> exn + jsnum" where
  "parse_numeric v =
     (case v of
        JNum x \<Rightarrow> Inr x
      | _ \<Rightarrow>
          bindE (to_string (coalesce v (JStr []))) (\<lambda>s.
            let t = filter (\<lambda>c. c \<noteq> 44) s in
            Inr (case rexec_from numeric_re [] t of
                   None \<Rightarrow> NaN
                 | Some (_, u, m) \<Rightarrow> str_to_num (matched u m))))"

definition variable_re :: re where \<comment> \<open>\<open>\{\{\s*([^{}]+?)\s*\}\}\<close>\<close>
  "variable_re =
     (let inner = Cls True [(123, 123), (125, 125)] in
      seq_re [lit_re (js ''{{''), Star True space_re, Grp 1 (Seq inner (Star False inner)), Star True space_re, lit_re (js ''}}'')])"

text \<open>The variables of a run are texts.\<close>

definition render :: "(jsstr \<times> jsstr) list \<Rightarrow> jsval \<Rightarrow> exn + jsstr" where
  "render variables v =
     bindE (to_string (or_else v (JStr []))) (\<lambda>s. Inr
       (sub_all variable_re (\<lambda>match m.
          case capture 1 m of
            None \<Rightarrow> match
          | Some name \<Rightarrow> (case map_of variables name of Some w \<Rightarrow> w | None \<Rightarrow> match)) s))"

text \<open>
  The expression for a pattern: every code unit but the star is escaped; two stars become \<open>.*\<close>, and then
  each star, the one just written included, becomes \<open>[^/]*\<close>.
\<close>

definition segment_re :: re where \<comment> \<open>\<open>[^/]*\<close>\<close>
  "segment_re = Star True (Cls True [(47, 47)])"

fun pattern_re :: "jsstr \<Rightarrow> re" where
  "pattern_re [] = Eps"
| "pattern_re (c # s) =
     (if c \<noteq> 42 then Seq (unit_re c) (pattern_re s)
      else case s of
        d # t \<Rightarrow> if d = 42 then Seq dot_re (Seq segment_re (pattern_re t)) else Seq segment_re (pattern_re s)
      | [] \<Rightarrow> segment_re)"

definition match_pattern :: "jsstr \<Rightarrow> jsstr \<Rightarrow> bool" where
  "match_pattern v pattern \<longleftrightarrow> pattern \<noteq> [] \<and> rtest (Seq Bol (Seq (pattern_re pattern) Eol)) v"

section \<open>Masking\<close>

function split_text :: "jsstr \<Rightarrow> jsstr \<Rightarrow> jsstr list" where \<comment> \<open>\<open>split\<close> on a text that is not empty\<close>
  "split_text sep s =
     (if sep = [] then [s]
      else case index_of sep s of
        None \<Rightarrow> [s]
      | Some i \<Rightarrow> take i s # split_text sep (drop (i + length sep) s))"
  by pat_completeness auto
termination
proof (relation "measure (\<lambda>(sep, s). length s)")
  fix sep s :: jsstr and i
  assume "sep \<noteq> []" "index_of sep s = Some i"
  with index_of_Some_le [of sep s i] show "((sep, drop (i + length sep) s), (sep, s)) \<in> measure (\<lambda>(sep, s). length s)"
    by (cases sep) auto
qed simp

declare split_text.simps [simp del]

definition mask_secret :: "jsstr \<Rightarrow> jsval \<Rightarrow> jsstr" where
  "mask_secret output secret =
     (case secret of
        JStr s \<Rightarrow> if 3 \<le> length s then join (js ''MASKED'') (split_text s output) else output
      | _ \<Rightarrow> output)"

definition mask_text :: "jsval list \<Rightarrow> jsval \<Rightarrow> exn + jsstr" where
  "mask_text secrets v =
     bindE (to_string (or_else v (JStr []))) (\<lambda>s. Inr (take 2000 (foldl mask_secret s secrets)))"

definition mask_value :: "jsval list \<Rightarrow> jsval \<Rightarrow> exn + jsval" where
  "mask_value secrets v =
     (if is_string v then bindE (mask_text secrets v) (\<lambda>s. Inr (JStr s)) else Inr v)"

text \<open>Of an address only its parameters are changed; the flag of the printer drops user and password.\<close>

definition secret_key_re :: re where \<comment> \<open>\<open>/token|secret|password|auth|key|session/i\<close>\<close>
  "secret_key_re = alt_re (map (\<lambda>w. lit_i_re (js w)) [''token'', ''secret'', ''password'', ''auth'', ''key'', ''session''])"

text \<open>\<open>searchParams.set\<close>: the first entry of the name takes the value, the others go.\<close>

definition set_search_param :: "jsstr \<Rightarrow> jsstr \<Rightarrow> (jsstr \<times> jsstr) list \<Rightarrow> (jsstr \<times> jsstr) list" where
  "set_search_param k v ps =
     (case dropWhile (\<lambda>p. fst p \<noteq> k) ps of
        [] \<Rightarrow> ps @ [(k, v)]
      | _ # rest \<Rightarrow> takeWhile (\<lambda>p. fst p \<noteq> k) ps @ (k, v) # filter (\<lambda>p. fst p \<noteq> k) rest)"

text \<open>The iterator over the names is live: it reads the list by position while the loop changes it.\<close>

function mask_params :: "nat \<Rightarrow> (jsstr \<times> jsstr) list \<Rightarrow> (jsstr \<times> jsstr) list" where
  "mask_params i ps =
     (if length ps \<le> i then ps
      else let k = fst (ps ! i); ps' = (if rtest secret_key_re k then set_search_param k (js ''MASKED'') ps else ps)
           in mask_params (Suc i) ps')"
  by pat_completeness auto
termination
proof (relation "measure (\<lambda>(i, ps). length ps - i)")
  fix i :: nat and ps :: "(jsstr \<times> jsstr) list" and k ps'
  assume a: "\<not> length ps \<le> i" "k = fst (ps ! i)" "ps' = (if rtest secret_key_re k then set_search_param k (js ''MASKED'') ps else ps)"
  have "length (set_search_param k v ps) \<le> length ps" for v
  proof -
    have "dropWhile (\<lambda>p. fst p \<noteq> k) ps \<noteq> []" using a(1,2) by (auto simp: dropWhile_eq_Nil_conv)
    then obtain q qs where q: "dropWhile (\<lambda>p. fst p \<noteq> k) ps = q # qs" by (cases "dropWhile (\<lambda>p. fst p \<noteq> k) ps") auto
    then have "length ps = length (takeWhile (\<lambda>p. fst p \<noteq> k) ps) + Suc (length qs)"
      by (metis length_append takeWhile_dropWhile_id length_Cons)
    then show ?thesis using q by (simp add: set_search_param_def)
  qed
  with a(2,3) have "length ps' \<le> length ps" by simp
  with a(1) show "((Suc i, ps'), (i, ps)) \<in> measure (\<lambda>(i, ps). length ps - i)" by simp
qed simp

declare mask_params.simps [simp del]

record 'u url_codec =
  uc_parse :: "jsstr \<Rightarrow> 'u option"
  uc_params :: "'u \<Rightarrow> (jsstr \<times> jsstr) list"
  uc_print :: "'u \<Rightarrow> (jsstr \<times> jsstr) list \<Rightarrow> jsstr" \<comment> \<open>without user and password\<close>

definition safe_url :: "'u url_codec \<Rightarrow> jsstr \<Rightarrow> jsstr" where
  "safe_url codec raw =
     (case uc_parse codec raw of
        None \<Rightarrow> []
      | Some u \<Rightarrow> uc_print codec u (mask_params 0 (uc_params codec u)))"

section \<open>Failures\<close>

text \<open>The text of an error: its message, or its name when that is empty.\<close>

definition error_text :: "(exn \<Rightarrow> jsstr) \<Rightarrow> exn \<Rightarrow> jsstr" where
  "error_text engine e =
     (case e of ErrorMsg m \<Rightarrow> if m = [] then js ''Error'' else m | _ \<Rightarrow> engine e)"

definition credential_re :: re where \<comment> \<open>\<open>/(authorization|cookie|token|password|secret)\s*[:=]\s*[^\s,;]+/gi\<close>\<close>
  "credential_re =
     seq_re [Grp 1 (alt_re (map (\<lambda>w. lit_i_re (js w)) [''authorization'', ''cookie'', ''token'', ''password'', ''secret''])),
       Star True space_re, Cls False [(58, 58), (61, 61)], Star True space_re,
       plus_re (Cls True [(9, 13), (32, 32), (160, 160), (5760, 5760), (8192, 8202), (8232, 8233),
         (8239, 8239), (8287, 8287), (12288, 12288), (65279, 65279), (44, 44), (59, 59)])]"

definition safe_text :: "jsstr \<Rightarrow> jsstr" where
  "safe_text s =
     take 1000 (sub_all credential_re (\<lambda>_ m. (case capture 1 m of Some k \<Rightarrow> k | None \<Rightarrow> []) @ js ''=MASKED'') s)"

definition safe_message :: "(exn \<Rightarrow> jsstr) \<Rightarrow> exn \<Rightarrow> jsstr" where
  "safe_message engine e = safe_text (error_text engine e)"

definition failure_category :: "jsstr \<Rightarrow> string" where
  "failure_category text =
     (let message = to_lower text; has = (\<lambda>w. contains_str (js w) message) in
      if has ''artifact'' then ''ARTIFACT_POLICY_BLOCKED''
      else if has ''timeout'' then ''TIMED_OUT''
      else if has ''strict mode violation'' then ''SELECTOR_AMBIGUOUS''
      else if has ''locator'' \<or> has ''waiting for'' \<or> has ''not found'' then ''SELECTOR_NOT_FOUND''
      else if has ''navigation'' \<or> has ''net::'' then ''NAVIGATION_FAILED''
      else if has ''target closed'' \<or> has ''browser'' then ''BROWSER_CRASH''
      else if has ''allowed origin'' \<or> has ''private target'' then ''POLICY_VIOLATION''
      else ''ACTION_FAILED'')"

definition classify_error :: "(exn \<Rightarrow> jsstr) \<Rightarrow> exn \<Rightarrow> string" where
  "classify_error engine e = failure_category (error_text engine e)"

end
