(* ===== verification/Agent_Facts.thy ===== *)
theory Agent_Facts
  imports Agent_Checks "HOL-Library.Sublist"
begin

text \<open>
  What the browser agent shows of a run: texts in which no secret is left, addresses whose secret
  parameters are masked, and the patterns and categories as the code has them.
\<close>

section \<open>Masked texts\<close>

lemma contains_sublist: "contains_str p s \<longleftrightarrow> sublist p s"
  by (auto simp: includes_iff sublist_def)

definition foreign :: "jsstr \<Rightarrow> bool" where \<comment> \<open>at least three code units, none of them a letter of the mask\<close>
  "foreign s \<longleftrightarrow> 3 \<le> length s \<and> set s \<inter> set (js ''MASKED'') = {}"

lemma sublist_through_mask:
  assumes "foreign s" "sublist s (u @ js ''MASKED'' @ v)"
  shows "sublist s u \<or> sublist s v"
proof -
  let ?m = "js ''MASKED''"
  have s: "s \<noteq> []" "set s \<inter> set ?m = {}" using assms(1) by (auto simp: foreign_def)
  have tail: "xs = []" if "s = xs @ ys" "suffix xs ?m" for xs ys
  proof -
    have "set xs \<subseteq> set s" "set xs \<subseteq> set ?m" using that set_mono_suffix by auto
    with s(2) show ?thesis by (cases xs) auto
  qed
  from assms(2) consider "sublist s u" | "sublist s (?m @ v)"
    | xs ys where "s = xs @ ys" "suffix xs u" "prefix ys (?m @ v)"
    by (auto simp: sublist_append)
  then show ?thesis
  proof cases
    case 2
    then consider "sublist s ?m" | "sublist s v" | xs ys where "s = xs @ ys" "suffix xs ?m" "prefix ys v"
      by (auto simp: sublist_append)
    then show ?thesis
    proof cases
      case 1
      then have "set s \<subseteq> set ?m" by (rule set_mono_sublist)
      with s show ?thesis by (cases s) auto
    next
      case 3
      with tail [of xs ys] have "xs = []" by auto
      with 3 show ?thesis by (simp add: prefix_imp_sublist)
    qed simp
  next
    case 3
    show ?thesis
    proof (cases "ys = []")
      case True
      with 3 show ?thesis by (simp add: suffix_imp_sublist)
    next
      case False
      then obtain c t where "ys = c # t" by (cases ys) auto
      with 3 have "c \<in> set ?m" "c \<in> set s" by (auto simp: js_def)
      with s(2) show ?thesis by blast
    qed
  qed simp
qed

lemma sublist_join_mask:
  "foreign s \<Longrightarrow> sublist s (join (js ''MASKED'') ps) \<Longrightarrow> \<exists>p\<in>set ps. sublist s p"
proof (induction ps)
  case Nil
  then show ?case by (auto simp: foreign_def)
next
  case (Cons p ps)
  then show ?case
    using sublist_through_mask [of s p "join (js ''MASKED'') ps"] by (cases "ps = []") (auto simp: join_Cons)
qed

lemma index_of_first: "index_of p s = Some i \<Longrightarrow> p \<noteq> [] \<Longrightarrow> \<not> sublist p (take i s)"
proof (induction s arbitrary: i)
  case (Cons c s)
  show ?case
  proof (cases "starts_with p (c # s)")
    case False
    with Cons.prems obtain j where j: "index_of p s = Some j" "i = Suc j" by auto
    have "\<not> prefix p (c # take j s)"
    proof
      assume "prefix p (c # take j s)"
      then have "prefix p (c # s)" by (metis prefix_order.order_trans take_Suc_Cons take_is_prefix)
      with False show False by (auto simp: starts_with_iff prefix_def)
    qed
    with Cons.IH [OF j(1) Cons.prems(2)] j(2) show ?thesis by (simp add: sublist_Cons_right)
  qed (use Cons.prems in simp)
qed simp

lemma split_text_pieces:
  assumes "s \<noteq> []"
  shows "p \<in> set (split_text s t) \<Longrightarrow> sublist p t \<and> \<not> sublist s p"
proof (induction "length t" arbitrary: t rule: less_induct)
  case less
  show ?case
  proof (cases "index_of s t")
    case None
    with less.prems assms have "p = t" by (simp add: split_text.simps [of s t])
    moreover have "\<not> sublist s t" using None contains_sublist [of s t] by (simp add: contains_str_def)
    ultimately show ?thesis by simp
  next
    case (Some i)
    from less.prems Some assms consider "p = take i t" | "p \<in> set (split_text s (drop (i + length s) t))"
      by (auto simp: split_text.simps [of s t])
    then show ?thesis
    proof cases
      case 1
      with index_of_first [OF Some assms] show ?thesis by (simp add: sublist_take)
    next
      case 2
      have "length (drop (i + length s) t) < length t" using index_of_Some_le [OF Some] assms by (cases s) auto
      with less.hyps 2 have "sublist p (drop (i + length s) t)" "\<not> sublist s p" by blast+
      then show ?thesis by (meson sublist_drop sublist_order.order_trans)
    qed
  qed
qed

lemma mask_secret_clean:
  assumes "foreign s"
  shows "\<not> sublist s (mask_secret t (JStr s))"
proof -
  have s: "s \<noteq> []" "3 \<le> length s" using assms by (auto simp: foreign_def)
  have "\<not> sublist s (join (js ''MASKED'') (split_text s t))"
    using sublist_join_mask [OF assms, of "split_text s t"] split_text_pieces [OF s(1), of _ t] by blast
  with s(2) show ?thesis by (simp add: mask_secret_def)
qed

lemma mask_secret_keeps:
  assumes "foreign s" "\<not> sublist s t"
  shows "\<not> sublist s (mask_secret t v)"
proof (cases "\<exists>r. v = JStr r \<and> 3 \<le> length r")
  case True
  then obtain r where v: "v = JStr r" and r: "3 \<le> length r" by blast
  then have "r \<noteq> []" by (cases r) simp_all
  from v r have "mask_secret t v = join (js ''MASKED'') (split_text r t)" by (simp add: mask_secret_def)
  moreover have "\<not> sublist s (join (js ''MASKED'') (split_text r t))"
  proof
    assume "sublist s (join (js ''MASKED'') (split_text r t))"
    then obtain p where p: "p \<in> set (split_text r t)" "sublist s p" using sublist_join_mask [OF assms(1)] by blast
    with split_text_pieces [OF \<open>r \<noteq> []\<close> p(1)] have "sublist s t" by (blast intro: sublist_order.order_trans)
    with assms(2) show False ..
  qed
  ultimately show ?thesis by simp
qed (use assms(2) in \<open>auto simp: mask_secret_def split: jsval.splits\<close>)

text \<open>C33: A secret of at least three code units that has no letter in common with the word MASKED does
  not occur in a masked text, whatever other secrets are masked before or after it, and a masked text
  has at most 2000 code units. Shorter secrets are not masked at all, and a secret that shares a
  letter with the mask can be put together again from pieces of the mask; of both nothing is
  promised.\<close>

theorem masked_text_clean:
  assumes "mask_text secrets v = Inr t"
  shows "length t \<le> 2000 \<and> (\<forall>s. JStr s \<in> set secrets \<and> foreign s \<longrightarrow> \<not> contains_str s t)"
proof -
  obtain u where t: "t = take 2000 (foldl mask_secret u secrets)"
    using assms by (auto simp: mask_text_def bindE_def split: sum.splits)
  have "\<not> sublist s (foldl mask_secret u secrets)" if "JStr s \<in> set secrets" "foreign s" for s
  proof -
    from that(1) obtain before after where "secrets = before @ JStr s # after" by (auto simp: in_set_conv_decomp)
    moreover have "\<not> sublist s (foldl mask_secret w after)" if "\<not> sublist s w" for w
      using that by (induction after arbitrary: w) (simp_all add: mask_secret_keeps [OF \<open>foreign s\<close>])
    ultimately show ?thesis using mask_secret_clean [OF that(2)] by simp
  qed
  then show ?thesis unfolding contains_sublist t by (auto dest: sublist_order.order_trans [OF _ sublist_take])
qed

lemma masked_text_clean_witness:
  "mask_text [JStr (js ''pw1''), JStr (js ''tok9'')] (JStr (js ''a pw1 tok9 b'')) = Inr (js ''a MASKED MASKED b'')
     \<and> \<not> contains_str (js ''pw1'') (js ''a MASKED MASKED b'')"
proof -
  have m: "mask_text [JStr (js ''pw1''), JStr (js ''tok9'')] (JStr (js ''a pw1 tok9 b'')) = Inr (js ''a MASKED MASKED b'')"
    by code_simp
  moreover have "foreign (js ''pw1'')" by code_simp
  ultimately show ?thesis using masked_text_clean [OF m] by simp
qed

text \<open>A secret of the letters of the mask may appear again.\<close>

lemma mask_brings_back:
  "mask_text [JStr (js ''ASK''), JStr (js ''pw1'')] (JStr (js ''pw1'')) = Inr (js ''MASKED'')"
  by code_simp

section \<open>Addresses\<close>

abbreviation secret_key :: "jsstr \<Rightarrow> bool" where
  "secret_key k \<equiv> rtest secret_key_re k"

lemma set_param_first:
  assumes "k \<notin> fst ` set done"
  shows "set_search_param k v (done @ (k, w) # rest) = done @ (k, v) # filter (\<lambda>p. fst p \<noteq> k) rest"
proof -
  have "dropWhile (\<lambda>p. fst p \<noteq> k) (done @ (k, w) # rest) = (k, w) # rest"
    "takeWhile (\<lambda>p. fst p \<noteq> k) (done @ (k, w) # rest) = done"
    using assms by (auto simp: dropWhile_append takeWhile_append image_iff)
  then show ?thesis by (simp add: set_search_param_def)
qed

lemma mask_params_from:
  assumes "\<forall>p\<in>set ds. secret_key (fst p) \<longrightarrow> snd p = js ''MASKED'' \<and> fst p \<notin> fst ` set rest"
  shows "(\<forall>p\<in>set (mask_params (length ds) (ds @ rest)). secret_key (fst p) \<longrightarrow> snd p = js ''MASKED'')
    \<and> filter (\<lambda>p. \<not> secret_key (fst p)) (mask_params (length ds) (ds @ rest)) = filter (\<lambda>p. \<not> secret_key (fst p)) (ds @ rest)"
  using assms
proof (induction "length rest" arbitrary: ds rest rule: less_induct)
  case less
  show ?case
  proof (cases rest)
    case Nil
    with less.prems show ?thesis by (simp add: mask_params.simps [of "length ds"])
  next
    case (Cons p r)
    obtain k v where p: "p = (k, v)" by (cases p)
    show ?thesis
    proof (cases "secret_key k")
      case True
      have "k \<notin> fst ` set ds" using less.prems True Cons p by auto
      then have "set_search_param k (js ''MASKED'') (ds @ rest) = (ds @ [(k, js ''MASKED'')]) @ filter (\<lambda>p. fst p \<noteq> k) r"
        by (simp add: Cons p set_param_first)
      then have m: "mask_params (length ds) (ds @ rest)
          = mask_params (length (ds @ [(k, js ''MASKED'')])) ((ds @ [(k, js ''MASKED'')]) @ filter (\<lambda>p. fst p \<noteq> k) r)"
        using True by (simp add: mask_params.simps [of "length ds"] Cons p nth_append)
      have "filter (\<lambda>p. \<not> secret_key (fst p)) (filter (\<lambda>p. fst p \<noteq> k) r) = filter (\<lambda>p. \<not> secret_key (fst p)) r"
        using True by (auto simp: filter_filter intro!: filter_cong)
      moreover have "length (filter (\<lambda>p. fst p \<noteq> k) r) < length rest" by (simp add: Cons le_imp_less_Suc)
      ultimately show ?thesis unfolding m using less.hyps [of "filter (\<lambda>p. fst p \<noteq> k) r" "ds @ [(k, js ''MASKED'')]"] less.prems True
        by (auto simp: Cons p)
    next
      case False
      then have m: "mask_params (length ds) (ds @ rest) = mask_params (length (ds @ [p])) ((ds @ [p]) @ r)"
        by (simp add: mask_params.simps [of "length ds"] Cons p nth_append)
      show ?thesis unfolding m using less.hyps [of r "ds @ [p]"] less.prems False by (auto simp: Cons p)
    qed
  qed
qed

text \<open>In an address that is shown every parameter whose name looks secret has the value MASKED, duplicates included, and the other parameters are as they were, in order.\<close>

theorem address_params_masked:
  "(\<forall>(k, v)\<in>set (mask_params 0 ps). secret_key k \<longrightarrow> v = js ''MASKED'')
    \<and> filter (\<lambda>(k, v). \<not> secret_key k) (mask_params 0 ps) = filter (\<lambda>(k, v). \<not> secret_key k) ps"
  using mask_params_from [of "[]" ps] by (auto simp: case_prod_unfold)

lemma address_params_masked_witness:
  "(js ''token'', js ''1'') \<notin> set (mask_params 0 [(js ''token'', js ''0''), (js ''x'', js ''2''), (js ''token'', js ''1'')])"
proof
  let ?ps = "[(js ''token'', js ''0''), (js ''x'', js ''2''), (js ''token'', js ''1'')]"
  assume "(js ''token'', js ''1'') \<in> set (mask_params 0 ?ps)"
  moreover have "secret_key (js ''token'')" by code_simp
  ultimately have "js ''1'' = js ''MASKED''" using address_params_masked [of ?ps] by fast
  then show False by simp
qed

section \<open>Patterns\<close>

lemma rtest_bol: "rtest (Seq Bol r) s \<longleftrightarrow> rmatch r ([], s, []) \<noteq> []"
proof -
  have "rexec_from (Seq Bol r) (c # l) t = None" for c l t
    by (induction t arbitrary: c l) simp_all
  then show ?thesis by (cases s) (auto simp: rtest_def split: list.splits)
qed

lemma rtest_whole:
  assumes "plain r"
  shows "rtest (Seq Bol (Seq r Eol)) s \<longleftrightarrow> s \<in> lang r"
proof -
  have "rmatch (Seq r Eol) ([], s, []) \<noteq> [] \<longleftrightarrow> (\<exists>l' cs'. (l', [], cs') \<in> set (rmatch r ([], s, [])))"
    by (fastforce simp: concat_eq_Nil_conv split: prod.splits if_splits)
  moreover have "(\<exists>l' cs'. (l', [], cs') \<in> set (rmatch r ([], s, []))) \<longleftrightarrow> s \<in> lang r"
    by (simp add: rmatch_iff_lang [OF assms])
  ultimately show ?thesis by (simp add: rtest_bol)
qed

fun double_stars :: "jsstr \<Rightarrow> nat" where
  "double_stars (c # d # s) = (if c = 42 \<and> d = 42 then double_stars s + 1 else double_stars (d # s))"
| "double_stars _ = 0"

lemma lang_segment: "w \<in> lang segment_re \<Longrightarrow> count_list w 47 = 0"
proof -
  assume "w \<in> lang segment_re"
  moreover have "{[c] | c. in_cls True [(47, 47)] c} = {[c] | c. c \<noteq> 47}" by (auto simp: in_cls_def)
  ultimately have "w \<in> star_lang {[c] | c. c \<noteq> 47}" by (simp add: segment_re_def)
  then have "47 \<notin> set w" unfolding star_lang_Cls by blast
  then show ?thesis by (simp add: count_list_0_iff)
qed

lemma lang_dot: "w \<in> lang dot_re \<Longrightarrow> count_list w 47 \<le> 1"
  by (auto simp: dot_re_def)

lemma pattern_slashes_lang: "w \<in> lang (pattern_re p) \<Longrightarrow> count_list w 47 \<le> count_list p 47 + double_stars p"
proof (induction p arbitrary: w rule: pattern_re.induct)
  case (2 c s)
  show ?case
  proof (cases "c = 42")
    case False
    with "2.prems" obtain u where "w = c # u" "u \<in> lang (pattern_re s)" by auto
    moreover have "double_stars (c # s) = double_stars s" using False by (cases s) simp_all
    ultimately show ?thesis using "2.IH"(1) [of u] False by auto
  next
    case star: True
    show ?thesis
    proof (cases s)
      case Nil
      with star "2.prems" lang_segment show ?thesis by simp
    next
      case (Cons d t)
      show ?thesis
      proof (cases "d = 42")
        case True
        with star Cons "2.prems" obtain a b u where "w = a @ b @ u" "a \<in> lang dot_re" "b \<in> lang segment_re" "u \<in> lang (pattern_re t)"
          by auto
        with "2.IH"(2) [of d t u] star Cons True lang_segment [of b] lang_dot [of a] show ?thesis by simp
      next
        case False
        with star Cons "2.prems" obtain b u where "w = b @ u" "b \<in> lang segment_re" "u \<in> lang (pattern_re s)"
          by auto
        with "2.IH"(3) [of d t u] star Cons False lang_segment [of b] show ?thesis by simp
      qed
    qed
  qed
qed simp

lemma plain_pattern: "plain (pattern_re p)"
  by (induction p rule: pattern_re.induct) (auto simp: segment_re_def split: list.splits)

text \<open>An address that matches a pattern has at most as many slashes as the pattern and one more for each pair of stars: two stars do not stand for any path.\<close>

theorem pattern_slashes:
  "match_pattern v p \<Longrightarrow> count_list v 47 \<le> count_list p 47 + double_stars p"
  using pattern_slashes_lang by (simp add: match_pattern_def rtest_whole plain_pattern)

lemma pattern_slashes_witness:
  "match_pattern (js ''a/c'') (js ''**/c'') \<and> \<not> match_pattern (js ''https://a/b/c'') (js ''**/c'')"
proof -
  have "count_list (js ''https://a/b/c'') 47 = 4" "count_list (js ''**/c'') 47 + double_stars (js ''**/c'') = 2"
    by (simp_all add: js_def)
  then have "\<not> match_pattern (js ''https://a/b/c'') (js ''**/c'')" using pattern_slashes by fastforce
  moreover have "match_pattern (js ''a/c'') (js ''**/c'')" by code_simp
  ultimately show ?thesis by simp
qed

section \<open>Categories\<close>

text \<open>The errors of the check of a target are never policy violations: their texts name a navigation or a browser first.\<close>

lemma policy_violation_hidden:
  "failure_category (js ''Navigation resolved to a private target blocked by policy.'') = ''NAVIGATION_FAILED''"
  "failure_category (js ''Navigation target is outside the monitor'' @ [39] @ js ''s allowed origins.'') = ''NAVIGATION_FAILED''"
  "failure_category (js ''Only HTTP and HTTPS browser targets are allowed.'') = ''BROWSER_CRASH''"
  "failure_category (js ''Unsupported browser step type X.'') = ''BROWSER_CRASH''"
  by code_simp+

text \<open>Of a credential with a scheme only the scheme is masked.\<close>

lemma scheme_masked_only:
  "safe_text (js ''authorization: Bearer abc'') = js ''authorization=MASKED abc''"
  by code_simp

end
