(* ===== verification/Agent_State.thy ===== *)
theory Agent_State
  imports Agent_Checks Agent_Targets
begin

text \<open>
  The state of one run of the browser agent and the calls it makes, from
  \<open>services/browser-agent/server.mjs\<close> and \<open>artifact-transfer.mjs\<close>. The browser answers a call by the
  calls made before it; the events it reports meanwhile are handled before the answer. Clocks and
  random identifiers are left out.
\<close>

section \<open>State\<close>

datatype locator = Locator jsval jsstr jsval jsval bool \<comment> \<open>frame, strategy, value, name, exact\<close>

datatype page_call =
    CreateContext jsval
  | NewPage
  | CloseContext
  | Goto jsstr jsval jsnum \<comment> \<open>target, what to wait for, timeout\<close>
  | Travel jsstr jsnum \<comment> \<open>\<open>reload\<close>, \<open>goBack\<close>, \<open>goForward\<close>\<close>
  | Act jsstr locator jsval jsnum \<comment> \<open>an action on a locator, with its argument and timeout\<close>
  | ScrollBy jsval
  | Pause jsnum
  | Read jsstr "locator option" \<comment> \<open>what a locator or the page shows\<close>
  | WaitLoad
  | Metrics
  | MarkSensitive "jsstr list"
  | Screenshot "jsstr list" bool \<comment> \<open>extra masks, full page\<close>
  | PutArtifact jsstr jsstr
  | GetArtifact jsstr

datatype browser_event =
    ConsoleMessage jsstr jsstr jsstr \<comment> \<open>type, text, address of the page\<close>
  | PageError jsstr jsstr
  | RequestSent jsstr \<comment> \<open>resource type\<close>
  | RequestFailed jsstr jsstr jsstr jsval \<comment> \<open>method, address, resource type, error text\<close>
  | ResponseReceived jsstr jsstr jsstr nat jsval jsval \<comment> \<open>method, address, resource type, status, the two headers\<close>
  | BodyRead nat "jsval option" \<comment> \<open>which of the bodies being read, and its JSON unless it has none\<close>

record console_event =
  co_type :: jsstr
  co_text :: jsstr
  co_url :: jsstr

record network_failure =
  nf_method :: jsstr
  nf_url :: jsstr
  nf_resource :: jsstr
  nf_cause :: "nat + jsval" \<comment> \<open>a status or the text of an error\<close>

record network =
  nw_requests :: nat
  nw_responses :: nat
  nw_failed_requests :: nat
  nw_http_errors :: nat
  nw_transferred :: jsnum
  nw_by_type :: "(jsstr \<times> nat) list"
  nw_failures :: "network_failure list"

record awaited_response =
  ca_url :: jsstr
  ca_status :: nat

record captured_response = awaited_response +
  ca_body :: jsval

datatype artifact_content = Inline jsstr | Uploaded jsval jsstr

record artifact =
  ar_kind :: jsstr
  ar_checkpoint :: jsval
  ar_size :: nat
  ar_content :: artifact_content

record uploader =
  up_slots :: "jsval list"
  up_next :: nat
  up_failures :: nat
  up_inline :: nat

record agent_event =
  ev_type :: jsstr
  ev_message :: jsval
  ev_step :: jsval
  ev_category :: jsval

record check_result =
  cr_id :: jsval
  cr_name :: jsval
  cr_kind :: jsval
  cr_gate :: jsval
  cr_passed :: bool
  cr_expected :: jsval
  cr_observed :: jsval
  cr_error :: jsstr

record step_result =
  sr_step :: jsval
  sr_order :: nat
  sr_name :: jsval
  sr_type :: jsval
  sr_locator :: jsval
  sr_checks :: "check_result list"
  sr_category :: jsstr \<comment> \<open>empty for a step that succeeded\<close>
  sr_reason :: jsstr

record run_state =
  rs_calls :: "page_call list"
  rs_network :: network
  rs_console :: "console_event list"
  rs_reading :: "awaited_response list" \<comment> \<open>the bodies that were asked for and have not arrived\<close>
  rs_captured :: "captured_response list"
  rs_artifacts :: "artifact list"
  rs_visual :: "jsval list"
  rs_graph :: "jsval list"
  rs_uploader :: uploader
  rs_events :: "agent_event list"
  rs_checks :: "check_result list" \<comment> \<open>of the step that runs\<close>
  rs_steps :: "step_result list"
  rs_warnings :: nat
  rs_context :: bool
  rs_page :: bool

text \<open>What the run takes from its surroundings: the policy and resolver, the platform, and the browser.\<close>

type_synonym page = "page_call list \<Rightarrow> page_call \<Rightarrow> browser_event list \<times> (exn + jsval)"

record 'u agent_env =
  ae_policy :: target_policy
  ae_host :: target_host
  ae_regexp :: regexps
  ae_engine :: "exn \<Rightarrow> jsstr"
  ae_codec :: "'u url_codec"
  ae_inherits :: "jsval \<Rightarrow> jsstr \<Rightarrow> bool"
  ae_read_png :: "jsstr \<Rightarrow> png option"
  ae_pixelmatch :: "jsstr \<Rightarrow> jsstr \<Rightarrow> (nat \<times> jsstr) option"
  ae_page :: page

text \<open>The input of a run: the definition as JSON, variables, secrets, baselines.\<close>

record run_input =
  ri_run :: jsval
  ri_monitor :: jsval
  ri_definition :: jsval
  ri_variables :: "(jsstr \<times> jsstr) list"
  ri_secrets :: "jsval list"
  ri_baselines :: jsval
  ri_origins :: "jsstr list"
  ri_slots :: jsval
  ri_storage :: jsval

section \<open>Computations\<close>

type_synonym 'a agent = "run_state \<Rightarrow> (exn + 'a) \<times> run_state"

definition retM :: "'a \<Rightarrow> 'a agent" where
  "retM a s = (Inr a, s)"

definition raiseM :: "exn \<Rightarrow> 'a agent" where
  "raiseM e s = (Inl e, s)"

definition bindM :: "'a agent \<Rightarrow> ('a \<Rightarrow> 'b agent) \<Rightarrow> 'b agent" where
  "bindM m f s = (case m s of (Inl e, s') \<Rightarrow> (Inl e, s') | (Inr a, s') \<Rightarrow> f a s')"

definition tryM :: "'a agent \<Rightarrow> (exn \<Rightarrow> 'a agent) \<Rightarrow> 'a agent" where
  "tryM m h s = (case m s of (Inl e, s') \<Rightarrow> h e s' | (Inr a, s') \<Rightarrow> (Inr a, s'))"

definition liftM :: "exn + 'a \<Rightarrow> 'a agent" where
  "liftM r = (case r of Inl e \<Rightarrow> raiseM e | Inr a \<Rightarrow> retM a)"

definition getM :: "(run_state \<Rightarrow> 'a) \<Rightarrow> 'a agent" where
  "getM f s = (Inr (f s), s)"

definition updM :: "(run_state \<Rightarrow> run_state) \<Rightarrow> unit agent" where
  "updM f s = (Inr (), f s)"

definition thenM :: "'a agent \<Rightarrow> 'b agent \<Rightarrow> 'b agent" where
  "thenM m n = bindM m (\<lambda>_. n)"

fun mapM_list :: "('a \<Rightarrow> 'b agent) \<Rightarrow> 'a list \<Rightarrow> 'b list agent" where
  "mapM_list f [] = retM []"
| "mapM_list f (x # xs) = bindM (f x) (\<lambda>y. bindM (mapM_list f xs) (\<lambda>ys. retM (y # ys)))"

definition errorM :: "jsstr \<Rightarrow> 'a agent" where
  "errorM m = raiseM (ErrorMsg m)"

definition fieldM :: "jsval \<Rightarrow> string \<Rightarrow> jsval agent" where \<comment> \<open>\<open>v.k\<close>\<close>
  "fieldM v k = (if nullish v then raiseM TypeError else retM (fld v k))"

definition numberM :: "jsval \<Rightarrow> jsnum agent" where
  "numberM v = liftM (to_number v)"

section \<open>Events of the browser\<close>

definition count_type :: "jsstr \<Rightarrow> (jsstr \<times> nat) list \<Rightarrow> (jsstr \<times> nat) list" where
  "count_type t ps = obj_set t (case map_of ps t of Some n \<Rightarrow> n + 1 | None \<Rightarrow> 1) ps"

definition masked_text :: "jsval list \<Rightarrow> jsstr \<Rightarrow> jsstr" where
  "masked_text secrets t = (case mask_text secrets (JStr t) of Inr s \<Rightarrow> s | Inl _ \<Rightarrow> [])"

definition header_number :: "jsval \<Rightarrow> jsnum" where \<comment> \<open>\<open>Number(header || 0)\<close>, a header being a text or \<open>null\<close>\<close>
  "header_number v = (case to_number (or_else v (JNum (Fin 0))) of Inr x \<Rightarrow> x | Inl _ \<Rightarrow> NaN)"

definition num_add_to :: "jsnum \<Rightarrow> jsnum \<Rightarrow> jsnum" where \<comment> \<open>adding a finite number\<close>
  "num_add_to x y = (case (x, y) of (Fin a, Fin b) \<Rightarrow> to_double (a + b) | _ \<Rightarrow> x)"

definition add_failure :: "network_failure \<Rightarrow> network \<Rightarrow> network" where
  "add_failure f n = n\<lparr>nw_failures := nw_failures n @ [f]\<rparr>"

definition on_response ::
    "'u agent_env \<Rightarrow> jsstr \<Rightarrow> jsstr \<Rightarrow> jsstr \<Rightarrow> nat \<Rightarrow> jsval \<Rightarrow> jsval \<Rightarrow> run_state \<Rightarrow> run_state" where
  "on_response env verb url resource status len kind s =
     (let n = rs_network s;
          n1 = n\<lparr>nw_responses := nw_responses n + 1\<rparr>;
          n2 = (if 400 \<le> status
                then add_failure \<lparr>nf_method = verb, nf_url = safe_url (ae_codec env) url, nf_resource = resource, nf_cause = Inl status\<rparr>
                       (n1\<lparr>nw_http_errors := nw_http_errors n1 + 1\<rparr>)
                else n1);
          size = header_number len;
          n3 = n2\<lparr>nw_transferred := num_add_to (nw_transferred n2) size\<rparr>;
          json = (case kind of JStr t \<Rightarrow> contains_str (js ''json'') t | _ \<Rightarrow> False)
      in s\<lparr>rs_network := n3,
           rs_reading :=
             (if json \<and> length (rs_captured s) < 25 \<and> num_le size (Fin (2 * 1024 * 1024))
              then rs_reading s @ [\<lparr>ca_url = url, ca_status = status\<rparr>] else rs_reading s)\<rparr>)"

definition on_body :: "nat \<Rightarrow> jsval option \<Rightarrow> run_state \<Rightarrow> run_state" where
  "on_body i body s =
     (if length (rs_reading s) \<le> i then s
      else
        let r = rs_reading s ! i in
        s\<lparr>rs_reading := take i (rs_reading s) @ drop (Suc i) (rs_reading s),
          rs_captured :=
            (case body of
               Some v \<Rightarrow> rs_captured s @ [\<lparr>ca_url = ca_url r, ca_status = ca_status r, ca_body = v\<rparr>]
             | None \<Rightarrow> rs_captured s)\<rparr>)"

definition on_event :: "'u agent_env \<Rightarrow> jsval list \<Rightarrow> browser_event \<Rightarrow> run_state \<Rightarrow> run_state" where
  "on_event env secrets e s =
     (let n = rs_network s in
      case e of
        ConsoleMessage t text url \<Rightarrow>
          if t \<notin> {js ''error'', js ''warning''} then s
          else s\<lparr>rs_console := rs_console s @ [\<lparr>co_type = t, co_text = masked_text secrets text, co_url = safe_url (ae_codec env) url\<rparr>]\<rparr>
      | PageError text url \<Rightarrow>
          s\<lparr>rs_console := rs_console s
              @ [\<lparr>co_type = js ''pageerror'', co_text = masked_text secrets text, co_url = safe_url (ae_codec env) url\<rparr>]\<rparr>
      | RequestSent resource \<Rightarrow>
          s\<lparr>rs_network := n\<lparr>nw_requests := nw_requests n + 1, nw_by_type := count_type resource (nw_by_type n)\<rparr>\<rparr>
      | RequestFailed verb url resource cause \<Rightarrow>
          s\<lparr>rs_network := add_failure
              \<lparr>nf_method = verb, nf_url = safe_url (ae_codec env) url, nf_resource = resource,
               nf_cause = Inr (or_else cause (JStr (js ''Request failed'')))\<rparr>
              (n\<lparr>nw_failed_requests := nw_failed_requests n + 1\<rparr>)\<rparr>
      | ResponseReceived verb url resource status len kind \<Rightarrow>
          on_response env verb url resource status len kind s
      | BodyRead i body \<Rightarrow> on_body i body s)"

definition callM :: "'u agent_env \<Rightarrow> jsval list \<Rightarrow> page_call \<Rightarrow> jsval agent" where
  "callM env secrets c s =
     (case ae_page env (rs_calls s) c of
        (events, r) \<Rightarrow> (r, fold (on_event env secrets) events (s\<lparr>rs_calls := rs_calls s @ [c]\<rparr>)))"

definition agent_event_of :: "string \<Rightarrow> jsval \<Rightarrow> jsval \<Rightarrow> jsval \<Rightarrow> agent_event" where
  "agent_event_of type message step category =
     \<lparr>ev_type = js type, ev_message = message, ev_step = step, ev_category = category\<rparr>"

definition emit_event :: "string \<Rightarrow> jsval \<Rightarrow> jsval \<Rightarrow> jsval \<Rightarrow> unit agent" where \<comment> \<open>\<open>events.push(event(\<dots>))\<close>\<close>
  "emit_event type message step category =
     updM (\<lambda>s. s\<lparr>rs_events := rs_events s @ [agent_event_of type message step category]\<rparr>)"

definition emitM :: "string \<Rightarrow> jsstr \<Rightarrow> jsval \<Rightarrow> jsstr \<Rightarrow> unit agent" where
  "emitM type message step category = emit_event type (JStr message) step (JStr category)"

section \<open>Artifacts\<close>

definition new_uploader :: "jsval \<Rightarrow> uploader" where
  "new_uploader slots =
     \<lparr>up_slots = (case slots of JArr xs \<Rightarrow> xs | _ \<Rightarrow> []), up_next = 0, up_failures = 0, up_inline = 0\<rparr>"

definition update_uploader :: "(uploader \<Rightarrow> uploader) \<Rightarrow> unit agent" where
  "update_uploader f = updM (\<lambda>s. s\<lparr>rs_uploader := f (rs_uploader s)\<rparr>)"

definition upload_failed :: "artifact option agent" where
  "upload_failed = thenM (update_uploader (\<lambda>u. u\<lparr>up_failures := up_failures u + 1\<rparr>)) (retM None)"

definition max_inline :: nat where
  "max_inline = 8 * 1024 * 1024"

definition max_artifact :: nat where
  "max_artifact = 10 * 1024 * 1024"

definition http_url :: "'u agent_env \<Rightarrow> jsval \<Rightarrow> jsstr \<Rightarrow> jsstr agent" where
  "http_url env v message =
     bindM (liftM (to_string v)) (\<lambda>text.
     case th_url (ae_host env) text of
       None \<Rightarrow> raiseM TypeError
     | Some u \<Rightarrow> if wu_protocol u \<in> {js ''http:'', js ''https:''} then retM text else errorM message)"

definition put_artifact :: "'u agent_env \<Rightarrow> jsval list \<Rightarrow> jsval \<Rightarrow> jsstr \<Rightarrow> jsstr agent" where
  "put_artifact env secrets url bytes =
     bindM (http_url env url (js ''Artifact upload URL is invalid.'')) (\<lambda>target.
     bindM (callM env secrets (PutArtifact target bytes)) (\<lambda>response.
     if \<not> truthy (fld response ''ok'')
     then bindM (liftM (to_string (fld response ''status''))) (\<lambda>status.
       errorM (js ''Artifact upload returned '' @ status @ js ''.''))
     else bindM (liftM (to_string (or_else (fld response ''etag'') (JStr [])))) (\<lambda>etag.
       retM (filter (\<lambda>c. c \<noteq> 34) etag))))"

definition upload :: "'u agent_env \<Rightarrow> jsval list \<Rightarrow> string \<Rightarrow> jsval \<Rightarrow> jsstr \<Rightarrow> artifact option agent" where
  "upload env secrets kind checkpoint bytes =
     (let described = (\<lambda>c. \<lparr>ar_kind = js kind, ar_checkpoint = checkpoint, ar_size = length bytes, ar_content = c\<rparr>) in
      if bytes = [] then upload_failed
      else
        bindM (getM rs_uploader) (\<lambda>u.
        if up_slots u = [] then
          if max_inline < up_inline u + length bytes then upload_failed
          else thenM (update_uploader (\<lambda>u. u\<lparr>up_inline := up_inline u + length bytes\<rparr>))
                 (retM (Some (described (Inline bytes))))
        else
          thenM (update_uploader (\<lambda>u. u\<lparr>up_next := up_next u + 1\<rparr>))
            (let slot = (if up_next u < length (up_slots u) then up_slots u ! up_next u else JUndef) in
             if \<not> truthy (fld slot ''id'') \<or> \<not> truthy (fld slot ''url'') then upload_failed
             else
               bindM (numberM (or_else (fld slot ''maxBytes'') (JNum (Fin 0)))) (\<lambda>limit.
               if num_less limit (nnum (length bytes)) then upload_failed
               else tryM
                 (bindM (put_artifact env secrets (fld slot ''url'') bytes) (\<lambda>etag.
                  retM (Some (described (Uploaded (fld slot ''id'') etag)))))
                 (\<lambda>_. upload_failed)))))"

definition download :: "'u agent_env \<Rightarrow> jsval list \<Rightarrow> jsval \<Rightarrow> jsstr agent" where \<comment> \<open>the baseline is an object\<close>
  "download env secrets baseline =
     bindM (numberM (or_else (fld baseline ''maxBytes'') (JNum (Fin 0)))) (\<lambda>declared.
     let limit = num_min (num_max declared (Fin 1)) (nnum max_artifact) in
     if \<not> truthy (fld baseline ''contentUrl'')
     then errorM (js ''Approved visual baseline artifact is unavailable.'')
     else
       bindM (http_url env (fld baseline ''contentUrl'') (js ''Approved visual baseline artifact URL is invalid.'')) (\<lambda>target.
       bindM (callM env secrets (GetArtifact target)) (\<lambda>response.
       if \<not> truthy (fld response ''ok'')
       then errorM (js ''Approved visual baseline artifact could not be loaded.'')
       else if num_less limit (header_number (fld response ''contentLength''))
       then errorM (js ''Approved visual baseline artifact exceeds its size limit.'')
       else
         (case fld response ''body'' of
            JStr bytes \<Rightarrow>
              if bytes = [] \<or> num_less limit (nnum (length bytes))
              then errorM (js ''Approved visual baseline artifact is empty or too large.'')
              else retM bytes
          | _ \<Rightarrow> raiseM TypeError))))"

definition secret_texts :: "jsval list \<Rightarrow> jsstr list" where
  "secret_texts secrets =
     take 50 (List.map_filter (\<lambda>v. case v of JStr s \<Rightarrow> if 3 \<le> length s then Some s else None | _ \<Rightarrow> None) secrets)"

definition mask_selectors :: "jsval list \<Rightarrow> jsstr list" where
  "mask_selectors selectors =
     List.map_filter (\<lambda>v. case v of JStr s \<Rightarrow> if trim s \<noteq> [] then Some s else None | _ \<Rightarrow> None) selectors"

definition capture_artifact ::
    "'u agent_env \<Rightarrow> jsval list \<Rightarrow> string \<Rightarrow> jsval \<Rightarrow> jsval list \<Rightarrow> bool \<Rightarrow> (artifact \<times> jsstr) option agent" where
  "capture_artifact env secrets kind checkpoint selectors full_page =
     thenM (if secret_texts secrets = [] then retM JUndef else callM env secrets (MarkSensitive (secret_texts secrets)))
       (bindM (callM env secrets (Screenshot (mask_selectors selectors) full_page)) (\<lambda>shot.
        case shot of
          JStr bytes \<Rightarrow>
            if max_artifact < length bytes then retM None
            else bindM (upload env secrets kind checkpoint bytes) (\<lambda>payload.
              retM (map_option (\<lambda>p. (p, bytes)) payload))
        | _ \<Rightarrow> raiseM IllTyped))"

end
