(* ===== verification/Agent_Steps.thy ===== *)
theory Agent_Steps
  imports Agent_State
begin

text \<open>
  One step of a browser journey, from \<open>services/browser-agent/server.mjs\<close>: the action, its checks,
  the reading of a graph and the screenshot, and what the step reports when one of them fails.
\<close>

section \<open>Locators\<close>

definition build_locator :: "jsval \<Rightarrow> exn + locator" where
  "build_locator l =
     bindE (to_string (or_else (fld l ''strategy'') (JStr []))) (\<lambda>text.
     let strategy = to_upper text;
         frame = (if truthy (fld l ''frame'') then fld l ''frame'' else JUndef);
         v = fld l ''value''; exact = truthy (fld l ''exact'')
     in if strategy = js ''ROLE'' then Inr (Locator frame strategy v (or_else (fld l ''name'') JUndef) exact)
        else if strategy \<in> set (map js [''LABEL'', ''TEXT'', ''PLACEHOLDER'']) then Inr (Locator frame strategy v JUndef exact)
        else if strategy \<in> set (map js [''TEST_ID'', ''CSS'']) then Inr (Locator frame strategy v JUndef False)
        else if strategy = js ''XPATH'' then
          bindE (to_string v) (\<lambda>s. Inr (Locator frame (js ''CSS'') (JStr (js ''xpath='' @ s)) JUndef False))
        else bindE (to_string (fld l ''strategy'')) (\<lambda>s.
          Inl (ErrorMsg (js ''Unsupported locator strategy '' @ s @ js ''.''))))"

definition locator_of :: "jsval \<Rightarrow> locator option agent" where \<comment> \<open>\<open>v.locator ? buildLocator(page, v.locator) : null\<close>\<close>
  "locator_of v =
     bindM (fieldM v ''locator'') (\<lambda>l.
     if truthy l then bindM (liftM (build_locator l)) (\<lambda>x. retM (Some x)) else retM None)"

definition on_locator :: "locator option \<Rightarrow> (locator \<Rightarrow> 'a agent) \<Rightarrow> 'a agent" where \<comment> \<open>a call on \<open>null\<close> raises\<close>
  "on_locator l f = (case l of Some x \<Rightarrow> f x | None \<Rightarrow> raiseM TypeError)"

section \<open>Actions\<close>

definition step_timeout :: "jsval \<Rightarrow> exn + jsnum" where
  "step_timeout step =
     bindE (to_number (or_else (fld step ''timeoutMs'') (JNum (Fin 15000)))) (\<lambda>x.
     Inr (num_min (num_max x (Fin 100)) (Fin 120000)))"

text \<open>Actions with nothing but a locator, and the method each calls.\<close>

definition plain_actions :: "(string \<times> string) list" where
  "plain_actions =
     [(''CLICK'', ''click''), (''DOUBLE_CLICK'', ''dblclick''), (''CLEAR'', ''clear''), (''CHECK'', ''check''),
      (''UNCHECK'', ''uncheck''), (''HOVER'', ''hover''), (''FOCUS'', ''focus'')]"

definition travel_actions :: "(string \<times> string) list" where
  "travel_actions = [(''RELOAD'', ''reload''), (''GO_BACK'', ''goBack''), (''GO_FORWARD'', ''goForward'')]"

definition journey_action ::
    "'u agent_env \<Rightarrow> run_input \<Rightarrow> jsval \<Rightarrow> locator option \<Rightarrow> jsnum \<Rightarrow> unit agent" where
  "journey_action env input step l timeout =
     (let call = (\<lambda>c. thenM (callM env (ri_secrets input) c) (retM ()));
          is = (\<lambda>k. fld step ''type'' = JStr (js k));
          v = fld step ''value'';
          rendered = (\<lambda>v. liftM (render (ri_variables input) v));
          act = (\<lambda>name v. on_locator l (\<lambda>x. call (Act (js name) x v timeout)))
      in
      case find (\<lambda>p. is (fst p)) travel_actions of
        Some (_, name) \<Rightarrow> call (Travel (js name) timeout)
      | None \<Rightarrow>
      case find (\<lambda>p. is (fst p)) plain_actions of
        Some (_, name) \<Rightarrow> act name JUndef
      | None \<Rightarrow>
      if is ''NAVIGATE'' then
        bindM (rendered (or_else (fld step ''url'') v)) (\<lambda>target.
        thenM (liftM (validate_target (ae_policy env) (ae_host env) target (ri_origins input)))
          (call (Goto target (or_else (fld step ''waitUntil'') (JStr (js ''domcontentloaded''))) timeout)))
      else if is ''FILL'' then on_locator l (\<lambda>_. bindM (rendered v) (\<lambda>s. act ''fill'' (JStr s)))
      else if is ''SELECT'' then on_locator l (\<lambda>_. bindM (rendered v) (\<lambda>s. act ''selectOption'' (JStr s)))
      else if is ''PRESS'' then act ''press'' (or_else (fld step ''key'') v)
      else if is ''SCROLL'' then
        (case l of Some _ \<Rightarrow> act ''scrollIntoViewIfNeeded'' JUndef | None \<Rightarrow> call (ScrollBy v))
      else if is ''WAIT'' then
        (case l of
           Some _ \<Rightarrow> act ''waitFor'' (JStr (js ''visible''))
         | None \<Rightarrow> bindM (numberM (or_else v (JNum (Fin 500)))) (\<lambda>x. call (Pause (num_min x timeout))))
      else if list_ex is [''EXTRACT'', ''ASSERT'', ''SCREENSHOT'', ''GRAPH_CHECK''] then retM ()
      else bindM (liftM (to_string (fld step ''type''))) (\<lambda>s.
        errorM (js ''Unsupported browser step type '' @ s @ js ''.'')))"

section \<open>Checks\<close>

definition console_errors :: "run_state \<Rightarrow> nat" where
  "console_errors s = length (filter (\<lambda>c. co_type c \<in> {js ''error'', js ''pageerror''}) (rs_console s))"

text \<open>What a check observes, and whether it holds.\<close>

definition check_observed :: "'u agent_env \<Rightarrow> run_input \<Rightarrow> jsval \<Rightarrow> locator option \<Rightarrow> (jsval \<times> bool) agent" where
  "check_observed env input check l =
     (let read = (\<lambda>name x. callM env (ri_secrets input) (Read (js name) x));
          is = (\<lambda>k. fld check ''kind'' = JStr (js k));
          seen = (\<lambda>name. on_locator l (\<lambda>x. bindM (read name (Some x)) (\<lambda>v. retM (v, v = JBool True))));
          compared = (\<lambda>v expected operator.
            bindM (liftM (compare_text (ae_regexp env) v expected operator)) (\<lambda>b. retM (v, b)));
          text = (\<lambda>v. bindM (liftM (render (ri_variables input) (fld check ''expected''))) (\<lambda>w.
            compared v (JStr w) (fld check ''operator'')));
          measured = (\<lambda>x v. bindM (numberM (fld check ''threshold'')) (\<lambda>t.
            retM (v, compare_number x t (fld check ''operator''))))
      in
      if is ''ELEMENT_VISIBLE'' then seen ''isVisible''
      else if is ''ELEMENT_HIDDEN'' then seen ''isHidden''
      else if is ''ELEMENT_ENABLED'' then seen ''isEnabled''
      else if is ''TEXT'' then on_locator l (\<lambda>x. bindM (read ''innerText'' (Some x)) text)
      else if is ''COUNT'' then
        on_locator l (\<lambda>x. bindM (read ''count'' (Some x)) (\<lambda>v.
          measured (case v of JNum n \<Rightarrow> n | _ \<Rightarrow> NaN) v))
      else if is ''URL'' then bindM (read ''url'' None) text
      else if is ''TITLE'' then bindM (read ''title'' None) text
      else if is ''NO_JS_ERRORS'' then bindM (getM console_errors) (\<lambda>n. retM (JNum (nnum n), n = 0))
      else if is ''NO_FAILED_REQUESTS'' then
        bindM (getM (\<lambda>s. nw_failed_requests (rs_network s))) (\<lambda>n. retM (JNum (nnum n), n = 0))
      else if is ''ACCESSIBILITY_SNAPSHOT'' then
        bindM (read ''ariaSnapshot'' l) (\<lambda>v.
          compared v (or_else (fld check ''expected'') (JStr [])) (or_else (fld check ''operator'') (JStr (js ''CONTAINS''))))
      else if is ''PERFORMANCE_BUDGET'' then
        bindM (callM env (ri_secrets input) Metrics) (\<lambda>metrics.
        bindM (liftM (to_string (fld check ''expected''))) (\<lambda>k.
        if nullish metrics then raiseM TypeError
        else bindM (numberM (or_else (fld_str metrics k) (JNum (Fin 0)))) (\<lambda>x. measured x (JNum x))))
      else bindM (liftM (to_string (fld check ''kind''))) (\<lambda>s.
        errorM (js ''Unsupported checkpoint kind '' @ s @ js ''.'')))"

definition check_report :: "jsval \<Rightarrow> bool \<Rightarrow> jsval \<Rightarrow> jsval \<Rightarrow> jsstr \<Rightarrow> check_result" where
  "check_report check passed expected observed message =
     \<lparr>cr_id = fld check ''id'', cr_name = fld check ''name'', cr_kind = fld check ''kind'',
      cr_gate = or_else (fld check ''gateMode'') (JStr (js ''BLOCKING'')), cr_passed = passed,
      cr_expected = expected, cr_observed = observed, cr_error = message\<rparr>"

definition evaluate_check :: "'u agent_env \<Rightarrow> run_input \<Rightarrow> jsval \<Rightarrow> check_result agent" where
  "evaluate_check env input check =
     bindM (locator_of check) (\<lambda>l.
     tryM
       (bindM (check_observed env input check l) (\<lambda>(observed, passed).
        bindM (liftM (mask_value (ri_secrets input) observed)) (\<lambda>shown.
        bindM (if passed then retM []
               else bindM (liftM (to_string (or_else (fld check ''name'') (fld check ''kind'')))) (\<lambda>n.
                 retM (n @ js '' did not meet its expected condition.''))) (\<lambda>message.
        retM (check_report check passed
          (if fld check ''kind'' = JStr (js ''PERFORMANCE_BUDGET'') then fld check ''threshold'' else fld check ''expected'')
          shown message)))))
       (\<lambda>e. retM (check_report check False (or_else (fld check ''expected'') (fld check ''threshold'')) JUndef
          (safe_message (ae_engine env) e))))"

text \<open>The enabled checks of a step, in order; what was reported stays when a later one raises.\<close>

definition report_check :: "check_result \<Rightarrow> unit agent" where
  "report_check r = updM (\<lambda>s. s\<lparr>rs_checks := rs_checks s @ [r]\<rparr>)"

fun run_checks :: "'u agent_env \<Rightarrow> run_input \<Rightarrow> jsval list \<Rightarrow> unit agent" where
  "run_checks env input [] = retM ()"
| "run_checks env input (c # cs) =
     bindM (fieldM c ''enabled'') (\<lambda>enabled.
     thenM (if truthy enabled then bindM (evaluate_check env input c) report_check else retM ())
       (run_checks env input cs))"

section \<open>Graphs\<close>

fun last_matching :: "(jsstr \<Rightarrow> exn + bool) \<Rightarrow> captured_response list \<Rightarrow> exn + captured_response option" where
  "last_matching p [] = Inr None"
| "last_matching p (r # rs) = bindE (p (ca_url r)) (\<lambda>b. if b then Inr (Some r) else last_matching p rs)"

definition url_matches :: "jsval \<Rightarrow> jsstr \<Rightarrow> exn + bool" where
  "url_matches pattern url =
     (if \<not> truthy pattern then Inr False
      else case pattern of JStr p \<Rightarrow> Inr (match_pattern url p) | _ \<Rightarrow> Inl TypeError)"

text \<open>The value of a graph and whether its source was there; the value is not read otherwise.\<close>

definition graph_observed :: "'u agent_env \<Rightarrow> run_input \<Rightarrow> jsval \<Rightarrow> jsval \<Rightarrow> (jsval \<times> bool) agent" where
  "graph_observed env input step graph =
     (if fld graph ''source'' = JStr (js ''NETWORK_JSON'') then
        bindM (getM rs_captured) (\<lambda>rs.
        bindM (liftM (last_matching (url_matches (fld graph ''responseUrlPattern'')) (rev rs))) (\<lambda>found.
        case found of
          None \<Rightarrow> retM (JUndef, False)
        | Some r \<Rightarrow> bindM (liftM (get_path (ae_inherits env) (ca_body r) (fld graph ''valuePath''))) (\<lambda>v. retM (v, True))))
      else
        bindM (locator_of step) (\<lambda>l.
        case l of
          None \<Rightarrow> retM (JUndef, False)
        | Some x \<Rightarrow>
            bindM (callM env (ri_secrets input)
                (Read (js (if fld graph ''source'' = JStr (js ''ACCESSIBILITY'') then ''aria-valuenow'' else ''innerText'')) (Some x))) (\<lambda>raw.
            bindM (liftM (parse_numeric raw)) (\<lambda>n. retM (JNum n, True)))))"

definition evaluate_graph :: "'u agent_env \<Rightarrow> run_input \<Rightarrow> jsval \<Rightarrow> jsval \<Rightarrow> (jsval \<times> check_result) agent" where
  "evaluate_graph env input step graph =
     bindM (graph_observed env input step graph) (\<lambda>(observed, there).
     bindM (liftM (parse_numeric observed)) (\<lambda>x.
     let finite = (case x of Fin _ \<Rightarrow> True | _ \<Rightarrow> False); source = fld graph ''source''; visual = (source = JStr (js ''VISUAL'')) in
     bindM (if there \<and> finite
            then bindM (numberM (fld graph ''threshold'')) (\<lambda>t. retM (compare_number x t (fld graph ''operator'')))
            else retM False) (\<lambda>passed.
     bindM (liftM (to_string (fld graph ''operator''))) (\<lambda>operator.
     bindM (liftM (to_string (fld graph ''threshold''))) (\<lambda>threshold.
     bindM (liftM (to_string (fld step ''id''))) (\<lambda>id.
     let shown = (if finite then JNum x else JNull) in
     retM
       (JObj [(js ''checkpointId'', fld step ''id''), (js ''name'', fld step ''name''), (js ''source'', source),
          (js ''sourceState'', JStr (js (if there then ''CAPTURED'' else ''NOT_CAPTURED''))),
          (js ''aggregation'', or_else (fld graph ''aggregation'') (JStr (js ''LATEST''))),
          (js ''operator'', fld graph ''operator''), (js ''threshold'', fld graph ''threshold''),
          (js ''observed'', shown), (js ''passed'', JBool passed),
          (js ''confidence'', JNum (Fin (if visual then 1 / 2 else 1)))],
        \<lparr>cr_id = JStr (id @ js ''-graph''), cr_name = fld step ''name'',
         cr_kind = JStr (js (if there then ''GRAPH_REGRESSION'' else ''GRAPH_SOURCE_MISSING'')),
         cr_gate = (if visual then JStr (js ''ADVISORY'') else or_else (fld graph ''gateMode'') (JStr (js ''BLOCKING''))),
         cr_passed = passed, cr_expected = JStr (operator @ js '' '' @ threshold), cr_observed = shown,
         cr_error =
           (if passed then []
            else if there then js ''The graph or KPI value did not meet its configured condition.''
            else js ''The configured graph data source was not observed during this run.'')\<rparr>)))))))"

section \<open>Screenshots\<close>

definition fixed_two :: "jsnum \<Rightarrow> jsstr" where \<comment> \<open>\<open>x.toFixed(2)\<close> of a number that is not negative\<close>
  "fixed_two x =
     (case x of
        Fin a \<Rightarrow>
          let n = nat \<lfloor>a * 100 + 1 / 2\<rfloor> in
          dec (n div 100) @ js ''.'' @ dec (n mod 100 div 10) @ dec (n mod 10)
      | _ \<Rightarrow> num_to_str x)"

definition step_check :: "jsval \<Rightarrow> jsstr \<Rightarrow> string \<Rightarrow> string \<Rightarrow> string \<Rightarrow> bool \<Rightarrow> jsstr \<Rightarrow> jsstr \<Rightarrow> string \<Rightarrow> check_result agent" where
  "step_check step sid suffix title kind passed expected observed message =
     bindM (liftM (to_string (fld step ''name''))) (\<lambda>name. retM
       \<lparr>cr_id = JStr (sid @ js suffix), cr_name = JStr (name @ js title), cr_kind = JStr (js kind),
        cr_gate = JStr (js ''BLOCKING''), cr_passed = passed, cr_expected = JStr expected, cr_observed = JStr observed,
        cr_error = (if passed then [] else js message)\<rparr>)"

definition store_artifact :: "artifact \<Rightarrow> unit agent" where
  "store_artifact a = updM (\<lambda>s. s\<lparr>rs_artifacts := rs_artifacts s @ [a]\<rparr>)"

definition store_visual :: "jsval \<Rightarrow> unit agent" where
  "store_visual v = updM (\<lambda>s. s\<lparr>rs_visual := rs_visual s @ [v]\<rparr>)"

fun find_baseline :: "jsval \<Rightarrow> jsval list \<Rightarrow> exn + jsval option" where
  "find_baseline checkpoint [] = Inr None"
| "find_baseline checkpoint (b # bs) =
     (if nullish b then Inl TypeError
      else if fld b ''checkpointId'' = checkpoint then Inr (Some b) else find_baseline checkpoint bs)"

definition compare_baseline :: "'u agent_env \<Rightarrow> run_input \<Rightarrow> jsval \<Rightarrow> jsval \<Rightarrow> jsval \<Rightarrow> jsstr \<Rightarrow> jsval \<Rightarrow> unit agent" where
  "compare_baseline env input step shot checkpoint bytes baseline =
     bindM (download env (ri_secrets input) baseline) (\<lambda>expected.
     bindM (numberM (or_else (fld shot ''diffThreshold'') (JNum (to_double (1 / 100))))) (\<lambda>threshold.
     let c = compare_pngs (ae_read_png env) (ae_pixelmatch env) bytes expected threshold in
     thenM (store_visual (JObj
       [(js ''checkpointId'', checkpoint), (js ''passed'', JBool (pc_passed c)),
        (js ''diffPixels'', JNum (nnum (pc_diff_pixels c))), (js ''diffRatio'', JNum (pc_diff_ratio c)),
        (js ''threshold'', JNum threshold), (js ''baselineFingerprint'', fld baseline ''fingerprint'')]))
     (bindM (liftM (to_string (fld step ''id''))) (\<lambda>id.
      bindM (step_check step id ''-visual'' '' visual baseline'' ''VISUAL_REGRESSION'' (pc_passed c)
        (js ''Difference at or below '' @ num_to_str (num_mul threshold (Fin 100)) @ js ''%'')
        (fixed_two (num_mul (pc_diff_ratio c) (Fin 100)) @ js ''%'')
        ''The selected UI region changed beyond its approved visual tolerance.'') (\<lambda>r.
      thenM (report_check r)
        (case pc_diff c of
           None \<Rightarrow> retM ()
         | Some drawn \<Rightarrow>
             bindM (upload env (ri_secrets input) ''VISUAL_DIFF'' checkpoint drawn) (\<lambda>a.
             case a of Some x \<Rightarrow> store_artifact x | None \<Rightarrow> retM ())))))))"

definition list_or_none :: "jsval \<Rightarrow> jsval list agent" where \<comment> \<open>\<open>[...(v || [])]\<close>\<close>
  "list_or_none v = liftM (iterate (or_else v (JArr [])))"

definition take_screenshot :: "'u agent_env \<Rightarrow> run_input \<Rightarrow> jsval \<Rightarrow> jsval \<Rightarrow> unit agent" where
  "take_screenshot env input step shot =
     (let checkpoint = or_else (fld shot ''checkpointId'') (fld step ''id'') in
      bindM (list_or_none (fld (ri_definition input) ''maskSelectors'')) (\<lambda>masks.
      bindM (list_or_none (fld shot ''maskSelectors'')) (\<lambda>more.
      bindM (capture_artifact env (ri_secrets input) ''CHECKPOINT_SCREENSHOT'' checkpoint (masks @ more) (truthy (fld shot ''fullPage''))) (\<lambda>captured.
      case captured of
        None \<Rightarrow>
          bindM (liftM (to_string (fld step ''id''))) (\<lambda>id.
          bindM (step_check step id ''-visual-evidence'' '' visual evidence'' ''ARTIFACT_POLICY_BLOCKED'' False
            (js ''A masked checkpoint screenshot'') (js ''Not captured'')
            ''The checkpoint screenshot could not be stored within the configured artifact policy.'') report_check)
      | Some (a, bytes) \<Rightarrow>
          thenM (store_artifact a)
            (case or_else (ri_baselines input) (JArr []) of
               JArr bs \<Rightarrow>
                 bindM (liftM (find_baseline checkpoint bs)) (\<lambda>found.
                 case found of
                   Some baseline \<Rightarrow> compare_baseline env input step shot checkpoint bytes baseline
                 | None \<Rightarrow> store_visual (JObj
                     [(js ''checkpointId'', checkpoint), (js ''passed'', JBool True),
                      (js ''state'', JStr (js ''BASELINE_NOT_APPROVED''))]))
             | _ \<Rightarrow> raiseM TypeError)))))"

section \<open>Steps\<close>

definition step_body :: "'u agent_env \<Rightarrow> run_input \<Rightarrow> jsval \<Rightarrow> locator option \<Rightarrow> jsnum \<Rightarrow> unit agent" where
  "step_body env input step l timeout =
     thenM (journey_action env input step l timeout)
    (thenM (bindM (list_or_none (fld step ''checks'')) (run_checks env input))
    (thenM (if truthy (fld step ''graph'')
            then bindM (evaluate_graph env input step (fld step ''graph'')) (\<lambda>(evidence, r).
              thenM (updM (\<lambda>s. s\<lparr>rs_graph := rs_graph s @ [evidence]\<rparr>)) (report_check r))
            else retM ())
           (if truthy (fld step ''screenshot'') then take_screenshot env input step (fld step ''screenshot'') else retM ())))"

definition locator_evidence :: "jsval \<Rightarrow> jsval" where
  "locator_evidence step =
     (let l = fld step ''locator'' in
      if truthy l
      then JObj [(js ''strategy'', fld l ''strategy''),
        (js ''value'', if truthy (fld step ''sensitive'') then JStr (js ''MASKED'') else fld l ''value''),
        (js ''name'', fld l ''name'')]
      else JObj [])"

definition execute_step :: "'u agent_env \<Rightarrow> run_input \<Rightarrow> nat \<Rightarrow> jsval \<Rightarrow> step_result agent" where
  "execute_step env input index step =
     bindM (liftM (step_timeout step)) (\<lambda>timeout.
     bindM (locator_of step) (\<lambda>l.
     thenM (updM (\<lambda>s. s\<lparr>rs_checks := []\<rparr>))
    (bindM (tryM (thenM (step_body env input step l timeout) (retM ([], [])))
              (\<lambda>e. retM (js (classify_error (ae_engine env) e), safe_message (ae_engine env) e))) (\<lambda>(category, reason).
     bindM (getM rs_checks) (\<lambda>checks. retM
       \<lparr>sr_step = fld step ''id'', sr_order = index + 1, sr_name = fld step ''name'', sr_type = fld step ''type'',
        sr_locator = locator_evidence step, sr_checks = checks, sr_category = category, sr_reason = reason\<rparr>)))))"

end
