(* ===== verification/Agent_Run.thy ===== *)
theory Agent_Run
  imports Agent_Steps
begin

text \<open>
  A run of the browser agent and the server that admits runs, from
  \<open>services/browser-agent/server.mjs\<close>: the checks before a browser is opened, the journey over the
  enabled steps, its end after a blocking failure, an error or the last step, and the limit on the runs
  that go on at the same time.
\<close>

section \<open>Input\<close>

definition validate_input :: "run_input \<Rightarrow> exn + unit" where
  "validate_input input =
     (if \<not> truthy (ri_run input) \<or> \<not> truthy (ri_monitor input) \<or> \<not> truthy (ri_definition input)
      then Inl (ErrorMsg (js ''runId, monitorId, and definition are required.''))
      else case fld (ri_definition input) ''steps'' of
        JArr xs \<Rightarrow>
          if xs = [] then Inl (ErrorMsg (js ''Browser journey has no executable steps.''))
          else if 100 < length xs then Inl (ErrorMsg (js ''Browser journey exceeds the 100-step limit.''))
          else Inr ()
      | _ \<Rightarrow> Inl (ErrorMsg (js ''Browser journey has no executable steps.'')))"

definition journey_steps :: "run_input \<Rightarrow> jsval list" where
  "journey_steps input = (case fld (ri_definition input) ''steps'' of JArr xs \<Rightarrow> xs | _ \<Rightarrow> [])"

section \<open>Results\<close>

record run_result =
  rr_status :: jsstr
  rr_warnings :: nat
  rr_category :: jsval
  rr_reason :: jsval
  rr_failed_step :: jsval
  rr_metrics :: jsval
  rr_graph :: "jsval list"
  rr_visual :: "jsval list"
  rr_network :: network
  rr_failures :: "network_failure list"
  rr_console :: "console_event list"
  rr_events :: "agent_event list"
  rr_steps :: "step_result list"
  rr_artifacts :: "artifact list"
  rr_upload_failures :: nat

definition not_captured :: jsval where
  "not_captured = JObj [(js ''captureState'', JStr (js ''NOT_CAPTURED'')), (js ''evidenceType'', JStr (js ''SYNTHETIC_LAB''))]"

definition capture_performance :: "'u agent_env \<Rightarrow> run_input \<Rightarrow> jsval agent" where
  "capture_performance env input =
     tryM
       (thenM (tryM (callM env (ri_secrets input) WaitLoad) (\<lambda>_. retM JUndef))
         (thenM (callM env (ri_secrets input) (Pause (Fin 100))) (callM env (ri_secrets input) Metrics)))
       (\<lambda>e. thenM (emitM ''PERFORMANCE_CAPTURE_FAILED''
              (js ''Synthetic performance evidence could not be captured for this execution.'') (JStr [])
              (js ''PERFORMANCE_CAPTURE_FAILED''))
            (retM not_captured))"

text \<open>\<open>finish\<close>: the texts that were not given are empty; the metrics are always there when the page is.\<close>

definition finish_run :: "'u agent_env \<Rightarrow> run_input \<Rightarrow> string \<Rightarrow> jsval \<Rightarrow> jsval \<Rightarrow> jsval \<Rightarrow> jsval option \<Rightarrow> run_result agent" where
  "finish_run env input status category reason failed_step captured =
     bindM (case captured of
              Some m \<Rightarrow> if nullish m then bindM (getM rs_page) (\<lambda>page. if page then capture_performance env input else retM not_captured) else retM m
            | None \<Rightarrow> bindM (getM rs_page) (\<lambda>page. if page then capture_performance env input else retM not_captured)) (\<lambda>metrics.
     thenM (emit_event (if status \<in> {''SUCCESS'', ''SUCCESS_WITH_WARNINGS''} then ''RUN_COMPLETED'' else ''RUN_FAILED'')
         (if status = ''SUCCESS'' then JStr (js ''Browser journey completed successfully.'')
          else or_else reason (JStr (js ''Browser journey completed with warnings.''))) failed_step category)
       (getM (\<lambda>s.
         \<lparr>rr_status = js status, rr_warnings = rs_warnings s, rr_category = category, rr_reason = reason,
          rr_failed_step = failed_step, rr_metrics = metrics, rr_graph = rs_graph s, rr_visual = rs_visual s,
          rr_network = rs_network s, rr_failures = take 50 (nw_failures (rs_network s)),
          rr_console = take 100 (rs_console s), rr_events = rs_events s, rr_steps = rs_steps s,
          rr_artifacts = rs_artifacts s, rr_upload_failures = up_failures (rs_uploader s)\<rparr>)))"

definition final_screenshot :: "'u agent_env \<Rightarrow> run_input \<Rightarrow> string \<Rightarrow> string \<Rightarrow> unit agent" where
  "final_screenshot env input kind checkpoint =
     bindM (list_or_none (fld (ri_definition input) ''maskSelectors'')) (\<lambda>masks.
     bindM (capture_artifact env (ri_secrets input) kind (JStr (js checkpoint)) masks True) (\<lambda>a.
     case a of Some (x, _) \<Rightarrow> store_artifact x | None \<Rightarrow> retM ()))"

section \<open>The journey\<close>

definition is_blocking :: "check_result \<Rightarrow> bool" where
  "is_blocking c \<longleftrightarrow> \<not> cr_passed c \<and> cr_gate c = JStr (js ''BLOCKING'')"

definition is_advisory :: "check_result \<Rightarrow> bool" where
  "is_advisory c \<longleftrightarrow> \<not> cr_passed c \<and> cr_gate c = JStr (js ''ADVISORY'')"

definition step_succeeded :: "step_result \<Rightarrow> bool" where
  "step_succeeded r \<longleftrightarrow> sr_category r = []"

definition stops_run :: "step_result \<Rightarrow> bool" where
  "stops_run r \<longleftrightarrow> \<not> step_succeeded r \<or> list_ex is_blocking (sr_checks r)"

definition record_step :: "jsval \<Rightarrow> step_result \<Rightarrow> unit agent" where
  "record_step step r =
     thenM (updM (\<lambda>s. s\<lparr>rs_steps := rs_steps s @ [r]\<rparr>))
    (thenM
      (bindM (if step_succeeded r
              then bindM (liftM (to_string (fld step ''name''))) (\<lambda>n. retM (n @ js '' completed.''))
              else retM (sr_reason r)) (\<lambda>message.
       emitM (if step_succeeded r then ''STEP_COMPLETED'' else ''STEP_FAILED'') message (fld step ''id'') (sr_category r)))
      (updM (\<lambda>s. s\<lparr>rs_warnings := rs_warnings s + length (filter is_advisory (sr_checks r))\<rparr>)))"

text \<open>The steps until one stops the run, which is then the result.\<close>

fun run_steps :: "'u agent_env \<Rightarrow> run_input \<Rightarrow> nat \<Rightarrow> jsval list \<Rightarrow> (jsval \<times> step_result) option agent" where
  "run_steps env input index [] = retM None"
| "run_steps env input index (step # steps) =
     bindM (fieldM step ''enabled'') (\<lambda>enabled.
     if \<not> truthy enabled then run_steps env input (index + 1) steps
     else
       bindM (execute_step env input index step) (\<lambda>r.
       thenM (record_step step r)
         (if stops_run r then retM (Some (step, r)) else run_steps env input (index + 1) steps)))"

definition first_blocking :: "step_result \<Rightarrow> check_result option" where
  "first_blocking r = find is_blocking (sr_checks r)"

definition fail_run :: "'u agent_env \<Rightarrow> run_input \<Rightarrow> jsval \<Rightarrow> step_result \<Rightarrow> run_result agent" where
  "fail_run env input step r =
     bindM (capture_performance env input) (\<lambda>metrics.
     thenM (final_screenshot env input ''FAILURE_SCREENSHOT'' ''failure-final'')
       (finish_run env input ''FAILED''
         (or_else (or_else (JStr (sr_category r)) (case first_blocking r of Some c \<Rightarrow> cr_kind c | None \<Rightarrow> JUndef))
           (JStr (js ''ASSERTION_FAILED'')))
         (or_else (or_else (JStr (sr_reason r)) (case first_blocking r of Some c \<Rightarrow> JStr (cr_error c) | None \<Rightarrow> JUndef))
           (JStr (js ''A blocking browser checkpoint failed.'')))
         (fld step ''id'') (Some metrics)))"

definition complete_run :: "'u agent_env \<Rightarrow> run_input \<Rightarrow> run_result agent" where
  "complete_run env input =
     bindM (capture_performance env input) (\<lambda>metrics.
     thenM (final_screenshot env input ''SUCCESS_SCREENSHOT'' ''final'')
       (bindM (getM rs_warnings) (\<lambda>n.
        finish_run env input (if n \<noteq> 0 then ''SUCCESS_WITH_WARNINGS'' else ''SUCCESS'') (JStr []) (JStr []) (JStr []) (Some metrics))))"

definition context_options :: "run_input \<Rightarrow> exn + jsval" where
  "context_options input =
     (let profile = fld (ri_definition input) ''profile'';
          given = (\<lambda>k d. (js k, or_else (fld profile k) d))
      in if nullish profile then Inl TypeError
         else
           bindE (if truthy (ri_storage input)
                  then bindE (to_string (ri_storage input)) (\<lambda>t.
                    case json_parse t of Some v \<Rightarrow> Inr v | None \<Rightarrow> Inl SyntaxError)
                  else Inr JUndef) (\<lambda>storage. Inr (JObj
             [(js ''viewport'', JObj [(js ''width'', fld profile ''viewportWidth''), (js ''height'', fld profile ''viewportHeight'')]),
              given ''deviceScaleFactor'' (JNum (Fin 1)), (js ''isMobile'', JBool (truthy (fld profile ''isMobile''))),
              given ''locale'' (JStr (js ''en-US'')), (js ''timezoneId'', or_else (fld profile ''timezone'') (JStr (js ''UTC''))),
              given ''colorScheme'' (JStr (js ''light'')), given ''userAgent'' JUndef,
              (js ''serviceWorkers'', JStr (js ''block'')), (js ''ignoreHTTPSErrors'', JBool False),
              (js ''storageState'', storage)])))"

definition journey :: "'u agent_env \<Rightarrow> run_input \<Rightarrow> run_result agent" where
  "journey env input =
     bindM (liftM (context_options input)) (\<lambda>options.
     thenM (callM env (ri_secrets input) (CreateContext options))
    (thenM (updM (\<lambda>s. s\<lparr>rs_context := True\<rparr>))
    (thenM (callM env (ri_secrets input) NewPage)
    (thenM (updM (\<lambda>s. s\<lparr>rs_page := True\<rparr>))
    (thenM (emitM ''BROWSER_LAUNCHED'' (js ''Chromium is ready.'') (JStr []) [])
    (bindM (liftM (render (ri_variables input) (fld (ri_definition input) ''startUrl''))) (\<lambda>start.
     thenM (callM env (ri_secrets input) (Goto start (JStr (js ''domcontentloaded'')) (Fin 30000)))
    (thenM (emitM ''PAGE_READY'' (js ''The start page reached DOMContentLoaded.'') (JStr []) [])
    (bindM (run_steps env input 0 (journey_steps input)) (\<lambda>stopped.
     case stopped of Some (step, r) \<Rightarrow> fail_run env input step r | None \<Rightarrow> complete_run env input))))))))))"

text \<open>An error that ends the journey.\<close>

definition abandon_run :: "'u agent_env \<Rightarrow> run_input \<Rightarrow> exn \<Rightarrow> run_result agent" where
  "abandon_run env input e =
     (let category = js (classify_error (ae_engine env) e); message = safe_message (ae_engine env) e in
      bindM (getM rs_page) (\<lambda>page.
      bindM (if page then bindM (capture_performance env input) (\<lambda>m. retM (Some m)) else retM None) (\<lambda>metrics.
      thenM (if page then tryM (final_screenshot env input ''FAILURE_SCREENSHOT'' ''failure-final'') (\<lambda>_. retM ()) else retM ())
     (thenM (emitM ''RUN_FAILED'' message (JStr []) category)
     (bindM (getM rs_steps) (\<lambda>steps.
      finish_run env input ''FAILED'' (JStr category) (JStr message)
        (if steps = [] then JStr [] else or_else (sr_step (last steps)) (JStr [])) metrics))))))"

definition close_context :: "'u agent_env \<Rightarrow> run_input \<Rightarrow> unit agent" where
  "close_context env input =
     bindM (getM rs_context) (\<lambda>context.
     if context then thenM (tryM (callM env (ri_secrets input) CloseContext) (\<lambda>_. retM JUndef)) (retM ()) else retM ())"

definition finallyM :: "'a agent \<Rightarrow> unit agent \<Rightarrow> 'a agent" where
  "finallyM m n = bindM (tryM m (\<lambda>e. thenM n (raiseM e))) (\<lambda>a. thenM n (retM a))"

definition new_run :: "run_input \<Rightarrow> run_state" where
  "new_run input =
     \<lparr>rs_calls = [],
      rs_network = \<lparr>nw_requests = 0, nw_responses = 0, nw_failed_requests = 0, nw_http_errors = 0,
        nw_transferred = Fin 0, nw_by_type = [], nw_failures = []\<rparr>,
      rs_console = [], rs_reading = [], rs_captured = [], rs_artifacts = [], rs_visual = [], rs_graph = [],
      rs_uploader = new_uploader (ri_slots input),
      rs_events = [agent_event_of ''BROWSER_CONTEXT_CREATING'' (JStr (js ''Creating an isolated Chromium context.'')) (JStr []) (JStr [])],
      rs_checks = [], rs_steps = [], rs_warnings = 0, rs_context = False, rs_page = False\<rparr>"

definition execute_run :: "'u agent_env \<Rightarrow> run_input \<Rightarrow> (exn + run_result) \<times> run_state" where
  "execute_run env input =
     (let checked = bindE (validate_input input) (\<lambda>_.
          bindE (render (ri_variables input) (fld (ri_definition input) ''startUrl'')) (\<lambda>start.
          validate_target (ae_policy env) (ae_host env) start (ri_origins input)))
      in case checked of
           Inl e \<Rightarrow> (Inl e, new_run input)
         | Inr _ \<Rightarrow> finallyM (tryM (journey env input) (abandon_run env input)) (close_context env input) (new_run input))"

section \<open>Admission\<close>

text \<open>One request to the server: its method, address and credential, and how it is answered at once.\<close>

record agent_request =
  aq_verb :: jsstr
  aq_path :: jsstr
  aq_credential :: jsstr

record server_config =
  sc_token :: jsstr
  sc_subtle :: bool
  sc_capacity :: jsnum

datatype admission = Health | NotFound | Refused | Busy | Admitted

definition capacity_of :: "jsstr \<Rightarrow> jsnum" where \<comment> \<open>\<open>Math.max(1, Number(variable || 2))\<close>\<close>
  "capacity_of v = num_max (Fin 1) (if v = [] then Fin 2 else str_to_num v)"

definition token_of :: "jsstr \<Rightarrow> jsstr \<Rightarrow> jsstr" where
  "token_of agent runner =
     (if agent \<noteq> [] then agent else if runner \<noteq> [] then runner else js ''rhythm-local-browser-token'')"

definition admit :: "server_config \<Rightarrow> nat \<Rightarrow> agent_request \<Rightarrow> admission" where
  "admit cfg active r =
     (if aq_verb r = js ''GET'' \<and> aq_path r = js ''/healthz'' then Health
      else if aq_verb r \<noteq> js ''POST'' \<or> aq_path r \<noteq> js ''/v1/execute'' then NotFound
      else if \<not> constant_time_equal (sc_subtle cfg) (aq_credential r) (js ''Bearer '' @ sc_token cfg) then Refused
      else if num_le (sc_capacity cfg) (nnum active) then Busy
      else Admitted)"

definition status_code :: "admission \<Rightarrow> nat" where
  "status_code a = (case a of Health \<Rightarrow> 200 | NotFound \<Rightarrow> 404 | Refused \<Rightarrow> 401 | Busy \<Rightarrow> 429 | Admitted \<Rightarrow> 200)"

text \<open>
  The server between two moments at which its code waits: how many runs it counts, the admitted
  requests whose run has not ended, and the answers given, each with its request and status.
\<close>

record server_state =
  sv_active :: nat
  sv_running :: "nat list"
  sv_answers :: "(nat \<times> nat) list"
  sv_seen :: "(nat \<times> agent_request) list"

definition new_server :: server_state where
  "new_server = \<lparr>sv_active = 0, sv_running = [], sv_answers = [], sv_seen = []\<rparr>"

inductive server_step :: "server_config \<Rightarrow> server_state \<Rightarrow> server_state \<Rightarrow> bool" for cfg where
  arrive_admitted:
    "i \<notin> fst ` set (sv_seen s) \<Longrightarrow> admit cfg (sv_active s) r = Admitted \<Longrightarrow>
     server_step cfg s (s\<lparr>sv_active := sv_active s + 1, sv_running := i # sv_running s, sv_seen := (i, r) # sv_seen s\<rparr>)"
| arrive_answered:
    "i \<notin> fst ` set (sv_seen s) \<Longrightarrow> admit cfg (sv_active s) r = a \<Longrightarrow> a \<noteq> Admitted \<Longrightarrow>
     server_step cfg s (s\<lparr>sv_answers := (i, status_code a) # sv_answers s, sv_seen := (i, r) # sv_seen s\<rparr>)"
| run_ends:
    "i \<in> set (sv_running s) \<Longrightarrow> code \<in> {200, 422} \<Longrightarrow>
     server_step cfg s (s\<lparr>sv_active := sv_active s - 1, sv_running := remove1 i (sv_running s),
       sv_answers := (i, code) # sv_answers s\<rparr>)"

inductive server_reaches :: "server_config \<Rightarrow> server_state \<Rightarrow> bool" for cfg where
  server_start: "server_reaches cfg new_server"
| server_next: "server_reaches cfg s \<Longrightarrow> server_step cfg s s' \<Longrightarrow> server_reaches cfg s'"

end
