(* ===== verification/Run_Invariant.thy ===== *)
theory Run_Invariant
  imports Agent_Run
begin

text \<open>
  What a part of a run keeps. \<open>keeps I m\<close> says that \<open>I\<close> survives the computation \<open>m\<close>, whether it
  returns or raises. The locale \<open>step_invariant\<close> is the contract between such a property and the code of a
  step: the permitted calls of the page and the updates of the evidence keep it, and then every operation
  of a step does; \<open>journey_invariant\<close> adds the updates between the steps.
\<close>

named_theorems keeps_rules

definition keeps :: "(run_state \<Rightarrow> bool) \<Rightarrow> 'a agent \<Rightarrow> bool" where
  "keeps I m \<longleftrightarrow> (\<forall>s. I s \<longrightarrow> I (snd (m s)))"

lemma keepsD: "keeps I m \<Longrightarrow> m s = (r, s') \<Longrightarrow> I s \<Longrightarrow> I s'"
  by (metis keeps_def snd_conv)

lemma keeps_bind_value:
  assumes "keeps I m" "\<And>a s s'. m s = (Inr a, s') \<Longrightarrow> keeps I (f a)"
  shows "keeps I (bindM m f)"
proof -
  have "I (snd (bindM m f s))" if s: "I s" for s
  proof (cases "m s")
    case (Pair r s')
    then have "I s'" using assms(1) s keepsD by blast
    then show ?thesis using Pair assms(2) by (auto simp: bindM_def keeps_def split: sum.splits)
  qed
  then show ?thesis by (simp add: keeps_def)
qed

lemma keeps_bind [keeps_rules]: "keeps I m \<Longrightarrow> (\<And>a. keeps I (f a)) \<Longrightarrow> keeps I (bindM m f)"
  by (rule keeps_bind_value)

lemma keeps_then [keeps_rules]: "keeps I m \<Longrightarrow> keeps I n \<Longrightarrow> keeps I (thenM m n)"
  unfolding thenM_def by (rule keeps_bind)

lemma keeps_ret [keeps_rules]: "keeps I (retM a)"
  by (simp add: keeps_def retM_def)

lemma keeps_raise [keeps_rules]: "keeps I (raiseM e)" "keeps I (errorM m)"
  by (simp_all add: keeps_def raiseM_def errorM_def)

lemma keeps_lift [keeps_rules]: "keeps I (liftM r)"
  by (auto simp: liftM_def keeps_def raiseM_def retM_def split: sum.splits)

lemma keeps_get [keeps_rules]: "keeps I (getM f)"
  by (simp add: keeps_def getM_def)

lemma keeps_field [keeps_rules]: "keeps I (fieldM v k)" "keeps I (numberM v)"
  by (auto simp: fieldM_def numberM_def intro: keeps_rules)

lemma keeps_upd: "(\<And>s. I s \<Longrightarrow> I (f s)) \<Longrightarrow> keeps I (updM f)"
  by (simp add: keeps_def updM_def)

lemma keeps_try [keeps_rules]:
  assumes "keeps I m" "\<And>e. keeps I (h e)"
  shows "keeps I (tryM m h)"
proof -
  have "I (snd (tryM m h s))" if s: "I s" for s
  proof (cases "m s")
    case (Pair r s')
    then have "I s'" using assms(1) s keepsD by blast
    then show ?thesis using Pair assms(2) by (auto simp: tryM_def keeps_def split: sum.splits)
  qed
  then show ?thesis by (simp add: keeps_def)
qed

lemma keeps_finally [keeps_rules]: "keeps I m \<Longrightarrow> keeps I n \<Longrightarrow> keeps I (finallyM m n)"
  unfolding finallyM_def by (intro keeps_rules)

lemma keeps_cases [keeps_rules]:
  "keeps I m \<Longrightarrow> keeps I n \<Longrightarrow> keeps I (if b then m else n)"
  "keeps I m \<Longrightarrow> (\<And>a. keeps I (f a)) \<Longrightarrow> keeps I (case x of None \<Rightarrow> m | Some a \<Rightarrow> f a)"
  "(\<And>a b. keeps I (g a b)) \<Longrightarrow> keeps I (case p of (a, b) \<Rightarrow> g a b)"
  by (simp_all split: option.splits prod.splits)

lemma liftM_returns [simp]: "liftM r s = (Inr a, s') \<longleftrightarrow> r = Inr a \<and> s' = s"
  by (auto simp: liftM_def raiseM_def retM_def split: sum.splits)

lemma keeps_lift_bind: "(\<And>a. r = Inr a \<Longrightarrow> keeps I (f a)) \<Longrightarrow> keeps I (bindM (liftM r) f)"
  by (rule keeps_bind_value) (auto intro: keeps_rules)

section \<open>Permitted calls\<close>

text \<open>
  The timeout of a call is a number between 100 milliseconds and two minutes, or it is not a number,
  and then some step of the plan has a \<open>timeoutMs\<close> that converts to no number: the clamping
  \<open>Math.min(Math.max(x, 100), 120000)\<close> does not catch \<open>NaN\<close>.
\<close>

definition timeout_unreadable :: "jsval \<Rightarrow> bool" where
  "timeout_unreadable step \<longleftrightarrow> to_number (or_else (fld step ''timeoutMs'') (JNum (Fin 15000))) = Inr NaN"

definition timeout_ok :: "run_input \<Rightarrow> jsnum \<Rightarrow> bool" where
  "timeout_ok input x \<longleftrightarrow>
     (\<exists>z. x = Fin z \<and> 100 \<le> z \<and> z \<le> 120000) \<or>
     x = NaN \<and> (\<exists>step\<in>set (journey_steps input). timeout_unreadable step)"

definition web_address :: "'u agent_env \<Rightarrow> jsstr \<Rightarrow> bool" where
  "web_address env t \<longleftrightarrow> (\<exists>u. th_url (ae_host env) t = Some u \<and> wu_protocol u \<in> {js ''http:'', js ''https:''})"

text \<open>The calls permitted when \<open>T\<close> are the timeouts permitted; a pause lasts no longer than a timeout.\<close>

definition call_permitted :: "(jsnum \<Rightarrow> bool) \<Rightarrow> 'u agent_env \<Rightarrow> run_input \<Rightarrow> page_call \<Rightarrow> bool" where
  "call_permitted T env input c \<longleftrightarrow>
     (case c of
        Goto t _ x \<Rightarrow> (\<exists>as. validate_target (ae_policy env) (ae_host env) t (ri_origins input) = Inr as) \<and> T x
      | Travel _ x \<Rightarrow> T x
      | Act _ _ _ x \<Rightarrow> T x
      | Pause x \<Rightarrow> x = Fin 100 \<or> (\<exists>wait y. T y \<and> x = num_min wait y)
      | PutArtifact t bytes \<Rightarrow> web_address env t \<and> bytes \<noteq> []
      | GetArtifact t \<Rightarrow> web_address env t
      | Screenshot _ _ \<Rightarrow> False
      | _ \<Rightarrow> True)"

lemma step_timeout_ok:
  assumes "step_timeout step = Inr x" "step \<in> set (journey_steps input)"
  shows "timeout_ok input x"
proof -
  obtain v where v: "to_number (or_else (fld step ''timeoutMs'') (JNum (Fin 15000))) = Inr v"
    "x = num_min (num_max v (Fin 100)) (Fin 120000)"
    using assms(1) by (auto simp: step_timeout_def bindE_def split: sum.splits)
  show ?thesis
  proof (cases v)
    case NaN
    with v assms(2) have "x = NaN" "\<exists>step\<in>set (journey_steps input). timeout_unreadable step"
      by (auto simp: timeout_unreadable_def num_min_def num_max_def)
    then show ?thesis by (simp add: timeout_ok_def)
  qed (use v(2) in \<open>auto simp: timeout_ok_def num_min_def num_max_def\<close>)
qed

lemma http_url_returns: "http_url env v m s = (Inr t, s') \<Longrightarrow> web_address env t"
  by (auto simp: http_url_def bindM_def liftM_def retM_def raiseM_def errorM_def web_address_def
      split: sum.splits option.splits if_splits)

lemma keeps_http_url [keeps_rules]: "keeps I (http_url env v m)"
  by (auto simp: http_url_def intro!: keeps_rules split: option.splits)

section \<open>The operations of a step\<close>

locale step_invariant =
  fixes T :: "jsnum \<Rightarrow> bool" and env :: "'u agent_env" and input :: run_input and I :: "run_state \<Rightarrow> bool"
  assumes call: "call_permitted T env input c \<Longrightarrow> keeps I (callM env (ri_secrets input) c)"
    and shot: "keeps I (thenM (if secret_texts (ri_secrets input) = [] then retM JUndef
          else callM env (ri_secrets input) (MarkSensitive (secret_texts (ri_secrets input))))
        (callM env (ri_secrets input) (Screenshot masks full)))"
    and artifacts: "I s \<Longrightarrow> I (s\<lparr>rs_artifacts := as\<rparr>)"
    and visual: "I s \<Longrightarrow> I (s\<lparr>rs_visual := vs\<rparr>)"
    and graph: "I s \<Longrightarrow> I (s\<lparr>rs_graph := vs\<rparr>)"
    and checks: "I s \<Longrightarrow> I (s\<lparr>rs_checks := cs\<rparr>)"
    and events: "I s \<Longrightarrow> I (s\<lparr>rs_events := es\<rparr>)"
    and uploads: "I s \<Longrightarrow> I (s\<lparr>rs_uploader := u\<rparr>)"
begin

lemma updates [keeps_rules]:
  "keeps I (emitM t m st c)" "keeps I (emit_event t v st w)" "keeps I (update_uploader f)" "keeps I (report_check r)"
  "keeps I (store_artifact a)" "keeps I (store_visual v)" "keeps I upload_failed"
  unfolding emitM_def emit_event_def update_uploader_def report_check_def store_artifact_def store_visual_def upload_failed_def thenM_def
  by (auto intro!: keeps_upd keeps_bind keeps_ret artifacts visual checks events uploads)

lemma keeps_web:
  assumes "\<And>t. web_address env t \<Longrightarrow> keeps I (f t)"
  shows "keeps I (bindM (http_url env v m) f)"
  by (rule keeps_bind_value [OF keeps_http_url]) (use assms http_url_returns in blast)

lemma keeps_put: "bytes \<noteq> [] \<Longrightarrow> keeps I (put_artifact env (ri_secrets input) url bytes)"
  unfolding put_artifact_def by (rule keeps_web) (intro keeps_rules call; simp add: call_permitted_def)

lemma keeps_upload [keeps_rules]: "keeps I (upload env (ri_secrets input) kind checkpoint bytes)"
  by (cases "bytes = []") (auto simp: upload_def Let_def intro!: keeps_rules keeps_put)

lemma keeps_download [keeps_rules]: "keeps I (download env (ri_secrets input) baseline)"
proof -
  have body: "keeps I (case v of JStr b \<Rightarrow> f b | _ \<Rightarrow> raiseM TypeError)" if "\<And>b. keeps I (f b)"
    for v and f :: "jsstr \<Rightarrow> jsstr agent"
    using that by (auto intro: keeps_rules split: jsval.splits)
  show ?thesis unfolding download_def Let_def
    by (rule keeps_bind, rule keeps_field, rule keeps_cases(1), rule keeps_raise, rule keeps_web)
      (intro keeps_rules body call; simp add: call_permitted_def)
qed

lemma keeps_capture [keeps_rules]:
  "keeps I (capture_artifact env (ri_secrets input) kind checkpoint selectors full)"
proof -
  have assoc: "thenM a (bindM b f) = bindM (thenM a b) f" for a :: "'x agent" and b :: "'y agent" and f :: "'y \<Rightarrow> 'z agent"
    by (rule ext) (simp add: thenM_def bindM_def split: prod.splits sum.splits)
  show ?thesis unfolding capture_artifact_def assoc
    by (rule keeps_bind [OF shot]) (auto intro!: keeps_rules split: jsval.splits)
qed

lemma keeps_read [keeps_rules]:
  "keeps I (callM env (ri_secrets input) (Read name l))" "keeps I (callM env (ri_secrets input) Metrics)"
  "keeps I (callM env (ri_secrets input) WaitLoad)" "keeps I (callM env (ri_secrets input) CloseContext)"
  "keeps I (callM env (ri_secrets input) NewPage)" "keeps I (callM env (ri_secrets input) (CreateContext v))"
  by (simp_all add: call call_permitted_def)

lemma keeps_locator [keeps_rules]: "keeps I (locator_of v)"
  unfolding locator_of_def by (auto intro!: keeps_rules)

lemma keeps_on_locator [keeps_rules]: "(\<And>x. keeps I (f x)) \<Longrightarrow> keeps I (on_locator l f)"
  unfolding on_locator_def by (auto intro!: keeps_rules split: option.splits)

lemma keeps_call_unit: "call_permitted T env input c \<Longrightarrow> keeps I (thenM (callM env (ri_secrets input) c) (retM ()))"
  by (intro keeps_rules call)

lemma keeps_navigate:
  assumes "T timeout"
  shows "keeps I (bindM (liftM r) (\<lambda>target.
    thenM (liftM (validate_target (ae_policy env) (ae_host env) target (ri_origins input)))
      (thenM (callM env (ri_secrets input) (Goto target w timeout)) (retM ()))))"
  unfolding thenM_def [of "liftM _"]
  by (intro keeps_lift_bind keeps_call_unit) (use assms in \<open>simp add: call_permitted_def\<close>)

lemma keeps_action:
  assumes "T timeout"
  shows "keeps I (journey_action env input step l timeout)"
  unfolding journey_action_def Let_def
  by (intro keeps_cases) (rule keeps_navigate [OF assms]
    | (intro keeps_rules keeps_on_locator call; use assms in \<open>auto simp: call_permitted_def\<close>))+

lemma keeps_observed [keeps_rules]: "keeps I (check_observed env input check l)"
  unfolding check_observed_def Let_def by (intro keeps_rules)

lemma keeps_check [keeps_rules]: "keeps I (evaluate_check env input check)"
  unfolding evaluate_check_def by (auto intro!: keeps_rules)

lemma keeps_run_checks [keeps_rules]: "keeps I (run_checks env input cs)"
  by (induction cs) (auto intro!: keeps_rules)

lemma keeps_evaluate_graph [keeps_rules]: "keeps I (evaluate_graph env input step graph)"
  unfolding evaluate_graph_def graph_observed_def Let_def by (auto intro!: keeps_rules split: option.splits)

lemma keeps_list [keeps_rules]: "keeps I (list_or_none v)"
  unfolding list_or_none_def by (rule keeps_lift)

lemma keeps_step_check [keeps_rules]: "keeps I (step_check step sid a b k p e ob m)"
  unfolding step_check_def by (intro keeps_rules)

lemma keeps_baseline [keeps_rules]: "keeps I (compare_baseline env input step shot checkpoint bytes baseline)"
  unfolding compare_baseline_def Let_def by (auto intro!: keeps_rules split: option.splits)

lemma keeps_screenshot [keeps_rules]: "keeps I (take_screenshot env input step shot)"
  unfolding take_screenshot_def Let_def by (auto intro!: keeps_rules split: option.splits jsval.splits)

lemma keeps_body: "T timeout \<Longrightarrow> keeps I (step_body env input step l timeout)"
  unfolding step_body_def by (auto intro!: keeps_rules keeps_action keeps_upd graph)

theorem keeps_step:
  assumes "\<And>x. step_timeout step = Inr x \<Longrightarrow> T x"
  shows "keeps I (execute_step env input index step)"
  unfolding execute_step_def
  by (intro keeps_lift_bind, drule assms) (auto intro!: keeps_rules keeps_body keeps_upd checks)

lemma keeps_performance [keeps_rules]: "keeps I (capture_performance env input)"
  unfolding capture_performance_def
  by (auto intro!: keeps_rules call simp: call_permitted_def)

lemma keeps_final [keeps_rules]: "keeps I (final_screenshot env input kind checkpoint)"
  unfolding final_screenshot_def by (auto intro!: keeps_rules split: option.splits)

lemma keeps_finish [keeps_rules]: "keeps I (finish_run env input status category reason failed captured)"
  unfolding finish_run_def by (auto intro!: keeps_rules split: option.splits)

lemma keeps_ends [keeps_rules]:
  "keeps I (fail_run env input step r)" "keeps I (complete_run env input)" "keeps I (abandon_run env input e)"
  unfolding fail_run_def complete_run_def abandon_run_def Let_def by (auto intro!: keeps_rules)

lemma keeps_close [keeps_rules]: "keeps I (close_context env input)"
  unfolding close_context_def by (auto intro!: keeps_rules)

end

section \<open>The operations between the steps\<close>

locale journey_invariant = step_invariant +
  assumes timeouts: "T (Fin 30000)" "step \<in> set (journey_steps input) \<Longrightarrow> step_timeout step = Inr x \<Longrightarrow> T x"
    and steps: "I s \<Longrightarrow> I (s\<lparr>rs_steps := rs\<rparr>)"
    and warnings: "I s \<Longrightarrow> I (s\<lparr>rs_warnings := n\<rparr>)"
    and opened: "I s \<Longrightarrow> I (s\<lparr>rs_context := b\<rparr>)"
    and showing: "I s \<Longrightarrow> I (s\<lparr>rs_page := b\<rparr>)"
begin

lemma keeps_record [keeps_rules]: "keeps I (record_step step r)"
  unfolding record_step_def by (auto intro!: keeps_rules keeps_upd steps warnings)

lemma keeps_steps:
  "set xs \<subseteq> set (journey_steps input) \<Longrightarrow> keeps I (run_steps env input index xs)"
  by (induction xs arbitrary: index) (auto intro!: keeps_rules keeps_step timeouts(2))

theorem keeps_journey:
  assumes "\<And>start. render (ri_variables input) (fld (ri_definition input) ''startUrl'') = Inr start \<Longrightarrow>
    \<exists>as. validate_target (ae_policy env) (ae_host env) start (ri_origins input) = Inr as"
  shows "keeps I (journey env input)"
  unfolding journey_def
  by (intro keeps_bind keeps_then keeps_lift_bind keeps_rules keeps_upd call opened showing)
    (auto intro!: keeps_rules keeps_steps dest: assms simp: call_permitted_def timeouts(1) split: option.splits)

end

end
