(* ===== verification/Run_Facts.thy ===== *)
theory Run_Facts
  imports Run_Invariant
begin

text \<open>
  What holds of a whole run of the browser agent: the calls it makes of the page, by the interpretation
  \<open>history\<close>, and how its status follows from the steps, by the interpretation \<open>evidence\<close>.
\<close>

section \<open>The calls of a run\<close>

definition call_allowed :: "'u agent_env \<Rightarrow> run_input \<Rightarrow> page_call list \<Rightarrow> page_call \<Rightarrow> bool" where
  "call_allowed env input before c \<longleftrightarrow>
     (case c of
        Screenshot _ _ \<Rightarrow> secret_texts (ri_secrets input) \<noteq> [] \<longrightarrow>
          before \<noteq> [] \<and> last before = MarkSensitive (secret_texts (ri_secrets input))
      | _ \<Rightarrow> call_permitted (timeout_ok input) env input c)"

definition calls_ok :: "'u agent_env \<Rightarrow> run_input \<Rightarrow> page_call list \<Rightarrow> bool" where
  "calls_ok env input cs \<longleftrightarrow> (\<forall>i<length cs. call_allowed env input (take i cs) (cs ! i))"

lemma calls_ok_snoc: "calls_ok env input (cs @ [c]) \<longleftrightarrow> calls_ok env input cs \<and> call_allowed env input cs c"
  by (auto simp: calls_ok_def All_less_Suc nth_append)

lemma permitted_allowed: "call_permitted (timeout_ok input) env input c \<Longrightarrow> call_allowed env input before c"
  by (cases c) (simp_all add: call_allowed_def call_permitted_def)

lemma event_frame:
  "rs_calls (on_event env secrets e s) = rs_calls s"
  "rs_steps (on_event env secrets e s) = rs_steps s"
  "rs_warnings (on_event env secrets e s) = rs_warnings s"
  by (simp_all add: on_event_def on_response_def on_body_def Let_def split: browser_event.split)

lemma events_frame:
  "rs_calls (fold (on_event env secrets) es s) = rs_calls s"
  "rs_steps (fold (on_event env secrets) es s) = rs_steps s"
  "rs_warnings (fold (on_event env secrets) es s) = rs_warnings s"
  by (induction es arbitrary: s) (simp_all add: event_frame)

lemma callM_frame:
  "rs_calls (snd (callM env secrets c s)) = rs_calls s @ [c]"
  "rs_steps (snd (callM env secrets c s)) = rs_steps s"
  "rs_warnings (snd (callM env secrets c s)) = rs_warnings s"
  by (simp_all add: callM_def events_frame split: prod.split)

lemma calls_ok_call: "call_permitted (timeout_ok input) env input c \<Longrightarrow> keeps (\<lambda>s. calls_ok env input (rs_calls s)) (callM env secrets c)"
  by (simp add: keeps_def callM_frame calls_ok_snoc permitted_allowed)

lemma calls_ok_shot:
  "keeps (\<lambda>s. calls_ok env input (rs_calls s))
     (thenM (if secret_texts (ri_secrets input) = [] then retM JUndef
             else callM env (ri_secrets input) (MarkSensitive (secret_texts (ri_secrets input))))
       (callM env (ri_secrets input) (Screenshot masks full)))"
proof (cases "secret_texts (ri_secrets input) = []")
  case True
  then show ?thesis by (auto simp: keeps_def thenM_def bindM_def retM_def callM_frame calls_ok_snoc call_allowed_def)
next
  case False
  let ?S = "ri_secrets input" and ?c = "MarkSensitive (secret_texts (ri_secrets input))"
  have "calls_ok env input (rs_calls (snd (bindM (callM env ?S ?c) (\<lambda>_. callM env ?S (Screenshot masks full)) s)))"
    if "calls_ok env input (rs_calls s)" for s
  proof (cases "callM env ?S ?c s")
    case (Pair r s')
    then have "rs_calls s' = rs_calls s @ [?c]" using callM_frame(1) [of env ?S ?c s] by simp
    then have "calls_ok env input (rs_calls s')" "rs_calls s' \<noteq> []" "last (rs_calls s') = ?c"
      using that by (simp_all add: calls_ok_snoc call_allowed_def call_permitted_def)
    then show ?thesis using Pair
      by (auto simp: bindM_def callM_frame calls_ok_snoc call_allowed_def split: sum.splits)
  qed
  with False show ?thesis by (simp add: keeps_def thenM_def)
qed

interpretation history: journey_invariant "timeout_ok input" env input "\<lambda>s. calls_ok env input (rs_calls s)"
  for env :: "'u agent_env" and input
  by unfold_locales (simp_all add: calls_ok_call calls_ok_shot step_timeout_ok, simp add: timeout_ok_def)

text \<open>C7: The calls a run makes of the page. Every address the run itself opens, the start page and the
  targets of its NAVIGATE steps, passed the check of targets before it was opened; where the page
  goes on its own, by a click, a reload or the history, is not checked. The timeout of every call
  that has one lies between 100 milliseconds and two minutes, unless a step of the plan has a
  \<open>timeoutMs\<close> that is not a number, and a pause is never longer than such a timeout. Artifacts are
  only exchanged with HTTP addresses, and a screenshot is only taken right after the sensitive texts
  of the page were marked to be masked.\<close>

theorem calls_permitted:
  "calls_ok env input (rs_calls (snd (execute_run env input)))"
proof -
  let ?I = "\<lambda>s. calls_ok env input (rs_calls s)"
  let ?start = "render (ri_variables input) (fld (ri_definition input) ''startUrl'')"
  have new: "?I (new_run input)" by (simp add: new_run_def calls_ok_def)
  have "keeps ?I (finallyM (tryM (journey env input) (abandon_run env input)) (close_context env input))"
    if "?start = Inr start" "validate_target (ae_policy env) (ae_host env) start (ri_origins input) = Inr as" for start as
    by (intro keeps_rules history.keeps_journey history.keeps_ends history.keeps_close) (use that in auto)
  then show ?thesis using new
    by (auto simp: execute_run_def Let_def bindE_def keeps_def split: sum.splits)
qed

section \<open>The outcome of a run\<close>

definition at_record :: "step_result list \<Rightarrow> nat \<Rightarrow> run_state \<Rightarrow> bool" where
  "at_record rs n s \<longleftrightarrow> rs_steps s = rs \<and> rs_warnings s = n"

lemma at_record_call: "keeps (at_record rs n) (callM env secrets c)"
  by (simp add: keeps_def callM_frame at_record_def)

interpretation evidence: step_invariant "\<lambda>_. True" env input "at_record rs n"
  for env :: "'u agent_env" and input and rs :: "step_result list" and n
  by unfold_locales (auto simp: at_record_def intro!: keeps_rules at_record_call)

definition advisories :: "step_result list \<Rightarrow> nat" where
  "advisories rs = sum_list (map (\<lambda>r. length (filter is_advisory (sr_checks r))) rs)"

definition enabled_ids :: "jsval list \<Rightarrow> jsval list" where
  "enabled_ids xs = map (\<lambda>x. fld x ''id'') (filter (\<lambda>x. truthy (fld x ''enabled'')) xs)"

text \<open>Taking a computation that returned apart.\<close>

lemma returned_simps [simp]:
  "retM a s = (x, s') \<longleftrightarrow> x = Inr a \<and> s' = s"
  "getM f s = (x, s') \<longleftrightarrow> x = Inr (f s) \<and> s' = s"
  "updM g s = (y, s') \<longleftrightarrow> y = Inr () \<and> s' = g s"
  by (auto simp: retM_def getM_def updM_def)

lemma bind_returned:
  "bindM m f s = (Inr b, s'') \<longleftrightarrow> (\<exists>a s'. m s = (Inr a, s') \<and> f a s' = (Inr b, s''))"
  "thenM m n s = (Inr b, s'') \<longleftrightarrow> (\<exists>a s'. m s = (Inr a, s') \<and> n s' = (Inr b, s''))"
  by (auto simp: thenM_def bindM_def split: prod.splits sum.splits)

lemma bind_raised:
  "bindM m f s = (Inl e, s'') \<longleftrightarrow> m s = (Inl e, s'') \<or> (\<exists>a s'. m s = (Inr a, s') \<and> f a s' = (Inl e, s''))"
  "thenM m n s = (Inl e, s'') \<longleftrightarrow> m s = (Inl e, s'') \<or> (\<exists>a s'. m s = (Inr a, s') \<and> n s' = (Inl e, s''))"
  by (auto simp: thenM_def bindM_def split: prod.splits sum.splits)

lemma keeps_record_of:
  assumes "keeps (at_record (rs_steps s) (rs_warnings s)) m" "m s = (x, s')"
  shows "rs_steps s' = rs_steps s \<and> rs_warnings s' = rs_warnings s"
  using keepsD [OF assms] by (simp add: at_record_def)

lemma step_keeps_record:
  "execute_step env input i step s = (x, s') \<Longrightarrow> rs_steps s' = rs_steps s \<and> rs_warnings s' = rs_warnings s"
  by (rule keeps_record_of [OF evidence.keeps_step [OF TrueI]])

lemma step_id: "execute_step env input i step s = (Inr r, s') \<Longrightarrow> sr_step r = fld step ''id''"
  by (auto simp: execute_step_def bind_returned split: prod.splits)

lemma recorded:
  assumes "record_step step r s = (x, s')"
  shows "rs_steps s' = rs_steps s @ [r] \<and> (x = Inr () \<longrightarrow> rs_warnings s' = rs_warnings s + advisories [r])"
  using assms
  by (cases x) (auto simp: record_step_def bind_returned bind_raised emitM_def emit_event_def advisories_def liftM_def raiseM_def
      split: if_splits sum.splits)

text \<open>What \<open>new\<close>, the results of the steps, has to do with the way the steps ended.\<close>

definition steps_ended :: "jsval list \<Rightarrow> step_result list \<Rightarrow> exn + (jsval \<times> step_result) option \<Rightarrow> bool" where
  "steps_ended xs new ended \<longleftrightarrow> list_all (\<lambda>r. \<not> stops_run r) (butlast new)
     \<and> (ended = Inr None \<longrightarrow> list_all (\<lambda>r. \<not> stops_run r) new \<and> map sr_step new = enabled_ids xs)
     \<and> (\<forall>x r. ended = Inr (Some (x, r)) \<longrightarrow> x \<in> set xs \<and> new \<noteq> [] \<and> last new = r \<and> stops_run r)"

lemma steps_ended_Cons:
  assumes "steps_ended xs new ended" "\<not> stops_run r" "sr_step r = fld step ''id''" "truthy (fld step ''enabled'')"
  shows "steps_ended (step # xs) (r # new) ended"
  using assms by (cases "new = []") (auto simp: steps_ended_def enabled_ids_def)

lemma advisories_simps [simp]:
  "advisories [] = 0" "advisories (r # rs) = length (filter is_advisory (sr_checks r)) + advisories rs"
  by (simp_all add: advisories_def)

lemma run_steps_ended:
  "run_steps env input i xs s = (ended, s') \<Longrightarrow>
     \<exists>new. rs_steps s' = rs_steps s @ new \<and> steps_ended xs new ended
       \<and> (\<forall>v. ended = Inr v \<longrightarrow> rs_warnings s' = rs_warnings s + advisories new)"
proof (induction xs arbitrary: i s)
  case Nil
  then show ?case by (intro exI [of _ "[]"]) (simp add: steps_ended_def advisories_def enabled_ids_def)
next
  case (Cons step xs)
  let ?enabled = "truthy (fld step ''enabled'')"
  consider (none) "rs_steps s' = rs_steps s" "\<exists>e. ended = Inl e"
    | (skip) "\<not> ?enabled" "run_steps env input (i + 1) xs s = (ended, s')"
    | (written) r t e where "?enabled" "execute_step env input i step s = (Inr r, t)"
        "record_step step r t = (Inl e, s')" "ended = Inl e"
    | (stop) r t where "?enabled" "execute_step env input i step s = (Inr r, t)"
        "record_step step r t = (Inr (), s')" "stops_run r" "ended = Inr (Some (step, r))"
    | (go_on) r t t' where "?enabled" "execute_step env input i step s = (Inr r, t)"
        "record_step step r t = (Inr (), t')" "\<not> stops_run r" "run_steps env input (i + 1) xs t' = (ended, s')"
    using Cons.prems step_keeps_record [of env input i step s]
    by (cases ended)
      (auto simp: bind_returned bind_raised fieldM_def raiseM_def split: if_splits, blast)
  then show ?case
  proof cases
    case none
    then show ?thesis by (intro exI [of _ "[]"]) (auto simp: steps_ended_def)
  next
    case skip
    then show ?thesis using Cons.IH [OF skip(2)] by (auto simp: steps_ended_def enabled_ids_def)
  next
    case written
    then show ?thesis using step_keeps_record [OF written(2)] recorded [OF written(3)]
      by (intro exI [of _ "[r]"]) (simp add: steps_ended_def)
  next
    case stop
    then show ?thesis using step_keeps_record [OF stop(2)] recorded [OF stop(3)]
      by (intro exI [of _ "[r]"]) (simp add: steps_ended_def)
  next
    case go_on
    obtain new where "rs_steps s' = rs_steps t' @ new" "steps_ended xs new ended"
      "\<forall>v. ended = Inr v \<longrightarrow> rs_warnings s' = rs_warnings t' + advisories new"
      using Cons.IH [OF go_on(5)] by blast
    then show ?thesis
      using step_keeps_record [OF go_on(2)] recorded [OF go_on(3)] steps_ended_Cons step_id [OF go_on(2)] go_on(1,4)
      by (intro exI [of _ "r # new"]) simp
  qed
qed

text \<open>The end of a run reports the steps and warnings that were recorded.\<close>

lemma finish_reports:
  assumes "finish_run env input status c r f m s = (Inr res, s')"
  shows "rr_status res = js status \<and> rr_steps res = rs_steps s \<and> rr_warnings res = rs_warnings s"
proof -
  have "rr_status res = js status \<and> rr_steps res = rs_steps s' \<and> rr_warnings res = rs_warnings s'"
    using assms by (auto simp: finish_run_def bind_returned)
  then show ?thesis using keeps_record_of [OF evidence.keeps_finish assms] by simp
qed

definition run_succeeded :: "run_result \<Rightarrow> bool" where
  "run_succeeded res \<longleftrightarrow> rr_status res \<in> {js ''SUCCESS'', js ''SUCCESS_WITH_WARNINGS''}"

definition outcome_ok :: "run_input \<Rightarrow> run_result \<Rightarrow> bool" where
  "outcome_ok input res \<longleftrightarrow> list_all (\<lambda>r. \<not> stops_run r) (butlast (rr_steps res))
     \<and> (if run_succeeded res
        then list_all (\<lambda>r. \<not> stops_run r) (rr_steps res) \<and> map sr_step (rr_steps res) = enabled_ids (journey_steps input)
          \<and> rr_warnings res = advisories (rr_steps res)
          \<and> (rr_status res = js ''SUCCESS'' \<longleftrightarrow> rr_warnings res = 0)
        else rr_status res = js ''FAILED'')"

definition part_ok :: "run_input \<Rightarrow> (exn + run_result) \<times> run_state \<Rightarrow> bool" where
  "part_ok input p \<longleftrightarrow> list_all (\<lambda>r. \<not> stops_run r) (butlast (rs_steps (snd p)))
     \<and> (\<forall>res. fst p = Inr res \<longrightarrow> outcome_ok input res)"

lemma bind_from:
  assumes "keeps J m" "\<And>e s'. J s' \<Longrightarrow> P (Inl e, s')" "\<And>a s'. J s' \<Longrightarrow> P (f a s')" "J s"
  shows "P (bindM m f s)"
proof (cases "m s")
  case (Pair r s')
  with assms(1,4) have "J s'" by (blast dest: keepsD)
  with assms(2,3) Pair show ?thesis by (auto simp: bindM_def split: sum.splits)
qed

lemma then_from:
  assumes "keeps J m" "\<And>e s'. J s' \<Longrightarrow> P (Inl e, s')" "\<And>s'. J s' \<Longrightarrow> P (n s')" "J s"
  shows "P (thenM m n s)"
  unfolding thenM_def using assms by (rule bind_from)

lemma finish_failed:
  assumes "at_record rs n s" "list_all (\<lambda>r. \<not> stops_run r) (butlast rs)"
  shows "part_ok input (finish_run env input ''FAILED'' c r f m s)"
proof (cases "finish_run env input ''FAILED'' c r f m s")
  case (Pair x s')
  then have "rs_steps s' = rs" using keeps_record_of [OF evidence.keeps_finish Pair] assms(1) by (simp add: at_record_def)
  then show ?thesis using Pair finish_reports [of env input "''FAILED''" c r f m s] assms
    by (auto simp: part_ok_def outcome_ok_def run_succeeded_def at_record_def js_def)
qed

lemma fail_part:
  assumes "at_record rs n s" "list_all (\<lambda>r. \<not> stops_run r) (butlast rs)"
  shows "part_ok input (fail_run env input step r s)"
proof -
  have raised: "part_ok input (Inl e, t)" if "at_record rs n t" for e t
    using that assms(2) by (simp add: part_ok_def at_record_def)
  show ?thesis unfolding fail_run_def
    by (rule bind_from [where J = "at_record rs n"], rule evidence.keeps_performance, erule raised)
      (rule then_from [where J = "at_record rs n"], rule evidence.keeps_final, erule raised,
        auto intro: finish_failed [OF _ assms(2)] assms(1))
qed

lemma abandon_part:
  assumes "at_record rs n s" "list_all (\<lambda>r. \<not> stops_run r) (butlast rs)"
  shows "part_ok input (abandon_run env input e s)"
proof -
  let ?J = "at_record rs n"
  have raised: "part_ok input (Inl e', t)" if "?J t" for e' t
    using that assms(2) by (simp add: part_ok_def at_record_def)
  note step = bind_from [where J = ?J and P = "part_ok input", OF _ raised]
    then_from [where J = ?J and P = "part_ok input", OF _ raised]
  show ?thesis unfolding abandon_run_def Let_def
    by (intro step) (auto intro!: keeps_rules evidence.keeps_performance evidence.keeps_final evidence.updates
        intro: finish_failed [OF _ assms(2)] assms(1))
qed

lemma complete_part:
  assumes "rs_warnings s = advisories rs" "rs_steps s = rs" "list_all (\<lambda>r. \<not> stops_run r) rs"
    "map sr_step rs = enabled_ids (journey_steps input)"
  shows "part_ok input (complete_run env input s)"
proof -
  let ?J = "at_record rs (advisories rs)"
  have butlast: "list_all (\<lambda>r. \<not> stops_run r) (butlast rs)"
    using assms(3) by (auto simp: list_all_iff dest: in_set_butlastD)
  have raised: "part_ok input (Inl e', t)" if "?J t" for e' t
    using that butlast by (simp add: part_ok_def at_record_def)
  note step = bind_from [where J = ?J and P = "part_ok input", OF _ raised]
    then_from [where J = ?J and P = "part_ok input", OF _ raised]
  have last: "part_ok input (finish_run env input (if k \<noteq> 0 then ''SUCCESS_WITH_WARNINGS'' else ''SUCCESS'') c r f m t)"
    if t: "?J t" and k: "k = advisories rs" for k c r f m t
  proof (cases "finish_run env input (if k \<noteq> 0 then ''SUCCESS_WITH_WARNINGS'' else ''SUCCESS'') c r f m t")
    case (Pair x s')
    then have "rs_steps s' = rs" using keeps_record_of [OF evidence.keeps_finish Pair] t by (simp add: at_record_def)
    then show ?thesis
      using Pair finish_reports [of env input "if k \<noteq> 0 then ''SUCCESS_WITH_WARNINGS'' else ''SUCCESS''" c r f m t] t k butlast assms(3,4)
      by (cases "k = 0") (auto simp: part_ok_def outcome_ok_def run_succeeded_def at_record_def js_def)
  qed
  have warned: "part_ok input (bindM (getM rs_warnings) (\<lambda>k. finish_run env input
      (if k \<noteq> 0 then ''SUCCESS_WITH_WARNINGS'' else ''SUCCESS'') c r f m) t)" if "?J t" for c r f m t
    using last [OF that] that by (simp add: bindM_def getM_def at_record_def)
  show ?thesis unfolding complete_run_def
    by (rule step(1), rule evidence.keeps_performance, assumption, rule step(2), rule evidence.keeps_final,
        assumption, erule warned, assumption, simp add: assms at_record_def)
qed

lemma tail_part:
  assumes "at_record [] 0 s"
  shows "part_ok input (bindM (run_steps env input 0 (journey_steps input)) (\<lambda>stopped.
    case stopped of Some (step, r) \<Rightarrow> fail_run env input step r | None \<Rightarrow> complete_run env input) s)"
proof (cases "run_steps env input 0 (journey_steps input) s")
  case (Pair ended s')
  then have ended: "steps_ended (journey_steps input) (rs_steps s') ended"
    "\<forall>v. ended = Inr v \<longrightarrow> rs_warnings s' = advisories (rs_steps s')"
    using run_steps_ended [OF Pair] assms by (auto simp: at_record_def)
  then have butlast: "list_all (\<lambda>r. \<not> stops_run r) (butlast (rs_steps s'))" by (simp add: steps_ended_def)
  have now: "at_record (rs_steps s') (rs_warnings s') s'" by (simp add: at_record_def)
  consider e where "ended = Inl e" | "ended = Inr None" | x r where "ended = Inr (Some (x, r))"
    by (cases ended) (auto, metis not_Some_eq surj_pair)
  then show ?thesis
  proof cases
    case 1
    then show ?thesis using Pair butlast by (simp add: bindM_def part_ok_def)
  next
    case 2
    then show ?thesis using Pair ended complete_part [OF _ refl, of s' input env]
      by (simp add: bindM_def steps_ended_def)
  next
    case 3
    then show ?thesis using Pair fail_part [OF now butlast] by (simp add: bindM_def)
  qed
qed

lemma journey_part:
  assumes "at_record [] 0 s"
  shows "part_ok input (journey env input s)"
proof -
  let ?J = "at_record [] 0"
  have raised: "part_ok input (Inl e', t)" if "?J t" for e' t
    using that by (simp add: part_ok_def at_record_def)
  have upd: "keeps ?J (updM (\<lambda>s. s\<lparr>rs_context := True\<rparr>))" "keeps ?J (updM (\<lambda>s. s\<lparr>rs_page := True\<rparr>))"
    by (auto intro!: keeps_upd simp: at_record_def)
  note step = bind_from [where J = ?J and P = "part_ok input", OF _ raised]
    then_from [where J = ?J and P = "part_ok input", OF _ raised]
  show ?thesis unfolding journey_def
    by ((rule step, rule keeps_lift at_record_call upd evidence.updates(1), assumption)+, rule tail_part, assumption+, rule assms)
qed

lemma finally_returned: "finallyM m n s = (Inr a, s'') \<Longrightarrow> \<exists>s'. m s = (Inr a, s')"
  by (auto simp: finallyM_def tryM_def bindM_def thenM_def retM_def raiseM_def split: prod.splits sum.splits)

text \<open>C6: A run is reported as a success only when every enabled step was performed, in order, and none failed or had a blocking check that failed; it is reported with warnings when advisory checks failed, and their number is right. Otherwise it is reported as failed, and no step was performed after the one that stopped it.\<close>

theorem run_outcome:
  assumes "execute_run env input = (Inr res, s)"
  shows "outcome_ok input res"
proof -
  obtain s' where run: "tryM (journey env input) (abandon_run env input) (new_run input) = (Inr res, s')"
    using assms finally_returned by (fastforce simp: execute_run_def Let_def split: sum.splits)
  have first: "part_ok input (journey env input (new_run input))"
    by (rule journey_part) (simp add: at_record_def new_run_def)
  show ?thesis
  proof (cases "journey env input (new_run input)")
    case (Pair x t)
    show ?thesis
    proof (cases x)
      case (Inl e)
      have "part_ok input (abandon_run env input e t)"
        using first Pair by (intro abandon_part) (auto simp: at_record_def part_ok_def)
      then show ?thesis using run Pair Inl by (simp add: tryM_def part_ok_def)
    next
      case (Inr r)
      then show ?thesis using run Pair first by (auto simp: tryM_def part_ok_def)
    qed
  qed
qed

text \<open>A run of one step that extracts nothing, in a browser that answers every call.\<close>

definition sample_env :: "nat agent_env" where
  "sample_env =
     \<lparr>ae_policy = \<lparr>tp_unrestricted = True, tp_allow_private = True, tp_hosts = [], tp_blocks = []\<rparr>,
      ae_host = \<lparr>th_url = \<lambda>_. Some \<lparr>wu_protocol = js ''https:'', wu_origin = js ''https://shop'', wu_hostname = js ''shop''\<rparr>,
        th_lookup = \<lambda>_. Inr []\<rparr>,
      ae_regexp = \<lambda>_. None, ae_engine = \<lambda>_. [], ae_codec = \<lparr>uc_parse = \<lambda>_. None, uc_params = \<lambda>_. [], uc_print = \<lambda>_ _. []\<rparr>, ae_inherits = \<lambda>_ _. False,
      ae_read_png = \<lambda>_. None, ae_pixelmatch = \<lambda>_ _. None, ae_page = \<lambda>_ _. ([], Inr (JStr (js ''x'')))\<rparr>"

definition sample_input :: run_input where
  "sample_input =
     \<lparr>ri_run = JStr (js ''r''), ri_monitor = JStr (js ''m''),
      ri_definition = JObj [(js ''startUrl'', JStr (js ''https://shop/'')), (js ''profile'', JObj []),
        (js ''steps'', JArr [JObj [(js ''id'', JStr (js ''s1'')), (js ''name'', JStr (js ''s'')), (js ''type'', JStr (js ''EXTRACT'')), (js ''enabled'', JBool True)],
          JObj [(js ''id'', JStr (js ''s2'')), (js ''type'', JStr (js ''CLICK'')), (js ''enabled'', JBool False)]])],
      ri_variables = [], ri_secrets = [], ri_baselines = JUndef, ri_origins = [], ri_slots = JUndef, ri_storage = JUndef\<rparr>"

definition status_of :: "(exn + run_result) \<times> run_state \<Rightarrow> jsstr" where
  "status_of p = (case fst p of Inr res \<Rightarrow> rr_status res | Inl _ \<Rightarrow> [])"

lemma sample_runs: "status_of (execute_run sample_env sample_input) = js ''SUCCESS''"
  by code_simp

lemma run_outcome_witness:
  "\<exists>res. fst (execute_run sample_env sample_input) = Inr res \<and> run_succeeded res
     \<and> map sr_step (rr_steps res) = [JStr (js ''s1'')]"
proof (cases "execute_run sample_env sample_input")
  case (Pair x s)
  with sample_runs obtain res where res: "x = Inr res" "run_succeeded res"
    by (cases x) (auto simp: status_of_def run_succeeded_def js_def)
  have "enabled_ids (journey_steps sample_input) = [JStr (js ''s1'')]" by code_simp
  with run_outcome [OF Pair [unfolded res(1)]] Pair res show ?thesis by (simp add: outcome_ok_def)
qed

end
