(* ===== verification/Admission_Facts.thy ===== *)
theory Admission_Facts
  imports Agent_Run
begin

text \<open>
  The server that admits runs, as a step relation: requests arrive and runs end in any order. The
  invariant ties the counter to the runs that go on and the answers to the requests.
\<close>

inductive_cases server_stepE: "server_step cfg s s'"

definition authorised :: "server_config \<Rightarrow> agent_request \<Rightarrow> bool" where
  "authorised cfg r \<longleftrightarrow> aq_verb r = js ''POST'' \<and> aq_path r = js ''/v1/execute''
     \<and> constant_time_equal (sc_subtle cfg) (aq_credential r) (js ''Bearer '' @ sc_token cfg)"

lemma admitted_iff:
  "admit cfg n r = Admitted \<longleftrightarrow> authorised cfg r \<and> \<not> num_le (sc_capacity cfg) (nnum n)"
  by (auto simp: admit_def authorised_def js_def)

lemma status_admitted: "status_code a = 422 \<longleftrightarrow> False" "admit cfg n r \<noteq> Admitted \<Longrightarrow> status_code (admit cfg n r) = 200 \<Longrightarrow> aq_path r = js ''/healthz''"
  by (auto simp: status_code_def admit_def split: admission.splits if_splits)

text \<open>Every request was seen once and is either going on or was answered once.\<close>

definition requests_kept :: "server_state \<Rightarrow> bool" where
  "requests_kept s \<longleftrightarrow> distinct (map fst (sv_seen s)) \<and> distinct (sv_running s @ map fst (sv_answers s))
     \<and> set (sv_running s) \<union> fst ` set (sv_answers s) = fst ` set (sv_seen s)"

definition runs_authorised :: "server_config \<Rightarrow> server_state \<Rightarrow> bool" where
  "runs_authorised cfg s \<longleftrightarrow> (\<forall>i\<in>set (sv_running s). \<exists>r. (i, r) \<in> set (sv_seen s) \<and> authorised cfg r)
     \<and> (\<forall>(i, code)\<in>set (sv_answers s). code = 422 \<longrightarrow> (\<exists>r. (i, r) \<in> set (sv_seen s) \<and> authorised cfg r))"

lemma step_requests: "server_step cfg s s' \<Longrightarrow> requests_kept s \<Longrightarrow> requests_kept s'"
  by (induction rule: server_step.induct) (auto simp: requests_kept_def)

lemma step_counter:
  "server_step cfg s s' \<Longrightarrow> sv_active s = length (sv_running s) \<Longrightarrow> sv_active s' = length (sv_running s')"
  by (induction rule: server_step.induct) (auto simp: length_remove1)

lemma step_authorised: "server_step cfg s s' \<Longrightarrow> runs_authorised cfg s \<Longrightarrow> runs_authorised cfg s'"
proof (induction rule: server_step.induct)
  case (run_ends i s code)
  then show ?case using set_remove1_subset [of i "sv_running s"] by (fastforce simp: runs_authorised_def)
qed (fastforce simp: runs_authorised_def admitted_iff status_admitted)+

lemma step_capacity:
  assumes "server_step cfg s s'" "sc_capacity cfg = Fin c" "of_nat (sv_active s) < c + 1"
  shows "of_nat (sv_active s') < c + 1"
  using assms
proof (induction rule: server_step.induct)
  case (run_ends i s code)
  moreover have "(of_nat (sv_active s - 1) :: rat) \<le> of_nat (sv_active s)" by simp
  ultimately show ?case by simp
qed (auto simp: admitted_iff num_le_def)

lemma reached_server:
  "server_reaches cfg s \<Longrightarrow> requests_kept s \<and> sv_active s = length (sv_running s) \<and> runs_authorised cfg s"
proof (induction rule: server_reaches.induct)
  case (server_next s s')
  then show ?case using step_requests step_counter step_authorised by blast
qed (simp add: new_server_def requests_kept_def runs_authorised_def)

lemma reached_capacity:
  "server_reaches cfg s \<Longrightarrow> sc_capacity cfg = Fin c \<Longrightarrow> 0 \<le> c \<Longrightarrow> of_nat (sv_active s) < c + 1"
  by (induction rule: server_reaches.induct) (auto simp: new_server_def dest: step_capacity)

lemma capacity_cases:
  "capacity_of v = NaN \<or> capacity_of v = Infinite False \<or> (\<exists>c\<ge>1. capacity_of v = Fin c)"
  using num_max_Fin_cases [of "str_to_num v" 1] num_max_Fin_cases [of "Fin 2" 1]
  by (auto simp: capacity_of_def num_max_def)

text \<open>C9: Whatever the order in which requests arrive and runs end, the server counts exactly the runs that go on, stays at its capacity where that is a number, answers every request at most once, and has run none whose credential was not accepted.\<close>

theorem admission_bounded:
  assumes "server_reaches cfg s" and "sc_capacity cfg = capacity_of v"
  shows "sv_active s = length (sv_running s)
    \<and> distinct (sv_running s @ map fst (sv_answers s))
    \<and> set (sv_running s) \<union> fst ` set (sv_answers s) = fst ` set (sv_seen s)
    \<and> (\<forall>i\<in>set (sv_running s). \<exists>r. (i, r) \<in> set (sv_seen s) \<and> authorised cfg r)
    \<and> (\<forall>(i, code)\<in>set (sv_answers s). code = 422 \<longrightarrow> (\<exists>r. (i, r) \<in> set (sv_seen s) \<and> authorised cfg r))
    \<and> (capacity_of v = NaN \<or> capacity_of v = Infinite False
        \<or> (\<exists>c\<ge>1. capacity_of v = Fin c \<and> of_nat (sv_active s) < c + 1))"
  using reached_server [OF assms(1)] capacity_cases [of v] reached_capacity [OF assms(1)] assms(2)
  by (auto simp: requests_kept_def runs_authorised_def)

definition sample_server :: server_config where
  "sample_server = \<lparr>sc_token = js ''t'', sc_subtle = False, sc_capacity = capacity_of []\<rparr>"

definition sample_request :: agent_request where
  "sample_request = \<lparr>aq_verb = js ''POST'', aq_path = js ''/v1/execute'', aq_credential = js ''Bearer t''\<rparr>"

definition one_run :: server_state where
  "one_run = new_server\<lparr>sv_active := 1, sv_running := [7], sv_seen := [(7, sample_request)]\<rparr>"

lemma one_run_reached: "server_reaches sample_server one_run"
proof -
  have "admit sample_server (sv_active new_server) sample_request = Admitted" by code_simp
  then have "server_step sample_server new_server one_run"
    using arrive_admitted [of 7 new_server sample_server sample_request] by (simp add: new_server_def one_run_def)
  then show ?thesis by (blast intro: server_start server_next)
qed

lemma admission_bounded_witness:
  "server_reaches sample_server one_run \<and> sv_running one_run = [7] \<and> authorised sample_server sample_request"
  using admission_bounded [OF one_run_reached, of "[]"] one_run_reached
  by (simp add: sample_server_def one_run_def new_server_def)

text \<open>C31: When no run goes on, the next request with the right credential is admitted, whatever the capacity was set to.\<close>

theorem idle_admits:
  assumes "server_reaches cfg s" "sc_capacity cfg = capacity_of v" "sv_running s = []" "authorised cfg r"
  shows "admit cfg (sv_active s) r = Admitted"
proof -
  have "sv_active s = 0" using reached_server [OF assms(1)] assms(3) by simp
  then show ?thesis using assms(2,4) capacity_cases [of v] by (auto simp: admitted_iff num_le_def)
qed

lemma idle_admits_witness: "admit sample_server (sv_active new_server) sample_request = Admitted"
  by (rule idle_admits [where v = "[]"]) (simp add: server_start, simp add: sample_server_def, simp add: new_server_def, code_simp)

text \<open>A capacity that is not a number is no limit: an authorised request is always admitted.\<close>

lemma capacity_missing: "capacity_of (js ''two'') = NaN"
  by code_simp

lemma no_limit: "sc_capacity cfg = NaN \<Longrightarrow> authorised cfg r \<Longrightarrow> admit cfg n r = Admitted"
  by (simp add: admitted_iff num_le_def)

end
