(* ===== verification/Web_Server.thy ===== *)
theory Web_Server
  imports Script_Packages Js_Regex "HOL-Library.AList"
begin

text \<open>
  The server in front of the web client, \<open>apps/web/server.mjs\<close>: which handler a request reaches, the
  files it serves, the requests it passes on to the API, the headers of its responses, and the limited
  reports of errors. The file system, the digest, the URL parser and the answers of the API and of the
  rendered application are parameters; names of headers arrive in lower case, as Node gives them.
\<close>

section \<open>Headers\<close>

type_synonym web_headers = "(jsstr \<times> jsstr) list"

definition header_get :: "string \<Rightarrow> web_headers \<Rightarrow> jsstr" where \<comment> \<open>\<open>headers[name] ?? ""\<close>\<close>
  "header_get k hs = (case map_of hs (js k) of Some v \<Rightarrow> v | None \<Rightarrow> [])"

definition header_put :: "string \<Rightarrow> jsstr \<Rightarrow> web_headers \<Rightarrow> web_headers" where
  "header_put k v hs = AList.update (js k) v hs"

definition word_re :: "string \<Rightarrow> re" where
  "word_re w = Seq WordB (Seq (lit_re (js w)) WordB)"

definition accepted_encoding :: "web_headers \<Rightarrow> jsstr option" where
  "accepted_encoding hs =
     (let v = header_get ''accept-encoding'' hs in
      if rtest (word_re ''br'') v then Some (js ''br'')
      else if rtest (word_re ''gzip'') v then Some (js ''gzip'') else None)"

definition text_type_re :: re where \<comment> \<open>\<open>/(?:text\/|json|javascript|svg|xml)/i\<close>\<close>
  "text_type_re = alt_re (map (\<lambda>w. lit_i_re (js w)) [''text/'', ''json'', ''javascript'', ''svg'', ''xml''])"

fun add_part :: "jsstr list \<Rightarrow> jsstr \<Rightarrow> jsstr list" where \<comment> \<open>\<open>Set.add\<close>\<close>
  "add_part ps p = (if p \<in> set ps then ps else ps @ [p])"

definition vary_parts :: "jsstr \<Rightarrow> jsstr list" where
  "vary_parts v = foldl add_part [] (filter (\<lambda>p. p \<noteq> []) (map trim (split_on 44 v)))"

definition append_vary :: "jsstr \<Rightarrow> jsstr \<Rightarrow> jsstr" where
  "append_vary v name = join (js '', '') (add_part (vary_parts v) name)"

section \<open>Responses\<close>

record upstream =
  ur_status :: nat
  ur_headers :: web_headers
  ur_cookies :: "jsstr list"
  ur_body :: bool

datatype web_body = NoBody | Stream "jsstr option" \<comment> \<open>compressed by an encoding, or as it is\<close>
  | Literal jsstr | FileBody jsstr "jsstr option"

record sent =
  sn_status :: nat
  sn_headers :: web_headers
  sn_cookies :: "jsstr list"
  sn_body :: web_body

definition should_compress :: "web_headers \<Rightarrow> upstream \<Rightarrow> bool" where
  "should_compress request r \<longleftrightarrow>
     ur_status r \<notin> {204, 304} \<and> map_of (ur_headers r) (js ''content-encoding'') = None
     \<and> rtest text_type_re (header_get ''content-type'' (ur_headers r)) \<and> accepted_encoding request \<noteq> None"

definition send_response :: "jsstr \<Rightarrow> web_headers \<Rightarrow> upstream \<Rightarrow> sent" where
  "send_response verb request r =
     (let h0 = ur_headers r;
          h1 = (if header_get ''cache-control'' h0 = []
                then header_put ''cache-control'' (js ''private, no-cache, no-store'') h0 else h0);
          h2 = header_put ''vary'' (append_vary (header_get ''vary'' h1) (js ''Accept-Encoding'')) h1;
          h3 = header_put ''x-content-type-options'' (js ''nosniff'') h2;
          encoding = (if should_compress request r then accepted_encoding request else None);
          h4 = (case encoding of
                  Some e \<Rightarrow> AList.delete (js ''content-length'') (header_put ''content-encoding'' e h3)
                | None \<Rightarrow> h3)
      in \<lparr>sn_status = ur_status r, sn_headers = h4, sn_cookies = ur_cookies r,
          sn_body = (if \<not> ur_body r \<or> verb = js ''HEAD'' then NoBody else Stream encoding)\<rparr>)"

definition answer :: "nat \<Rightarrow> (string \<times> string) list \<Rightarrow> web_body \<Rightarrow> sent" where
  "answer status hs body =
     \<lparr>sn_status = status, sn_headers = map (map_prod js js) hs, sn_cookies = [], sn_body = body\<rparr>"

definition json_headers :: "(string \<times> string) list" where
  "json_headers = [(''Cache-Control'', ''no-store''), (''Content-Type'', ''application/json; charset=utf-8'')]"

section \<open>Files\<close>

record file_info =
  fi_file :: bool
  fi_size :: nat
  fi_time :: jsstr

definition cache_control :: "jsstr \<Rightarrow> jsstr" where
  "cache_control pathname =
     js (if starts_with (js ''/assets/'') pathname then ''public, max-age=31536000, immutable''
         else ''public, max-age=3600, stale-while-revalidate=86400'')"

definition content_types :: "(string \<times> string) list" where
  "content_types =
     [(''.css'', ''text/css; charset=utf-8''), (''.js'', ''text/javascript; charset=utf-8''),
      (''.mjs'', ''text/javascript; charset=utf-8''), (''.json'', ''application/json; charset=utf-8''),
      (''.woff2'', ''font/woff2''), (''.png'', ''image/png''), (''.svg'', ''image/svg+xml''),
      (''.ico'', ''image/x-icon''), (''.txt'', ''text/plain; charset=utf-8'')]"

definition file_extension :: "jsstr \<Rightarrow> jsstr" where \<comment> \<open>\<open>extname\<close> of a path that does not end in a slash\<close>
  "file_extension path =
     (let name = last (split_on 47 path); after = takeWhile (\<lambda>c. c \<noteq> 46) (rev name); n = length name - length after in
      if n < 2 \<or> name = js ''..'' then [] else drop (n - 1) name)"

definition content_type :: "jsstr \<Rightarrow> jsstr" where
  "content_type path =
     (case map_of (map (map_prod js js) content_types) (file_extension path) of
        Some t \<Rightarrow> t | None \<Rightarrow> js ''application/octet-stream'')"

text \<open>\<open>normalize\<close> and \<open>join\<close> of \<open>node:path\<close> on absolute paths: empty and dot segments go, a double dot removes the segment before it.\<close>

definition path_normal :: "jsstr \<Rightarrow> jsstr" where
  "path_normal p =
     (let ps = path_parts p in
      js ''/'' @ join (js ''/'') ps @ (if ps \<noteq> [] \<and> last p = 47 then js ''/'' else []))"

definition path_below :: "jsstr \<Rightarrow> jsstr \<Rightarrow> jsstr" where
  "path_below dir relative = path_normal (if relative = [] then dir else dir @ js ''/'' @ relative)"

definition public_files :: "jsstr list" where
  "public_files = map js [''/favicon.ico'', ''/brand-logo.png'', ''/manifest.json'', ''/robots.txt'']"

text \<open>The file a decoded path stands for, where it stands for one at all.\<close>

definition static_path :: "jsstr \<Rightarrow> jsstr \<Rightarrow> jsstr option" where
  "static_path dir pathname =
     (if pathname = js ''/'' \<or> \<not> starts_with (js ''/assets/'') pathname \<and> pathname \<notin> set public_files then None
      else
        let absolute = path_below dir (dropWhile (\<lambda>c. c \<in> {47, 92}) (path_normal pathname)) in
        if starts_with dir absolute then Some absolute else None)"

definition etag_key :: "jsstr \<Rightarrow> file_info \<Rightarrow> jsstr" where
  "etag_key path info = path @ js '':'' @ dec (fi_size info) @ js '':'' @ fi_time info"

definition strong_etag :: "(jsstr \<Rightarrow> jsstr) \<Rightarrow> jsstr \<Rightarrow> file_info \<Rightarrow> web_headers \<Rightarrow> jsstr \<times> web_headers" where
  "strong_etag digest path info etags =
     (let key = etag_key path info in
      case map_of etags key of
        Some t \<Rightarrow> (t, etags)
      | None \<Rightarrow> let t = [34] @ digest key @ [34] in (t, AList.update key t etags))"

text \<open>\<open>None\<close> when the request goes on to the application.\<close>

definition serve_static ::
    "jsstr \<Rightarrow> (jsstr \<Rightarrow> file_info option) \<Rightarrow> (jsstr \<Rightarrow> jsstr) \<Rightarrow> web_headers \<Rightarrow> jsstr \<Rightarrow> web_headers \<Rightarrow> sent option \<times> web_headers" where
  "serve_static dir files digest request pathname etags =
     (case static_path dir pathname of
        None \<Rightarrow> (None, etags)
      | Some path \<Rightarrow>
          case files path of
            None \<Rightarrow>
              (if starts_with (js ''/assets/'') pathname
               then Some (answer 404
                 [(''Cache-Control'', ''no-store''), (''Content-Type'', ''text/plain; charset=utf-8''), (''X-Content-Type-Options'', ''nosniff'')]
                 (Literal (js ''Asset is no longer available. Reload the application.'')))
               else None, etags)
          | Some info \<Rightarrow>
              if \<not> fi_file info then (None, etags)
              else
                case strong_etag digest path info etags of
                  (etag, etags') \<Rightarrow>
                    if map_of request (js ''if-none-match'') = Some etag
                    then (Some \<lparr>sn_status = 304, sn_headers = [(js ''ETag'', etag), (js ''Cache-Control'', cache_control pathname)],
                            sn_cookies = [], sn_body = NoBody\<rparr>, etags')
                    else
                      let encoding = accepted_encoding request in
                      (Some \<lparr>sn_status = 200,
                         sn_headers =
                           [(js ''Cache-Control'', cache_control pathname), (js ''Content-Type'', content_type path),
                            (js ''ETag'', etag), (js ''Vary'', js ''Accept-Encoding''),
                            (js ''X-Content-Type-Options'', js ''nosniff'')]
                           @ (case encoding of Some e \<Rightarrow> [(js ''Content-Encoding'', e)] | None \<Rightarrow> []),
                         sn_cookies = [], sn_body = FileBody path encoding\<rparr>, etags'))"

section \<open>Reports of errors\<close>

record error_window =
  ew_count :: nat
  ew_started :: int

definition accept_client_error :: "int \<Rightarrow> error_window \<Rightarrow> bool \<times> error_window" where
  "accept_client_error now w =
     (let w = (if 60000 \<le> now - ew_started w then \<lparr>ew_count = 0, ew_started = now\<rparr> else w);
          w' = w\<lparr>ew_count := ew_count w + 1\<rparr>
      in (ew_count w' \<le> 60, w'))"

definition origin_re :: re where \<comment> \<open>\<open>/https?:\/\/[^/\s]+/gi\<close>\<close>
  "origin_re =
     seq_re [lit_i_re (js ''http''), opt_re (unit_i_re 115), lit_re (js ''://''),
       plus_re (Cls True [(47, 47), (9, 13), (32, 32), (160, 160), (5760, 5760), (8192, 8202), (8232, 8233),
         (8239, 8239), (8287, 8287), (12288, 12288), (65279, 65279)])]"

definition nonspace_but :: "code_unit list \<Rightarrow> re" where \<comment> \<open>\<open>[^\s\<dots>]\<close>\<close>
  "nonspace_but cs =
     Cls True ([(9, 13), (32, 32), (160, 160), (5760, 5760), (8192, 8202), (8232, 8233), (8239, 8239), (8287, 8287),
       (12288, 12288), (65279, 65279)] @ map (\<lambda>c. (c, c)) cs)"

definition bearer_re :: re where \<comment> \<open>\<open>/\b(Bearer|Api-Token)\s+[^\s,;]+/gi\<close>\<close>
  "bearer_re =
     seq_re [WordB, Grp 1 (Alt (lit_i_re (js ''Bearer'')) (lit_i_re (js ''Api-Token''))), plus_re space_re,
       plus_re (nonspace_but [44, 59])]"

definition secret_words :: "string list \<Rightarrow> re" where
  "secret_words ws = alt_re (map (\<lambda>w. lit_i_re (js w)) ws)"

definition parameter_re :: re where \<comment> \<open>\<open>/([?&](?:token|key|secret|password|authorization)=)[^&\s)]+/gi\<close>\<close>
  "parameter_re =
     seq_re [Grp 1 (seq_re [Cls False [(63, 63), (38, 38)],
         secret_words [''token'', ''key'', ''secret'', ''password'', ''authorization''], unit_re 61]),
       plus_re (nonspace_but [38, 41])]"

definition quote_re :: re where
  "quote_re = Cls False [(34, 34), (39, 39)]"

definition field_re :: re where \<comment> \<open>\<open>/(["']?(?:token|secret|password|authorization)["']?\s*[:=]\s*["'])[^"'\s]+/gi\<close>\<close>
  "field_re =
     seq_re [Grp 1 (seq_re [opt_re quote_re, secret_words [''token'', ''secret'', ''password'', ''authorization''],
         opt_re quote_re, Star True space_re, Cls False [(58, 58), (61, 61)], Star True space_re, quote_re]),
       plus_re (nonspace_but [34, 39])]"

definition first_capture :: "string \<Rightarrow> jsstr \<Rightarrow> mstate \<Rightarrow> jsstr" where \<comment> \<open>\<open>$1\<close> and a text\<close>
  "first_capture t _ m = (case capture 1 m of Some k \<Rightarrow> k | None \<Rightarrow> []) @ js t"

definition safe_telemetry_text :: "jsval \<Rightarrow> nat \<Rightarrow> jsstr" where
  "safe_telemetry_text v maximum =
     (case v of
        JStr s \<Rightarrow>
          take maximum
            (sub_all field_re (first_capture ''<MASKED>'')
              (sub_all parameter_re (first_capture ''<MASKED>'')
                (sub_all bearer_re (first_capture '' <MASKED>'')
                  (sub_all origin_re (\<lambda>_ _. js ''<origin>'') s))))
      | _ \<Rightarrow> [])"

text \<open>A body arrives in chunks of the given lengths; \<open>None\<close> for its text when reading it fails.\<close>

fun within_limit :: "nat \<Rightarrow> nat \<Rightarrow> nat list \<Rightarrow> bool" where
  "within_limit maximum got [] = True"
| "within_limit maximum got (n # ns) = (got + n \<le> maximum \<and> within_limit maximum (got + n) ns)"

definition read_bounded_json :: "nat \<Rightarrow> nat list \<Rightarrow> jsstr option \<Rightarrow> jsval option" where
  "read_bounded_json maximum chunks t =
     (if \<not> within_limit maximum 0 chunks then None
      else case Option.bind t json_parse of
        Some v \<Rightarrow> if is_object v then Some v else None
      | None \<Rightarrow> None)"

record client_error =
  ce_source :: jsstr
  ce_name :: jsstr
  ce_message :: jsstr
  ce_route :: jsstr
  ce_stack :: jsstr

definition client_error_of :: "jsval \<Rightarrow> client_error" where
  "client_error_of body =
     \<lparr>ce_source = (case fld body ''source'' of
          JStr s \<Rightarrow> if s \<in> {js ''application'', js ''route''} then s else js ''unknown'' | _ \<Rightarrow> js ''unknown''),
      ce_name = safe_telemetry_text (fld body ''name'') 80,
      ce_message = safe_telemetry_text (fld body ''message'') 500,
      ce_route = safe_telemetry_text (fld body ''route'') 300,
      ce_stack = safe_telemetry_text (fld body ''stack'') 2500\<rparr>"

section \<open>Requests passed on\<close>

datatype header_value = One jsstr | Several "jsstr list"

definition identity_headers :: "jsstr list" where
  "identity_headers = map js [''x-rhythm-user'', ''x-rhythm-groups'', ''x-rhythm-identity-verified'']"

definition connection_headers :: "jsstr list" where
  "connection_headers =
     map js [''connection'', ''content-length'', ''host'', ''keep-alive'', ''transfer-encoding'', ''upgrade'']"

definition http_trim :: "jsstr \<Rightarrow> jsstr" where \<comment> \<open>the blanks \<open>Headers.set\<close> drops at both ends of a value\<close>
  "http_trim v =
     (let blank = (\<lambda>c. c \<in> {9, 10, 13, 32}) in rev (dropWhile blank (rev (dropWhile blank v))))"

definition value_text :: "header_value \<Rightarrow> jsstr" where
  "value_text v = (case v of One s \<Rightarrow> s | Several ss \<Rightarrow> join (js '', '') ss)"

definition copy_header :: "jsstr \<times> header_value \<Rightarrow> web_headers \<Rightarrow> web_headers" where
  "copy_header p hs =
     (let name = to_lower (fst p) in
      if name \<in> set identity_headers \<or> name \<in> set connection_headers then hs
      else AList.update name (http_trim (value_text (snd p))) hs)"

definition proxy_headers :: "jsstr \<Rightarrow> (jsstr \<times> header_value) list \<Rightarrow> web_headers" where
  "proxy_headers remote incoming =
     (let copied = header_put ''accept-encoding'' (js ''identity'') (fold copy_header incoming []);
          forwarded = trim remote; existing = header_get ''x-forwarded-for'' copied
      in if forwarded = [] then copied
         else header_put ''x-forwarded-for''
           (http_trim (if existing = [] then forwarded else existing @ js '', '' @ forwarded)) copied)"

definition proxy_timeout :: "jsstr \<Rightarrow> nat" where
  "proxy_timeout url =
     (if starts_with (js ''/api/v1/ai/conversations/'') url \<and> ends_with (js ''/messages'') url then 125000 else 30000)"

record proxied =
  px_verb :: jsstr
  px_url :: jsstr
  px_headers :: web_headers
  px_timeout :: nat

section \<open>The handler\<close>

record web_request =
  wq_verb :: jsstr
  wq_url :: jsstr
  wq_incoming :: "(jsstr \<times> header_value) list"
  wq_remote :: jsstr
  wq_chunks :: "nat list"
  wq_text :: "jsstr option"

record web_host =
  wh_dir :: jsstr
  wh_pathname :: "jsstr \<Rightarrow> jsstr option" \<comment> \<open>the path of an address, where it is one\<close>
  wh_files :: "jsstr \<Rightarrow> file_info option"
  wh_digest :: "jsstr \<Rightarrow> jsstr"
  wh_page :: "web_request \<Rightarrow> exn + upstream"
  wh_api :: "proxied \<Rightarrow> exn + upstream"
  wh_ready :: "(bool \<times> jsstr) option" \<comment> \<open>the readiness of the API, unless it does not answer in time\<close>
  wh_vital :: "(bool \<times> nat) option"
  wh_now :: int

record web_state =
  ws_etags :: web_headers
  ws_window :: error_window
  ws_errors :: "client_error list"

datatype web_route = ReadyRoute | AliveRoute | VitalsRoute | ErrorsRoute | ProxyRoute | PageRoute

definition web_route_of :: "jsstr \<Rightarrow> jsstr \<Rightarrow> web_route" where
  "web_route_of verb url =
     (if url = js ''/readyz'' \<and> verb = js ''GET'' then ReadyRoute
      else if verb = js ''GET'' \<and> url \<in> {js ''/health'', js ''/healthz'', js ''/livez''} then AliveRoute
      else if url = js ''/internal/web-vitals'' \<and> verb = js ''POST'' then VitalsRoute
      else if url = js ''/internal/client-errors'' \<and> verb = js ''POST'' then ErrorsRoute
      else if starts_with (js ''/api/v1/'') url \<or> starts_with (js ''/hooks/v1/'') url then ProxyRoute
      else PageRoute)"

definition plain_headers :: "(jsstr \<times> header_value) list \<Rightarrow> web_headers" where
  "plain_headers hs = map (\<lambda>(k, v). (k, value_text v)) hs"

definition dependency_health :: "(bool \<times> jsstr) option \<Rightarrow> sent" where
  "dependency_health ready =
     (case ready of
        Some (ok, body) \<Rightarrow> answer (if ok then 200 else 503) json_headers
          (Literal (if body \<noteq> [] then body
            else js (if ok then ''{\"status\":\"ok\",\"service\":\"rhythm-frontdoor\"}''
                     else ''{\"status\":\"degraded\",\"service\":\"rhythm-frontdoor\"}'')))
      | None \<Rightarrow> answer 503 json_headers
          (Literal (js ''{\"status\":\"degraded\",\"service\":\"rhythm-frontdoor\",\"dependency\":\"api\"}'')))"

text \<open>A body that is cut off is an error of the handler.\<close>

definition forward_web_vital :: "web_host \<Rightarrow> web_request \<Rightarrow> exn + sent" where
  "forward_web_vital h r =
     (let reply = (\<lambda>n. answer n [(''Cache-Control'', ''no-store'')] NoBody) in
      if \<not> within_limit 4096 0 (wq_chunks r) then Inr (reply 413)
      else if wq_text r = None then Inl NetworkError
      else Inr (reply (case wh_vital h of Some (ok, status) \<Rightarrow> if ok then 204 else status | None \<Rightarrow> 204)))"

definition record_client_error :: "web_host \<Rightarrow> web_request \<Rightarrow> web_state \<Rightarrow> sent \<times> web_state" where
  "record_client_error h r s =
     (answer 204 [(''Cache-Control'', ''no-store'')] NoBody,
      case read_bounded_json 8192 (wq_chunks r) (wq_text r) of
        None \<Rightarrow> s
      | Some body \<Rightarrow>
          case accept_client_error (wh_now h) (ws_window s) of
            (accepted, w) \<Rightarrow>
              s\<lparr>ws_window := w, ws_errors := ws_errors s @ (if accepted then [client_error_of body] else [])\<rparr>)"

definition proxy_api :: "web_host \<Rightarrow> web_request \<Rightarrow> exn + sent" where
  "proxy_api h r =
     bindE (wh_api h \<lparr>px_verb = wq_verb r, px_url = wq_url r, px_headers = proxy_headers (wq_remote r) (wq_incoming r),
       px_timeout = proxy_timeout (wq_url r)\<rparr>) (\<lambda>u.
     Inr (send_response (wq_verb r) (plain_headers (wq_incoming r)) u))"

definition serve_page :: "web_host \<Rightarrow> web_request \<Rightarrow> web_state \<Rightarrow> (exn + sent) \<times> web_state" where
  "serve_page h r s =
     (let request = plain_headers (wq_incoming r) in
      case wh_pathname h (wq_url r) of
        None \<Rightarrow> (Inl TypeError, s)
      | Some raw \<Rightarrow>
          case decode_uri raw of
            None \<Rightarrow> (Inl URIError, s)
          | Some pathname \<Rightarrow>
              case serve_static (wh_dir h) (wh_files h) (wh_digest h) request pathname (ws_etags s) of
                (Some a, etags) \<Rightarrow> (Inr a, s\<lparr>ws_etags := etags\<rparr>)
              | (None, etags) \<Rightarrow>
                  (bindE (wh_page h r) (\<lambda>u. Inr (send_response (wq_verb r) request u)), s\<lparr>ws_etags := etags\<rparr>))"

definition or_failure :: "exn + sent \<Rightarrow> sent" where
  "or_failure a =
     (case a of
        Inr x \<Rightarrow> x
      | Inl _ \<Rightarrow> answer 500 json_headers (Literal (js ''{\"error\":\"Rhythm web could not render this request.\"}'')))"

definition handle_request :: "web_host \<Rightarrow> web_request \<Rightarrow> web_state \<Rightarrow> sent \<times> web_state" where
  "handle_request h r s =
     (case web_route_of (wq_verb r) (wq_url r) of
        ReadyRoute \<Rightarrow> (dependency_health (wh_ready h), s)
      | AliveRoute \<Rightarrow> (answer 200 json_headers (Literal (js ''{\"status\":\"ok\",\"service\":\"rhythm-web\"}'')), s)
      | VitalsRoute \<Rightarrow> (or_failure (forward_web_vital h r), s)
      | ErrorsRoute \<Rightarrow> record_client_error h r s
      | ProxyRoute \<Rightarrow> (or_failure (proxy_api h r), s)
      | PageRoute \<Rightarrow> map_prod or_failure (\<lambda>t. t) (serve_page h r s))"

end
