(* ===== verification/Web_Facts.thy ===== *)
theory Web_Facts
  imports Web_Server Packages_Facts
begin

text \<open>
  What the server in front of the client guarantees: the files it serves, the headers it passes on and
  answers with, and how many reports of errors it writes in any minute.
\<close>

section \<open>Files\<close>

definition path_text :: "jsstr list \<Rightarrow> jsstr" where
  "path_text ps = js ''/'' @ join (js ''/'') ps"

definition directory :: "jsstr \<Rightarrow> bool" where
  "directory d \<longleftrightarrow> (\<exists>ps. ps \<noteq> [] \<and> components ps \<and> d = path_text ps)"

lemma components_append [simp]: "components (ps @ qs) \<longleftrightarrow> components ps \<and> components qs"
  by (auto simp: components_def)

lemma split_components: "components ps \<Longrightarrow> ps \<noteq> [] \<Longrightarrow> split_on 47 (join (js ''/'') ps) = ps"
  by (simp add: slash split_on_join components_def)

lemma path_part_Nil [simp]: "path_part acc [] = acc"
  by (simp add: path_part_def)

lemma path_parts_text: "components ps \<Longrightarrow> ps \<noteq> [] \<Longrightarrow> path_parts (path_text ps) = ps"
  by (simp add: path_parts_def path_text_def slash split_components [unfolded slash] path_parts_keep)

lemma path_parts_below:
  assumes "components ds" "ds \<noteq> []"
  shows "path_parts (path_text ds @ js ''/'' @ rel) = foldl path_part ds (split_on 47 rel)"
proof -
  have "split_on 47 (path_text ds @ js ''/'' @ rel) = split_on 47 (path_text ds) @ split_on 47 rel"
    using split_on_append [of 47 "path_text ds" rel] by (simp add: slash)
  moreover have "foldl path_part [] (split_on 47 (path_text ds)) = ds"
    using path_parts_text [OF assms] by (simp add: path_parts_def)
  ultimately show ?thesis by (simp add: path_parts_def)
qed

lemma split_on_subset: "w \<in> set (split_on d v) \<Longrightarrow> set w \<subseteq> set v"
proof (induction v arbitrary: w)
  case (Cons c v)
  show ?case
  proof (cases "split_on d v")
    case Nil
    then show ?thesis using Cons.prems by (auto split: if_splits)
  next
    case (Cons a ws)
    then have "set a \<subseteq> set v" "\<And>u. u \<in> set ws \<Longrightarrow> set u \<subseteq> set v" using Cons.IH by auto
    then show ?thesis using Cons.prems Cons by (auto split: if_splits)
  qed
qed simp

lemma path_parts_subset: "w \<in> set (path_parts v) \<Longrightarrow> set w \<subseteq> set v"
proof -
  have "\<forall>w\<in>set (foldl path_part acc ws). set w \<subseteq> A" if "\<forall>w\<in>set acc. set w \<subseteq> A" "\<forall>w\<in>set ws. set w \<subseteq> A" for acc ws A
    using that
  proof (induction ws arbitrary: acc)
    case (Cons u ws)
    have "\<forall>w\<in>set (path_part acc u). set w \<subseteq> A" using Cons.prems by (auto simp: path_part_def dest: in_set_butlastD)
    then show ?case using Cons.IH [of "path_part acc u"] Cons.prems by simp
  qed simp
  then show "w \<in> set (path_parts v) \<Longrightarrow> set w \<subseteq> set v"
    unfolding path_parts_def using split_on_subset by (metis empty_iff list.set(1))
qed

lemma relative_parts:
  assumes "92 \<notin> set p"
  shows "foldl path_part ds (split_on 47 (dropWhile (\<lambda>c. c \<in> {47, 92}) (path_normal p))) = ds @ path_parts p"
proof -
  let ?ps = "path_parts p" and ?t = "if path_parts p \<noteq> [] \<and> last p = 47 then js ''/'' else []"
  have comps: "components ?ps" by (rule path_parts_components)
  show ?thesis
  proof (cases ?ps)
    case Nil
    then show ?thesis by (simp add: path_normal_def slash)
  next
    case (Cons w ws)
    with comps have w: "w \<noteq> []" "47 \<notin> set w" by (auto simp: components_def component_def)
    moreover have "92 \<notin> set w" using path_parts_subset [of w p] Cons assms by auto
    ultimately have "hd w \<notin> {47, 92}" by (metis hd_in_set insertE singletonD)
    moreover have "join (js ''/'') ?ps \<noteq> []" "hd (join (js ''/'') ?ps) = hd w"
      using w by (cases ws; simp add: Cons)+
    ultimately have rel: "dropWhile (\<lambda>c. c \<in> {47, 92}) (path_normal p) = join (js ''/'') ?ps @ ?t"
      by (cases "join (js ''/'') ?ps") (auto simp: path_normal_def slash)
    have "split_on 47 (join (js ''/'') ?ps @ ?t) = ?ps @ (if ?t = [] then [] else [[]])"
      using split_components [OF comps] split_on_append [of 47 "join (js ''/'') ?ps" "[]"] by (simp add: Cons slash)
    then have "foldl path_part ds (split_on 47 (join (js ''/'') ?ps @ ?t)) = ds @ ?ps"
      by (simp only: foldl_append path_parts_keep [OF comps]) simp
    then show ?thesis by (simp only: rel)
  qed
qed

text \<open>C34: The path of a file that is served starts with the directory of the client's files, and when the decoded address has no backslash it lies in that directory: its components are those of the directory, followed by components none of which leads upwards.\<close>

theorem static_confined:
  assumes "static_path dir pathname = Some absolute" "directory dir"
  shows "(\<exists>rest. absolute = dir @ rest)
    \<and> (92 \<notin> set pathname \<longrightarrow> (\<exists>ws. components ws \<and> path_parts absolute = path_parts dir @ ws))"
proof (intro conjI impI)
  let ?rel = "dropWhile (\<lambda>c. c \<in> {47, 92}) (path_normal pathname)"
  have abs: "absolute = path_below dir ?rel" "starts_with dir absolute"
    using assms(1) by (auto simp: static_path_def Let_def split: if_splits)
  then show "\<exists>rest. absolute = dir @ rest" by (simp add: starts_with_iff)
  obtain ds where ds: "ds \<noteq> []" "components ds" "dir = path_text ds"
    using assms(2) by (auto simp: directory_def)
  assume slashless: "92 \<notin> set pathname"
  have again: "path_parts (path_normal q) = path_parts q" for q
  proof (cases "path_parts q = []")
    case True
    then show ?thesis by (simp add: path_normal_def path_parts_def [of "[47]"] slash)
  next
    case False
    then have "path_parts (path_text (path_parts q) @ js ''/'' @ []) = path_parts q"
      using path_parts_below [OF path_parts_components False, of "[]"] by simp
    then show ?thesis using path_parts_text [OF path_parts_components False]
      by (auto simp: path_normal_def path_text_def Let_def)
  qed
  have "path_parts absolute = ds @ path_parts pathname"
  proof (cases "?rel = []")
    case True
    have "path_parts pathname = []" using relative_parts [OF slashless, of ds] unfolding True by simp
    then show ?thesis unfolding abs(1) True using path_parts_text [OF ds(2,1)] by (simp add: again path_below_def ds(3))
  next
    case False
    have "absolute = path_normal (path_text ds @ js ''/'' @ ?rel)"
      unfolding abs(1) path_below_def if_not_P [OF False] ds(3) by (rule refl)
    then have "path_parts absolute = foldl path_part ds (split_on 47 ?rel)"
      by (simp only: again path_parts_below [OF ds(2,1)])
    then show ?thesis by (simp only: relative_parts [OF slashless])
  qed
  then show "\<exists>ws. components ws \<and> path_parts absolute = path_parts dir @ ws"
    using path_parts_text [OF ds(2,1)] path_parts_components [of pathname]
    by (intro exI [of _ "path_parts pathname"]) (simp add: ds(3))
qed

lemma static_confined_witness:
  "\<exists>a. static_path (js ''/app/client'') (js ''/assets/b/../../../x.js'') = Some a
     \<and> (\<exists>ws. components ws \<and> path_parts a = path_parts (js ''/app/client'') @ ws)"
proof -
  have "directory (js ''/app/client'')"
    unfolding directory_def
    by (rule exI [of _ "[js ''app'', js ''client'']"]) (simp add: components_def component_def path_text_def js_def)
  moreover have "static_path (js ''/app/client'') (js ''/assets/b/../../../x.js'') = Some (js ''/app/client/x.js'')"
    by code_simp
  moreover have "92 \<notin> set (js ''/assets/b/../../../x.js'')" by (simp add: js_def)
  ultimately show ?thesis using static_confined by blast
qed

text \<open>With a backslash a file next to the directory is served, when its name starts as the directory's does.\<close>

lemma static_escape:
  "static_path (js ''/app/client'') (js ''/assets/../'' @ [92] @ js ''../client-old/x.js'') = Some (js ''/app/client-old/x.js'')"
  by code_simp

section \<open>Requests passed on\<close>

lemma copied_keys:
  "fst ` set (fold copy_header incoming hs) \<subseteq> fst ` set hs \<union> - (set identity_headers \<union> set connection_headers)"
proof (induction incoming arbitrary: hs)
  case (Cons p incoming)
  have "fst ` set (copy_header p hs) \<subseteq> fst ` set hs \<union> - (set identity_headers \<union> set connection_headers)"
    by (auto simp: copy_header_def Let_def dom_update)
  then show ?case using Cons.IH [of "copy_header p hs"] by (simp only: fold_simps) blast
qed simp

lemma http_trim_identity [simp]: "http_trim (js ''identity'') = js ''identity''"
  by code_simp

text \<open>C35: Of the headers of a request that is passed on to the API none claims an identity or belongs to the connection, whatever the client sent; the answer is asked for without compression, and the address of the client is the last of those the request was forwarded for.\<close>

theorem proxied_headers_clean:
  "fst ` set (proxy_headers remote incoming) \<inter> (set identity_headers \<union> set connection_headers) = {}
   \<and> header_get ''accept-encoding'' (proxy_headers remote incoming) = js ''identity''
   \<and> (trim remote \<noteq> [] \<longrightarrow>
       (\<exists>before. header_get ''x-forwarded-for'' (proxy_headers remote incoming) = http_trim (before @ trim remote)
          \<and> (before = [] \<or> (\<exists>u. before = u @ js '', ''))))"
proof -
  define copied where "copied = header_put ''accept-encoding'' (js ''identity'') (fold copy_header incoming [])"
  have outside: "js ''accept-encoding'' \<notin> set identity_headers \<union> set connection_headers"
    "js ''x-forwarded-for'' \<notin> set identity_headers \<union> set connection_headers"
    by (simp_all add: identity_headers_def connection_headers_def)
  have "fst ` set (fold copy_header incoming []) \<subseteq> - (set identity_headers \<union> set connection_headers)"
    using copied_keys [of incoming "[]"] by simp
  then have copied_keys: "fst ` set copied \<inter> (set identity_headers \<union> set connection_headers) = {}"
    unfolding copied_def header_put_def using outside by (simp only: dom_update) blast
  have encoding: "header_get ''accept-encoding'' copied = js ''identity''"
    by (simp add: copied_def header_get_def header_put_def update_conv)
  have put: "fst ` set (header_put ''x-forwarded-for'' v copied) \<inter> (set identity_headers \<union> set connection_headers) = {}"
    "header_get ''accept-encoding'' (header_put ''x-forwarded-for'' v copied) = js ''identity''"
    "header_get ''x-forwarded-for'' (header_put ''x-forwarded-for'' v copied) = v" for v
  proof -
    show "fst ` set (header_put ''x-forwarded-for'' v copied) \<inter> (set identity_headers \<union> set connection_headers) = {}"
      unfolding header_put_def using outside copied_keys by (simp only: dom_update) blast
    show "header_get ''accept-encoding'' (header_put ''x-forwarded-for'' v copied) = js ''identity''"
      using encoding by (simp add: header_get_def header_put_def update_conv)
    show "header_get ''x-forwarded-for'' (header_put ''x-forwarded-for'' v copied) = v"
      by (simp add: header_get_def header_put_def update_conv)
  qed
  have shape: "\<exists>before. http_trim (if x = [] then f else x @ js '', '' @ f) = http_trim (before @ f)
      \<and> (before = [] \<or> (\<exists>u. before = u @ js '', ''))" for x f
    by (cases "x = []") (force, intro exI [of _ "x @ js '', ''"], simp)
  show ?thesis
  proof (cases "trim remote = []")
    case True
    then have "proxy_headers remote incoming = copied" by (simp add: proxy_headers_def copied_def)
    then show ?thesis using copied_keys encoding True by simp
  next
    case False
    then obtain x where "proxy_headers remote incoming = header_put ''x-forwarded-for''
        (http_trim (if x = [] then trim remote else x @ js '', '' @ trim remote)) copied"
      by (simp add: proxy_headers_def copied_def [symmetric] Let_def)
    then show ?thesis using put shape [of x "trim remote"] by simp
  qed
qed

lemma proxied_headers_clean_witness:
  "js ''x-rhythm-user'' \<notin> fst ` set (proxy_headers (js ''10.0.0.1'') [(js ''X-Rhythm-User'', One (js ''admin''))])"
proof -
  have "js ''x-rhythm-user'' \<in> set identity_headers" by (simp add: identity_headers_def)
  moreover have "trim (js ''10.0.0.1'') \<noteq> []" by (simp add: trim_def is_space_def js_def)
  ultimately show ?thesis using proxied_headers_clean [of "js ''10.0.0.1''" "[(js ''X-Rhythm-User'', One (js ''admin''))]"] by blast
qed

section \<open>Reports of errors\<close>

text \<open>The times at which reports are accepted, of those at which they arrive.\<close>

fun accepted_times :: "error_window \<Rightarrow> int list \<Rightarrow> int list" where
  "accepted_times w [] = []"
| "accepted_times w (t # ts) =
     (case accept_client_error t w of (ok, w') \<Rightarrow> (if ok then [t] else []) @ accepted_times w' ts)"

abbreviation before :: "int \<Rightarrow> int list \<Rightarrow> nat" where
  "before b ts \<equiv> length (filter (\<lambda>t. t < b) ts)"

text \<open>Within the window that is open at most what is left of it is accepted, and until the end of the next one sixty more.\<close>

lemma accepted_in_window:
  assumes "\<forall>t\<in>set ts. ew_started w \<le> t" "sorted ts" "b \<le> ew_started w + 60000"
  shows "before b (accepted_times w ts) \<le> 60 - ew_count w"
  using assms
proof (induction ts arbitrary: w)
  case (Cons t ts)
  have le: "\<forall>u\<in>set ts. t \<le> u" "sorted ts" using Cons.prems by auto
  show ?case
  proof (cases "t < ew_started w + 60000")
    case True
    let ?w = "w\<lparr>ew_count := ew_count w + 1\<rparr>"
    have "before b (accepted_times ?w ts) \<le> 60 - ew_count ?w"
      using Cons.prems by (intro Cons.IH) auto
    then show ?thesis using True by (auto simp: accept_client_error_def Let_def)
  next
    case False
    have "x \<in> set (accepted_times v us) \<Longrightarrow> x \<in> set us" for x v us
      by (induction us arbitrary: v) (auto split: prod.splits if_splits)
    then have "filter (\<lambda>u. u < b) (accepted_times w (t # ts)) = []"
      using False le Cons.prems(3) by (fastforce simp: filter_empty_conv)
    then show ?thesis by simp
  qed
qed simp

lemma accepted_in_two:
  assumes "\<forall>t\<in>set ts. ew_started w \<le> t" "sorted ts" "b \<le> ew_started w + 120000"
  shows "before b (accepted_times w ts) \<le> (60 - ew_count w) + 60"
  using assms
proof (induction ts arbitrary: w)
  case (Cons t ts)
  show ?case
  proof (cases "t < ew_started w + 60000")
    case True
    let ?w = "w\<lparr>ew_count := ew_count w + 1\<rparr>"
    have "before b (accepted_times ?w ts) \<le> (60 - ew_count ?w) + 60"
      using Cons.prems by (intro Cons.IH) auto
    then show ?thesis using True by (auto simp: accept_client_error_def Let_def)
  next
    case False
    let ?w = "\<lparr>ew_count = 1, ew_started = t\<rparr>"
    have "before b (accepted_times ?w ts) \<le> 60 - ew_count ?w"
      using Cons.prems False by (intro accepted_in_window) auto
    then show ?thesis using False by (simp add: accept_client_error_def Let_def)
  qed
qed simp

lemma accepted_between:
  assumes "\<forall>t\<in>set ts. ew_started w \<le> t" "sorted ts"
  shows "length (filter (\<lambda>t. a \<le> t \<and> t < a + 60000) (accepted_times w ts)) \<le> 120"
  using assms
proof (induction ts arbitrary: w)
  case (Cons t ts)
  have fewer: "length (filter (\<lambda>t. a \<le> t \<and> t < b) us) \<le> before b us" for b and us :: "int list"
    by (induction us) auto
  show ?case
  proof (cases "a + 60000 \<le> ew_started w + 120000")
    case True
    then show ?thesis using accepted_in_two [of "t # ts" w "a + 60000"] Cons.prems
      fewer [of "a + 60000" "accepted_times w (t # ts)"] by linarith
  next
    case far: False
    obtain ok w' where step: "accept_client_error t w = (ok, w')" by (cases "accept_client_error t w")
    show ?thesis
    proof (cases "a \<le> t")
      case True
      with far have w': "w' = \<lparr>ew_count = 1, ew_started = t\<rparr>" "ok"
        using step by (auto simp: accept_client_error_def Let_def)
      have "before (a + 60000) (accepted_times w' ts) \<le> 60 - ew_count w'"
        using Cons.prems True by (intro accepted_in_window) (auto simp: w')
      then show ?thesis using fewer [of "a + 60000" "accepted_times w' ts"] by (simp add: step w')
    next
      case False
      have "\<forall>u\<in>set ts. ew_started w' \<le> u" "sorted ts"
        using step Cons.prems by (auto simp: accept_client_error_def Let_def split: if_splits)
      then show ?thesis using False Cons.IH [of w'] by (simp add: step)
    qed
  qed
qed simp

text \<open>C37: In any sixty seconds at most one hundred and twenty reports of errors are written, however many arrive.\<close>

theorem error_reports_limited:
  assumes "sorted ts" "\<forall>t\<in>set ts. ew_started w \<le> t"
  shows "length (filter (\<lambda>t. a \<le> t \<and> t < a + 60000) (accepted_times w ts)) \<le> 120"
  by (rule accepted_between [OF assms(2,1)])

lemma error_reports_limited_witness:
  "length (filter (\<lambda>t. 5 \<le> t \<and> t < 5 + 60000) (accepted_times \<lparr>ew_count = 0, ew_started = 0\<rparr> (replicate 1000 7))) \<le> 120"
  by (rule error_reports_limited) (simp_all add: sorted_replicate)

section \<open>Responses\<close>

lemma vary_split:
  assumes "\<forall>w\<in>set ws. 44 \<notin> set w" "ws \<noteq> []"
  shows "map trim (split_on 44 (join (js '', '') ws)) = map trim ws"
  using assms
proof (induction ws rule: induct_list012)
  case (3 u v ws)
  have "split_on 44 (join (js '', '') (u # v # ws)) = u # split_on 44 (32 # join (js '', '') (v # ws))"
    using "3.prems" split_on_append [of 44 u "32 # join (js '', '') (v # ws)"] by (simp add: js_def split_on_absent)
  moreover have "map trim (split_on 44 (32 # s)) = map trim (split_on 44 s)" for s
    by (cases "split_on 44 s") (simp_all add: trim_def is_space_def)
  ultimately show ?case using "3.IH"(2) "3.prems" by simp
qed (simp_all add: split_on_absent)

lemma vary_parts_clean: "w \<in> set (vary_parts v) \<Longrightarrow> 44 \<notin> set w \<and> trim w = w"
proof -
  have "set (foldl add_part ps qs) \<subseteq> set ps \<union> set qs" for ps qs
    by (induction qs arbitrary: ps) (auto, fastforce)
  moreover have "44 \<notin> set (trim u)" if "u \<in> set (split_on 44 v)" for u
    using split_on_no_sep [OF that] by (auto simp: trim_def dest!: set_dropWhileD)
  ultimately show "w \<in> set (vary_parts v) \<Longrightarrow> 44 \<notin> set w \<and> trim w = w"
    unfolding vary_parts_def by fastforce
qed

lemma append_vary_parts:
  "set (map trim (split_on 44 (append_vary v (js ''Accept-Encoding'')))) = insert (js ''Accept-Encoding'') (set (vary_parts v))"
proof -
  let ?ps = "add_part (vary_parts v) (js ''Accept-Encoding'')"
  have own: "44 \<notin> set (js ''Accept-Encoding'')" "trim (js ''Accept-Encoding'') = js ''Accept-Encoding''"
    by (simp_all add: js_def trim_def is_space_def)
  have "\<forall>w\<in>set ?ps. 44 \<notin> set w \<and> trim w = w" using vary_parts_clean own by auto
  then have "map trim (split_on 44 (join (js '', '') ?ps)) = ?ps"
    by (subst vary_split) (auto simp: map_idI split: if_splits)
  then show ?thesis by (auto simp: append_vary_def)
qed

text \<open>C36: A response that is passed on names the encoding among what it varies by, keeps what it varied by before, says how it may be cached, keeps its cookies, and is compressed only when it was not encoded before; then it says how, and no longer claims the length it had.\<close>

theorem response_declared:
  "let s = send_response verb request r in
     set (map trim (split_on 44 (header_get ''vary'' (sn_headers s))))
         = insert (js ''Accept-Encoding'') (set (vary_parts (header_get ''vary'' (ur_headers r))))
     \<and> header_get ''cache-control'' (sn_headers s) \<noteq> [] \<and> sn_cookies s = ur_cookies r \<and> sn_status s = ur_status r
     \<and> (case sn_body s of
          Stream (Some e) \<Rightarrow> map_of (ur_headers r) (js ''content-encoding'') = None
            \<and> map_of (sn_headers s) (js ''content-encoding'') = Some e
            \<and> map_of (sn_headers s) (js ''content-length'') = None \<and> accepted_encoding request = Some e
        | Stream None \<Rightarrow> map_of (sn_headers s) (js ''content-encoding'') = map_of (ur_headers r) (js ''content-encoding'')
            \<and> map_of (sn_headers s) (js ''content-length'') = map_of (ur_headers r) (js ''content-length'')
        | _ \<Rightarrow> True)"
proof -
  define h1 where "h1 = (if header_get ''cache-control'' (ur_headers r) = []
      then header_put ''cache-control'' (js ''private, no-cache, no-store'') (ur_headers r) else ur_headers r)"
  have h1: "header_get ''cache-control'' h1 \<noteq> []" "map_of h1 (js ''vary'') = map_of (ur_headers r) (js ''vary'')"
    "map_of h1 (js ''content-encoding'') = map_of (ur_headers r) (js ''content-encoding'')"
    "map_of h1 (js ''content-length'') = map_of (ur_headers r) (js ''content-length'')"
    by (auto simp: h1_def header_get_def header_put_def update_conv)
  define h3 where "h3 = header_put ''x-content-type-options'' (js ''nosniff'')
      (header_put ''vary'' (append_vary (header_get ''vary'' h1) (js ''Accept-Encoding'')) h1)"
  have h3: "header_get ''vary'' h3 = append_vary (header_get ''vary'' (ur_headers r)) (js ''Accept-Encoding'')"
    "header_get ''cache-control'' h3 \<noteq> []"
    "map_of h3 (js ''content-encoding'') = map_of (ur_headers r) (js ''content-encoding'')"
    "map_of h3 (js ''content-length'') = map_of (ur_headers r) (js ''content-length'')"
    using h1 by (simp_all add: h3_def header_get_def header_put_def update_conv)
  define encoding where "encoding = (if should_compress request r then accepted_encoding request else None)"
  have s: "send_response verb request r = \<lparr>sn_status = ur_status r,
      sn_headers = (case encoding of Some e \<Rightarrow> AList.delete (js ''content-length'') (header_put ''content-encoding'' e h3) | None \<Rightarrow> h3),
      sn_cookies = ur_cookies r, sn_body = (if \<not> ur_body r \<or> verb = js ''HEAD'' then NoBody else Stream encoding)\<rparr>"
    by (simp only: send_response_def Let_def h1_def h3_def encoding_def)
  show ?thesis
  proof (cases encoding)
    case None
    then show ?thesis using h3 by (simp add: s append_vary_parts del: set_map)
  next
    case (Some e)
    then have e: "accepted_encoding request = Some e" "map_of (ur_headers r) (js ''content-encoding'') = None"
      by (auto simp: encoding_def should_compress_def split: if_splits)
    have "header_get ''vary'' (AList.delete (js ''content-length'') (header_put ''content-encoding'' e h3)) = header_get ''vary'' h3"
      "header_get ''cache-control'' (AList.delete (js ''content-length'') (header_put ''content-encoding'' e h3)) = header_get ''cache-control'' h3"
      by (simp_all add: header_get_def header_put_def update_conv delete_conv)
    then show ?thesis using h3 e Some
      by (simp add: s append_vary_parts header_put_def update_conv delete_conv del: set_map)
  qed
qed

end
