(* ===== verification/Launcher.thy ===== *)
theory Launcher
  imports Js_Result "HOL-Library.AList"
begin

text \<open>
  The launcher of a container, \<open>deploy/hydra/launcher.mjs\<close>: the environment it reads from a file, the
  processes it starts for a role with the environment each receives, the supervision of those processes,
  and the gateway in front of a browser executor.
\<close>

section \<open>The runtime environment\<close>

type_synonym environ = "(jsstr \<times> jsstr) list"

definition env_get :: "string \<Rightarrow> environ \<Rightarrow> jsstr" where \<comment> \<open>\<open>process.env.K || ""\<close>\<close>
  "env_get k e = (case map_of e (js k) of Some v \<Rightarrow> v | None \<Rightarrow> [])"

definition env_or :: "string \<Rightarrow> jsstr \<Rightarrow> environ \<Rightarrow> jsstr" where
  "env_or k d e = (if env_get k e = [] then d else env_get k e)"

definition env_put :: "string \<Rightarrow> jsstr \<Rightarrow> environ \<Rightarrow> environ" where
  "env_put k v e = AList.update (js k) v e"

datatype env_warning =
    FileMissing jsstr
  | InvalidLine nat
  | RepeatedKey nat
  | ProtectedKey jsstr

record env_loading =
  el_env :: environ
  el_seen :: "jsstr list"
  el_warnings :: "env_warning list"

definition protected_keys :: "jsstr list" where
  "protected_keys =
     map js [''RHYTHM_SERVICE_ROLE'', ''RHYTHM_ENVIRONMENT'', ''RHYTHM_AUTH_MODE'', ''RHYTHM_HTTP_ADDR'']"

fun cut_returns :: "jsstr list \<Rightarrow> jsstr list" where \<comment> \<open>the optional \<open>\r\<close> before each line feed\<close>
  "cut_returns (l # m # ls) = (if l \<noteq> [] \<and> last l = 13 then butlast l else l) # cut_returns (m # ls)"
| "cut_returns ls = ls"

definition file_lines :: "jsstr \<Rightarrow> jsstr list" where \<comment> \<open>\<open>split(/\r?\n/)\<close>\<close>
  "file_lines t = cut_returns (split_on 10 t)"

definition enclosed :: "code_unit \<Rightarrow> jsstr \<Rightarrow> bool" where
  "enclosed q v \<longleftrightarrow> v \<noteq> [] \<and> hd v = q \<and> last v = q"

definition strip_quotes :: "jsstr \<Rightarrow> jsstr" where
  "strip_quotes v = (if enclosed 34 v \<or> enclosed 39 v then drop 1 (butlast v) else v)"

definition load_line :: "nat \<Rightarrow> jsstr \<Rightarrow> env_loading \<Rightarrow> env_loading" where
  "load_line number raw s =
     (let line = trim raw; warn = (\<lambda>w. s\<lparr>el_warnings := el_warnings s @ [w]\<rparr>) in
      if line = [] \<or> starts_with (js ''#'') line then s
      else case index_of (js ''='') line of
        None \<Rightarrow> warn (InvalidLine number)
      | Some separator \<Rightarrow>
          if separator < 1 then warn (InvalidLine number)
          else
            let key = trim (take separator line) in
            if key = [] \<or> key \<in> set (el_seen s) then warn (RepeatedKey number)
            else if key \<in> set protected_keys then warn (ProtectedKey key)
            else s\<lparr>el_seen := key # el_seen s,
                   el_env := AList.update key (strip_quotes (trim (drop (separator + 1) line))) (el_env s)\<rparr>)"

fun load_lines :: "nat \<Rightarrow> jsstr list \<Rightarrow> env_loading \<Rightarrow> env_loading" where
  "load_lines number [] s = s"
| "load_lines number (l # ls) s = load_lines (number + 1) ls (load_line number l s)"

definition load_runtime_environment :: "(jsstr \<Rightarrow> jsstr option) \<Rightarrow> environ \<Rightarrow> env_loading" where
  "load_runtime_environment files e =
     (let path = env_or ''RHYTHM_RUNTIME_ENV_FILE'' (js ''/opt/epaas/vault/secrets/secrets'') e;
          start = \<lparr>el_env = e, el_seen = [], el_warnings = []\<rparr>
      in case files path of
           None \<Rightarrow> start\<lparr>el_warnings := [FileMissing path]\<rparr>
         | Some t \<Rightarrow> load_lines 1 (file_lines t) start)"

section \<open>Processes\<close>

record spawned =
  sp_name :: jsstr
  sp_command :: jsstr
  sp_args :: "jsstr list"
  sp_env :: environ

record launching =
  la_env :: environ
  la_started :: "spawned list"

definition start_process :: "jsstr \<Rightarrow> string \<Rightarrow> string list \<Rightarrow> environ \<Rightarrow> launching \<Rightarrow> launching" where
  "start_process name command args e l =
     l\<lparr>la_started := la_started l @ [\<lparr>sp_name = name, sp_command = js command, sp_args = map js args, sp_env = e\<rparr>]\<rparr>"

definition start_api :: "string \<Rightarrow> string \<Rightarrow> launching \<Rightarrow> launching" where
  "start_api role address l =
     start_process (js (''rhythm-api-'' @ role)) ''/opt/rhythm/bin/rhythm-api'' []
       (env_put ''RHYTHM_HTTP_ADDR'' (js address) (env_put ''RHYTHM_ROLE'' (js role) (la_env l))) l"

definition start_web :: "launching \<Rightarrow> launching" where
  "start_web l =
     start_process (js ''rhythm-web'') ''node'' [''apps/web/server.mjs'']
       (env_put ''RHYTHM_API_URL'' (js ''http://127.0.0.1:18080'')
         (env_put ''PORT'' (js ''8080'') (env_put ''HOST'' (js ''0.0.0.0'') (la_env l)))) l"

text \<open>A variable that is not set does not reach the process.\<close>

definition env_only :: "string list \<Rightarrow> environ \<Rightarrow> environ" where
  "env_only ks e = List.map_filter (\<lambda>k. map_option (Pair (js k)) (map_of e (js k))) ks"

definition script_runner_environment :: "jsnum \<Rightarrow> environ \<Rightarrow> environ" where
  "script_runner_environment concurrency e =
     env_only [''PATH'', ''HOME'', ''TZ'', ''SSL_CERT_FILE''] e
     @ [(js ''RHYTHM_SCRIPT_RUNNER_ADDR'', js ''127.0.0.1:8090'')]
     @ env_only [''RHYTHM_SCRIPT_RUNNER_TOKEN''] e
     @ [(js ''RHYTHM_SCRIPT_RUNNER_CONCURRENCY'', num_to_str concurrency)]"

definition start_script_runner :: "jsnum \<Rightarrow> launching \<Rightarrow> launching" where
  "start_script_runner concurrency l =
     (let t = start_process (js ''rhythm-script-runner'') ''/opt/rhythm/bin/rhythm-script-runner'' []
            (script_runner_environment concurrency (la_env l)) l
      in t\<lparr>la_env := env_put ''RHYTHM_SCRIPT_RUNNER_URL'' (js ''http://127.0.0.1:8090'') (la_env t)\<rparr>)"

definition runner_concurrency :: "nat \<Rightarrow> environ \<Rightarrow> jsnum" where \<comment> \<open>\<open>Number(variable || d)\<close>\<close>
  "runner_concurrency d e =
     (let v = env_get ''RHYTHM_SCRIPT_RUNNER_CONCURRENCY'' e in if v = [] then nnum d else str_to_num v)"

definition browser_variables :: "string list" where
  "browser_variables =
     [''PATH'', ''HOME'', ''TZ'', ''NODE_ENV'', ''NODE_USE_SYSTEM_CA'', ''NODE_EXTRA_CA_CERTS'', ''SSL_CERT_FILE'',
      ''PLAYWRIGHT_BROWSERS_PATH'', ''RHYTHM_UNRESTRICTED_OUTBOUND'']"

definition is_browser_key :: "jsstr \<Rightarrow> bool" where
  "is_browser_key k \<longleftrightarrow> starts_with (js ''RHYTHM_BROWSER_'') k \<or> starts_with (js ''RHYTHM_CHROMIUM_'') k"

definition browser_environment :: "environ \<Rightarrow> environ" where
  "browser_environment e =
     (let given = filter (\<lambda>(k, v). v \<noteq> []) (env_only browser_variables e);
          named = fold (\<lambda>(k, v) m. if is_browser_key k then AList.update k v m else m) e given;
          placed = env_put ''RHYTHM_BROWSER_AGENT_PORT'' (js ''8091'')
            (env_put ''RHYTHM_BROWSER_AGENT_ADDR'' (js ''127.0.0.1'') named)
      in case map_of e (js ''RHYTHM_BROWSER_RUNNER_TOKEN'') of
           Some v \<Rightarrow> env_put ''RHYTHM_BROWSER_RUNNER_TOKEN'' v placed
         | None \<Rightarrow> AList.delete (js ''RHYTHM_BROWSER_RUNNER_TOKEN'') placed)"

definition start_browser_agent :: "launching \<Rightarrow> launching" where
  "start_browser_agent l =
     (let t = start_process (js ''rhythm-browser-agent'') ''node'' [''services/browser-agent/server.mjs'']
            (browser_environment (la_env l)) l
      in t\<lparr>la_env := env_put ''RHYTHM_BROWSER_RUNNER_URL'' (js ''http://127.0.0.1:8091'') (la_env t)\<rparr>)"

section \<open>Trust of the browser\<close>

text \<open>The file system and the result of a command are parameters.\<close>

record trust_host =
  th_exists :: "jsstr \<Rightarrow> bool"
  th_succeeds :: "jsstr list \<Rightarrow> bool"

definition trust_database :: "environ \<Rightarrow> jsstr" where
  "trust_database e = env_or ''HOME'' (js ''/tmp/rhythm'') e @ js ''/.pki/nssdb''"

definition database_command :: "jsstr \<Rightarrow> jsstr list" where
  "database_command database = map js [''certutil'', ''-N'', ''--empty-password'', ''-d''] @ [js ''sql:'' @ database]"

definition import_command :: "jsstr \<Rightarrow> jsstr \<Rightarrow> jsstr list" where
  "import_command database certificate =
     map js [''certutil'', ''-A'', ''-d''] @ [js ''sql:'' @ database]
     @ map js [''-n'', ''rhythm-corporate-ca'', ''-t'', ''C,,'', ''-i''] @ [certificate]"

definition initialize_trust :: "trust_host \<Rightarrow> environ \<Rightarrow> exn + jsstr list list" where \<comment> \<open>the commands that ran\<close>
  "initialize_trust h e =
     (let certificate = trim (env_or ''RHYTHM_CORPORATE_CA_FILE'' (env_get ''RHYTHM_CORPORATE_CA_PATH'' e) e);
          database = trust_database e;
          create = database_command database; import = import_command database certificate
      in if certificate = [] then Inr []
         else
           bindE (if th_exists h (database @ js ''/cert9.db'') then Inr []
                  else if th_succeeds h create then Inr [create]
                  else Inl (ErrorMsg (js ''Chromium NSS database could not be initialized''))) (\<lambda>ran.
           if th_succeeds h import then Inr (ran @ [import])
           else Inl (ErrorMsg (js ''Corporate CA could not be imported into Chromium NSS''))))"

section \<open>Roles\<close>

definition launch_role :: "environ \<Rightarrow> jsstr" where
  "launch_role e = to_lower (trim (env_get ''RHYTHM_SERVICE_ROLE'' e))"

definition launch :: "trust_host \<Rightarrow> environ \<Rightarrow> exn + launching" where
  "launch h e =
     (let role = launch_role e; l = \<lparr>la_env = e, la_started = []\<rparr> in
      if role = js ''standalone'' then
        bindE (initialize_trust h e) (\<lambda>_.
          let t = start_browser_agent l in
          Inr (start_web (start_api ''all'' ''127.0.0.1:18080''
            (start_script_runner (runner_concurrency 4 (la_env t)) t))))
      else if role = js ''frontdoor'' then
        Inr (start_web (start_api ''api'' ''127.0.0.1:18080'' (start_script_runner (nnum 2) l)))
      else if role = js ''control'' then Inr (start_api ''control'' ''0.0.0.0:8080'' l)
      else if role = js ''api-executor'' then
        Inr (start_api ''worker'' ''0.0.0.0:8080'' (start_script_runner (runner_concurrency 16 e) l))
      else if role = js ''browser-executor'' then
        bindE (initialize_trust h e) (\<lambda>_. Inr (start_api ''browser'' ''127.0.0.1:18080'' (start_browser_agent l)))
      else Inl (ErrorMsg (js
        ''RHYTHM_SERVICE_ROLE must be standalone, frontdoor, control, api-executor, or browser-executor'')))"

section \<open>Supervision\<close>

text \<open>
  The launcher after the processes were started, between two of its callbacks: the processes that have
  not exited, the code it shuts down with once it does, the signals sent, the exits it waits for, and how
  it ended. A process that cannot be started emits an error nobody listens to, which ends the launcher.
\<close>

record supervisor =
  su_children :: "nat list"
  su_code :: "int option"
  su_sent :: "(nat \<times> string) list"
  su_waiting :: "nat list"
  su_exit :: "int option"
  su_crashed :: bool

definition new_supervisor :: "nat list \<Rightarrow> supervisor" where
  "new_supervisor ids =
     \<lparr>su_children = ids, su_code = None, su_sent = [], su_waiting = [], su_exit = None, su_crashed = False\<rparr>"

definition shut_down :: "string \<Rightarrow> int \<Rightarrow> supervisor \<Rightarrow> supervisor" where
  "shut_down sig code s =
     (if su_code s \<noteq> None then s
      else s\<lparr>su_code := Some code, su_sent := su_sent s @ map (\<lambda>c. (c, sig)) (su_children s),
             su_waiting := su_children s\<rparr>)"

definition critical_code :: "int option \<Rightarrow> int" where \<comment> \<open>\<open>code || 1\<close>\<close>
  "critical_code c = (case c of Some k \<Rightarrow> if k = 0 then 1 else k | None \<Rightarrow> 1)"

definition child_gone :: "nat \<Rightarrow> int option \<Rightarrow> supervisor \<Rightarrow> supervisor" where
  "child_gone c code s =
     (let t = s\<lparr>su_children := remove1 c (su_children s), su_waiting := remove1 c (su_waiting s)\<rparr>
      in if su_code s = None then shut_down ''SIGTERM'' (critical_code code) t else t)"

inductive supervisor_step :: "supervisor \<Rightarrow> supervisor \<Rightarrow> bool" where
  child_exits: "su_exit s = None \<Longrightarrow> c \<in> set (su_children s) \<Longrightarrow> supervisor_step s (child_gone c code s)"
| signalled: "su_exit s = None \<Longrightarrow> sig \<in> {''SIGINT'', ''SIGTERM''} \<Longrightarrow> supervisor_step s (shut_down sig 0 s)"
| all_gone: "su_exit s = None \<Longrightarrow> su_code s = Some k \<Longrightarrow> su_waiting s = [] \<Longrightarrow> supervisor_step s (s\<lparr>su_exit := Some k\<rparr>)"
| timed_out:
    "su_exit s = None \<Longrightarrow> su_code s = Some k \<Longrightarrow>
     supervisor_step s (s\<lparr>su_sent := su_sent s @ map (\<lambda>c. (c, ''SIGKILL'')) (su_children s), su_exit := Some k\<rparr>)"
| cannot_start:
    "su_exit s = None \<Longrightarrow> c \<in> set (su_children s) \<Longrightarrow> supervisor_step s (s\<lparr>su_exit := Some 1, su_crashed := True\<rparr>)"

inductive supervisor_reaches :: "nat list \<Rightarrow> supervisor \<Rightarrow> bool" for ids where
  supervisor_start: "supervisor_reaches ids (new_supervisor ids)"
| supervisor_next: "supervisor_reaches ids s \<Longrightarrow> supervisor_step s s' \<Longrightarrow> supervisor_reaches ids s'"

section \<open>The gateway of a browser executor\<close>

datatype gateway_route = GatewayLive | GatewayReady | GatewayForward jsstr

definition gateway_route_of :: "jsstr \<Rightarrow> jsstr \<Rightarrow> gateway_route" where
  "gateway_route_of verb url =
     (if verb = js ''GET'' \<and> url \<in> {js ''/livez'', js ''/healthz'', js ''/health''} then GatewayLive
      else if verb = js ''GET'' \<and> url = js ''/readyz'' then GatewayReady
      else GatewayForward (js (if url = js ''/metrics'' then ''http://127.0.0.1:18080'' else ''http://127.0.0.1:8091'')))"

definition hop_headers :: "jsstr list" where
  "hop_headers =
     map js [''connection'', ''content-length'', ''host'', ''keep-alive'', ''transfer-encoding'', ''upgrade'']"

definition gateway_headers :: "(jsstr \<times> jsstr) list \<Rightarrow> (jsstr \<times> jsstr) list" where
  "gateway_headers hs = filter (\<lambda>(k, v). k \<notin> set hop_headers) hs"

text \<open>The status answered, from the answers of the services: \<open>None\<close> for one that did not answer in time.\<close>

definition gateway_status :: "gateway_route \<Rightarrow> nat option \<Rightarrow> bool option \<Rightarrow> bool option \<Rightarrow> nat" where
  "gateway_status r forwarded api browser =
     (case r of
        GatewayLive \<Rightarrow> 200
      | GatewayReady \<Rightarrow> if api = Some True \<and> browser = Some True then 200 else 503
      | GatewayForward _ \<Rightarrow> (case forwarded of Some n \<Rightarrow> n | None \<Rightarrow> 503))"

end
