(* ===== verification/Launcher_Facts.thy ===== *)
theory Launcher_Facts
  imports Launcher
begin

text \<open>
  What the launcher guarantees: which variables of the file reach the environment, what each process is
  given, and how the supervision of the processes ends.
\<close>

section \<open>The runtime environment\<close>

text \<open>The assignments a file makes: its lines that are neither empty, comments, malformed nor protected.\<close>

definition file_entry :: "jsstr \<Rightarrow> (jsstr \<times> jsstr) option" where
  "file_entry raw =
     (let line = trim raw in
      if line = [] \<or> starts_with (js ''#'') line then None
      else case index_of (js ''='') line of
        None \<Rightarrow> None
      | Some separator \<Rightarrow>
          let key = trim (take separator line) in
          if separator < 1 \<or> key = [] \<or> key \<in> set protected_keys then None
          else Some (key, strip_quotes (trim (drop (separator + 1) line))))"

definition file_entries :: "jsstr \<Rightarrow> (jsstr \<times> jsstr) list" where
  "file_entries t = List.map_filter file_entry (file_lines t)"

lemma load_line_entry:
  "(el_env (load_line n raw s), el_seen (load_line n raw s)) =
     (case file_entry raw of
        Some (k, v) \<Rightarrow> if k \<in> set (el_seen s) then (el_env s, el_seen s) else (AList.update k v (el_env s), k # el_seen s)
      | None \<Rightarrow> (el_env s, el_seen s))"
  by (auto simp: load_line_def file_entry_def Let_def split: option.split)

lemma load_lines_lookup:
  "map_of (el_env (load_lines n ls s)) k =
     (if k \<in> set (el_seen s) then map_of (el_env s) k
      else case map_of (List.map_filter file_entry ls) k of Some v \<Rightarrow> Some v | None \<Rightarrow> map_of (el_env s) k)"
proof (induction ls arbitrary: n s)
  case (Cons raw ls)
  show ?case
    using load_line_entry [of n raw s]
    by (auto simp: Cons.IH update_conv map_filter_simps split: option.splits if_splits prod.splits)
qed (simp add: map_filter_simps)

lemma entries_unprotected: "k \<in> set protected_keys \<Longrightarrow> map_of (file_entries t) k = None"
  by (auto simp: map_of_eq_None_iff file_entries_def map_filter_def file_entry_def Let_def
      split: option.splits if_splits)

text \<open>C40: After the file was read a variable has the value of its first assignment in the file, where there is one, and its old value otherwise; the protected variables never change.\<close>

theorem environment_loaded:
  "map_of (el_env (load_runtime_environment files e)) k =
     (case files (env_or ''RHYTHM_RUNTIME_ENV_FILE'' (js ''/opt/epaas/vault/secrets/secrets'') e) of
        Some t \<Rightarrow> (case map_of (file_entries t) k of Some v \<Rightarrow> Some v | None \<Rightarrow> map_of e k)
      | None \<Rightarrow> map_of e k)
   \<and> (k \<in> set protected_keys \<longrightarrow> map_of (el_env (load_runtime_environment files e)) k = map_of e k)"
proof -
  have "map_of (el_env (load_runtime_environment files e)) k =
      (case files (env_or ''RHYTHM_RUNTIME_ENV_FILE'' (js ''/opt/epaas/vault/secrets/secrets'') e) of
         Some t \<Rightarrow> (case map_of (file_entries t) k of Some v \<Rightarrow> Some v | None \<Rightarrow> map_of e k)
       | None \<Rightarrow> map_of e k)"
    by (auto simp: load_runtime_environment_def Let_def load_lines_lookup file_entries_def split: option.split)
  then show ?thesis by (auto simp: entries_unprotected split: option.split)
qed

lemma environment_loaded_witness:
  "map_of (el_env (load_runtime_environment (\<lambda>_. Some (js ''RHYTHM_AUTH_MODE=off'')) [(js ''RHYTHM_AUTH_MODE'', js ''oidc'')]))
     (js ''RHYTHM_AUTH_MODE'') = Some (js ''oidc'')"
proof -
  have "js ''RHYTHM_AUTH_MODE'' \<in> set protected_keys" by (simp add: protected_keys_def)
  then have "map_of (el_env (load_runtime_environment (\<lambda>_. Some (js ''RHYTHM_AUTH_MODE=off'')) [(js ''RHYTHM_AUTH_MODE'', js ''oidc'')]))
      (js ''RHYTHM_AUTH_MODE'') = map_of [(js ''RHYTHM_AUTH_MODE'', js ''oidc'')] (js ''RHYTHM_AUTH_MODE'')"
    using environment_loaded [THEN conjunct2] by blast
  then show ?thesis by simp
qed

section \<open>Processes\<close>

definition runner_variables :: "string list" where
  "runner_variables =
     [''PATH'', ''HOME'', ''TZ'', ''SSL_CERT_FILE'', ''RHYTHM_SCRIPT_RUNNER_ADDR'', ''RHYTHM_SCRIPT_RUNNER_TOKEN'',
      ''RHYTHM_SCRIPT_RUNNER_CONCURRENCY'']"

definition may_receive :: "jsstr \<Rightarrow> jsstr \<Rightarrow> bool" where
  "may_receive name k \<longleftrightarrow>
     (if name = js ''rhythm-script-runner'' then k \<in> js ` set runner_variables
      else if name = js ''rhythm-browser-agent'' then k \<in> js ` set browser_variables \<or> is_browser_key k
      else True)"

lemma env_only_keys: "fst ` set (env_only ks e) \<subseteq> js ` set ks"
  by (auto simp: env_only_def map_filter_def split: option.splits)

lemma runner_keys: "fst ` set (script_runner_environment n e) \<subseteq> js ` set runner_variables"
  using env_only_keys [of "[''PATH'', ''HOME'', ''TZ'', ''SSL_CERT_FILE'']" e] env_only_keys [of "[''RHYTHM_SCRIPT_RUNNER_TOKEN'']" e]
  by (auto simp: script_runner_environment_def runner_variables_def image_Un)

lemma update_keys: "fst ` set (AList.update k v e) = insert k (fst ` set e)"
  by (simp add: dom_update)

lemma named_keys:
  "fst ` set (fold (\<lambda>(k, v) m. if is_browser_key k then AList.update k v m else m) e m)
     \<subseteq> fst ` set m \<union> {k. is_browser_key k}"
proof (induction e arbitrary: m)
  case (Cons p e)
  obtain k v where p: "p = (k, v)" by (cases p)
  show ?case
  proof (cases "is_browser_key k")
    case True
    then show ?thesis using Cons.IH [of "AList.update k v m"] by (auto simp: p update_keys)
  next
    case False
    then show ?thesis using Cons.IH [of m] by (simp add: p)
  qed
qed simp

lemma delete_keys: "fst ` set (AList.delete k e) \<subseteq> fst ` set e"
  by (auto simp: AList.delete_eq)

lemma browser_keys:
  "fst ` set (browser_environment e) \<subseteq> js ` set browser_variables \<union> {k. is_browser_key k}"
proof -
  let ?K = "js ` set browser_variables \<union> {k. is_browser_key k}"
  define given where "given = filter (\<lambda>(k, v). v \<noteq> []) (env_only browser_variables e)"
  define named where "named = fold (\<lambda>(k, v) m. if is_browser_key k then AList.update k v m else m) e given"
  have "fst ` set given \<subseteq> js ` set browser_variables" using env_only_keys [of browser_variables e]
    by (rule subset_trans [rotated]) (auto simp: given_def)
  then have named: "fst ` set named \<subseteq> ?K" using named_keys [of e given] unfolding named_def by blast
  have own: "js ''RHYTHM_BROWSER_AGENT_PORT'' \<in> ?K" "js ''RHYTHM_BROWSER_AGENT_ADDR'' \<in> ?K" "js ''RHYTHM_BROWSER_RUNNER_TOKEN'' \<in> ?K"
    by (simp_all add: is_browser_key_def starts_with_def js_def)
  have put: "fst ` set (env_put k v m) \<subseteq> ?K" if "fst ` set m \<subseteq> ?K" "js k \<in> ?K" for k v m
    unfolding env_put_def update_keys using that by blast
  have del: "fst ` set (AList.delete k m) \<subseteq> ?K" if "fst ` set m \<subseteq> ?K" for k m
    by (rule subset_trans [OF delete_keys that])
  show ?thesis
    unfolding browser_environment_def Let_def given_def [symmetric] named_def [symmetric]
    by (split option.split) (intro conjI allI impI put del named own)
qed

definition processes_of :: "string \<Rightarrow> string list" where
  "processes_of role =
     (if role = ''standalone'' then [''rhythm-browser-agent'', ''rhythm-script-runner'', ''rhythm-api-all'', ''rhythm-web'']
      else if role = ''frontdoor'' then [''rhythm-script-runner'', ''rhythm-api-api'', ''rhythm-web'']
      else if role = ''control'' then [''rhythm-api-control'']
      else if role = ''api-executor'' then [''rhythm-script-runner'', ''rhythm-api-worker'']
      else [''rhythm-browser-agent'', ''rhythm-api-browser''])"

text \<open>What each role starts, and what the two processes that run foreign code are given.\<close>

lemmas starts = start_process_def start_api_def start_web_def start_script_runner_def start_browser_agent_def

lemma launch_cases:
  assumes "launch h e = Inr l"
  obtains "launch_role e = js ''standalone''" | "launch_role e = js ''frontdoor''" | "launch_role e = js ''control''"
    | "launch_role e = js ''api-executor''" | "launch_role e = js ''browser-executor''"
  using assms by (auto simp: launch_def Let_def split: if_splits)

lemma launched:
  assumes "launch h e = Inr l"
  shows "\<exists>role\<in>{''standalone'', ''frontdoor'', ''control'', ''api-executor'', ''browser-executor''}.
    launch_role e = js role \<and> map sp_name (la_started l) = map js (processes_of role)"
  using assms
  by (rule launch_cases)
    (use assms in \<open>auto simp: launch_def Let_def starts processes_of_def bindE_def split: sum.splits\<close>)

definition confined :: "spawned \<Rightarrow> bool" where
  "confined p \<longleftrightarrow> fst ` set (sp_env p) \<subseteq> Collect (may_receive (sp_name p))"

lemma confined_simps [simp]:
  "confined \<lparr>sp_name = js ''rhythm-script-runner'', sp_command = c, sp_args = as, sp_env = script_runner_environment n e\<rparr>"
  "confined \<lparr>sp_name = js ''rhythm-browser-agent'', sp_command = c, sp_args = as, sp_env = browser_environment e\<rparr>"
  "name \<noteq> ''rhythm-script-runner'' \<Longrightarrow> name \<noteq> ''rhythm-browser-agent'' \<Longrightarrow>
     confined \<lparr>sp_name = js name, sp_command = c, sp_args = as, sp_env = e\<rparr>"
  using runner_keys [of n e] browser_keys [of e] by (simp_all add: confined_def may_receive_def subset_iff)

lemma launched_confined:
  assumes "launch h e = Inr l"
  shows "list_all confined (la_started l)"
  using assms
  by (rule launch_cases)
    (use assms in \<open>auto simp: launch_def Let_def starts bindE_def split: sum.splits\<close>)

text \<open>C39: The launcher starts the processes of its role, in order, and refuses any other role; the runner of scripts is given seven variables at most, and the browser agent only those listed for it and those that start with its prefixes, so that no other variable, such as the credentials of the database, reaches code that is not the product's own.\<close>

theorem launch_confined:
  assumes "launch h e = Inr l"
  shows "(\<exists>role\<in>{''standalone'', ''frontdoor'', ''control'', ''api-executor'', ''browser-executor''}.
      launch_role e = js role \<and> map sp_name (la_started l) = map js (processes_of role))
    \<and> (\<forall>p\<in>set (la_started l). \<forall>k\<in>fst ` set (sp_env p). may_receive (sp_name p) k)"
  using launched [OF assms] launched_confined [OF assms]
  by (auto simp: list_all_iff confined_def)

definition sample_environ :: environ where
  "sample_environ = [(js ''RHYTHM_SERVICE_ROLE'', js '' FrontDoor ''), (js ''DATABASE_URL'', js ''secret'')]"

lemma launch_confined_witness:
  "\<exists>l. launch \<lparr>th_exists = \<lambda>_. True, th_succeeds = \<lambda>_. True\<rparr> sample_environ = Inr l
     \<and> (\<forall>p\<in>set (la_started l). sp_name p = js ''rhythm-script-runner'' \<longrightarrow> js ''DATABASE_URL'' \<notin> fst ` set (sp_env p))"
proof -
  let ?h = "\<lparr>th_exists = \<lambda>_. True, th_succeeds = \<lambda>_. True\<rparr>"
  have "launch_role sample_environ = js ''frontdoor''" by code_simp
  then obtain l where l: "launch ?h sample_environ = Inr l" by (auto simp: launch_def Let_def js_def)
  have "\<not> may_receive (js ''rhythm-script-runner'') (js ''DATABASE_URL'')"
    by (simp add: may_receive_def runner_variables_def)
  then show ?thesis using l launch_confined [OF l] by metis
qed

section \<open>Supervision\<close>

inductive_cases supervisor_stepE: "supervisor_step s s'"

text \<open>Before and after the shutdown has begun, and at the end.\<close>

definition up_ok :: "nat list \<Rightarrow> supervisor \<Rightarrow> bool" where
  "up_ok ids s \<longleftrightarrow> (su_code s = None \<longrightarrow> su_children s = ids \<and> su_sent s = [])"

definition told :: "nat \<Rightarrow> supervisor \<Rightarrow> bool" where
  "told c s \<longleftrightarrow> (\<exists>sig\<in>{''SIGINT'', ''SIGTERM''}. (c, sig) \<in> set (su_sent s))"

definition down_ok :: "nat list \<Rightarrow> supervisor \<Rightarrow> bool" where
  "down_ok ids s \<longleftrightarrow> (\<forall>k. su_code s = Some k \<longrightarrow>
     su_waiting s = su_children s \<and> (\<forall>c\<in>set (su_children s). told c s)
     \<and> (if k = 0 then \<forall>c\<in>set ids. told c s else \<exists>c\<in>set ids. c \<notin> set (su_children s) \<and> \<not> told c s))"

definition end_ok :: "supervisor \<Rightarrow> bool" where
  "end_ok s \<longleftrightarrow> (\<forall>k. su_exit s = Some k \<longrightarrow> su_crashed s \<or>
     su_code s = Some k \<and> (\<forall>c\<in>set (su_children s). (c, ''SIGKILL'') \<in> set (su_sent s)))"

definition supervised :: "nat list \<Rightarrow> supervisor \<Rightarrow> bool" where
  "supervised ids s \<longleftrightarrow> distinct (su_children s) \<and> set (su_children s) \<subseteq> set ids
     \<and> up_ok ids s \<and> down_ok ids s \<and> end_ok s"

lemmas supervised_defs = supervised_def up_ok_def down_ok_def end_ok_def

lemma shut_down_supervised:
  "su_exit s = None \<Longrightarrow> supervised ids s \<Longrightarrow> sig \<in> {''SIGINT'', ''SIGTERM''} \<Longrightarrow> supervised ids (shut_down sig 0 s)"
  by (cases "su_code s") (auto simp: supervised_defs shut_down_def told_def)

lemma critical_code_nonzero: "critical_code c \<noteq> 0"
  by (simp add: critical_code_def split: option.split)

lemma child_gone_supervised:
  assumes "su_exit s = None" "c \<in> set (su_children s)" "supervised ids s"
  shows "supervised ids (child_gone c code s)"
proof (cases "su_code s")
  case None
  then show ?thesis using assms critical_code_nonzero [of code]
    by (auto simp: supervised_defs child_gone_def shut_down_def Let_def told_def intro!: bexI [of _ c])
next
  case (Some k)
  have t: "told a (child_gone c code s) = told a s" for a
    using Some by (simp add: child_gone_def Let_def told_def)
  show ?thesis using assms Some set_remove1_subset [of c "su_children s"]
    unfolding supervised_defs t by (auto simp: child_gone_def Let_def)
qed

lemma told_simps [simp]:
  "told c (s\<lparr>su_exit := x\<rparr>) = told c s"
  "told c (s\<lparr>su_exit := x, su_crashed := b\<rparr>) = told c s"
  "told c (s\<lparr>su_sent := su_sent s @ map (\<lambda>c. (c, ''SIGKILL'')) cs\<rparr>) = told c s"
  by (auto simp: told_def)

lemma step_supervised: "supervisor_step s s' \<Longrightarrow> supervised ids s \<Longrightarrow> supervised ids s'"
proof (induction rule: supervisor_step.induct)
  case (child_exits s c code)
  then show ?case by (rule child_gone_supervised)
next
  case (signalled s sig)
  then show ?case using shut_down_supervised by blast
next
  case (all_gone s k)
  then have "su_children s = []" by (simp add: supervised_defs)
  with all_gone show ?case by (auto simp: supervised_defs split: if_splits)
next
  case (timed_out s k)
  then show ?case by (auto simp: supervised_defs split: if_splits)
next
  case (cannot_start s c)
  then show ?case by (simp add: supervised_defs)
qed

lemma reached_supervised:
  assumes "distinct ids" "supervisor_reaches ids s"
  shows "supervised ids s"
  using assms(2)
proof induction
  case supervisor_start
  then show ?case using assms(1) by (simp add: supervised_defs new_supervisor_def)
qed (rule step_supervised)

text \<open>C38: When the launcher ends by itself, every process it started has exited or was killed, those that had not exited when it began to shut down were told to stop first, and its exit code is zero exactly when it told all of them, that is, when a signal and not the exit of a process was the cause.\<close>

theorem supervisor_ends:
  assumes "distinct ids" "supervisor_reaches ids s" "su_exit s = Some k" "\<not> su_crashed s"
  shows "(\<forall>c\<in>set (su_children s). told c s \<and> (c, ''SIGKILL'') \<in> set (su_sent s))
    \<and> set (su_children s) \<subseteq> set ids \<and> (k = 0 \<longleftrightarrow> (\<forall>c\<in>set ids. told c s))"
proof -
  have "supervised ids s" using reached_supervised [OF assms(1,2)] .
  moreover from this have "su_code s = Some k" using assms(3,4) by (simp add: supervised_defs)
  ultimately show ?thesis using assms(3,4) by (auto simp: supervised_defs split: if_splits)
qed

text \<open>One process exits, the other is told to stop and killed when the time is over.\<close>

definition sample_end :: supervisor where
  "sample_end =
     \<lparr>su_children = [2], su_code = Some 1, su_sent = [(2, ''SIGTERM''), (2, ''SIGKILL'')], su_waiting = [2],
      su_exit = Some 1, su_crashed = False\<rparr>"

lemma sample_end_reached: "supervisor_reaches [1, 2] sample_end"
proof -
  let ?a = "new_supervisor [1, 2]" and ?b = "child_gone 1 (Some 0) (new_supervisor [1, 2])"
  have "supervisor_step ?a ?b" by (rule child_exits) (simp_all add: new_supervisor_def)
  moreover have "supervisor_step ?b sample_end"
    using timed_out [of ?b 1] by (simp add: sample_end_def child_gone_def shut_down_def new_supervisor_def critical_code_def)
  ultimately show ?thesis by (blast intro: supervisor_start supervisor_next)
qed

lemma supervisor_ends_witness: "supervisor_reaches [1, 2] sample_end \<and> \<not> told 1 sample_end"
  using supervisor_ends [OF _ sample_end_reached, of 1] sample_end_reached
  by (simp add: sample_end_def told_def)

text \<open>A process that cannot be started ends the launcher with the others running and told nothing.\<close>

lemma crash_leaves_processes:
  "\<exists>s. supervisor_reaches [1, 2] s \<and> su_exit s = Some 1 \<and> su_children s = [1, 2] \<and> su_sent s = []"
proof -
  have "supervisor_step (new_supervisor [1, 2]) ((new_supervisor [1, 2])\<lparr>su_exit := Some 1, su_crashed := True\<rparr>)"
    by (rule cannot_start [of _ 1]) (simp_all add: new_supervisor_def)
  then show ?thesis
    by (intro exI [of _ "(new_supervisor [1, 2])\<lparr>su_exit := Some 1, su_crashed := True\<rparr>"])
      (auto intro: supervisor_next supervisor_start simp: new_supervisor_def)
qed

end
