(* ===== verification/Spec2Isabelle.thy ===== *)
theory Spec2Isabelle
  imports Postman_Facts Curl_Facts Monitors_Properties Message_Facts Templated_Json Catalog_Runtime
    Bytes_Facts Params_Facts Expect_Facts State_Facts Schema_Facts Summary_Facts Monitor_Times
    Credential_Facts Agent_Facts Run_Facts Admission_Facts
    Web_Facts Launcher_Facts
begin

text \<open>
  A verification development for Rhythm, a product that monitors HTTP services and browser journeys.
  It covers the parts written in TypeScript and JavaScript that decide something: what the web client
  imports, sends, receives and shows (\<open>src/apps/web\<close>), the runtime in which the scripts of a monitor run
  (\<open>src/services/api/internal/scripts/runtime_bootstrap_v2.js\<close>), the agent that runs browser journeys
  (\<open>src/services/browser-agent\<close>), the server in front of the web client (\<open>src/apps/web/server.mjs\<close>) and the
  launcher of a container (\<open>src/deploy/hydra/launcher.mjs\<close>).

  \<^bold>\<open>How the parts work together.\<close> A monitor is a definition: an ordered list of HTTP steps, each with
  scripts that run before and after its request, or a browser journey. Definitions are written in the web
  client, partly by importing a Postman collection or a cURL command; the client creates, publishes,
  enables and lists monitors by calls of the API, whose replies have the types of \<open>contracts.ts\<close>. When a
  monitor runs, its scripts read and write variables in scopes, keep a state between runs, compute with
  buffers and packages, and record tests; the variable catalog of the client shows beforehand which
  variable a name will mean there. A browser journey is sent to the agent, which admits it, opens the
  browser, performs the steps and returns a status with evidence in which secrets are masked. A
  deployment validation runs many monitors, and the client summarises the results. In a container the
  launcher reads the environment, starts the processes of its role and ends when one of them does; the
  web server serves the client's files, renders its pages and passes calls of the API on.

  \<^bold>\<open>Layers.\<close> Each theory opens with what it holds. From below:

  \<^item> JavaScript. \<open>Prelude\<close> (strings as lists of UTF-16 code units, named collections of lemmas),
    \<open>Js_Number\<close> (binary64 values as rationals with rounding written out, NaN and infinities), \<open>Js_Value\<close>
    (dynamic values, objects as ordered lists of entries; the locale \<open>keyed_store\<close> and its interpretation),
    \<open>Js_Result\<close> (exceptions as values of a sum), \<open>Js_Compare\<close> (conversions and relational operators),
    \<open>Js_Json\<close> (parse and stringify), \<open>Js_Uri\<close> (UTF-8, percent encoding), \<open>Js_Regex\<close> (backtracking matcher
    and its language), \<open>Js_Sort\<close> (the stable sort). \<open>Json_Numbers\<close>, \<open>Json_Facts\<close>, \<open>Json_Copy\<close> and \<open>Number_Text\<close>
    hold their round trips and the exactness of the arithmetic that the texts shown to a user rest on.

  \<^item> Import, \<open>features/monitors/monitor-import.ts\<close> and \<open>request-definition.ts\<close>. \<open>Request_Definition\<close> (the
    records of a definition and its normalisation), \<open>Import_Common\<close> (masking, rows, queries, shell words),
    \<open>Import_Curl\<close> (\<open>parseCurlCommand\<close>), \<open>Import_Postman\<close> (\<open>parsePostmanCollection\<close>). \<open>Import_Facts\<close> has the
    locale \<open>masking\<close>, from which \<open>Curl_Facts\<close> and \<open>Postman_Facts\<close> derive what becomes of each value under a
    sensitive name: a literal is replaced by the placeholder of the name, a value with a template in it
    stays. They also bound the imported settings and show that an imported collection is the
    list of the chains of folders that lead to its requests, in order, with their scripts.

  \<^item> The client of the API, \<open>lib/api-client\<close>. \<open>Api_Types\<close> and \<open>Api_Contracts\<close> (the types of \<open>contracts.ts\<close> as
    shapes that a value conforms to), \<open>Api_Client\<close> (an exchange with the server; the server is a parameter
    that answers from the history of requests), \<open>Monitors_Client\<close> (all server functions of \<open>monitors.ts\<close>).
    \<open>Api_Facts\<close> has weakest preconditions over histories and the locales \<open>request_policy\<close>,
    \<open>reader_policy\<close> and \<open>writer_policy\<close>; \<open>Monitors_Facts\<close>, \<open>Monitors_Create\<close>, \<open>Monitors_Typed\<close> and
    \<open>Monitors_Properties\<close> show which requests each function can send, that creating a monitor follows its
    protocol for every server, and that well-typed replies give well-typed lists. \<open>Monitor_Times\<close> treats
    the text of a time that has passed.

  \<^item> What is shown. \<open>Message_Blocks\<close> and \<open>Message_Facts\<close> (\<open>features/ai/message-blocks.ts\<close>: answers of the
    assistant, cut into segments within the limits of the components that draw them), \<open>Templated_Json\<close>
    (\<open>lib/templated-json.ts\<close>: positions of errors in JSON with placeholders), \<open>Variable_Catalog\<close> and
    \<open>Catalog_Facts\<close> (\<open>features/monitors/variable-catalog.ts\<close>: rows, shadowing, secrets),
    \<open>Validation_Summary\<close> and \<open>Summary_Facts\<close> (\<open>features/suites/validation-summary.ts\<close>).

  \<^item> The runtime of scripts. \<open>Script_Stores\<close> (variables, templates, cookies, header lists), \<open>Script_Bytes\<close>
    (buffers and encodings), \<open>Script_Packages\<close> (CSV, paths, URL parameters, \<open>chunk\<close>), \<open>Script_Expect\<close>
    (\<open>pm.expect\<close>), \<open>Script_Tests\<close> (\<open>pm.test\<close>, \<open>pm.response\<close>), \<open>Script_State\<close> (\<open>pm.state\<close>),
    \<open>Script_Schema\<close> (the validator). Their laws are in \<open>Script_Facts\<close> (locales \<open>key_lookup\<close> and
    \<open>keyed_access\<close>, interpreted by variable stores, header lists and URL parameters), \<open>Bytes_Facts\<close>,
    \<open>Packages_Facts\<close>, \<open>Params_Facts\<close>, \<open>Expect_Facts\<close>, \<open>State_Facts\<close> and \<open>Schema_Facts\<close>. \<open>Catalog_Runtime\<close>
    relates the catalog of the client to the scopes of the runtime.

  \<^item> The browser agent, \<open>server.mjs\<close> and \<open>artifact-transfer.mjs\<close>. \<open>Agent_Targets\<close> (addresses, blocks, the
    check of a target, credentials), \<open>Agent_Checks\<close> (comparisons, paths, masking, categories of errors),
    \<open>Agent_State\<close> (the state of a run, events, artifacts), \<open>Agent_Steps\<close> (one step), \<open>Agent_Run\<close> (the
    journey, its ends, and the server as a step relation). \<open>Targets_Facts\<close> and \<open>Credential_Facts\<close> show what
    passes the check of a target and that credentials are compared exactly; \<open>Agent_Facts\<close> what masking
    guarantees; \<open>Run_Invariant\<close> is the contract between an invariant of a run and the code of its steps
    (locales \<open>step_invariant\<close> and \<open>journey_invariant\<close>), which \<open>Run_Facts\<close> interprets twice: by the calls a
    run makes of the page, and by the record of its steps, from which the status of a run follows.
    \<open>Admission_Facts\<close> has the invariants of the server by rule induction.

  \<^item> Serving and starting. \<open>Web_Server\<close> (the dispatch of a request, files below the build's directory, the
    proxy to the API, headers, compression, the window of error reports) with \<open>Web_Facts\<close> (files stay in
    their directory, the headers passed on and answered with, the bound on reports); \<open>Launcher\<close> (the
    environment file, the processes of each role, their supervision as a step relation, the gateway of a
    browser executor) with \<open>Launcher_Facts\<close> (which assignments count, what each process is given, how the
    supervision ends for every order of events).

  \<^bold>\<open>Conventions.\<close> Text is a list of UTF-16 code units; \<open>js\<close> turns a literal into one. A value of a TypeScript
  type that the code can rely on is a record or datatype; a value that arrives from outside (JSON, script
  values, definitions stored by the server) is a \<open>jsval\<close>, and every operation on it has the branches
  JavaScript has, exceptions included. Exceptions are values of \<open>exn\<close>; \<open>IllTyped\<close> marks the few inputs
  that the model of an operation leaves out, which its component's note names. Objects are values: where
  identity matters (comparisons by \<open>===\<close>) a flag of the comparing call says whether the two sides are
  one object. Effects are explicit: histories of requests for the client of the API, histories of calls
  of the page and a state record for the agent, the store passed on for scripts.

  \<^bold>\<open>Loops, bounds and fuel.\<close> Loops are structural or well-founded recursion. Only the JSON parser has fuel:
  one more than the length of the text, which \<open>json_fuel_enough\<close> proves to be enough. \<open>chunk\<close>, which may
  run forever and is modelled for sizes that are whole numbers, is an option, and \<open>Packages_Facts\<close> says when it returns. The iterations of a quantifier in
  a regular expression are bounded by the text that is left, because an iteration that consumes nothing
  is refused. Bytes and code units are naturals with their bounds stated where they matter; shifts of
  addresses and the bytes of encodings are written with the bit operations of the library.

  \<^bold>\<open>Parameters.\<close> What the code takes from the platform is an argument of the definitions: \<open>new URL\<close>, the name
  resolver, \<open>localeCompare\<close>, the clock and \<open>Date\<close> parsing and printing, the answers of the server, of the
  host of the script runtime (Go) and of the browser, the syntax trees of acorn, the texts of engine
  errors, regular expressions that users write (checks, schemas), the PNG codec and the pixel matcher,
  and inherited properties of objects. The witnesses instantiate them by functions.

  \<^bold>\<open>Not modelled.\<close> The user interface itself (React components, routes and hooks): rendering and effects,
  whose data functions are modelled where they stand in files of their own. The other modules of the
  client of the API, which validate with zod and forward, as \<open>monitors.ts\<close> does with more steps. The Go
  services, another language. The rest of the script runtime: \<open>sendRequest\<close>, XML and digests hand values
  to the host and back. Of the modelled parts: case mapping above Latin-1, calendars and locales, the
  scripts evaluated inside the page, clocks and random identifiers; two events of the browser are never
  interleaved, except that the bodies of responses arrive at any later time. The test target and the
  repository's own tests are left out.
\<close>

end
